(* ===== verification/Prelude.thy ===== *)
theory Prelude
  imports Main "HOL-Library.Word" "HOL-Library.Monad_Syntax" "HOL-Library.State_Monad"
begin

text \<open>
  The shared layer of the development.

  \<^item> Types: \<open>u8\<close>, \<open>u16\<close>, \<open>u32\<close> for the kernel's \<open>uint8_t\<close>, \<open>uint16_t\<close>, \<open>uint32_t\<close>
    (also \<open>size_t\<close> and pointers: the protected-mode kernel is a 32-bit program).
  \<^item> \<open>exec\<close>: the outcome of code that need not return normally. \<open>Inl\<close> carries why
    control never comes back or why C gives the run no meaning; \<open>Inr\<close> the result.
  \<^item> \<open>bindE\<close> sequences two such computations, \<open>bindS\<close> sequences two state computations
    whose result may be an early exit (a C \<open>return\<close> in the middle of a function).
  \<^item> C shifts with their definedness condition, C characters as \<open>u8\<close> code units, and the
    generic facts on lists, digits and words the components share.
\<close>

unbundle bit_operations_syntax

section \<open>Automation collections\<close>

named_theorems exec_simps "unfolding rules of the sequencing combinators"
named_theorems const_defs "definitions of the kernel's named constants"

section \<open>Machine types and outcomes\<close>

type_synonym u8 = "8 word"
type_synonym u16 = "16 word"
type_synonym u32 = "32 word"

text \<open>
  Why a computation has no result. \<open>Hang\<close>: a polling loop that never exits. \<open>Abort\<close>: the
  kernel's \<open>abort\<close>/failed \<open>assert\<close>, which prints and then halts the CPU for ever.
  \<open>OutOfBounds\<close>: an array access outside the array. \<open>Undefined\<close>: any other operation to
  which C assigns no meaning (an over-wide shift, the use of an indeterminate value).
\<close>

datatype stop = Hang | Abort | OutOfBounds | Undefined

type_synonym 'a exec = "stop + 'a"

abbreviation ok :: "'a \<Rightarrow> 'a exec" where "ok \<equiv> Inr"

definition bindE :: "'e + 'a \<Rightarrow> ('a \<Rightarrow> 'e + 'b) \<Rightarrow> 'e + 'b" where
  "bindE m f = (case m of Inl e \<Rightarrow> Inl e | Inr x \<Rightarrow> f x)"

definition assertE :: "bool \<Rightarrow> unit exec" where
  "assertE c = (if c then ok () else Inl Abort)"

lemma bindE_simps [simp, exec_simps]:
  "bindE (Inl e) f = Inl e"
  "bindE (Inr x) f = f x"
  by (simp_all add: bindE_def)

lemma bindE_Inr_iff: "bindE m f = Inr y \<longleftrightarrow> (\<exists>x. m = Inr x \<and> f x = Inr y)"
  by (cases m) auto

lemma bindE_assoc: "bindE (bindE m f) g = bindE m (\<lambda>x. bindE (f x) g)"
  by (cases m) auto

lemma assertE_simps [simp]:
  "assertE True = ok ()" "assertE False = Inl Abort"
  by (simp_all add: assertE_def)

section \<open>State computations with early return\<close>

definition bindS :: "('s, 'e + 'a) state \<Rightarrow> ('a \<Rightarrow> ('s, 'e + 'b) state) \<Rightarrow> ('s, 'e + 'b) state" where
  "bindS m f = m \<bind> (\<lambda>r. case r of Inl e \<Rightarrow> State_Monad.return (Inl e) | Inr x \<Rightarrow> f x)"

abbreviation ret :: "'a \<Rightarrow> ('s, 'a) state" where
  "ret \<equiv> State_Monad.return"

abbreviation run :: "('s, 'a) state \<Rightarrow> 's \<Rightarrow> 'a \<times> 's" where
  "run \<equiv> run_state"

lemma run_bind: "run (m \<bind> f) s = (case run m s of (x, s') \<Rightarrow> run (f x) s')"
  by (simp add: State_Monad.bind_def Let_def split: prod.split)

lemma run_ret [simp, exec_simps]: "run (ret x) s = (x, s)"
  by (simp add: State_Monad.return_def)

lemma run_State [simp, exec_simps]: "run (State f) s = f s"
  by simp

lemma run_bindS:
  "run (bindS m f) s =
     (case run m s of (Inl e, s') \<Rightarrow> (Inl e, s') | (Inr x, s') \<Rightarrow> run (f x) s')"
  by (simp add: bindS_def run_bind split: prod.split sum.split)

section \<open>Loops over a list of indices\<close>

text \<open>A counted C loop whose body may stop: the indices in order, the state threaded through.\<close>

fun forE :: "('i \<Rightarrow> 's \<Rightarrow> 'e + 's) \<Rightarrow> 'i list \<Rightarrow> 's \<Rightarrow> 'e + 's" where
  "forE f [] s = Inr s"
| "forE f (i # is) s = bindE (f i s) (forE f is)"

lemma forE_cong [fundef_cong]:
  "is = js \<Longrightarrow> s = t \<Longrightarrow> (\<And>i s. i \<in> set js \<Longrightarrow> f i s = g i s) \<Longrightarrow> forE f is s = forE g js t"
  by (induction js arbitrary: "is" s t) (auto simp: bindE_def split: sum.split)

lemma forE_append: "forE f (is @ js) s = bindE (forE f is s) (forE f js)"
  by (induction "is" arbitrary: s) (simp_all add: bindE_def split: sum.split)

lemma forE_map: "forE f (map h is) s = forE (\<lambda>i. f (h i)) is s"
  by (induction "is" arbitrary: s) (simp_all add: bindE_def split: sum.split)

lemma forE_const: "forE (\<lambda>_. f x) is s = forE f (replicate (length is) x) s"
  by (induction "is" arbitrary: s) (simp_all add: bindE_def split: sum.split)

lemma forE_fold:
  "I s \<Longrightarrow> (\<And>i s. i \<in> set is \<Longrightarrow> I s \<Longrightarrow> f i s = Inr (g i s) \<and> I (g i s)) \<Longrightarrow>
     forE f is s = Inr (fold g is s) \<and> I (fold g is s)"
  by (induction "is" arbitrary: s) simp_all

text \<open>A loop that looks for the first element with a property, its state changing on the way.\<close>

lemma forE_find:
  "(\<And>x s. x \<in> set xs \<Longrightarrow> f x s = (if P x then Inl (g x (h x s)) else Inr (h x s))) \<Longrightarrow>
     forE f xs s = (case find P xs of
        None \<Rightarrow> Inr (fold h xs s)
      | Some x \<Rightarrow> Inl (g x (h x (fold h (takeWhile (\<lambda>x. \<not> P x) xs) s))))"
  by (induction xs arbitrary: s) (simp_all split: option.split)

section \<open>Characters and C shifts\<close>

text \<open>A C \<open>char\<close> of a string, as the code unit the kernel stores and compares.\<close>

abbreviation chr :: "char \<Rightarrow> u8" where
  "chr c \<equiv> of_char c"

abbreviation str :: "string \<Rightarrow> u8 list" where
  "str s \<equiv> map of_char s"

text \<open>
  \<open>a << n\<close> on \<open>uint32_t\<close>: undefined from 32 on. (The kernel is compiled for i386, where the
  processor would take the count modulo 32; C does not promise it.)
\<close>

definition shl32 :: "u32 \<Rightarrow> nat \<Rightarrow> u32 exec" where
  "shl32 a n = (if n < 32 then ok (push_bit n a) else Inl Undefined)"

definition shr32 :: "u32 \<Rightarrow> nat \<Rightarrow> u32 exec" where
  "shr32 a n = (if n < 32 then ok (drop_bit n a) else Inl Undefined)"

lemma unat_add_one: "(a :: 'a :: len word) < b \<Longrightarrow> unat (a + 1) = Suc (unat a)"
proof -
  assume "a < b"
  moreover have "unat b < 2 ^ LENGTH('a)" by (rule unsigned_less)
  ultimately have "Suc (unat a) < 2 ^ LENGTH('a)" unfolding word_less_nat_alt by linarith
  then show ?thesis by (simp add: unat_word_ariths)
qed

lemma unat_u32_less: "unat (n :: u32) < 2 ^ 32"
  by (rule less_le_trans [OF unsigned_less]) simp

section \<open>Step relations\<close>

text \<open>
  The states reachable from an initial state by a step relation, and the interface of an invariant
  of such a system: it holds initially and every step preserves it.
\<close>

inductive reach :: "('s \<Rightarrow> bool) \<Rightarrow> ('s \<Rightarrow> 's \<Rightarrow> bool) \<Rightarrow> 's \<Rightarrow> bool" for init step where
  reach_init: "init s \<Longrightarrow> reach init step s"
| reach_step: "reach init step s \<Longrightarrow> step s s' \<Longrightarrow> reach init step s'"

locale system_invariant =
  fixes init :: "'s \<Rightarrow> bool" and step :: "'s \<Rightarrow> 's \<Rightarrow> bool" and inv :: "'s \<Rightarrow> bool"
  assumes inv_init: "init s \<Longrightarrow> inv s"
    and inv_step: "inv s \<Longrightarrow> step s s' \<Longrightarrow> inv s'"
begin

lemma reach_inv: "reach init step s \<Longrightarrow> inv s"
  by (induction rule: reach.induct) (auto intro: inv_init inv_step)

lemma steps_inv: "step\<^sup>*\<^sup>* s s' \<Longrightarrow> inv s \<Longrightarrow> inv s'"
  by (induction rule: rtranclp_induct) (auto intro: inv_step)

end

end
