(* ===== verification/Port_IO.thy ===== *)
theory Port_IO
  imports Prelude
begin

text \<open>
  The machine boundary of the drivers (\<open>stdlib/intrinsics.h\<close>, \<open>stdlib/io_wait.h\<close>).

  Every driver talks to the hardware through \<open>__inb\<close> and \<open>__outb\<close>. The hardware is not code
  of the repository: it is the parameter \<open>hw\<close>, a function that gives the byte the next read of
  a port yields from the complete log of what happened before. Quantifying over \<open>hw\<close> covers
  every device behaviour, failing and misbehaving devices included. The log keeps, newest
  event first, each port read with its value, each port write, and each \<open>kprintf\<close> call with
  its format and arguments (the printing itself is a component of its own).

  \<open>keeps I m\<close> says that running \<open>m\<close> preserves the predicate \<open>I\<close> on states; its rules are
  collected in \<open>keeps_rules\<close>, so that an invariant of a driver is proved by introduction rules.
\<close>

section \<open>The log and the primitive operations\<close>

type_synonym port = u16

datatype karg = KU u32 | KI int | KS string | KC u8 | KQ "64 word"

datatype io_event = In port u8 | Out port u8 | Kprint string "karg list"

type_synonym iolog = "io_event list"

type_synonym hw = "iolog \<Rightarrow> port \<Rightarrow> u8"

definition inb :: "hw \<Rightarrow> port \<Rightarrow> (iolog, u8) state" where
  "inb hw p = State (\<lambda>tr. (hw tr p, In p (hw tr p) # tr))"

definition outb :: "port \<Rightarrow> u8 \<Rightarrow> (iolog, unit) state" where
  "outb p v = State (\<lambda>tr. ((), Out p v # tr))"

definition kprintf :: "string \<Rightarrow> karg list \<Rightarrow> (iolog, unit) state" where
  "kprintf fmt args = State (\<lambda>tr. ((), Kprint fmt args # tr))"

text \<open>A write to the unused port 0x80, to let a slow device catch up.\<close>

definition io_wait :: "(iolog, unit) state" where
  "io_wait = outb 0x80 0"

lemma run_prims [simp, exec_simps]:
  "run (inb hw p) tr = (hw tr p, In p (hw tr p) # tr)"
  "run (outb p v) tr = ((), Out p v # tr)"
  "run (kprintf fmt args) tr = ((), Kprint fmt args # tr)"
  "run io_wait tr = ((), Out 0x80 0 # tr)"
  by (simp_all add: inb_def outb_def kprintf_def io_wait_def)

section \<open>Predicates a computation preserves\<close>

definition keeps :: "('s \<Rightarrow> bool) \<Rightarrow> ('s, 'a) state \<Rightarrow> bool" where
  "keeps I m \<longleftrightarrow> (\<forall>s. I s \<longrightarrow> I (snd (run m s)))"

named_theorems keeps_rules "introduction rules for preserved predicates"

lemma keepsI: "(\<And>s. I s \<Longrightarrow> I (snd (run m s))) \<Longrightarrow> keeps I m"
  by (simp add: keeps_def)

lemma keepsD: "keeps I m \<Longrightarrow> I s \<Longrightarrow> run m s = (x, s') \<Longrightarrow> I s'"
  by (metis keeps_def snd_conv)

lemma keeps_ret [keeps_rules]: "keeps I (ret x)"
  by (simp add: keeps_def)

lemma keeps_bind [keeps_rules]:
  assumes "keeps I m" and "\<And>x. keeps I (f x)"
  shows "keeps I (m \<bind> f)"
proof (rule keepsI)
  fix s
  assume "I s"
  obtain x s' where m: "run m s = (x, s')" by (cases "run m s")
  have "I s'" by (rule keepsD [OF assms(1) \<open>I s\<close> m])
  then show "I (snd (run (m \<bind> f) s))"
    using assms(2) [of x] by (simp add: run_bind m keeps_def)
qed

lemma keeps_bindS [keeps_rules]:
  "keeps I m \<Longrightarrow> (\<And>x. keeps I (f x)) \<Longrightarrow> keeps I (bindS m f)"
  unfolding bindS_def
  by (rule keeps_bind) (auto split: sum.split intro: keeps_ret)

lemma keeps_if [keeps_rules]:
  "(b \<Longrightarrow> keeps I m) \<Longrightarrow> (\<not> b \<Longrightarrow> keeps I n) \<Longrightarrow> keeps I (if b then m else n)"
  by simp

lemma keeps_case_option [keeps_rules]:
  "keeps I m \<Longrightarrow> (\<And>x. keeps I (f x)) \<Longrightarrow> keeps I (case v of None \<Rightarrow> m | Some x \<Rightarrow> f x)"
  by (simp split: option.split)

lemma keeps_case_sum [keeps_rules]:
  "(\<And>e. keeps I (f e)) \<Longrightarrow> (\<And>x. keeps I (g x)) \<Longrightarrow>
     keeps I (case v of Inl e \<Rightarrow> f e | Inr x \<Rightarrow> g x)"
  by (simp split: sum.split)

lemma keeps_case_prod [keeps_rules]:
  "(\<And>x y. keeps I (f x y)) \<Longrightarrow> keeps I (case p of (x, y) \<Rightarrow> f x y)"
  by (simp split: prod.split)

section \<open>Predicates every result satisfies\<close>

definition yields :: "('a \<Rightarrow> bool) \<Rightarrow> ('s, 'a) state \<Rightarrow> bool" where
  "yields Q m \<longleftrightarrow> (\<forall>s. Q (fst (run m s)))"

lemma yieldsD: "yields Q m \<Longrightarrow> run m s = (x, s') \<Longrightarrow> Q x"
  by (metis yields_def fst_conv)

lemma yields_ret [simp]: "yields Q (ret x) \<longleftrightarrow> Q x"
  by (simp add: yields_def)

lemma yields_weaken: "yields P m \<Longrightarrow> (\<And>x. P x \<Longrightarrow> Q x) \<Longrightarrow> yields Q m"
  by (simp add: yields_def)

lemma yields_bind:
  assumes "yields P m" and "\<And>x. P x \<Longrightarrow> yields Q (f x)"
  shows "yields Q (m \<bind> f)"
  unfolding yields_def
proof
  fix s
  obtain x s' where m: "run m s = (x, s')" by (cases "run m s")
  then have "P x" by (rule yieldsD [OF assms(1)])
  then have "yields Q (f x)" by (rule assms(2))
  then show "Q (fst (run (m \<bind> f) s))" by (simp add: yields_def run_bind m)
qed

lemma yields_after: "(\<And>x. yields Q (f x)) \<Longrightarrow> yields Q (m \<bind> f)"
  by (rule yields_bind [of "\<lambda>_. True"]) (simp_all add: yields_def)

lemma yields_if:
  "(b \<Longrightarrow> yields Q m) \<Longrightarrow> (\<not> b \<Longrightarrow> yields Q n) \<Longrightarrow> yields Q (if b then m else n)"
  by simp

text \<open>With early return: \<open>E\<close> holds of what is returned early, \<open>P\<close> of what is passed on.\<close>

definition outcome :: "('e \<Rightarrow> bool) \<Rightarrow> ('a \<Rightarrow> bool) \<Rightarrow> 'e + 'a \<Rightarrow> bool" where
  "outcome E P r = (case r of Inl e \<Rightarrow> E e | Inr x \<Rightarrow> P x)"

lemma outcome_simps [simp]: "outcome E P (Inl e) = E e" "outcome E P (Inr x) = P x"
  by (simp_all add: outcome_def)

lemma yields_bindS:
  assumes "yields (outcome E P) m" and "\<And>x. P x \<Longrightarrow> yields (outcome E Q) (f x)"
  shows "yields (outcome E Q) (bindS m f)"
  unfolding bindS_def
  by (rule yields_bind [OF assms(1)]) (auto simp: outcome_def assms(2) split: sum.splits)

text \<open>A computation only adds to the log.\<close>

definition extends :: "iolog \<Rightarrow> iolog \<Rightarrow> bool" where
  "extends tr tr' \<longleftrightarrow> (\<exists>new. tr' = new @ tr)"

lemma extends_refl [simp]: "extends tr tr"
  by (simp add: extends_def)

lemma extends_Cons [simp]: "extends tr tr' \<Longrightarrow> extends tr (e # tr')"
  by (metis append_Cons extends_def)

lemma extends_trans: "extends a b \<Longrightarrow> extends b c \<Longrightarrow> extends a c"
  by (metis append_assoc extends_def)

lemma extends_append [simp]: "extends tr tr' \<Longrightarrow> extends tr (new @ tr')"
  by (auto simp: extends_def)

lemma extends_ConsD: "extends (e # tr) tr' \<Longrightarrow> extends tr tr'"
  by (metis append_Cons append_Nil extends_def extends_trans)

lemma extends_appendD: "extends (new @ tr) tr' \<Longrightarrow> extends tr tr'"
  by (metis extends_append extends_refl extends_trans)

end
