(* ===== verification/Pic.thy ===== *)
theory Pic
  imports Port_IO
begin

text \<open>
  The programmable interrupt controllers (\<open>cpu/pic/pic.c\<close>, \<open>cpu/irq.h\<close>).

  The operations are the driver's port writes, in its order. What they achieve is stated
  against \<open>pic_chip\<close>, the documented programming model of one 8259A: an initialisation
  sequence ICW1..ICW4 after which writes to the data port set the interrupt mask register.
  \<open>chip base tr\<close> replays a log on the chip at that base port. \<open>pic_hw\<close> is the one thing the
  driver relies on: reading a data port gives the chip's mask register.
\<close>

section \<open>Constants\<close>

definition PIC1 :: port where [const_defs]: "PIC1 = 0x20"
definition PIC2 :: port where [const_defs]: "PIC2 = 0xA0"
definition PIC1_COMMAND :: port where [const_defs]: "PIC1_COMMAND = PIC1"
definition PIC1_DATA :: port where [const_defs]: "PIC1_DATA = PIC1 + 1"
definition PIC2_COMMAND :: port where [const_defs]: "PIC2_COMMAND = PIC2"
definition PIC2_DATA :: port where [const_defs]: "PIC2_DATA = PIC2 + 1"
definition PIC_EOI :: u8 where [const_defs]: "PIC_EOI = 0x20"
definition ICW1_ICW4 :: u8 where [const_defs]: "ICW1_ICW4 = 0x01"
definition ICW1_INIT :: u8 where [const_defs]: "ICW1_INIT = 0x10"
definition ICW4_8086 :: u8 where [const_defs]: "ICW4_8086 = 0x01"
definition CASCADE_IRQ :: nat where [const_defs]: "CASCADE_IRQ = 2"

definition PS2_PORT1_IRQ :: u8 where [const_defs]: "PS2_PORT1_IRQ = 1"
definition PS2_PORT2_BRIDGE_IRQ :: u8 where [const_defs]: "PS2_PORT2_BRIDGE_IRQ = 2"
definition PS2_PORT2_IRQ :: u8 where [const_defs]: "PS2_PORT2_IRQ = 12"
definition START_OF_USER_ALLOCATABLE_INTERRUPT :: u8 where
  [const_defs]: "START_OF_USER_ALLOCATABLE_INTERRUPT = 32"
definition NUMBER_OF_IRQ_PER_PIC :: u8 where [const_defs]: "NUMBER_OF_IRQ_PER_PIC = 8"
definition PIC_1_OFFSET :: u8 where
  [const_defs]: "PIC_1_OFFSET = START_OF_USER_ALLOCATABLE_INTERRUPT"
definition PIC_2_OFFSET :: u8 where
  [const_defs]: "PIC_2_OFFSET = START_OF_USER_ALLOCATABLE_INTERRUPT + NUMBER_OF_IRQ_PER_PIC"

section \<open>Operations\<close>

text \<open>The \<open>int\<close> offsets are truncated to a byte by \<open>__outb\<close>.\<close>

definition PIC_remap :: "int \<Rightarrow> int \<Rightarrow> (iolog, unit) state" where
  "PIC_remap offset1 offset2 = do {
     outb PIC1_COMMAND (ICW1_INIT OR ICW1_ICW4);
     io_wait;
     outb PIC2_COMMAND (ICW1_INIT OR ICW1_ICW4);
     io_wait;
     outb PIC1_DATA (word_of_int offset1);
     io_wait;
     outb PIC2_DATA (word_of_int offset2);
     io_wait;
     outb PIC1_DATA (push_bit CASCADE_IRQ 1);
     io_wait;
     outb PIC2_DATA 2;
     io_wait;
     outb PIC1_DATA ICW4_8086;
     io_wait;
     outb PIC2_DATA ICW4_8086;
     io_wait;
     outb PIC1_DATA 0;
     outb PIC2_DATA 0
   }"

definition PIC_sendEOI :: "u8 \<Rightarrow> (iolog, unit) state" where
  "PIC_sendEOI irq = do {
     (if irq \<ge> 8 then outb PIC2_COMMAND PIC_EOI else ret ());
     outb PIC1_COMMAND PIC_EOI
   }"

text \<open>\<open>1 << IRQline\<close> is an \<open>int\<close> shift; the result is truncated to the \<open>uint8_t\<close> value.\<close>

definition IRQ_set_mask :: "hw \<Rightarrow> u8 \<Rightarrow> (iolog, unit exec) state" where
  "IRQ_set_mask hw IRQline =
     (let (p, line) = (if IRQline < 8 then (PIC1_DATA, IRQline) else (PIC2_DATA, IRQline - 8)) in
      do {
        v \<leftarrow> inb hw p;
        (case shl32 1 (unat line) of
           Inl e \<Rightarrow> ret (Inl e)
         | Inr m \<Rightarrow> do { outb p (v OR ucast m); ret (ok ()) })
      })"

definition IRQ_clear_mask :: "hw \<Rightarrow> u8 \<Rightarrow> (iolog, unit exec) state" where
  "IRQ_clear_mask hw IRQline =
     (let (p, line) = (if IRQline < 8 then (PIC1_DATA, IRQline) else (PIC2_DATA, IRQline - 8)) in
      do {
        v \<leftarrow> inb hw p;
        (case shl32 1 (unat line) of
           Inl e \<Rightarrow> ret (Inl e)
         | Inr m \<Rightarrow> do { outb p (v AND NOT (ucast m)); ret (ok ()) })
      })"

definition disable_pic :: "hw \<Rightarrow> (iolog, unit exec) state" where
  "disable_pic hw = bindS (IRQ_set_mask hw 0) (\<lambda>_. do {
     outb PIC1_DATA 0xff;
     outb PIC2_DATA 0xff;
     io_wait;
     ret (ok ())
   })"

text \<open>The loop \<open>for (int i = 0; i < 16; i++)\<close>, from index \<open>i\<close> with \<open>n\<close> rounds to go.\<close>

fun mask_irqs_from :: "hw \<Rightarrow> nat \<Rightarrow> nat \<Rightarrow> (iolog, unit exec) state" where
  "mask_irqs_from hw i 0 = ret (ok ())"
| "mask_irqs_from hw i (Suc n) =
     bindS (IRQ_set_mask hw (of_nat i)) (\<lambda>_. mask_irqs_from hw (Suc i) n)"

definition initialize_irqs :: "hw \<Rightarrow> (iolog, unit exec) state" where
  "initialize_irqs hw = mask_irqs_from hw 0 16"

section \<open>The 8259A programming model\<close>

record pic_chip =
  stage :: nat          \<comment> \<open>0 when operational, else which ICW comes next\<close>
  icw1 :: u8
  vector_base :: u8     \<comment> \<open>ICW2\<close>
  cascade :: u8         \<comment> \<open>ICW3\<close>
  mode :: u8            \<comment> \<open>ICW4\<close>
  imr :: u8             \<comment> \<open>the interrupt mask register: bit set = line masked\<close>

definition pic_power_on :: pic_chip where
  "pic_power_on = \<lparr>stage = 0, icw1 = 0, vector_base = 0, cascade = 0, mode = 0, imr = 0\<rparr>"

definition pic_data_write :: "u8 \<Rightarrow> pic_chip \<Rightarrow> pic_chip" where
  "pic_data_write v c =
     (if stage c = 2 then c\<lparr>vector_base := v AND 0xF8, stage := 3\<rparr>
      else if stage c = 3 then c\<lparr>cascade := v, stage := (if bit (icw1 c) 0 then 4 else 0)\<rparr>
      else if stage c = 4 then c\<lparr>mode := v, stage := 0\<rparr>
      else c\<lparr>imr := v\<rparr>)"

definition pic_step :: "port \<Rightarrow> io_event \<Rightarrow> pic_chip \<Rightarrow> pic_chip" where
  "pic_step base e c =
     (case e of
        Out p v \<Rightarrow>
          if p = base then (if bit v 4 then c\<lparr>icw1 := v, imr := 0, stage := 2\<rparr> else c)
          else if p = base + 1 then pic_data_write v c
          else c
      | _ \<Rightarrow> c)"

fun chip :: "port \<Rightarrow> iolog \<Rightarrow> pic_chip" where
  "chip base [] = pic_power_on"
| "chip base (e # tr) = pic_step base e (chip base tr)"

definition pic_hw :: "hw \<Rightarrow> bool" where
  "pic_hw hw \<longleftrightarrow> (\<forall>tr. hw tr PIC1_DATA = imr (chip PIC1 tr) \<and> hw tr PIC2_DATA = imr (chip PIC2 tr))"

text \<open>Both chips accept mask writes: no initialisation sequence is under way.\<close>

definition pics_ready :: "iolog \<Rightarrow> bool" where
  "pics_ready tr \<longleftrightarrow> stage (chip PIC1 tr) = 0 \<and> stage (chip PIC2 tr) = 0"

text \<open>The masks of all sixteen lines, line \<open>i\<close> of the slave being line \<open>8 + i\<close>.\<close>

definition masked :: "iolog \<Rightarrow> nat \<Rightarrow> bool" where
  "masked tr i = (if i < 8 then bit (imr (chip PIC1 tr)) i else bit (imr (chip PIC2 tr)) (i - 8))"

section \<open>Lemmas\<close>

lemmas pic_port_defs = PIC1_def PIC2_def PIC1_COMMAND_def PIC1_DATA_def PIC2_COMMAND_def PIC2_DATA_def

lemma chip_event_simps [simp]:
  "chip PIC1 (In p v # tr) = chip PIC1 tr"
  "chip PIC2 (In p v # tr) = chip PIC2 tr"
  "chip PIC1 (Kprint f a # tr) = chip PIC1 tr"
  "chip PIC2 (Kprint f a # tr) = chip PIC2 tr"
  by (simp_all add: pic_step_def)

lemma chip_mask_write:
  "stage (chip PIC1 tr) = 0 \<Longrightarrow> chip PIC1 (Out PIC1_DATA v # tr) = (chip PIC1 tr)\<lparr>imr := v\<rparr>"
  "stage (chip PIC2 tr) = 0 \<Longrightarrow> chip PIC2 (Out PIC2_DATA v # tr) = (chip PIC2 tr)\<lparr>imr := v\<rparr>"
  "chip PIC1 (Out PIC2_DATA v # tr) = chip PIC1 tr"
  "chip PIC2 (Out PIC1_DATA v # tr) = chip PIC2 tr"
  by (simp_all add: pic_step_def pic_data_write_def pic_port_defs)

lemma bit_set_line:
  "n < 8 \<Longrightarrow> j < 8 \<Longrightarrow> bit ((v :: u8) OR ucast (2 ^ n :: u32)) j = (bit v j \<or> j = n)"
  by (auto simp: bit_simps)

lemma bit_clear_line:
  "n < 8 \<Longrightarrow> j < 8 \<Longrightarrow> bit ((v :: u8) AND NOT (ucast (2 ^ n :: u32))) j = (bit v j \<and> j \<noteq> n)"
  by (auto simp: bit_simps)

lemma line_of_nat:
  assumes "i < 16"
  shows "(of_nat i :: u8) < 8 \<longleftrightarrow> i < 8"
    and "unat (of_nat i :: u8) = i"
    and "\<not> i < 8 \<Longrightarrow> unat (of_nat i - 8 :: u8) = i - 8"
proof -
  show u: "unat (of_nat i :: u8) = i" using assms by (simp add: unat_of_nat)
  show l: "(of_nat i :: u8) < 8 \<longleftrightarrow> i < 8" by (simp add: word_less_nat_alt u)
  show "unat (of_nat i - 8 :: u8) = i - 8" if "\<not> i < 8"
    using that l by (simp add: unat_sub u)
qed

lemma run_IRQ_set_mask:
  "i < 8 \<Longrightarrow> run (IRQ_set_mask hw (of_nat i)) tr =
     (ok (), Out PIC1_DATA (hw tr PIC1_DATA OR ucast (push_bit i (1 :: u32)))
             # In PIC1_DATA (hw tr PIC1_DATA) # tr)"
  "8 \<le> i \<Longrightarrow> i < 16 \<Longrightarrow> run (IRQ_set_mask hw (of_nat i)) tr =
     (ok (), Out PIC2_DATA (hw tr PIC2_DATA OR ucast (push_bit (i - 8) (1 :: u32)))
             # In PIC2_DATA (hw tr PIC2_DATA) # tr)"
  by (simp_all add: IRQ_set_mask_def run_bind line_of_nat shl32_def)

lemma run_IRQ_clear_mask:
  "i < 8 \<Longrightarrow> run (IRQ_clear_mask hw (of_nat i)) tr =
     (ok (), Out PIC1_DATA (hw tr PIC1_DATA AND NOT (ucast (push_bit i (1 :: u32))))
             # In PIC1_DATA (hw tr PIC1_DATA) # tr)"
  "8 \<le> i \<Longrightarrow> i < 16 \<Longrightarrow> run (IRQ_clear_mask hw (of_nat i)) tr =
     (ok (), Out PIC2_DATA (hw tr PIC2_DATA AND NOT (ucast (push_bit (i - 8) (1 :: u32))))
             # In PIC2_DATA (hw tr PIC2_DATA) # tr)"
  by (simp_all add: IRQ_clear_mask_def run_bind line_of_nat shl32_def)

definition mask_effect :: "(iolog, unit exec) state \<Rightarrow> (nat \<Rightarrow> bool \<Rightarrow> bool) \<Rightarrow> iolog \<Rightarrow> bool" where
  "mask_effect m f tr \<longleftrightarrow>
     (\<exists>tr'. run m tr = (ok (), tr') \<and> pics_ready tr' \<and> (\<forall>j<16. masked tr' j = f j (masked tr j)))"

lemma IRQ_set_mask_effect:
  assumes "pic_hw hw" "pics_ready tr" "i < 16"
  shows "mask_effect (IRQ_set_mask hw (of_nat i)) (\<lambda>j m. m \<or> j = i) tr"
proof (cases "i < 8")
  case True
  then show ?thesis
    using assms unfolding mask_effect_def
    by (auto simp: run_IRQ_set_mask pic_hw_def pics_ready_def masked_def chip_mask_write bit_set_line
             simp del: chip.simps)
next
  case False
  then show ?thesis
    using assms unfolding mask_effect_def
    by (auto simp: run_IRQ_set_mask pic_hw_def pics_ready_def masked_def chip_mask_write bit_set_line
             simp del: chip.simps)
qed

lemma IRQ_clear_mask_effect:
  assumes "pic_hw hw" "pics_ready tr" "i < 16"
  shows "mask_effect (IRQ_clear_mask hw (of_nat i)) (\<lambda>j m. m \<and> j \<noteq> i) tr"
proof (cases "i < 8")
  case True
  then show ?thesis
    using assms unfolding mask_effect_def
    by (auto simp: run_IRQ_clear_mask pic_hw_def pics_ready_def masked_def chip_mask_write bit_clear_line
             simp del: chip.simps)
next
  case False
  then show ?thesis
    using assms unfolding mask_effect_def
    by (auto simp: run_IRQ_clear_mask pic_hw_def pics_ready_def masked_def chip_mask_write bit_clear_line
             simp del: chip.simps)
qed

lemma mask_irqs_from_effect:
  assumes "pic_hw hw"
  shows "pics_ready tr \<Longrightarrow> i + n \<le> 16 \<Longrightarrow>
     mask_effect (mask_irqs_from hw i n) (\<lambda>j m. m \<or> (i \<le> j \<and> j < i + n)) tr"
proof (induction n arbitrary: i tr)
  case 0
  then show ?case by (auto simp: mask_effect_def)
next
  case (Suc n)
  obtain tr1 where 1: "run (IRQ_set_mask hw (of_nat i)) tr = (ok (), tr1)" "pics_ready tr1"
      "\<forall>j<16. masked tr1 j = (masked tr j \<or> j = i)"
    using IRQ_set_mask_effect [OF assms Suc.prems(1), of i] Suc.prems(2)
    by (auto simp: mask_effect_def)
  have "mask_effect (mask_irqs_from hw (Suc i) n) (\<lambda>j m. m \<or> (Suc i \<le> j \<and> j < Suc i + n)) tr1"
    using Suc.IH [OF 1(2), of "Suc i"] Suc.prems(2) by simp
  with 1 show ?case
    by (auto simp: mask_effect_def run_bindS)
qed


lemma vector_base_bits: "8 * x AND 0xF8 = (8 * x :: u8)"
proof -
  have "push_bit 3 x AND push_bit 3 (mask 5) = push_bit 3 x"
    by (rule bit_word_eqI) (auto simp: bit_simps)
  then show ?thesis by (simp add: push_bit_eq_mult mask_eq_exp_minus_1 mult.commute)
qed

text \<open>Unmasking a list of lines, as the setup code does line by line.\<close>

fun clear_irqs :: "hw \<Rightarrow> nat list \<Rightarrow> (iolog, unit exec) state" where
  "clear_irqs hw [] = ret (ok ())"
| "clear_irqs hw (i # is) = bindS (IRQ_clear_mask hw (of_nat i)) (\<lambda>_. clear_irqs hw is)"

lemma clear_irqs_effect:
  assumes "pic_hw hw"
  shows "pics_ready tr \<Longrightarrow> list_all (\<lambda>i. i < 16) is \<Longrightarrow>
     mask_effect (clear_irqs hw is) (\<lambda>j m. m \<and> j \<notin> set is) tr"
proof (induction "is" arbitrary: tr)
  case Nil
  then show ?case by (simp add: mask_effect_def)
next
  case (Cons i "is")
  then obtain tr1 where 1: "run (IRQ_clear_mask hw (of_nat i)) tr = (ok (), tr1)" "pics_ready tr1"
      "\<forall>j<16. masked tr1 j = (masked tr j \<and> j \<noteq> i)"
    using IRQ_clear_mask_effect [OF assms Cons.prems(1), of i]
    by (auto simp: mask_effect_def)
  have "mask_effect (clear_irqs hw is) (\<lambda>j m. m \<and> j \<notin> set is) tr1"
    using Cons.IH [OF 1(2)] Cons.prems(2) by simp
  with 1 show ?case
    by (auto simp: mask_effect_def run_bindS)
qed

lemma PIC_remap_effect:
  "\<exists>tr'. run (PIC_remap (int (8 * a)) (int (8 * b))) tr = ((), tr') \<and> pics_ready tr' \<and>
     vector_base (chip PIC1 tr') = of_nat (8 * a) \<and> vector_base (chip PIC2 tr') = of_nat (8 * b) \<and>
     mode (chip PIC1 tr') = ICW4_8086 \<and> mode (chip PIC2 tr') = ICW4_8086 \<and>
     cascade (chip PIC1 tr') = 2 ^ CASCADE_IRQ \<and> unat (cascade (chip PIC2 tr')) = CASCADE_IRQ \<and>
     imr (chip PIC1 tr') = 0 \<and> imr (chip PIC2 tr') = 0"
  by (simp add: PIC_remap_def run_bind pic_step_def pic_data_write_def pic_port_defs vector_base_bits
      ICW1_INIT_def ICW1_ICW4_def ICW4_8086_def CASCADE_IRQ_def pics_ready_def)

section \<open>Properties\<close>

text \<open>
  (C33) \<open>PIC_remap\<close> programs both controllers. Whatever happened before, after it the master
  delivers lines 0..7 at vectors \<open>8a..8a+7\<close> and the slave lines 8..15 at \<open>8b..8b+7\<close>, both in
  8086 mode, wired to each other through line 2, with every line unmasked and no
  initialisation word outstanding.
\<close>

theorem PIC_remap_programs_chips:
  "\<exists>tr'. run (PIC_remap (int (8 * a)) (int (8 * b))) tr = ((), tr') \<and> pics_ready tr' \<and>
     vector_base (chip PIC1 tr') = of_nat (8 * a) \<and> vector_base (chip PIC2 tr') = of_nat (8 * b) \<and>
     mode (chip PIC1 tr') = ICW4_8086 \<and> mode (chip PIC2 tr') = ICW4_8086 \<and>
     cascade (chip PIC1 tr') = 2 ^ CASCADE_IRQ \<and> unat (cascade (chip PIC2 tr')) = CASCADE_IRQ \<and>
     imr (chip PIC1 tr') = 0 \<and> imr (chip PIC2 tr') = 0"
  by (rule PIC_remap_effect)

text \<open>
  the interrupt setup every PS/2 configuration ends with. When reads of the data ports give
  the mask registers, masking all lines with \<open>initialize_irqs\<close> and then clearing the wanted
  ones leaves exactly the wanted lines enabled.
\<close>

theorem initialize_then_clear_enables_exactly:
  assumes "pic_hw hw" and "pics_ready tr" and "list_all (\<lambda>i. i < 16) is" and "j < 16"
  shows "\<exists>tr'. run (bindS (initialize_irqs hw) (\<lambda>_. clear_irqs hw is)) tr = (ok (), tr') \<and>
     (masked tr' j \<longleftrightarrow> j \<notin> set is)"
proof -
  obtain tr1 where 1: "run (initialize_irqs hw) tr = (ok (), tr1)" "pics_ready tr1"
      "\<forall>j<16. masked tr1 j"
    using mask_irqs_from_effect [OF assms(1,2), of 0 16]
    by (auto simp: mask_effect_def initialize_irqs_def)
  moreover obtain tr2 where "run (clear_irqs hw is) tr1 = (ok (), tr2)"
      "\<forall>j<16. masked tr2 j = (masked tr1 j \<and> j \<notin> set is)"
    using clear_irqs_effect [OF assms(1) 1(2) assms(3)] by (auto simp: mask_effect_def)
  ultimately show ?thesis using assms(4) by (simp add: run_bindS)
qed

text \<open>Hardware that behaves as \<open>pic_hw\<close> asks, for the witness.\<close>

definition pic_model_hw :: hw where
  "pic_model_hw tr p = (if p = PIC1_DATA then imr (chip PIC1 tr)
     else if p = PIC2_DATA then imr (chip PIC2 tr) else 0)"

lemma pic_model_hw_ok: "pic_hw pic_model_hw"
  by (simp add: pic_hw_def pic_model_hw_def pic_port_defs)

theorem initialize_then_clear_enables_exactly_witness:
  "\<exists>tr'. run (bindS (initialize_irqs pic_model_hw) (\<lambda>_. clear_irqs pic_model_hw [1, 2, 12])) [] = (ok (), tr') \<and>
     (masked tr' 12 \<longleftrightarrow> 12 \<notin> set [1, 2, 12 :: nat])"
proof (rule initialize_then_clear_enables_exactly)
  show "pic_hw pic_model_hw" by (rule pic_model_hw_ok)
  show "pics_ready []" by (simp add: pics_ready_def pic_power_on_def)
qed simp_all

end
