(* ===== verification/Memory.thy ===== *)
theory Memory
  imports Prelude
begin

text \<open>
  The flat 32-bit address space of the protected-mode kernel (one segment, base 0, no paging in the
  code that uses it): a total function from addresses to bytes, on which pointer arithmetic wraps.
  \<open>store\<close> writes a block, \<open>fetch\<close> reads one, \<open>cstr\<close> says that a NUL-terminated string lies at an
  address. The lemmas relate single-byte updates in C loops to whole blocks.
\<close>

type_synonym addr = u32
type_synonym mem = "addr \<Rightarrow> u8"

fun store :: "mem \<Rightarrow> addr \<Rightarrow> u8 list \<Rightarrow> mem" where
  "store m p [] = m"
| "store m p (b # bs) = store (m(p := b)) (p + 1) bs"

fun fetch :: "mem \<Rightarrow> addr \<Rightarrow> nat \<Rightarrow> u8 list" where
  "fetch m p 0 = []"
| "fetch m p (Suc n) = m p # fetch m (p + 1) n"

definition offset :: "addr \<Rightarrow> addr \<Rightarrow> nat" where
  "offset p q = unat (q - p)"

text \<open>A string with its terminating NUL; addresses in the block do not repeat.\<close>

definition cstr :: "mem \<Rightarrow> addr \<Rightarrow> u8 list \<Rightarrow> bool" where
  "cstr m p s \<longleftrightarrow> fetch m p (length s) = s \<and> m (p + of_nat (length s)) = 0 \<and> 0 \<notin> set s \<and>
     length s < 2 ^ 32"

section \<open>Reading back a block\<close>

lemma length_fetch [simp]: "length (fetch m p n) = n"
  by (induction n arbitrary: p) simp_all

lemma nth_fetch: "i < n \<Longrightarrow> fetch m p n ! i = m (p + of_nat i)"
proof (induction n arbitrary: p i)
  case (Suc n)
  then show ?case by (cases i) (simp_all add: algebra_simps)
qed simp

lemma fetch_conv_map: "fetch m p n = map (\<lambda>i. m (p + of_nat i)) [0..<n]"
  by (rule nth_equalityI) (simp_all add: nth_fetch)

lemma fetch_add: "fetch m p (a + b) = fetch m p a @ fetch m (p + of_nat a) b"
  by (induction a arbitrary: p) (simp_all add: algebra_simps)

lemma offset_Suc: "offset p q \<noteq> 0 \<Longrightarrow> offset (p + 1) q = offset p q - 1"
proof -
  assume "offset p q \<noteq> 0"
  then have "q - p \<noteq> 0" by (auto simp: offset_def)
  moreover have "q - (p + 1) = (q - p) - 1" by simp
  ultimately show ?thesis unfolding offset_def by (metis unat_minus_one)
qed

lemma offset_0 [simp]: "offset p q = 0 \<longleftrightarrow> q = p"
  by (simp add: offset_def unat_eq_0)

lemma offset_same [simp]: "offset p p = 0"
  by (simp add: offset_def)

lemma store_apply:
  "length bs \<le> 2 ^ 32 \<Longrightarrow>
     store m p bs q = (if offset p q < length bs then bs ! offset p q else m q)"
proof (induction bs arbitrary: m p)
  case (Cons b bs)
  show ?case
  proof (cases "q = p")
    case True
    have "offset (p + 1) p = 2 ^ 32 - 1"
      by (simp add: offset_def unsigned_minus_1_eq_mask mask_eq_exp_minus_1)
    then show ?thesis using Cons True by simp
  next
    case False
    then obtain k where k: "offset p q = Suc k"
      by (metis offset_0 not0_implies_Suc)
    then have "offset (p + 1) q = k" using offset_Suc [of p q] by simp
    then show ?thesis using Cons False k by simp
  qed
qed simp

lemma offset_of_nat [simp]: "i < 2 ^ 32 \<Longrightarrow> offset p (p + of_nat i) = i"
  by (simp add: offset_def unat_of_nat)

lemma fetch_store:
  "length bs \<le> 2 ^ 32 \<Longrightarrow> fetch (store m p bs) p (length bs) = bs"
  by (rule nth_equalityI) (simp_all add: nth_fetch store_apply)

lemma store_append: "store m p (xs @ ys) = store (store m p xs) (p + of_nat (length xs)) ys"
  by (induction xs arbitrary: m p) (simp_all add: algebra_simps)

lemma store_outside:
  "length bs \<le> 2 ^ 32 \<Longrightarrow> length bs \<le> offset p q \<Longrightarrow> store m p bs q = m q"
  by (simp add: store_apply)

text \<open>Updating one byte of a block that was just stored.\<close>

lemma store_update:
  "i < length bs \<Longrightarrow> length bs \<le> 2 ^ 32 \<Longrightarrow>
     (store m p bs)(p + of_nat i := v) = store m p (bs[i := v])"
proof
  fix q
  assume i: "i < length bs" "length bs \<le> 2 ^ 32"
  have "offset p q = i" if "offset p q < length bs" "q = p + of_nat i"
    using that i by simp
  moreover have "q = p + of_nat (offset p q)"
    by (simp add: offset_def)
  ultimately show "((store m p bs)(p + of_nat i := v)) q = store m p (bs[i := v]) q"
    using i by (auto simp: store_apply nth_list_update)
qed

lemma cstr_store:
  assumes "0 \<notin> set s" and "length s < 2 ^ 32"
  shows "cstr (store m p (s @ [0])) p s"
proof -
  have "fetch (store m p (s @ [0])) p (length s + 1) = s @ [0]"
    using fetch_store [of "s @ [0]"] assms(2) by simp
  then have "fetch (store m p (s @ [0])) p (length s) @ [store m p (s @ [0]) (p + of_nat (length s))] = s @ [0]"
    unfolding fetch_add by simp
  then show ?thesis using assms by (simp add: cstr_def)
qed

lemma cstr_nth: "cstr m p s \<Longrightarrow> i < length s \<Longrightarrow> m (p + of_nat i) = s ! i"
  by (metis cstr_def nth_fetch)

lemma cstr_end: "cstr m p s \<Longrightarrow> m (p + of_nat (length s)) = 0"
  by (simp add: cstr_def)

lemma cstr_nonzero: "cstr m p s \<Longrightarrow> i < length s \<Longrightarrow> m (p + of_nat i) \<noteq> 0"
  by (metis cstr_def cstr_nth nth_mem)

lemma cstr_unique: "cstr m p s \<Longrightarrow> cstr m p t \<Longrightarrow> s = t"
proof -
  assume s: "cstr m p s" and t: "cstr m p t"
  have "length s = length t"
    using cstr_nonzero [OF s, of "length t"] cstr_nonzero [OF t, of "length s"] cstr_end [OF s] cstr_end [OF t]
    by (meson linorder_neqE_nat)
  then show ?thesis using s t by (metis cstr_def)
qed

section \<open>Little-endian numbers\<close>

text \<open>The processor reads a wider number from consecutive bytes, the least significant first.\<close>

type_synonym u64 = "64 word"

definition read16 :: "mem \<Rightarrow> addr \<Rightarrow> u16" where
  "read16 m p = ucast (m p) OR push_bit 8 (ucast (m (p + 1)))"

definition read32 :: "mem \<Rightarrow> addr \<Rightarrow> u32" where
  "read32 m p = ucast (m p) OR push_bit 8 (ucast (m (p + 1))) OR push_bit 16 (ucast (m (p + 2))) OR
     push_bit 24 (ucast (m (p + 3)))"

definition read64 :: "mem \<Rightarrow> addr \<Rightarrow> u64" where
  "read64 m p = ucast (read32 m p) OR push_bit 32 (ucast (read32 m (p + 4)))"

definition bytes16 :: "u16 \<Rightarrow> u8 list" where
  "bytes16 v = [ucast v, ucast (drop_bit 8 v)]"

definition bytes32 :: "u32 \<Rightarrow> u8 list" where
  "bytes32 v = [ucast v, ucast (drop_bit 8 v), ucast (drop_bit 16 v), ucast (drop_bit 24 v)]"

definition bytes64 :: "u64 \<Rightarrow> u8 list" where
  "bytes64 v = bytes32 (ucast v) @ bytes32 (ucast (drop_bit 32 v))"

lemma length_bytes [simp]: "length (bytes16 v) = 2" "length (bytes32 w) = 4" "length (bytes64 x) = 8"
  by (simp_all add: bytes16_def bytes32_def bytes64_def)

lemma bytes16_word: "ucast (ucast v :: u8) OR push_bit 8 (ucast (ucast (drop_bit 8 v) :: u8)) = (v :: u16)"
  by (rule bit_word_eqI) (auto simp: bit_simps)

lemma bytes32_word:
  "ucast (ucast v :: u8) OR push_bit 8 (ucast (ucast (drop_bit 8 v) :: u8)) OR
     push_bit 16 (ucast (ucast (drop_bit 16 v) :: u8)) OR push_bit 24 (ucast (ucast (drop_bit 24 v) :: u8)) = (v :: u32)"
proof (rule bit_word_eqI)
  fix n
  assume "n < LENGTH(32)"
  then consider "n < 8" | "8 \<le> n" "n < 16" | "16 \<le> n" "n < 24" | "24 \<le> n" "n < 32" by fastforce
  then show "bit (ucast (ucast v :: u8) OR push_bit 8 (ucast (ucast (drop_bit 8 v) :: u8)) OR
     push_bit 16 (ucast (ucast (drop_bit 16 v) :: u8)) OR push_bit 24 (ucast (ucast (drop_bit 24 v) :: u8)) :: u32) n = bit v n"
    by cases (auto simp: bit_simps)
qed

lemma bytes64_word: "ucast (ucast v :: u32) OR push_bit 32 (ucast (ucast (drop_bit 32 v) :: u32)) = (v :: u64)"
  by (rule bit_word_eqI) (auto simp: bit_simps)

lemma read16_fetch: "fetch m p 2 = bytes16 v \<Longrightarrow> read16 m p = v"
  by (simp add: read16_def bytes16_def numeral_2_eq_2 bytes16_word)

lemma fetch_4: "fetch m p 4 = [m p, m (p + 1), m (p + 2), m (p + 3)]"
  by (simp add: eval_nat_numeral add.assoc)

lemma read32_fetch: "fetch m p 4 = bytes32 v \<Longrightarrow> read32 m p = v"
  by (simp add: read32_def bytes32_def fetch_4 bytes32_word)

lemma fetch_read32: "fetch m p 4 = bytes32 (read32 m p)"
  unfolding fetch_4 bytes32_def read32_def list.inject
  by (intro conjI bit_word_eqI; auto simp: bit_simps dest: bit_imp_le_length)

lemma read64_fetch: "fetch m p 8 = bytes64 v \<Longrightarrow> read64 m p = v"
proof -
  assume "fetch m p 8 = bytes64 v"
  then have "fetch m p 4 @ fetch m (p + 4) 4 = bytes32 (ucast v) @ bytes32 (ucast (drop_bit 32 v))"
    using fetch_add [of m p 4 4] by (simp add: bytes64_def)
  then have "read32 m p = ucast v" "read32 m (p + 4) = ucast (drop_bit 32 v)"
    by (simp_all add: read32_fetch append_eq_append_conv)
  then show ?thesis by (simp add: read64_def bytes64_word)
qed

text \<open>Part of a block that is known as a whole.\<close>

lemma fetch_take: "n \<le> k \<Longrightarrow> fetch m p n = take n (fetch m p k)"
  by (simp add: fetch_conv_map take_map)

lemma fetch_appendD: "fetch m p (length (xs @ ys)) = xs @ ys \<Longrightarrow>
    fetch m p (length xs) = xs \<and> fetch m (p + of_nat (length xs)) (length ys) = ys"
  by (simp add: fetch_add append_eq_append_conv)

text \<open>The number at the start of a list of bytes.\<close>

definition le32 :: "u8 list \<Rightarrow> u32" where
  "le32 bs = ucast (bs ! 0) OR push_bit 8 (ucast (bs ! 1)) OR push_bit 16 (ucast (bs ! 2)) OR push_bit 24 (ucast (bs ! 3))"

lemma le32_bytes [simp]: "le32 (bytes32 v @ r) = v" "le32 (bytes32 v) = v"
  by (simp_all add: le32_def bytes32_def bytes32_word)

lemma read32_block:
  assumes "fetch m p (length d) = d" and "i + 4 \<le> length d"
  shows "read32 m (p + of_nat i) = le32 (drop i d)"
proof -
  have "m (p + of_nat (i + j)) = d ! (i + j)" if "j < 4" for j
    using nth_fetch [of "i + j" "length d" m p] assms that by simp
  from this [of 0] this [of 1] this [of 2] this [of 3] show ?thesis
    using assms(2) by (simp add: read32_def le32_def ac_simps)
qed

text \<open>A block outside the stored one.\<close>

lemma fetch_store_apart:
  assumes "length bs \<le> offset p q" and "offset p q + n \<le> 2 ^ 32"
  shows "fetch (store m p bs) q n = fetch m q n"
proof (rule nth_equalityI)
  fix i
  assume "i < length (fetch (store m p bs) q n)"
  then have i: "i < n" by simp
  have "q + of_nat i - p = (q - p) + of_nat i" by simp
  moreover have "unat ((q - p) + of_nat i) = unat (q - p) + i"
    using assms(2) i by (simp add: offset_def unat_word_ariths(1) unat_of_nat del: unat_sub_if')
  ultimately have "offset p (q + of_nat i) = offset p q + i" by (simp only: offset_def)
  then show "fetch (store m p bs) q n ! i = fetch m q n ! i"
    using assms i by (simp add: nth_fetch store_apply)
qed simp

text \<open>A memory made of blocks, later ones over earlier ones; a block that no later one touches reads back.\<close>

fun store_blocks :: "mem \<Rightarrow> (addr \<times> u8 list) list \<Rightarrow> mem" where
  "store_blocks m [] = m"
| "store_blocks m ((p, bs) # bl) = store_blocks (store m p bs) bl"

definition apart :: "addr \<times> u8 list \<Rightarrow> addr \<times> u8 list \<Rightarrow> bool" where
  "apart x y \<longleftrightarrow> length (snd y) \<le> offset (fst y) (fst x) \<and> offset (fst y) (fst x) + length (snd x) \<le> 2 ^ 32"

lemma fetch_blocks_apart:
  "list_all (apart (p, bs)) bl \<Longrightarrow> fetch (store_blocks m bl) p (length bs) = fetch m p (length bs)"
proof (induction m bl rule: store_blocks.induct)
  case (2 m q cs bl)
  have "fetch (store_blocks (store m q cs) bl) p (length bs) = fetch (store m q cs) p (length bs)"
    by (rule "2.IH") (use "2.prems" in simp)
  also have "\<dots> = fetch m p (length bs)" by (rule fetch_store_apart) (use "2.prems" in \<open>simp_all add: apart_def\<close>)
  finally show ?case by simp
qed simp

lemma fetch_blocks:
  assumes "bl = xs @ (p, bs) # ys" and "list_all (apart (p, bs)) ys" and "length bs \<le> 2 ^ 32"
  shows "fetch (store_blocks m bl) p (length bs) = bs"
proof -
  have "store_blocks m (xs @ zs) = store_blocks (store_blocks m xs) zs" for m zs
    by (induction m xs rule: store_blocks.induct) simp_all
  then show ?thesis
    using fetch_blocks_apart [OF assms(2)] fetch_store [OF assms(3)] by (simp add: assms(1))
qed

lemma cstr_fetch:
  assumes "fetch m p (length (s @ [0])) = s @ [0]" and "0 \<notin> set s" and "length s < 2 ^ 32"
  shows "cstr m p s"
  using fetch_appendD [OF assms(1)] assms(2,3) by (simp add: cstr_def)

end
