(* ===== verification/Table_Walk.thy ===== *)
theory Table_Walk
  imports Memory
begin

text \<open>
  The loop that the readers of firmware tables share: \<open>while (ptr < end) { body; ptr = next(ptr); }\<close>
  over records of different lengths that follow each other in memory, where the body may leave the function.
  Nothing makes the loop end when a record says that its length is 0, so \<open>walk\<close> is a
  \<open>partial_function (option)\<close>. The locale \<open>record_table\<close> is the contract between a table format and its
  readers: the pointer advances by the length of the record it stands on. Under it a walk over a table that
  is laid out in memory visits exactly its records, in order, and ends.
\<close>

partial_function (option) walk ::
    "(addr \<Rightarrow> addr) \<Rightarrow> addr \<Rightarrow> (addr \<Rightarrow> 's \<Rightarrow> 'r + 's) \<Rightarrow> addr \<Rightarrow> 's \<Rightarrow> ('r + 's) option" where
  "walk nxt end_addr body ptr s =
     (if ptr < end_addr then
        (case body ptr s of Inl r \<Rightarrow> Some (Inl r) | Inr s' \<Rightarrow> walk nxt end_addr body (nxt ptr) s')
      else Some (Inr s))"

text \<open>The records of a table from an address on, each with its address.\<close>

fun records_at :: "(addr \<Rightarrow> 'e \<Rightarrow> bool) \<Rightarrow> ('e \<Rightarrow> nat) \<Rightarrow> addr \<Rightarrow> 'e list \<Rightarrow> bool" where
  "records_at holds width p [] = True"
| "records_at holds width p (e # es) \<longleftrightarrow> holds p e \<and> records_at holds width (p + of_nat (width e)) es"

fun located :: "('e \<Rightarrow> nat) \<Rightarrow> addr \<Rightarrow> 'e list \<Rightarrow> (addr \<times> 'e) list" where
  "located width p [] = []"
| "located width p (e # es) = (p, e) # located width (p + of_nat (width e)) es"

abbreviation total :: "('e \<Rightarrow> nat) \<Rightarrow> 'e list \<Rightarrow> nat" where
  "total width es \<equiv> sum_list (map width es)"

lemma map_snd_located [simp]: "map snd (located width p es) = es"
  by (induction es arbitrary: p) simp_all

lemma length_located [simp]: "length (located width p es) = length es"
  by (induction es arbitrary: p) simp_all

lemma located_append:
  "located width p (xs @ ys) = located width p xs @ located width (p + of_nat (total width xs)) ys"
  by (induction xs arbitrary: p) (simp_all add: algebra_simps)

lemma records_at_append:
  "records_at holds width p (xs @ ys) \<longleftrightarrow>
     records_at holds width p xs \<and> records_at holds width (p + of_nat (total width xs)) ys"
  by (induction xs arbitrary: p) (simp_all add: algebra_simps)

lemma records_at_located: "records_at holds width p es \<Longrightarrow> (q, e) \<in> set (located width p es) \<Longrightarrow> holds q e"
  by (induction es arbitrary: p) auto

lemma walk_done [simp]: "\<not> p < e \<Longrightarrow> walk nxt e body p s = Some (Inr s)"
  by (subst walk.simps) simp

lemma walk_leaves: "p < e \<Longrightarrow> body p s = Inl r \<Longrightarrow> walk nxt e body p s = Some (Inl r)"
  by (subst walk.simps) simp

lemma walk_goes_on: "p < e \<Longrightarrow> body p s = Inr s' \<Longrightarrow> walk nxt e body p s = walk nxt e body (nxt p) s'"
  by (subst walk.simps) simp

text \<open>A record on which the pointer does not advance and which the body does not leave is visited for ever.\<close>

lemma walk_stuck:
  assumes "p < e" and "nxt p = p" and "\<And>s. \<exists>s'. body p s = Inr s'"
  shows "walk nxt e body p s = None"
proof -
  have "n = nxt \<Longrightarrow> d = e \<Longrightarrow> b = body \<Longrightarrow> q \<noteq> p" if "walk n d b q s = Some y" for n d b q s y
    using that
  proof (induction n d b q s y rule: walk.raw_induct [rotated, consumes 1, case_names unfold])
    case (unfold w n d b q s y)
    obtain s' where "body p s = Inr s'" using assms(3) by blast
    then have "q = p \<Longrightarrow> w nxt e body p s' = Some y" using unfold assms(1,2) by simp
    then show ?case using unfold(1) [of nxt e body p s' y] by blast
  qed
  then have "walk nxt e body p s \<noteq> Some y" for y by blast
  then show ?thesis by auto
qed

locale record_table =
  fixes nxt :: "addr \<Rightarrow> addr" and holds :: "addr \<Rightarrow> 'e \<Rightarrow> bool" and width :: "'e \<Rightarrow> nat"
  assumes nxt_width: "holds p e \<Longrightarrow> nxt p = p + of_nat (width e)"
    and width_positive: "holds p e \<Longrightarrow> 0 < width e"
begin

text \<open>A walk over a table: the body runs on every record in turn until it leaves.\<close>

lemma walk_records:
  assumes "records_at holds width p es" and "unat p + total width es < 2 ^ 32"
    and "unat end_addr = unat p + total width es"
  shows "walk nxt end_addr body p s = Some (forE (\<lambda>(q, _). body q) (located width p es) s)"
  using assms
proof (induction es arbitrary: p s)
  case Nil
  then show ?case by (simp add: word_less_nat_alt)
next
  case (Cons e es)
  let ?q = "p + of_nat (width e)"
  have h: "holds p e" using Cons.prems(1) by simp
  have less: "p < end_addr" using Cons.prems(3) width_positive [OF h] by (simp add: word_less_nat_alt)
  have q: "unat ?q = unat p + width e"
    using Cons.prems(2) by (simp add: unat_word_ariths unat_of_nat)
  show ?case
  proof (cases "body p s")
    case (Inl r)
    then show ?thesis using walk_leaves [where body = body, OF less Inl] by simp
  next
    case (Inr s')
    have "walk nxt end_addr body ?q s' = Some (forE (\<lambda>(q, _). body q) (located width ?q es) s')"
      by (rule Cons.IH) (use Cons.prems q in simp_all)
    then show ?thesis using walk_goes_on [where body = body, OF less Inr] nxt_width [OF h] Inr by simp
  qed
qed

text \<open>A record whose address is reached and that does not advance: the walk never ends.\<close>

lemma walk_records_stuck:
  assumes "records_at holds width p es" and "unat p + total width es < unat end_addr"
    and "\<And>q e s. (q, e) \<in> set (located width p es) \<Longrightarrow> \<exists>s'. body q s = Inr s'"
    and "nxt (p + of_nat (total width es)) = p + of_nat (total width es)"
    and "\<And>s. \<exists>s'. body (p + of_nat (total width es)) s = Inr s'"
  shows "walk nxt end_addr body p s = None"
  using assms
proof (induction es arbitrary: p s)
  case Nil
  then show ?case using walk_stuck [of p end_addr nxt body s] by (simp add: word_less_nat_alt)
next
  case (Cons e es)
  let ?q = "p + of_nat (width e)"
  have h: "holds p e" using Cons.prems(1) by simp
  have less: "p < end_addr" using Cons.prems(2) width_positive [OF h] by (simp add: word_less_nat_alt)
  have q: "unat ?q = unat p + width e"
    using Cons.prems(2) unat_u32_less [of end_addr] by (simp add: unat_word_ariths unat_of_nat)
  have stuck: "p + of_nat (total width (e # es)) = ?q + of_nat (total width es)" by (simp add: algebra_simps)
  obtain s' where "body p s = Inr s'" using Cons.prems(3) [of p e] by auto
  moreover have "walk nxt end_addr body ?q s' = None"
    by (rule Cons.IH) (use Cons.prems q in \<open>auto simp: algebra_simps\<close>)
  ultimately show ?case using walk_goes_on [where body = body, OF less] nxt_width [OF h] by metis
qed

end

end
