(* ===== verification/C_Strings.thy ===== *)
theory C_Strings
  imports Memory "HOL-Library.List_Lexorder"
begin

text \<open>
  The string routines of \<open>stdio/string_helper.c\<close>, \<open>stdlib/string.c\<close> and \<open>stdlib/stdlib.c\<close> on the
  flat memory. A loop that stops only at a NUL byte need not stop: it is a \<open>partial_function (option)\<close>
  and the C function built on it gives \<open>Inl Hang\<close> for the value \<open>None\<close>. Signed \<open>int\<close> values are
  integers, with the overflow cases written out.
\<close>

definition hang_unless :: "'a option \<Rightarrow> 'a exec" where
  "hang_unless r = (case r of None \<Rightarrow> Inl Hang | Some x \<Rightarrow> ok x)"

lemma hang_unless_simps [simp]: "hang_unless None = Inl Hang" "hang_unless (Some x) = ok x"
  by (simp_all add: hang_unless_def)

section \<open>Lengths\<close>

partial_function (option) strlen_loop :: "mem \<Rightarrow> addr \<Rightarrow> u32 \<Rightarrow> u32 option" where
  "strlen_loop m s len = (if m (s + len) \<noteq> 0 then strlen_loop m s (len + 1) else Some len)"

definition strlen :: "mem \<Rightarrow> addr \<Rightarrow> u32 exec" where
  "strlen m s = hang_unless (strlen_loop m s 0)"

section \<open>Numbers to text\<close>

lemma unat_div_less: "(v :: u32) \<noteq> 0 \<Longrightarrow> unat (v div 10) < unat v"
  by (simp add: unat_div unat_gt_0)

lemma unat_minus_one_less: "(a :: u32) < b \<Longrightarrow> unat (b - 1) < unat b"
  by (cases "b = 0") (simp_all add: unat_minus_one unat_gt_0)

definition digit_char :: "u32 \<Rightarrow> u8" where
  "digit_char d = chr CHR ''0'' + ucast d"

text \<open>\<open>while (value > 0) { buffer[pos++] = '0' + value % 10; value /= 10; }\<close>\<close>

function digit_loop :: "u32 \<Rightarrow> addr \<Rightarrow> u32 \<Rightarrow> mem \<Rightarrow> u32 \<times> mem" where
  "digit_loop value buffer pos m =
     (if value > 0 then digit_loop (value div 10) buffer (pos + 1) (m(buffer + pos := digit_char (value mod 10)))
      else (pos, m))"
  by pat_completeness auto
termination
  by (relation "measure (\<lambda>(v, _). unat v)") (simp_all add: unat_div_less word_gt_0)

declare digit_loop.simps [simp del]

text \<open>The swap loop that reverses \<open>buffer[start..end]\<close>.\<close>

function reverse_loop :: "addr \<Rightarrow> u32 \<Rightarrow> u32 \<Rightarrow> mem \<Rightarrow> mem" where
  "reverse_loop buffer start end m =
     (if start < end
      then reverse_loop buffer (start + 1) (end - 1)
             (m(buffer + start := m (buffer + end), buffer + end := m (buffer + start)))
      else m)"
  by pat_completeness auto
termination
  by (relation "measure (\<lambda>(_, _, e, _). unat e)") (simp_all add: unat_minus_one_less)

declare reverse_loop.simps [simp del]

definition uitoa :: "u32 \<Rightarrow> addr \<Rightarrow> mem \<Rightarrow> u32 \<times> mem" where
  "uitoa value buffer m =
     (if value = 0 then (1, m(buffer := chr CHR ''0'', buffer + 1 := 0))
      else let (pos, m) = digit_loop value buffer 0 m;
               m = m(buffer + pos := 0);
               m = reverse_loop buffer 0 (pos - 1) m
           in (pos, m))"

text \<open>\<open>-value\<close> has no meaning for \<open>INT_MIN\<close>.\<close>

definition itoa :: "int \<Rightarrow> addr \<Rightarrow> mem \<Rightarrow> (u32 \<times> mem) exec" where
  "itoa value buffer m =
     (if value = 0 then ok (1, m(buffer := chr CHR ''0'', buffer + 1 := 0))
      else if value = - (2 ^ 31) then Inl Undefined
      else let negative = value < 0;
               value = (if negative then - value else value);
               (pos, m) = digit_loop (of_int value) buffer 0 m;
               (pos, m) = (if negative then (pos + 1, m(buffer + pos := chr CHR ''-'')) else (pos, m));
               m = m(buffer + pos := 0);
               m = reverse_loop buffer 0 (pos - 1) m
           in ok (pos, m))"

definition hex_digits :: "bool \<Rightarrow> u8 list" where
  "hex_digits uppercase = (if uppercase then str ''0123456789ABCDEF'' else str ''0123456789abcdef'')"

text \<open>The local array \<open>temp\<close>: eight nibbles, most significant first, filled from the end.\<close>

fun nibbles :: "bool \<Rightarrow> nat \<Rightarrow> u32 \<Rightarrow> u8 list" where
  "nibbles uppercase 0 value = []"
| "nibbles uppercase (Suc n) value =
     nibbles uppercase n (drop_bit 4 value) @ [hex_digits uppercase ! unat (value AND 0xF)]"

definition uint_to_hex :: "u32 \<Rightarrow> addr \<Rightarrow> bool \<Rightarrow> mem \<Rightarrow> u32 \<times> mem" where
  "uint_to_hex value buffer uppercase m =
     (if value = 0 then (1, m(buffer := chr CHR ''0'', buffer + 1 := 0))
      else let temp = nibbles uppercase 8 value;
               text = dropWhile (\<lambda>c. c = chr CHR ''0'') temp
           in (of_nat (length text), store m buffer (text @ [0])))"

text \<open>A pointer is 32 bits wide, so \<open>ptr_to_hex\<close> does the same on the pointer's value.\<close>

definition ptr_to_hex :: "addr \<Rightarrow> addr \<Rightarrow> bool \<Rightarrow> mem \<Rightarrow> u32 \<times> mem" where
  "ptr_to_hex ptr buffer uppercase m =
     (if ptr = 0 then (1, m(buffer := chr CHR ''0'', buffer + 1 := 0))
      else let temp = nibbles uppercase (2 * 4) ptr;
               text = dropWhile (\<lambda>c. c = chr CHR ''0'') temp
           in (of_nat (length text), store m buffer (text @ [0])))"

section \<open>Text to numbers\<close>

definition is_digit :: "u8 \<Rightarrow> bool" where
  "is_digit c \<longleftrightarrow> chr CHR ''0'' \<le> c \<and> c \<le> chr CHR ''9''"

definition CHAR_TO_UINT_INVALID :: u8 where "CHAR_TO_UINT_INVALID = 11"

definition char_to_uint :: "u8 \<Rightarrow> u8" where
  "char_to_uint c = (if \<not> is_digit c then CHAR_TO_UINT_INVALID else c - chr CHR ''0'')"

partial_function (option) to_uint_loop :: "mem \<Rightarrow> addr \<Rightarrow> u32 \<Rightarrow> u32 \<Rightarrow> u32 option" where
  "to_uint_loop m p pw acc =
     (if m p \<noteq> 0 then
        (if char_to_uint (m p) = CHAR_TO_UINT_INVALID then Some (- 1)
         else to_uint_loop m (p - 1) (pw * 10) (acc + ucast (char_to_uint (m p)) * pw))
      else Some acc)"

text \<open>The length is kept in a \<open>uint8_t\<close>, and the scan goes down from the last character to a NUL.\<close>

definition string_to_uint :: "mem \<Rightarrow> addr \<Rightarrow> u32 exec" where
  "string_to_uint m s = bindE (strlen m s) (\<lambda>len.
     let str_length = ucast len :: u8
     in hang_unless (to_uint_loop m (s + ucast str_length - 1) 1 0))"

section \<open>Comparing and searching\<close>

partial_function (option) strcmp_loop :: "mem \<Rightarrow> addr \<Rightarrow> addr \<Rightarrow> int option" where
  "strcmp_loop m us1 us2 =
     (if m us1 \<noteq> 0 \<and> m us1 = m us2 then strcmp_loop m (us1 + 1) (us2 + 1)
      else Some (uint (m us1) - uint (m us2)))"

definition strcmp :: "mem \<Rightarrow> addr \<Rightarrow> addr \<Rightarrow> int exec" where
  "strcmp m s1 s2 = hang_unless (strcmp_loop m s1 s2)"

function strncmp_loop :: "mem \<Rightarrow> addr \<Rightarrow> addr \<Rightarrow> u32 \<Rightarrow> u32 \<Rightarrow> int" where
  "strncmp_loop m us1 us2 idx len =
     (if idx < len then
        (if m (us1 + idx) \<noteq> m (us2 + idx) then uint (m (us1 + idx)) - uint (m (us2 + idx))
         else if m (us1 + idx) = 0 then 0
         else strncmp_loop m us1 us2 (idx + 1) len)
      else 0)"
  by pat_completeness auto
termination
  by (relation "measure (\<lambda>(_, _, _, i, l). unat l - unat i)")
     (auto simp: unat_add_one word_less_nat_alt)

declare strncmp_loop.simps [simp del]

definition strncmp :: "bool \<Rightarrow> mem \<Rightarrow> addr \<Rightarrow> addr \<Rightarrow> u32 \<Rightarrow> int exec" where
  "strncmp debug m s1 s2 len =
     (if len = 0 then ok 0
      else if debug \<and> (s1 = 0 \<or> s2 = 0) then Inl Abort
      else ok (strncmp_loop m s1 s2 0 len))"

text \<open>The needle's length, given up beyond 4096 characters.\<close>

function needle_len_loop :: "mem \<Rightarrow> addr \<Rightarrow> nat \<Rightarrow> nat option" where
  "needle_len_loop m p needle_len =
     (if m p \<noteq> 0 then
        (if needle_len + 1 > 4096 then None else needle_len_loop m (p + 1) (needle_len + 1))
      else Some needle_len)"
  by pat_completeness auto
termination
  by (relation "measure (\<lambda>(_, _, n). 4097 - n)") auto

declare needle_len_loop.simps [simp del]

fun match_loop :: "mem \<Rightarrow> addr \<Rightarrow> addr \<Rightarrow> nat \<Rightarrow> bool" where
  "match_loop m h needle 0 = True"
| "match_loop m h needle (Suc n) = (if m h \<noteq> m needle then False else match_loop m (h + 1) (needle + 1) n)"

function search_loop :: "mem \<Rightarrow> addr \<Rightarrow> int \<Rightarrow> addr \<Rightarrow> nat \<Rightarrow> int \<Rightarrow> int" where
  "search_loop m haystack haystack_len needle needle_len i =
     (if i \<le> haystack_len - int needle_len then
        (if match_loop m (haystack + of_int i) needle needle_len then i
         else search_loop m haystack haystack_len needle needle_len (i + 1))
      else - 1)"
  by pat_completeness auto
termination
  by (relation "measure (\<lambda>(_, _, l, _, n, i). nat (l - int n - i + 1))") auto

declare search_loop.simps [simp del]

definition find_string_offset :: "mem \<Rightarrow> addr \<Rightarrow> int \<Rightarrow> addr \<Rightarrow> int" where
  "find_string_offset m haystack haystack_len needle =
     (if haystack = 0 \<or> needle = 0 \<or> haystack_len \<le> 0 then - 1
      else case needle_len_loop m needle 0 of
        None \<Rightarrow> - 1
      | Some needle_len \<Rightarrow>
          (if needle_len = 0 then 0 else search_loop m haystack haystack_len needle needle_len 0))"

section \<open>Block operations\<close>

function copy_loop :: "addr \<Rightarrow> addr \<Rightarrow> u32 \<Rightarrow> u32 \<Rightarrow> mem \<Rightarrow> mem" where
  "copy_loop d s i n m = (if i < n then copy_loop d s (i + 1) n (m(d + i := m (s + i))) else m)"
  by pat_completeness auto
termination
  by (relation "measure (\<lambda>(_, _, i, n, _). unat n - unat i)") (auto simp: unat_add_one word_less_nat_alt)

declare copy_loop.simps [simp del]

text \<open>The overlap check is compiled in only with \<open>DEBUG\<close>.\<close>

definition memcpy :: "bool \<Rightarrow> addr \<Rightarrow> addr \<Rightarrow> u32 \<Rightarrow> mem \<Rightarrow> (addr \<times> mem) exec" where
  "memcpy debug dest src n m =
     (if debug \<and> (dest > src \<and> dest < src + n \<or> src > dest \<and> src < dest + n) then Inl Abort
      else ok (dest, copy_loop dest src 0 n m))"

function fill_loop :: "addr \<Rightarrow> u8 \<Rightarrow> u32 \<Rightarrow> u32 \<Rightarrow> mem \<Rightarrow> mem" where
  "fill_loop d val i n m = (if i < n then fill_loop d val (i + 1) n (m(d + i := val)) else m)"
  by pat_completeness auto
termination
  by (relation "measure (\<lambda>(_, _, i, n, _). unat n - unat i)") (auto simp: unat_add_one word_less_nat_alt)

declare fill_loop.simps [simp del]

definition memset :: "addr \<Rightarrow> int \<Rightarrow> u32 \<Rightarrow> mem \<Rightarrow> addr \<times> mem" where
  "memset dest val n m = (dest, fill_loop dest (of_int val) 0 n m)"

section \<open>Decimal digits\<close>

text \<open>The reference: the decimal digits of a number, most significant first, and their value.\<close>

fun dec :: "nat \<Rightarrow> u8 list" where
  "dec n = (if n < 10 then [0x30 + of_nat n] else dec (n div 10) @ [0x30 + of_nat (n mod 10)])"

declare dec.simps [simp del]

definition dec_value :: "u8 list \<Rightarrow> nat" where
  "dec_value = foldl (\<lambda>v c. 10 * v + (unat c - 48)) 0"

lemma dec_value_snoc [simp]: "dec_value (s @ [c]) = 10 * dec_value s + (unat c - 48)"
  by (simp add: dec_value_def)

lemma unat_digit [simp]: "n < 10 \<Longrightarrow> unat (0x30 + of_nat n :: u8) = 48 + n"
  by (simp add: unat_word_ariths unat_of_nat)

lemma dec_value_dec [simp]: "dec_value (dec n) = n"
  by (induction n rule: dec.induct) (subst dec.simps, simp add: dec_value_def)

lemma dec_nonempty [simp]: "dec n \<noteq> []"
  by (subst dec.simps) simp

lemma dec_digits: "c \<in> set (dec n) \<Longrightarrow> is_digit c"
proof (induction n rule: dec.induct)
  case (1 n)
  have digit: "is_digit (0x30 + of_nat k)" if "k < 10" for k
    using that by (simp add: is_digit_def word_le_nat_alt)
  from 1 show ?case by (subst (asm) (2) dec.simps) (auto simp: digit split: if_splits)
qed

lemma length_dec_bound: "n < 10 ^ Suc k \<Longrightarrow> length (dec n) \<le> Suc k"
proof (induction k arbitrary: n)
  case 0
  then show ?case by (subst dec.simps) simp
next
  case (Suc k)
  then have "n div 10 < 10 ^ Suc k" by (simp add: less_mult_imp_div_less)
  then show ?case using Suc.IH [of "n div 10"] by (subst dec.simps) simp
qed

end
