(* ===== verification/Multiboot.thy ===== *)
theory Multiboot
  imports Table_Walk Port_IO C_Strings
begin

text \<open>
  The reader of the boot information that GRUB leaves in memory (\<open>firmware/multiboot/multiboot.hpp\<close>,
  \<open>firmware/multiboot/multiboot.cpp\<close>, \<open>graphics/framebuffer_multiboot.h\<close>): a header with the total size
  and a sequence of tags, each with its type and size and padded to a multiple of eight bytes.

  The searches \<open>find_module\<close>, \<open>find_rsdp\<close> and \<open>find_framebuffer\<close> run the same loop with different bodies;
  a body gives \<open>Inl\<close> where the C code leaves the loop. Messages go to the log. A variable that was never
  assigned is \<open>None\<close>. \<open>boot_info\<close> says that a list of tags lies in memory in the layout of the multiboot2
  specification; the theorems say which tag of the list each search finds.
\<close>

section \<open>Data\<close>

datatype tag_type = END | CMDLINE | BOOT_LOADER | MODULE | BASIC_MEM | BOOTDEV | MMAP | VBE | FRAMEBUFFER
  | ELF_SECTIONS | APM | EFI32 | EFI64 | SMBIOS | ACPI_OLD | ACPI_NEW | NETWORK | EFI_MMAP | EFI_BS
  | EFI32_IH | EFI64_IH

fun tag_code :: "tag_type \<Rightarrow> u32" where
  "tag_code END = 0" | "tag_code CMDLINE = 1" | "tag_code BOOT_LOADER = 2" | "tag_code MODULE = 3"
| "tag_code BASIC_MEM = 4" | "tag_code BOOTDEV = 5" | "tag_code MMAP = 6" | "tag_code VBE = 7"
| "tag_code FRAMEBUFFER = 8" | "tag_code ELF_SECTIONS = 9" | "tag_code APM = 10" | "tag_code EFI32 = 11"
| "tag_code EFI64 = 12" | "tag_code SMBIOS = 13" | "tag_code ACPI_OLD = 14" | "tag_code ACPI_NEW = 15"
| "tag_code NETWORK = 16" | "tag_code EFI_MMAP = 17" | "tag_code EFI_BS = 18" | "tag_code EFI32_IH = 19"
| "tag_code EFI64_IH = 20"

record tag =
  t_type :: u32
  t_size :: u32

definition read_tag :: "mem \<Rightarrow> addr \<Rightarrow> tag" where
  "read_tag m p = \<lparr>t_type = read32 m p, t_size = read32 m (p + 4)\<rparr>"

definition TAG_NAMES :: "string list" where
  "TAG_NAMES = [''END'', ''CMDLINE'', ''BOOT_LOADER'', ''MODULE'', ''BASIC_MEM'', ''BOOTDEV'', ''MMAP'', ''VBE'',
     ''FRAMEBUFFER'', ''ELF_SECTIONS'', ''APM'', ''EFI32'', ''EFI64'', ''SMBIOS'', ''ACPI_OLD'', ''ACPI_NEW'',
     ''NETWORK'', ''EFI_MMAP'', ''EFI_BS'', ''EFI32_IH'', ''EFI64_IH'']"

definition type_to_str :: "u32 \<Rightarrow> string" where
  "type_to_str typ = (if unat typ < length TAG_NAMES then TAG_NAMES ! unat typ else ''UNKNOWN_TAG'')"

record module =
  mod_start :: u32
  mod_end :: u32

record module_and_len =
  cmd_len :: "u32 option"
  none :: bool
  found_mod :: "module option"

datatype rsdp_type = NULL_V0 | OLD_V1 | NEW_V2

record rsdp_tagged_t =
  new_or_old :: rsdp_type
  rsdp :: addr

record framebuffer_info_t =
  fb_tag_type :: u32
  fb_size :: u32
  base_addr_low :: u32
  base_addr_high :: u32
  pitch :: u32
  width :: u32
  height :: u32
  bit_per_pixel :: u8
  fb_type :: u8
  fb_reserved :: u8

definition read_framebuffer_info :: "mem \<Rightarrow> addr \<Rightarrow> framebuffer_info_t" where
  "read_framebuffer_info m p =
     \<lparr>fb_tag_type = read32 m p, fb_size = read32 m (p + 4), base_addr_low = read32 m (p + 8),
      base_addr_high = read32 m (p + 12), pitch = read32 m (p + 16), width = read32 m (p + 20),
      height = read32 m (p + 24), bit_per_pixel = m (p + 28), fb_type = m (p + 29), fb_reserved = m (p + 30)\<rparr>"

section \<open>The tags\<close>

text \<open>\<open>addr + ((t->size + 7) & ~7UL)\<close>; all of it in 32 bits.\<close>

definition tag_next :: "mem \<Rightarrow> addr \<Rightarrow> addr" where
  "tag_next m t = (if t = 0 then 0 else t + ((t_size (read_tag m t) + 7) AND NOT 7))"

definition tag_first :: "addr \<Rightarrow> addr" where
  "tag_first mbi = (if mbi = 0 then 0 else mbi + 4 + 4)"

definition is_end_tag :: "tag \<Rightarrow> bool" where
  "is_end_tag t \<longleftrightarrow> t_type t = tag_code END \<and> t_size t = 8"

text \<open>
  The frame the three searches share: no information or too little of it aborts; otherwise the tags from the
  first on up to the end of the information.
\<close>

definition search_tags ::
    "mem \<Rightarrow> addr \<Rightarrow> (addr \<Rightarrow> 's \<Rightarrow> 'r + 's) \<Rightarrow> 's \<Rightarrow> ('r + 's) exec" where
  "search_tags m mbi body s =
     (if mbi = 0 then Inl Abort
      else if read32 m mbi < 8 + 8 then Inl Abort
      else hang_unless (walk (tag_next m) (mbi + read32 m mbi) body (tag_first mbi) s))"

section \<open>Modules\<close>

definition no_module :: module_and_len where
  "no_module = \<lparr>cmd_len = None, none = True, found_mod = None\<rparr>"

text \<open>The state of the loop: the number of modules seen (a \<open>uint8_t\<close>) and the log.\<close>

definition module_body ::
    "mem \<Rightarrow> u8 \<Rightarrow> addr \<Rightarrow> u8 \<times> iolog \<Rightarrow> (module_and_len \<times> iolog) + (u8 \<times> iolog)" where
  "module_body m module_index current st =
     (let (find_count, tr) = st; t = read_tag m current
      in if is_end_tag t then Inl (no_module, tr)
         else if t_type t = tag_code MODULE then
           let md = \<lparr>mod_start = read32 m (current + 8), mod_end = read32 m (current + 12)\<rparr>;
               cmdline_len = t_size t - 8 - 4 - 4;
               tr = Kprint ''\<newline>'' [] # Kprint ''cmd len = %u\<newline>'' [KU cmdline_len] #
                 Kprint ''module start : %h, module end : %h\<newline>'' [KU (mod_start md), KU (mod_end md)] #
                 Kprint ''Found a module\<newline>'' [] # tr
           in if find_count = module_index
              then Inl (\<lparr>cmd_len = Some cmdline_len, none = False, found_mod = Some md\<rparr>, tr)
              else Inr (find_count + 1, tr)
         else Inr (find_count, tr))"

definition find_module :: "mem \<Rightarrow> addr \<Rightarrow> u8 \<Rightarrow> (iolog, module_and_len exec) state" where
  "find_module m mbi module_index = State (\<lambda>tr.
     case search_tags m mbi (module_body m module_index) (0, tr) of
       Inl e \<Rightarrow> (Inl e, tr)
     | Inr (Inl (r, tr')) \<Rightarrow> (ok r, tr')
     | Inr (Inr (_, tr')) \<Rightarrow> (ok no_module, tr'))"

text \<open>
  The C interface. It assigns the length of the command line in the wrong direction, from the result, where
  it was never set; using that value has no meaning.
\<close>

record multiboot_module_c =
  c_mod_start :: u32
  c_mod_end :: u32
  c_cmd_len :: "u8 option"

definition get_module_location :: "mem \<Rightarrow> addr \<Rightarrow> u8 \<Rightarrow> (iolog, multiboot_module_c exec) state" where
  "get_module_location m mbi_addr module_index =
     bindS (find_module m mbi_addr module_index) (\<lambda>t.
       case found_mod t of
         None \<Rightarrow> ret (Inl Undefined)
       | Some md \<Rightarrow>
           let r = \<lparr>c_mod_start = mod_start md, c_mod_end = mod_end md, c_cmd_len = None\<rparr>
           in case c_cmd_len r of None \<Rightarrow> ret (Inl Undefined) | Some _ \<Rightarrow> ret (ok r))"

section \<open>The root pointer of ACPI\<close>

definition check_rsdp_signature :: "mem \<Rightarrow> addr \<Rightarrow> bool" where
  "check_rsdp_signature m p \<longleftrightarrow>
     m p = chr CHR ''R'' \<and> m (p + 1) = chr CHR ''S'' \<and> m (p + 2) = chr CHR ''D'' \<and> m (p + 3) = chr CHR '' '' \<and>
     m (p + 4) = chr CHR ''P'' \<and> m (p + 5) = chr CHR ''T'' \<and> m (p + 6) = chr CHR ''R'' \<and> m (p + 7) = chr CHR '' ''"

text \<open>\<open>sum\<close> is a \<open>uint8_t\<close>.\<close>

fun sum_loop :: "mem \<Rightarrow> addr \<Rightarrow> nat \<Rightarrow> u8 \<Rightarrow> u8" where
  "sum_loop m p 0 acc = acc"
| "sum_loop m p (Suc n) acc = sum_loop m (p + 1) n (acc + m p)"

definition check_rsdp_checksum :: "mem \<Rightarrow> addr \<Rightarrow> bool" where
  "check_rsdp_checksum m p \<longleftrightarrow>
     (let revision = m (p + 15); len = (if revision = 0 then 20 else 36)
      in sum_loop m p len 0 AND 0xFF = 0)"

definition validate_rsdp :: "mem \<Rightarrow> addr \<Rightarrow> bool" where
  "validate_rsdp m p = (if p = 0 then False else check_rsdp_signature m p \<and> check_rsdp_checksum m p)"

definition rsdp_body :: "mem \<Rightarrow> addr \<Rightarrow> iolog \<Rightarrow> (rsdp_tagged_t exec \<times> iolog) + iolog" where
  "rsdp_body m current tr =
     (let t = read_tag m current;
          rsdp_ptr = current + 8;
          tr = Kprint ''tag type %u : \<newline>'' [KU (t_type t)] # tr
      in if is_end_tag t then Inl (Inl Abort, tr)
         else if t_type t = tag_code ACPI_NEW then
           let tr = Kprint ''NEW\<newline>'' [] # tr
           in if check_rsdp_signature m rsdp_ptr \<and> check_rsdp_checksum m rsdp_ptr
              then Inl (ok \<lparr>new_or_old = NEW_V2, rsdp = rsdp_ptr\<rparr>, tr) else Inr tr
         else if t_type t = tag_code ACPI_OLD then
           let tr = Kprint ''OLD\<newline>'' [] # tr
           in if check_rsdp_signature m rsdp_ptr \<and> check_rsdp_checksum m rsdp_ptr
              then Inl (ok \<lparr>new_or_old = OLD_V1, rsdp = rsdp_ptr\<rparr>, tr) else Inr tr
         else Inr tr)"

definition find_rsdp :: "mem \<Rightarrow> addr \<Rightarrow> (iolog, rsdp_tagged_t exec) state" where
  "find_rsdp m mbi = State (\<lambda>tr.
     case search_tags m mbi (rsdp_body m) tr of
       Inl e \<Rightarrow> (Inl e, tr)
     | Inr (Inl r) \<Rightarrow> r
     | Inr (Inr tr') \<Rightarrow> (Inl Abort, tr'))"

datatype rsdp_type_c = RSDP_TYPE_NULL | RSDP_TYPE_V1_OLD | RSDP_TYPE_V2_New

fun rsdp_type_to_c :: "rsdp_type \<Rightarrow> rsdp_type_c" where
  "rsdp_type_to_c NULL_V0 = RSDP_TYPE_NULL"
| "rsdp_type_to_c OLD_V1 = RSDP_TYPE_V1_OLD"
| "rsdp_type_to_c NEW_V2 = RSDP_TYPE_V2_New"

record rsdp_tagged_c =
  c_new_or_old :: rsdp_type_c
  c_rsdp :: addr

definition get_rsdp_grub :: "mem \<Rightarrow> addr \<Rightarrow> (iolog, rsdp_tagged_c exec) state" where
  "get_rsdp_grub m mbi_addr =
     bindS (find_rsdp m mbi_addr) (\<lambda>t. do {
       kprintf ''surveid cpp'' [];
       ret (ok \<lparr>c_new_or_old = rsdp_type_to_c (new_or_old t), c_rsdp = rsdp t\<rparr>)
     })"

definition multiboot_validate_rsdp :: "mem \<Rightarrow> addr \<Rightarrow> int" where
  "multiboot_validate_rsdp m p = (if validate_rsdp m p then 1 else 0)"

definition validate_rsdp_c :: "mem \<Rightarrow> addr \<Rightarrow> bool" where
  "validate_rsdp_c m p \<longleftrightarrow> multiboot_validate_rsdp m p \<noteq> 0"

section \<open>The framebuffer\<close>

definition framebuffer_body :: "mem \<Rightarrow> addr \<Rightarrow> unit \<Rightarrow> framebuffer_info_t exec + unit" where
  "framebuffer_body m current s =
     (let t = read_tag m current
      in if is_end_tag t then Inl (Inl Abort)
         else if t_type t = tag_code FRAMEBUFFER then Inl (ok (read_framebuffer_info m current))
         else Inr ())"

definition find_framebuffer :: "mem \<Rightarrow> addr \<Rightarrow> framebuffer_info_t exec" where
  "find_framebuffer m mbi = bindE (search_tags m mbi (framebuffer_body m) ())
     (\<lambda>r. case r of Inl fb \<Rightarrow> fb | Inr _ \<Rightarrow> Inl Abort)"

definition get_framebuffer :: "mem \<Rightarrow> addr \<Rightarrow> framebuffer_info_t exec" where
  "get_framebuffer m mid_addr = find_framebuffer m mid_addr"

section \<open>The layout of the boot information\<close>

text \<open>A tag as the specification has it: a type and its contents; the size counts the eight bytes of the header.\<close>

type_synonym mb_tag = "u32 \<times> u8 list"

definition tag_width :: "mb_tag \<Rightarrow> nat" where
  "tag_width t = 8 * ((length (snd t) + 15) div 8)"

definition tag_at :: "mem \<Rightarrow> addr \<Rightarrow> mb_tag \<Rightarrow> bool" where
  "tag_at m p t \<longleftrightarrow> p \<noteq> 0 \<and> read_tag m p = \<lparr>t_type = fst t, t_size = of_nat (8 + length (snd t))\<rparr> \<and>
     fetch m (p + 8) (length (snd t)) = snd t \<and> length (snd t) + 15 < 2 ^ 32"

definition end_tag :: mb_tag where
  "end_tag = (tag_code END, [])"

definition boot_info :: "mem \<Rightarrow> addr \<Rightarrow> mb_tag list \<Rightarrow> bool" where
  "boot_info m mbi ts \<longleftrightarrow> mbi \<noteq> 0 \<and> unat mbi + 8 + total tag_width (ts @ [end_tag]) < 2 ^ 32 \<and>
     read32 m mbi = of_nat (8 + total tag_width (ts @ [end_tag])) \<and>
     records_at (tag_at m) tag_width (mbi + 8) (ts @ [end_tag]) \<and> end_tag \<notin> set ts"

lemma round_up_8: "((of_nat (8 + n) :: u32) + 7) AND NOT 7 = of_nat (8 * ((n + 15) div 8))" if "n + 15 < 2 ^ 32"
proof -
  let ?x = "of_nat (n + 15) :: u32"
  have seven: "(7 :: u32) = mask 3" by (simp add: mask_eq_exp_minus_1)
  have "?x AND NOT 7 = push_bit 3 (drop_bit 3 ?x)"
    unfolding seven by (rule bit_word_eqI) (auto simp: bit_simps not_less)
  also have "\<dots> = 8 * (?x div 8)" by (simp add: push_bit_eq_mult drop_bit_eq_div)
  also have "?x div 8 = of_nat ((n + 15) div 8)"
    by (rule unsigned_word_eqI [where 'a = nat])
       (use that in \<open>simp add: unat_div unat_of_nat del: of_nat_add\<close>)
  finally show ?thesis by (simp add: algebra_simps)
qed

lemma tag_next_width: "tag_at m p t \<Longrightarrow> tag_next m p = p + of_nat (tag_width t)"
  unfolding tag_at_def tag_next_def tag_width_def using round_up_8 [of "length (snd t)"] by auto

interpretation tags: record_table "tag_next m" "tag_at m" tag_width
proof unfold_locales
  show "tag_next m p = p + of_nat (tag_width t)" if "tag_at m p t" for p t
    by (rule tag_next_width [OF that])
  show "0 < tag_width t" if "tag_at m p t" for p t
    by (simp add: tag_width_def div_greater_zero_iff)
qed

lemma tag_at_type: "tag_at m p t \<Longrightarrow> t_type (read_tag m p) = fst t"
  by (simp add: tag_at_def)

lemma tag_at_end: "tag_at m p t \<Longrightarrow> is_end_tag (read_tag m p) \<longleftrightarrow> t = end_tag"
proof -
  assume t: "tag_at m p t"
  then have "unat (of_nat (8 + length (snd t)) :: u32) = 8 + length (snd t)"
    by (simp add: tag_at_def unat_of_nat del: of_nat_add)
  then have "of_nat (8 + length (snd t)) = (8 :: u32) \<longleftrightarrow> length (snd t) = 0"
    unfolding word_unat_eq_iff by simp
  then show ?thesis using t by (cases t) (auto simp: tag_at_def is_end_tag_def end_tag_def)
qed

text \<open>A search over information that is laid out: the body on every tag in turn, the end tag last.\<close>

lemma search_tags_walks:
  assumes "boot_info m mbi ts"
  shows "search_tags m mbi body s =
    ok (forE (\<lambda>(q, _). body q) (located tag_width (mbi + 8) (ts @ [end_tag])) s)"
proof -
  let ?n = "total tag_width (ts @ [end_tag])"
  note i = assms [unfolded boot_info_def]
  have n: "8 \<le> ?n" by (simp add: tag_width_def end_tag_def)
  have e: "unat (mbi + 8) = unat mbi + 8" "unat (read32 m mbi) = 8 + ?n"
    using i n by (simp_all add: unat_word_ariths unat_of_nat)
  then have "unat (mbi + read32 m mbi) = unat (mbi + 8) + ?n"
    using i by (simp add: unat_word_ariths)
  then have "walk (tag_next m) (mbi + read32 m mbi) body (mbi + 8) s =
      Some (forE (\<lambda>(q, _). body q) (located tag_width (mbi + 8) (ts @ [end_tag])) s)"
    using i e by (intro tags.walk_records) simp_all
  moreover have "\<not> read32 m mbi < 8 + 8" using e n by (simp add: word_less_nat_alt)
  ultimately show ?thesis using i by (simp add: search_tags_def tag_first_def add.assoc)
qed

lemma located_tag:
  assumes "boot_info m mbi ts" and "(q, t) \<in> set (located tag_width (mbi + 8) ts)"
  shows "tag_at m q t" and "t \<in> set ts" and "t \<noteq> end_tag"
proof -
  show "t \<in> set ts"
    using assms(2) map_snd_located [of tag_width "mbi + 8" ts] by (metis image_eqI list.set_map snd_conv)
  then show "t \<noteq> end_tag" using assms(1) by (auto simp: boot_info_def)
  show "tag_at m q t"
    using assms(1) records_at_located [OF _ assms(2)] by (auto simp: boot_info_def records_at_append)
qed

lemma end_tag_at: "boot_info m mbi ts \<Longrightarrow> tag_at m (mbi + 8 + of_nat (total tag_width ts)) end_tag"
  by (simp add: boot_info_def records_at_append)

text \<open>A search for the first tag with a property, \<open>h\<close> what a tag that is passed over does to the state.\<close>

lemma search_tags_finds:
  assumes i: "boot_info m mbi ts"
    and body: "\<And>q t s. tag_at m q t \<Longrightarrow> t \<in> set ts \<Longrightarrow> t \<noteq> end_tag \<Longrightarrow>
      body q s = (if P t then Inl (g q t (h t s)) else Inr (h t s))"
    and last: "\<And>q s. tag_at m q end_tag \<Longrightarrow> body q s = Inl (k s)"
  shows "search_tags m mbi body s = ok (Inl (case find (\<lambda>(_, t). P t) (located tag_width (mbi + 8) ts) of
      None \<Rightarrow> k (fold h ts s)
    | Some (q, t) \<Rightarrow> g q t (h t (fold h (takeWhile (\<lambda>t. \<not> P t) ts) s))))"
proof -
  let ?xs = "located tag_width (mbi + 8) ts"
  have at: "body q s = (if P t then Inl (g q t (h t s)) else Inr (h t s))" if "(q, t) \<in> set ?xs" for q t s
    by (rule body) (rule located_tag [OF i that])+
  have "forE (\<lambda>(q, _). body q) ?xs s = (case find (\<lambda>(_, t). P t) ?xs of
      None \<Rightarrow> Inr (fold (\<lambda>x. h (snd x)) ?xs s)
    | Some x \<Rightarrow> Inl ((\<lambda>(q, t). g q t) x (h (snd x)
        (fold (\<lambda>x. h (snd x)) (takeWhile (\<lambda>x. \<not> (case x of (_, t) \<Rightarrow> P t)) ?xs) s))))"
    by (rule forE_find) (auto simp: at)
  moreover have "fold (\<lambda>x. h (snd x)) ys s = fold h (map snd ys) s" for ys :: "(addr \<times> mb_tag) list" and s
    by (simp add: fold_map comp_def)
  moreover have "map snd (takeWhile (\<lambda>x. \<not> (case x of (_, t) \<Rightarrow> P t)) ?xs) = takeWhile (\<lambda>t. \<not> P t) ts"
    using takeWhile_map [of "\<lambda>t. \<not> P t" snd ?xs] by (simp add: comp_def case_prod_beta)
  ultimately show ?thesis
    by (simp add: search_tags_walks [OF i] located_append forE_append last [OF end_tag_at [OF i]]
        split: option.split)
qed

text \<open>The bytes of the information, padding 0: they read back as the tags.\<close>

definition tag_bytes :: "mb_tag \<Rightarrow> u8 list" where
  "tag_bytes t = bytes32 (fst t) @ bytes32 (of_nat (8 + length (snd t))) @ snd t @
     replicate (tag_width t - (8 + length (snd t))) 0"

definition info_bytes :: "mb_tag list \<Rightarrow> u8 list" where
  "info_bytes ts = bytes32 (of_nat (8 + total tag_width (ts @ [end_tag]))) @ bytes32 0 @
     concat (map tag_bytes (ts @ [end_tag]))"

lemma length_tag_bytes [simp]: "length (tag_bytes t) = tag_width t"
proof -
  have "8 + length (snd t) \<le> tag_width t" unfolding tag_width_def by linarith
  then show ?thesis by (simp add: tag_bytes_def)
qed

lemma length_tags_bytes [simp]: "length (concat (map tag_bytes ts)) = total tag_width ts"
  by (induction ts) simp_all

lemma tag_at_bytes:
  assumes "fetch m p (tag_width t) = tag_bytes t" and "p \<noteq> 0" and "length (snd t) + 15 < 2 ^ 32"
  shows "tag_at m p t"
proof -
  let ?rest = "snd t @ replicate (tag_width t - (8 + length (snd t))) 0"
  have "fetch m p (length (bytes32 (fst t) @ (bytes32 (of_nat (8 + length (snd t))) @ ?rest))) =
      bytes32 (fst t) @ bytes32 (of_nat (8 + length (snd t))) @ ?rest"
    using assms(1) length_tag_bytes [of t] by (simp add: tag_bytes_def)
  from fetch_appendD [OF this] have t: "fetch m p 4 = bytes32 (fst t)"
    and r: "fetch m (p + 4) (length (bytes32 (of_nat (8 + length (snd t))) @ ?rest)) =
      bytes32 (of_nat (8 + length (snd t))) @ ?rest" by simp_all
  from fetch_appendD [OF r] have s: "fetch m (p + 4) 4 = bytes32 (of_nat (8 + length (snd t)))"
    and d: "fetch m (p + 8) (length ?rest) = ?rest" by (simp_all add: add.assoc)
  from fetch_appendD [OF d] have "fetch m (p + 8) (length (snd t)) = snd t" ..
  then show ?thesis using assms(2,3) by (simp add: tag_at_def read_tag_def read32_fetch [OF t] read32_fetch [OF s])
qed

lemma tags_at_bytes:
  assumes "fetch m p (total tag_width ts) = concat (map tag_bytes ts)" and "p \<noteq> 0" and "unat p + total tag_width ts < 2 ^ 32"
  shows "records_at (tag_at m) tag_width p ts"
  using assms
proof (induction ts arbitrary: p)
  case (Cons t ts)
  have f: "fetch m p (tag_width t) = tag_bytes t"
    "fetch m (p + of_nat (tag_width t)) (total tag_width ts) = concat (map tag_bytes ts)"
    using Cons.prems(1) by (simp_all add: fetch_add append_eq_append_conv)
  have "length (snd t) + 8 \<le> tag_width t" unfolding tag_width_def by linarith
  moreover obtain k where k: "tag_width t = 8 * k" by (simp add: tag_width_def)
  moreover have "k < 2 ^ 29" using k Cons.prems(3) by simp
  ultimately have l: "length (snd t) + 15 < 2 ^ 32" by simp
  have "unat (p + of_nat (tag_width t)) = unat p + tag_width t"
    using Cons.prems(3) by (simp add: unat_word_ariths unat_of_nat)
  moreover have "unat p \<noteq> 0" using Cons.prems(2) by (simp add: unat_eq_0)
  ultimately have "records_at (tag_at m) tag_width (p + of_nat (tag_width t)) ts"
    using Cons.prems(3) by (intro Cons.IH f(2)) (auto simp flip: unat_eq_0)
  then show ?case using tag_at_bytes [OF f(1) Cons.prems(2) l] by simp
qed simp

lemma boot_info_bytes:
  assumes "fetch m mbi (length (info_bytes ts)) = info_bytes ts" and "mbi \<noteq> 0"
    and "unat mbi + length (info_bytes ts) < 2 ^ 32" and "end_tag \<notin> set ts"
  shows "boot_info m mbi ts"
proof -
  let ?us = "ts @ [end_tag]"
  have len: "length (info_bytes ts) = 8 + total tag_width ?us" by (simp add: info_bytes_def)
  from fetch_appendD [OF assms(1) [unfolded info_bytes_def]]
  have size: "fetch m mbi 4 = bytes32 (of_nat (8 + total tag_width ?us))"
    and r: "fetch m (mbi + 4) (length (bytes32 0 @ concat (map tag_bytes ?us))) = bytes32 0 @ concat (map tag_bytes ?us)"
    by (simp_all add: add.assoc)
  from fetch_appendD [OF r] have f: "fetch m (mbi + 8) (total tag_width ?us) = concat (map tag_bytes ?us)"
    by (simp add: add.assoc)
  have first: "unat (mbi + 8) = unat mbi + 8" using assms(3) len by (simp add: unat_word_ariths)
  then have "mbi + 8 \<noteq> 0" by (metis add_is_0 unat_0 zero_neq_numeral)
  then have "records_at (tag_at m) tag_width (mbi + 8) ?us"
    using assms(3) len first by (intro tags_at_bytes f) simp_all
  then show ?thesis using assms(2-4) len read32_fetch [OF size] by (simp add: boot_info_def)
qed

section \<open>What the searches find\<close>

text \<open>The check of the root pointer, on its bytes.\<close>

definition valid_rsdp :: "u8 list \<Rightarrow> bool" where
  "valid_rsdp d \<longleftrightarrow> take 8 d = str ''RSD PTR '' \<and> sum_list (take (if d ! 15 = 0 then 20 else 36) d) = 0"

definition is_rsdp_tag :: "mb_tag \<Rightarrow> bool" where
  "is_rsdp_tag t \<longleftrightarrow> fst t \<in> {tag_code ACPI_OLD, tag_code ACPI_NEW} \<and> valid_rsdp (snd t)"

text \<open>A tag that holds a root pointer has all the bytes that the check of the pointer adds up.\<close>

definition full_rsdp_tag :: "mb_tag \<Rightarrow> bool" where
  "full_rsdp_tag t \<longleftrightarrow> fst t \<in> {tag_code ACPI_OLD, tag_code ACPI_NEW} \<longrightarrow>
     20 \<le> length (snd t) \<and> (snd t ! 15 \<noteq> 0 \<longrightarrow> 36 \<le> length (snd t))"

lemma sum_loop_fetch: "sum_loop m p n acc = acc + sum_list (fetch m p n)"
  by (induction n arbitrary: p acc) (simp_all add: add.assoc)

lemma signature_fetch: "check_rsdp_signature m p \<longleftrightarrow> fetch m p 8 = str ''RSD PTR ''"
  by (simp add: check_rsdp_signature_def eval_nat_numeral add.assoc)

lemma rsdp_checks:
  assumes "fetch m p (length d) = d" and "20 \<le> length d" and "d ! 15 \<noteq> 0 \<longrightarrow> 36 \<le> length d"
  shows "check_rsdp_signature m p \<and> check_rsdp_checksum m p \<longleftrightarrow> valid_rsdp d"
proof -
  have part: "fetch m p n = take n d" if "n \<le> length d" for n
    using fetch_take [OF that, of m p] assms(1) by simp
  have byte: "m (p + 15) = d ! 15" using nth_fetch [of 15 "length d" m p] assms(1,2) by simp
  have "(0xFF :: u8) = - 1" by simp
  then have "x AND 0xFF = 0 \<longleftrightarrow> x = (0 :: u8)" for x by (metis and.right_neutral)
  then show ?thesis
    unfolding check_rsdp_checksum_def signature_fetch valid_rsdp_def sum_loop_fetch byte Let_def
    using assms(2,3) by (simp add: part)
qed

definition rsdp_messages :: "mb_tag \<Rightarrow> iolog" where
  "rsdp_messages t = (if fst t = tag_code ACPI_NEW then [Kprint ''NEW\<newline>'' []]
     else if fst t = tag_code ACPI_OLD then [Kprint ''OLD\<newline>'' []] else []) @
     [Kprint ''tag type %u : \<newline>'' [KU (fst t)]]"

definition tagged_rsdp :: "addr \<times> mb_tag \<Rightarrow> rsdp_tagged_t" where
  "tagged_rsdp x = \<lparr>new_or_old = (if fst (snd x) = tag_code ACPI_NEW then NEW_V2 else OLD_V1), rsdp = fst x + 8\<rparr>"

lemma rsdp_body_tag:
  assumes "tag_at m p t" and "full_rsdp_tag t" and "t \<noteq> end_tag"
  shows "rsdp_body m p tr =
    (if is_rsdp_tag t then Inl (ok (tagged_rsdp (p, t)), rsdp_messages t @ tr) else Inr (rsdp_messages t @ tr))"
proof (cases "fst t \<in> {tag_code ACPI_OLD, tag_code ACPI_NEW}")
  case True
  then have "check_rsdp_signature m (p + 8) \<and> check_rsdp_checksum m (p + 8) \<longleftrightarrow> valid_rsdp (snd t)"
    using assms by (intro rsdp_checks) (simp_all add: tag_at_def full_rsdp_tag_def)
  then show ?thesis
    using True tag_at_type [OF assms(1)] tag_at_end [OF assms(1)] assms(3)
    by (auto simp: rsdp_body_def is_rsdp_tag_def rsdp_messages_def tagged_rsdp_def Let_def)
next
  case False
  then show ?thesis
    using tag_at_type [OF assms(1)] tag_at_end [OF assms(1)] assms(3)
    by (simp add: rsdp_body_def is_rsdp_tag_def rsdp_messages_def Let_def)
qed

lemma rsdp_body_end: "tag_at m p end_tag \<Longrightarrow> rsdp_body m p tr = Inl (Inl Abort, rsdp_messages end_tag @ tr)"
  using tag_at_end [of m p end_tag] tag_at_type [of m p end_tag]
  by (simp add: rsdp_body_def rsdp_messages_def Let_def end_tag_def)

lemma extends_fold [simp]: "extends tr tr' \<Longrightarrow> extends tr (fold (\<lambda>x tr. msgs x @ tr) xs tr')"
  by (induction xs arbitrary: tr') simp_all

text \<open>
  (C13) On boot information as the specification lays it out, the search for the ACPI root pointer ends: it returns
  the address of the contents of the first tag of type 14 or 15 whose contents have the signature and add up
  to 0, together with the kind of that tag, and aborts when there is no such tag. Otherwise it only adds to the log.
\<close>

theorem find_rsdp_finds:
  assumes "boot_info m mbi ts" and "list_all full_rsdp_tag ts"
  shows "fst (run (find_rsdp m mbi) tr) =
      (case find (\<lambda>(_, t). is_rsdp_tag t) (located tag_width (mbi + 8) ts) of
         None \<Rightarrow> Inl Abort
       | Some (p, t) \<Rightarrow> ok \<lparr>new_or_old = (if fst t = 15 then NEW_V2 else OLD_V1), rsdp = p + 8\<rparr>)
    \<and> extends tr (snd (run (find_rsdp m mbi) tr))"
proof -
  have "search_tags m mbi (rsdp_body m) tr =
    ok (Inl (case find (\<lambda>(_, t). is_rsdp_tag t) (located tag_width (mbi + 8) ts) of
      None \<Rightarrow> (Inl Abort, rsdp_messages end_tag @ fold (\<lambda>t tr. rsdp_messages t @ tr) ts tr)
    | Some (q, t) \<Rightarrow> (ok (tagged_rsdp (q, t)), rsdp_messages t @
        fold (\<lambda>t tr. rsdp_messages t @ tr) (takeWhile (\<lambda>t. \<not> is_rsdp_tag t) ts) tr)))"
    by (rule search_tags_finds [OF assms(1)])
       (use assms(2) in \<open>simp_all add: rsdp_body_tag rsdp_body_end list_all_iff\<close>)
  then show ?thesis by (auto simp: find_rsdp_def tagged_rsdp_def split: option.split)
qed

definition sample_rsdp :: "u8 list" where
  "sample_rsdp = str ''RSD PTR '' @ [0x4D] @ str ''BOCHS '' @ [0] @ bytes32 0x7FE0000"

definition sample_tags :: "mb_tag list" where
  "sample_tags = [(tag_code CMDLINE, str ''maple''), (tag_code MODULE, bytes32 0x200000 @ bytes32 0x240000 @ str ''k64''),
     (tag_code ACPI_OLD, sample_rsdp)]"

definition sample_memory :: mem where
  "sample_memory = store (\<lambda>_. 0xCC) 0x9000 (info_bytes sample_tags)"

lemma sample_boot_info: "boot_info sample_memory 0x9000 sample_tags"
proof (rule boot_info_bytes)
  have l: "length (info_bytes sample_tags) = 88"
    by (simp add: info_bytes_def sample_tags_def tag_width_def end_tag_def sample_rsdp_def)
  then show "fetch sample_memory 0x9000 (length (info_bytes sample_tags)) = info_bytes sample_tags"
    unfolding sample_memory_def by (intro fetch_store) simp
  show "unat (0x9000 :: u32) + length (info_bytes sample_tags) < 2 ^ 32" using l by simp
qed (simp_all add: sample_tags_def end_tag_def)

theorem find_rsdp_finds_witness:
  "fst (run (find_rsdp sample_memory 0x9000) []) = ok \<lparr>new_or_old = OLD_V1, rsdp = 0x9038\<rparr>"
proof -
  have f: "list_all full_rsdp_tag sample_tags"
    by (simp add: sample_tags_def full_rsdp_tag_def sample_rsdp_def)
  have "is_rsdp_tag (tag_code ACPI_OLD, sample_rsdp)"
    by (simp add: is_rsdp_tag_def valid_rsdp_def sample_rsdp_def bytes32_def)
  then show ?thesis using find_rsdp_finds [OF sample_boot_info f, of "[]"]
    by (simp add: sample_tags_def is_rsdp_tag_def tag_width_def)
qed

text \<open>The modules are counted in the order of their tags.\<close>

definition modules :: "mb_tag list \<Rightarrow> mb_tag list" where
  "modules ts = filter (\<lambda>t. fst t = tag_code MODULE) ts"

definition module_of :: "mb_tag \<Rightarrow> module_and_len" where
  "module_of t = \<lparr>cmd_len = Some (of_nat (length (snd t)) - 8), none = False,
     found_mod = Some \<lparr>mod_start = le32 (snd t), mod_end = le32 (drop 4 (snd t))\<rparr>\<rparr>"

definition module_messages :: "mb_tag \<Rightarrow> iolog" where
  "module_messages t = [Kprint ''\<newline>'' [], Kprint ''cmd len = %u\<newline>'' [KU (of_nat (length (snd t)) - 8)],
     Kprint ''module start : %h, module end : %h\<newline>'' [KU (le32 (snd t)), KU (le32 (drop 4 (snd t)))],
     Kprint ''Found a module\<newline>'' []]"

lemma module_body_tag:
  assumes "tag_at m p t" and "t \<noteq> end_tag" and "fst t = tag_code MODULE \<longrightarrow> 8 \<le> length (snd t)"
  shows "module_body m k p (c, tr) =
    (if fst t \<noteq> tag_code MODULE then Inr (c, tr)
     else if c = k then Inl (module_of t, module_messages t @ tr) else Inr (c + 1, module_messages t @ tr))"
proof (cases "fst t = tag_code MODULE")
  case True
  have d: "fetch m (p + 8) (length (snd t)) = snd t" using assms(1) by (simp add: tag_at_def)
  have "read32 m (p + 8) = le32 (snd t)" "read32 m (p + 12) = le32 (drop 4 (snd t))"
    using read32_block [OF d, of 0] read32_block [OF d, of 4] assms(3) True by (simp_all add: add.commute)
  moreover have "t_size (read_tag m p) = of_nat (length (snd t)) + 8" using assms(1) by (simp add: tag_at_def)
  ultimately show ?thesis
    using tag_at_type [OF assms(1)] tag_at_end [OF assms(1)] assms(2) True
    by (simp add: module_body_def module_of_def module_messages_def Let_def)
next
  case False
  then show ?thesis
    using tag_at_type [OF assms(1)] tag_at_end [OF assms(1)] assms(2) by (simp add: module_body_def Let_def)
qed

lemma module_body_end: "tag_at m p end_tag \<Longrightarrow> module_body m k p (c, tr) = Inl (no_module, tr)"
  using tag_at_end [of m p end_tag] by (simp add: module_body_def Let_def)

lemma forE_modules:
  "(\<And>q t. (q, t) \<in> set xs \<Longrightarrow> tag_at m q t \<and> t \<noteq> end_tag \<and> (fst t = tag_code MODULE \<longrightarrow> 8 \<le> length (snd t))) \<Longrightarrow>
   \<exists>tr'. extends tr tr' \<and> forE (\<lambda>(q, _). module_body m k q) xs (c, tr) =
     (let ms = modules (map snd xs)
      in if unat (k - c) < length ms then Inl (module_of (ms ! unat (k - c)), tr')
         else Inr (c + of_nat (length ms), tr'))"
proof (induction xs arbitrary: c tr)
  case Nil
  then show ?case by (auto simp: modules_def)
next
  case (Cons x xs)
  obtain q t where x: "x = (q, t)" by (cases x)
  have b: "module_body m k q (c, tr) =
    (if fst t \<noteq> tag_code MODULE then Inr (c, tr)
     else if c = k then Inl (module_of t, module_messages t @ tr) else Inr (c + 1, module_messages t @ tr))" for c tr
    using Cons.prems [of q t] x by (intro module_body_tag) auto
  note IH = Cons.IH [OF Cons.prems, OF list.set_intros(2)]
  show ?case
  proof (cases "fst t = tag_code MODULE")
    case False
    then show ?thesis using IH [of tr c] b x by (simp add: modules_def)
  next
    case True
    show ?thesis
    proof (cases "c = k")
      case True
      then show ?thesis using \<open>fst t = _\<close> b x by (auto simp: modules_def intro!: exI [of _ "module_messages t @ tr"])
    next
      case False
      then have "k - c \<noteq> 0" by simp
      moreover have "k - (c + 1) = k - c - 1" by simp
      ultimately have u: "unat (k - c) = Suc (unat (k - (c + 1)))" by (metis Suc_pred' unat_gt_0 unat_minus_one word_gt_0)
      obtain tr' where tr': "extends (module_messages t @ tr) tr'"
        "forE (\<lambda>(q, _). module_body m k q) xs (c + 1, module_messages t @ tr) =
         (let ms = modules (map snd xs)
          in if unat (k - (c + 1)) < length ms then Inl (module_of (ms ! unat (k - (c + 1))), tr')
             else Inr (c + 1 + of_nat (length ms), tr'))"
        using IH by blast
      have "extends tr tr'" by (rule extends_trans [OF _ tr'(1)]) simp
      then show ?thesis using True False b x u tr'(2) by (auto simp: modules_def Let_def add.assoc)
    qed
  qed
qed

text \<open>
  (C30) The search for a module by its number, on boot information as the specification lays it out: the start and the
  end of the module and the length of its command line are those of the module tag with that number, counted
  from 0 in the order of the tags; with fewer modules the answer says that there is none. The byte counter of the
  loop cannot go wrong: it never passes the number looked for.
\<close>

theorem find_module_nth:
  assumes "boot_info m mbi ts" and "list_all (\<lambda>t. 8 \<le> length (snd t)) (modules ts)"
  shows "fst (run (find_module m mbi k) tr) =
    ok (if unat k < length (modules ts) then module_of (modules ts ! unat k) else no_module)"
proof -
  let ?xs = "located tag_width (mbi + 8) ts"
  have "tag_at m q t \<and> t \<noteq> end_tag \<and> (fst t = tag_code MODULE \<longrightarrow> 8 \<le> length (snd t))" if "(q, t) \<in> set ?xs" for q t
    using located_tag [OF assms(1) that] assms(2) by (cases t) (auto simp: modules_def list_all_iff)
  from forE_modules [OF this, of ?xs tr k 0] obtain tr' where
    "forE (\<lambda>(q, _). module_body m k q) ?xs (0, tr) = (if unat k < length (modules ts)
       then Inl (module_of (modules ts ! unat k), tr') else Inr (of_nat (length (modules ts)), tr'))"
    by (auto simp: Let_def)
  then show ?thesis
    by (simp add: find_module_def search_tags_walks [OF assms(1)] located_append forE_append
        module_body_end [OF end_tag_at [OF assms(1)]])
qed

theorem find_module_nth_witness:
  "fst (run (find_module sample_memory 0x9000 0) []) =
    ok \<lparr>cmd_len = Some 3, none = False, found_mod = Some \<lparr>mod_start = 0x200000, mod_end = 0x240000\<rparr>\<rparr>
   \<and> fst (run (find_module sample_memory 0x9000 1) []) = ok no_module"
proof -
  have m: "modules sample_tags = [(tag_code MODULE, bytes32 0x200000 @ bytes32 0x240000 @ str ''k64'')]"
    by (simp add: modules_def sample_tags_def)
  have l: "list_all (\<lambda>t. 8 \<le> length (snd t)) (modules sample_tags)" by (simp add: m)
  show ?thesis using find_module_nth [OF sample_boot_info l, of 0 "[]"] find_module_nth [OF sample_boot_info l, of 1 "[]"]
    by (simp add: m module_of_def)
qed

text \<open>The framebuffer.\<close>

definition is_framebuffer_tag :: "mb_tag \<Rightarrow> bool" where
  "is_framebuffer_tag t \<longleftrightarrow> fst t = tag_code FRAMEBUFFER"

text \<open>
  The description of the framebuffer is read from the first tag of type 8; without one the search aborts.
\<close>

theorem find_framebuffer_first:
  assumes "boot_info m mbi ts"
  shows "find_framebuffer m mbi =
    (case find (\<lambda>(_, t). is_framebuffer_tag t) (located tag_width (mbi + 8) ts) of
       None \<Rightarrow> Inl Abort
     | Some (p, t) \<Rightarrow> ok (read_framebuffer_info m p))"
proof -
  have "search_tags m mbi (framebuffer_body m) () =
    ok (Inl (case find (\<lambda>(_, t). is_framebuffer_tag t) (located tag_width (mbi + 8) ts) of
      None \<Rightarrow> (\<lambda>_. Inl Abort) (fold (\<lambda>_ _. ()) ts ())
    | Some (q, t) \<Rightarrow> (\<lambda>q t _. ok (read_framebuffer_info m q)) q t ()))"
    by (rule search_tags_finds [OF assms, of _ is_framebuffer_tag _ "\<lambda>_ _. ()"])
       (simp_all add: framebuffer_body_def is_framebuffer_tag_def Let_def tag_at_end tag_at_type)
  then show ?thesis by (simp add: find_framebuffer_def split: option.split)
qed

lemma tag_next_stays: "t_size (read_tag m q) = 0 \<Longrightarrow> tag_next m q = q"
proof -
  have "(7 :: u32) AND NOT 7 = 0" by (rule bit.conj_cancel_right)
  then show "t_size (read_tag m q) = 0 \<Longrightarrow> tag_next m q = q" by (simp add: tag_next_def)
qed

text \<open>
  (C31) A tag that gives 0 as its size is never passed: with such a tag, of a type that none of the searches looks for,
  behind any number of well-formed tags of other types, all three searches run for ever.
\<close>

theorem tag_of_size_0_hangs:
  assumes "records_at (tag_at m) tag_width (mbi + 8) ts" and "mbi \<noteq> 0" and "16 \<le> read32 m mbi"
    and "list_all (\<lambda>t. t \<noteq> end_tag \<and> fst t \<notin> {3, 8, 14, 15}) ts"
    and "q = mbi + 8 + of_nat (total tag_width ts)"
    and "unat mbi + 8 + total tag_width ts < unat (mbi + read32 m mbi)"
    and "t_size (read_tag m q) = 0" and "t_type (read_tag m q) \<notin> {3, 8, 14, 15}"
  shows "fst (run (find_rsdp m mbi) tr) = Inl Hang \<and> fst (run (find_module m mbi k) tr) = Inl Hang \<and>
    find_framebuffer m mbi = Inl Hang"
proof -
  have "unat (mbi + 8) = unat mbi + 8"
    using assms(6) unat_u32_less [of "mbi + read32 m mbi"] by (simp add: unat_word_ariths)
  then have less: "unat (mbi + 8) + total tag_width ts < unat (mbi + read32 m mbi)" using assms(6) by simp
  have big: "\<not> read32 m mbi < 8 + 8" using assms(3) by (simp add: not_less)
  have quiet: "t_type (read_tag m p) \<notin> {3, 8, 14, 15} \<and> \<not> is_end_tag (read_tag m p)"
    if "(p, t) \<in> set (located tag_width (mbi + 8) ts)" for p t
  proof -
    have t: "t \<in> set ts" using that map_snd_located [of tag_width "mbi + 8" ts] by (metis image_eqI list.set_map snd_conv)
    have "tag_at m p t" by (rule records_at_located [OF assms(1) that])
    then show ?thesis using t assms(4) tag_at_type [of m p t] tag_at_end [of m p t] by (auto simp: list_all_iff)
  qed
  have q: "t_type (read_tag m q) \<notin> {3, 8, 14, 15} \<and> \<not> is_end_tag (read_tag m q)"
    using assms(7,8) by (simp add: is_end_tag_def)
  have stuck: "search_tags m mbi body s = Inl Hang"
    if pass: "\<And>p s. t_type (read_tag m p) \<notin> {3, 8, 14, 15} \<and> \<not> is_end_tag (read_tag m p) \<Longrightarrow> \<exists>s'. body p s = Inr s'"
    for body :: "addr \<Rightarrow> 's \<Rightarrow> 'r + 's" and s
  proof -
    have "walk (tag_next m) (mbi + read32 m mbi) body (mbi + 8) s = None"
      by (rule tags.walk_records_stuck [OF assms(1) less])
         (use pass [OF quiet] pass [OF q] tag_next_stays [OF assms(7)] assms(5) in \<open>blast+\<close>)
    then show ?thesis using assms(2) big by (simp add: search_tags_def tag_first_def add.assoc)
  qed
  show ?thesis
    using stuck [of "rsdp_body m" tr] stuck [of "module_body m k" "(0, tr)"] stuck [of "framebuffer_body m" "()"]
    by (simp add: find_rsdp_def find_module_def find_framebuffer_def rsdp_body_def module_body_def
        framebuffer_body_def Let_def case_prod_beta)
qed

theorem tag_of_size_0_hangs_witness:
  "find_framebuffer (store (\<lambda>_. 0) 0x9000 (bytes32 64 @ bytes32 0 @ tag_bytes (tag_code CMDLINE, str ''maple''))) 0x9000
     = Inl Hang"
proof -
  let ?t = "(tag_code CMDLINE, str ''maple'')"
  let ?bs = "bytes32 64 @ bytes32 0 @ tag_bytes ?t"
  let ?m = "store (\<lambda>_. 0) 0x9000 ?bs"
  have f: "fetch ?m 0x9000 (length ?bs) = ?bs" by (rule fetch_store) (simp add: tag_width_def)
  have r: "read32 ?m 0x9000 = 64" using read32_block [OF f, of 0] by (simp add: tag_width_def)
  have "fetch ?m 0x9008 16 = tag_bytes ?t"
    using fetch_appendD [of ?m "0x9000" "bytes32 64 @ bytes32 0" "tag_bytes ?t"] f by (simp add: tag_width_def)
  then have "tag_at ?m 0x9008 ?t" by (intro tag_at_bytes) (simp_all add: tag_width_def)
  then have at: "records_at (tag_at ?m) tag_width (0x9000 + 8) [?t]" by simp
  have z: "?m (0x9000 + of_nat i) = 0" if "24 \<le> i" "i < 2 ^ 32" for i
    using that by (simp add: store_apply tag_width_def)
  have "read32 ?m 0x9018 = 0" "read32 ?m 0x901C = 0"
    using z [of 24] z [of 25] z [of 26] z [of 27] z [of 28] z [of 29] z [of 30] z [of 31] by (simp_all add: read32_def)
  then have tag: "read_tag ?m 0x9018 = \<lparr>t_type = 0, t_size = 0\<rparr>" by (simp add: read_tag_def)
  show ?thesis
    using tag_of_size_0_hangs [OF at, of "0x9018" "[]" 0] r tag by (simp add: end_tag_def tag_width_def)
qed

text \<open>The C interface for modules has no meaning in any case: it uses a length that was never set.\<close>

theorem get_module_location_undefined:
  "fst (run (find_module m mbi k) tr) = ok r \<Longrightarrow> fst (run (get_module_location m mbi k) tr) = Inl Undefined"
  by (cases "run (find_module m mbi k) tr")
     (simp add: get_module_location_def run_bindS Let_def split: option.split)

text \<open>Every type of tag has its name; other numbers have none.\<close>

theorem type_to_str_names:
  "map (\<lambda>t. type_to_str (tag_code t)) [END, CMDLINE, MODULE, FRAMEBUFFER, ACPI_OLD, ACPI_NEW, EFI64_IH] =
     [''END'', ''CMDLINE'', ''MODULE'', ''FRAMEBUFFER'', ''ACPI_OLD'', ''ACPI_NEW'', ''EFI64_IH'']"
  "20 < n \<Longrightarrow> type_to_str n = ''UNKNOWN_TAG''"
  by (simp_all add: type_to_str_def TAG_NAMES_def word_less_nat_alt)

end
