(* ===== verification/C_Strings_Correct.thy ===== *)
theory C_Strings_Correct
  imports C_Strings
begin

text \<open>
  Correctness of the string routines: each number conversion stores exactly the reference digits, parsing
  inverts printing, comparison is lexicographic, search finds the first occurrence, and the block
  operations copy and fill. The loops are related to whole blocks of memory (\<open>store\<close>, \<open>fetch\<close>).
\<close>

section \<open>Lengths\<close>

lemma strlen_loop_cstr:
  assumes "cstr m p s"
  shows "i \<le> length s \<Longrightarrow> strlen_loop m p (of_nat i) = Some (of_nat (length s))"
proof (induction i rule: inc_induct)
  case base
  show ?case using cstr_end [OF assms] by (subst strlen_loop.simps) simp
next
  case (step i)
  then show ?case using cstr_nonzero [OF assms, of i]
    by (subst strlen_loop.simps) (simp add: add.commute)
qed

lemma strlen_cstr: "cstr m p s \<Longrightarrow> strlen m p = ok (of_nat (length s))"
  using strlen_loop_cstr [of m p s 0] by (simp add: strlen_def)

section \<open>Decimal printing\<close>

lemma digit_char_mod: "digit_char (v mod 10) = 0x30 + of_nat (unat v mod 10)"
proof -
  have "ucast (v mod 10) = (of_nat (unat (v mod 10)) :: u8)" by simp
  then show ?thesis by (simp add: digit_char_def unat_mod)
qed

lemma rev_dec:
  "v \<noteq> 0 \<Longrightarrow> rev (dec (unat v)) = digit_char (v mod 10) #
     (if v div 10 = 0 then [] else rev (dec (unat (v div 10))))"
proof -
  have "v div 10 = 0 \<longleftrightarrow> unat v < 10"
    unfolding unat_eq_0 [symmetric] by (simp add: unat_div div_eq_0_iff)
  then show ?thesis
    by (subst dec.simps) (auto simp: digit_char_mod unat_div)
qed

lemma digit_loop_dec:
  "v \<noteq> 0 \<Longrightarrow> digit_loop v b pos m =
     (pos + of_nat (length (dec (unat v))), store m (b + pos) (rev (dec (unat v))))"
proof (induction v b pos m rule: digit_loop.induct)
  case (1 v b pos m)
  let ?m = "m(b + pos := digit_char (v mod 10))"
  have len: "length (dec (unat v)) = Suc (if v div 10 = 0 then 0 else length (dec (unat (v div 10))))"
    using arg_cong [OF rev_dec [OF 1(2)], of length] by simp
  show ?case
  proof (cases "v div 10 = 0")
    case True
    then show ?thesis using 1(2)
      by (simp add: digit_loop.simps [of v] digit_loop.simps [of 0] rev_dec len word_gt_0 fun_upd_def)
  next
    case False
    have "digit_loop (v div 10) b (pos + 1) ?m =
        (pos + 1 + of_nat (length (dec (unat (v div 10)))),
         store ?m (b + (pos + 1)) (rev (dec (unat (v div 10)))))"
      using 1 False by (simp add: word_gt_0 fun_upd_def)
    then show ?thesis using 1(2) False
      unfolding digit_loop.simps [of v b pos m] by (simp add: rev_dec len word_gt_0 algebra_simps)
  qed
qed

lemma of_nat_addr_eq: "i < 2 ^ 32 \<Longrightarrow> j < 2 ^ 32 \<Longrightarrow> (of_nat i = (of_nat j :: u32)) = (i = j)"
  by (metis offset_of_nat)

lemma addr_as_offset: obtains k where "q = b + (of_nat k :: u32)" "k < 2 ^ 32" "offset b q = k"
  using that [of "offset b q"] unsigned_less [of "q - b"] by (auto simp: offset_def)

lemma reverse_loop_apply:
  "e + 1 < 2 ^ 32 \<Longrightarrow> s \<le> e + 1 \<Longrightarrow> k < 2 ^ 32 \<Longrightarrow>
     reverse_loop b (of_nat s) (of_nat e) m (b + of_nat k) =
       m (b + of_nat (if s \<le> k \<and> k \<le> e then s + e - k else k))"
proof (induction "e - s" arbitrary: s e m rule: less_induct)
  case less
  show ?case
  proof (cases "s < e")
    case False
    then have "\<not> (of_nat s :: u32) < of_nat e" using less.prems
      by (simp add: word_less_nat_alt unat_of_nat)
    moreover have "(if s \<le> k \<and> k \<le> e then s + e - k else k) = k" using False by auto
    ultimately show ?thesis by (simp add: reverse_loop.simps)
  next
    case True
    let ?m = "m(b + of_nat s := m (b + of_nat e), b + of_nat e := m (b + of_nat s))"
    have lt: "(of_nat s :: u32) < of_nat e"
      using True less.prems by (simp add: word_less_nat_alt unat_of_nat)
    have "reverse_loop b (of_nat s) (of_nat e) m (b + of_nat k) =
        reverse_loop b (of_nat (s + 1)) (of_nat (e - 1)) ?m (b + of_nat k)"
      using lt True by (subst reverse_loop.simps) (simp add: of_nat_diff add.commute)
    also have "\<dots> = ?m (b + of_nat (if s + 1 \<le> k \<and> k \<le> e - 1 then s + 1 + (e - 1) - k else k))"
      using True less.prems by (intro less.hyps) auto
    also have "\<dots> = m (b + of_nat (if s \<le> k \<and> k \<le> e then s + e - k else k))"
      using True less.prems by (auto simp: of_nat_addr_eq)
    finally show ?thesis .
  qed
qed

lemma reverse_store:
  assumes "xs \<noteq> []" and "length xs < 2 ^ 32"
  shows "reverse_loop b 0 (of_nat (length xs) - 1) ((store m b (rev xs))(b + of_nat (length xs) := 0)) =
    store m b (xs @ [0])"
proof
  fix q
  obtain k where q: "q = b + of_nat k" "k < 2 ^ 32" "offset b q = k" by (rule addr_as_offset)
  have n: "(of_nat (length xs) - 1 :: u32) = of_nat (length xs - 1)" using assms(1) by (cases xs) simp_all
  have "reverse_loop b (of_nat 0) (of_nat (length xs - 1)) ((store m b (rev xs))(b + of_nat (length xs) := 0)) q
      = ((store m b (rev xs))(b + of_nat (length xs) := 0))
          (b + of_nat (if 0 \<le> k \<and> k \<le> length xs - 1 then 0 + (length xs - 1) - k else k))"
    unfolding q(1) using assms q(2) by (intro reverse_loop_apply) auto
  also have "\<dots> = store m b (xs @ [0]) q"
  proof (cases "k < length xs")
    case True
    then have "of_nat (length xs - 1 - k) \<noteq> (of_nat (length xs) :: u32)"
      using assms by (subst of_nat_addr_eq) auto
    moreover have "k \<le> length xs - 1" using True by linarith
    ultimately show ?thesis using assms q True
      by (simp add: store_apply nth_append rev_nth del: of_nat_diff)
  next
    case False
    then have "\<not> k \<le> length xs - 1" using assms(1) by (cases xs) auto
    then show ?thesis using assms q False
      by (cases "k = length xs") (simp_all add: store_apply of_nat_addr_eq)
  qed
  finally show "reverse_loop b 0 (of_nat (length xs) - 1)
      ((store m b (rev xs))(b + of_nat (length xs) := 0)) q = store m b (xs @ [0]) q"
    by (simp add: n)
qed

lemma length_dec_u32: "length (dec (unat (v :: u32))) \<le> 10"
proof -
  have "unat v < 10 ^ Suc 9" using unsigned_less [of v] by (rule less_le_trans) simp
  then show ?thesis using length_dec_bound [of "unat v" 9] by simp
qed

lemma store_two: "m(b := x, b + 1 := y) = store m b [x, y]"
  by simp

lemma uitoa_store:
  "uitoa v b m = (of_nat (length (dec (unat v))), store m b (dec (unat v) @ [0]))"
proof (cases "v = 0")
  case True
  have "dec 0 = [0x30]" by (simp add: dec.simps)
  then show ?thesis using True by (simp add: uitoa_def)
next
  case False
  have "length (dec (unat v)) < 2 ^ 32" using length_dec_u32 [of v] by simp
  then show ?thesis
    using False reverse_store [of "dec (unat v)" b m] by (simp add: uitoa_def digit_loop_dec)
qed

text \<open>The text of a signed number.\<close>

definition signed_dec :: "int \<Rightarrow> u8 list" where
  "signed_dec v = (if v < 0 then 0x2D # dec (nat (- v)) else dec (nat v))"

lemma unat_of_int_pos: "0 \<le> v \<Longrightarrow> v < 2 ^ 32 \<Longrightarrow> unat (of_int v :: u32) = nat v"
  by (simp add: unat_eq_nat_uint uint_word_of_int_eq take_bit_int_eq_self)

lemma itoa_store:
  assumes "- (2 ^ 31) < v" and "v < 2 ^ 31"
  shows "itoa v b m = ok (of_nat (length (signed_dec v)), store m b (signed_dec v @ [0]))"
proof (cases "v = 0")
  case True
  have "dec 0 = [0x30]" by (simp add: dec.simps)
  then show ?thesis using True by (simp add: itoa_def signed_dec_def)
next
  case False
  define w where "w = (of_int \<bar>v\<bar> :: u32)"
  have w: "unat w = nat \<bar>v\<bar>" unfolding w_def using assms by (intro unat_of_int_pos) auto
  have "w \<noteq> 0" using w False by (auto simp: unat_eq_0 [symmetric] simp del: unat_eq_0)
  then have loop: "digit_loop w b 0 m =
      (of_nat (length (dec (nat \<bar>v\<bar>))), store m b (rev (dec (nat \<bar>v\<bar>))))"
    by (simp add: digit_loop_dec w)
  have len: "length (signed_dec v) < 2 ^ 32"
    using length_dec_u32 [of w] by (simp add: signed_dec_def w abs_if split: if_splits)
  have "(if v < 0 then (of_nat (length (dec (nat \<bar>v\<bar>))) + 1,
           (store m b (rev (dec (nat \<bar>v\<bar>))))(b + of_nat (length (dec (nat \<bar>v\<bar>))) := 0x2D))
         else (of_nat (length (dec (nat \<bar>v\<bar>))), store m b (rev (dec (nat \<bar>v\<bar>))))) =
      (of_nat (length (signed_dec v)), store m b (rev (signed_dec v)))"
    by (simp add: signed_dec_def store_append add.commute)
  then show ?thesis
    using False assms reverse_store [of "signed_dec v" b m] len loop
    by (auto simp: itoa_def w_def Let_def signed_dec_def add_ac split: prod.split if_splits)
qed

section \<open>Parsing\<close>

lemma char_to_uint_digit:
  assumes "is_digit c"
  shows "char_to_uint c \<noteq> CHAR_TO_UINT_INVALID" and "unat (char_to_uint c) = unat c - 48"
proof -
  have c: "48 \<le> unat c" "unat c \<le> 57" using assms by (simp_all add: is_digit_def word_le_nat_alt)
  then show v: "unat (char_to_uint c) = unat c - 48"
    using assms by (simp add: char_to_uint_def unat_sub word_le_nat_alt)
  show "char_to_uint c \<noteq> CHAR_TO_UINT_INVALID"
    using v c by (auto simp: CHAR_TO_UINT_INVALID_def)
qed

lemma is_digit_nonzero: "is_digit c \<Longrightarrow> c \<noteq> 0"
  by (auto simp: is_digit_def)

lemma to_uint_loop_digits:
  assumes "cstr m p s" and "\<And>c. c \<in> set s \<Longrightarrow> is_digit c"
  shows "i \<le> length s \<Longrightarrow> to_uint_loop m (p + of_nat i - 1) pw acc =
    to_uint_loop m (p - 1) (pw * 10 ^ i) (acc + pw * of_nat (dec_value (take i s)))"
proof (induction i arbitrary: pw acc)
  case 0
  then show ?case by (simp add: dec_value_def)
next
  case (Suc i)
  have mi: "m (p + of_nat i) = s ! i" and d: "is_digit (s ! i)"
    using Suc.prems assms cstr_nth [OF assms(1), of i] by simp_all
  have "to_uint_loop m (p + of_nat (Suc i) - 1) pw acc =
      to_uint_loop m (p + of_nat i - 1) (pw * 10) (acc + ucast (char_to_uint (s ! i)) * pw)"
    using mi char_to_uint_digit(1) [OF d] is_digit_nonzero [OF d]
    by (subst to_uint_loop.simps) simp
  also have "\<dots> = to_uint_loop m (p - 1) (pw * 10 * 10 ^ i)
      (acc + ucast (char_to_uint (s ! i)) * pw + pw * 10 * of_nat (dec_value (take i s)))"
    using Suc by simp
  also have "acc + ucast (char_to_uint (s ! i)) * pw + pw * 10 * of_nat (dec_value (take i s)) =
      acc + pw * of_nat (dec_value (take (Suc i) s))"
  proof -
    have "ucast (char_to_uint (s ! i)) = (of_nat (unat (s ! i) - 48) :: u32)"
      unfolding char_to_uint_digit(2) [OF d, symmetric] by simp
    then show ?thesis using Suc.prems
      by (simp add: take_Suc_conv_app_nth algebra_simps)
  qed
  finally show ?case by (simp add: mult.assoc)
qed

lemma string_to_uint_start:
  assumes "cstr m p s" and "\<And>c. c \<in> set s \<Longrightarrow> is_digit c" and "length s < 256"
  shows "string_to_uint m p =
    hang_unless (to_uint_loop m (p - 1) (10 ^ length s) (of_nat (dec_value s)))"
proof -
  have "ucast (ucast (of_nat (length s) :: u32) :: u8) = (of_nat (length s) :: u32)"
    using assms(3) by (simp add: word_eq_iff_unsigned unsigned_ucast_eq unat_of_nat
        take_bit_nat_eq_self word_unat_eq_iff unsigned_take_bit_eq)
  then show ?thesis
    using to_uint_loop_digits [OF assms(1,2), of "length s" 1 0]
    by (simp add: string_to_uint_def strlen_cstr [OF assms(1)])
qed

lemma string_to_uint_value:
  assumes "cstr m p s" and "\<And>c. c \<in> set s \<Longrightarrow> is_digit c" and "length s < 256" and "m (p - 1) = 0"
  shows "string_to_uint m p = ok (of_nat (dec_value s))"
  using assms(4) by (simp add: string_to_uint_start [OF assms(1-3)] to_uint_loop.simps)

section \<open>Hexadecimal printing\<close>

definition hex_char_value :: "u8 \<Rightarrow> nat" where
  "hex_char_value c = (if is_digit c then unat c - 48 else if c \<ge> 0x61 then unat c - 87 else unat c - 55)"

definition hex_value :: "u8 list \<Rightarrow> nat" where
  "hex_value = foldl (\<lambda>v c. 16 * v + hex_char_value c) 0"

lemma hex_value_snoc [simp]: "hex_value (s @ [c]) = 16 * hex_value s + hex_char_value c"
  by (simp add: hex_value_def)

lemma hex_digits_nth:
  assumes "k < 16"
  shows "hex_char_value (hex_digits up ! k) = k" and "hex_digits up ! k \<noteq> 0"
    and "hex_digits up ! k = 0x30 \<longleftrightarrow> k = 0"
proof -
  have "k \<in> set [0..<16]" using assms by simp
  then have "k \<in> {0, 1, 2, 3, 4, 5, 6, 7, 8, 9, 10, 11, 12, 13, 14, 15}"
    by (auto simp: upt_rec numeral_eq_Suc)
  then show "hex_char_value (hex_digits up ! k) = k" "hex_digits up ! k \<noteq> 0"
    "hex_digits up ! k = 0x30 \<longleftrightarrow> k = 0"
    by (auto simp: hex_digits_def hex_char_value_def is_digit_def)
qed

lemma unat_nibble: "unat (v AND 0xF :: u32) = unat v mod 16" "unat (v AND 0xF :: u32) < 16"
proof -
  have "(0xF :: u32) = mask 4" by (simp add: mask_eq_exp_minus_1)
  then have "v AND 0xF = take_bit 4 v" by (simp only: take_bit_eq_mask)
  then show "unat (v AND 0xF :: u32) = unat v mod 16"
    by (simp add: take_bit_eq_mod unat_mod)
  then show "unat (v AND 0xF :: u32) < 16" by simp
qed

lemma unat_drop_4: "unat (drop_bit 4 (v :: u32)) = unat v div 16"
  by (simp add: drop_bit_eq_div unat_div)

lemma nibbles_value: "hex_value (nibbles up n v) = unat v mod 16 ^ n"
proof (induction n arbitrary: v)
  case 0
  then show ?case by (simp add: hex_value_def)
next
  case (Suc n)
  then show ?case
    by (simp add: hex_digits_nth unat_nibble unat_drop_4 mod_mult2_eq [of _ 16 "16 ^ n"])
qed

lemma nibbles_nonzero: "0 \<notin> set (nibbles up n v)"
  by (induction n arbitrary: v) (use hex_digits_nth(2) unat_nibble(2) in \<open>auto dest: sym\<close>)

lemma length_nibbles [simp]: "length (nibbles up n v) = n"
  by (induction n arbitrary: v) simp_all

lemma hex_value_dropWhile: "hex_value (dropWhile (\<lambda>c. c = 0x30) s) = hex_value s"
proof (induction s)
  case (Cons c s)
  have "hex_char_value 0x30 = 0" by (simp add: hex_char_value_def is_digit_def)
  then show ?case using Cons by (simp add: hex_value_def)
qed simp

text \<open>The text of a number in hexadecimal, as \<open>uint_to_hex\<close> stores it.\<close>

definition hex_text :: "bool \<Rightarrow> u32 \<Rightarrow> u8 list" where
  "hex_text up v = (if v = 0 then [0x30] else dropWhile (\<lambda>c. c = 0x30) (nibbles up 8 v))"

lemma uint_to_hex_store:
  "uint_to_hex v b up m = (of_nat (length (hex_text up v)), store m b (hex_text up v @ [0]))"
  by (simp add: uint_to_hex_def hex_text_def Let_def)

lemma ptr_to_hex_same: "ptr_to_hex = uint_to_hex"
  by (intro ext) (simp add: ptr_to_hex_def uint_to_hex_def)

lemma hex_text_props:
  "hex_value (hex_text up v) = unat v" "0 \<notin> set (hex_text up v)" "length (hex_text up v) \<le> 8"
  "hex_text up v \<noteq> []" "v \<noteq> 0 \<Longrightarrow> hd (hex_text up v) \<noteq> 0x30"
proof -
  have "unat v < 16 ^ 8" using unsigned_less [of v] by simp
  then show val: "hex_value (hex_text up v) = unat v"
    by (simp add: hex_text_def hex_value_dropWhile nibbles_value)
       (simp add: hex_value_def hex_char_value_def is_digit_def)
  show "0 \<notin> set (hex_text up v)"
    using nibbles_nonzero by (auto simp: hex_text_def dest: set_dropWhileD)
  show "length (hex_text up v) \<le> 8"
    using length_dropWhile_le [of _ "nibbles up 8 v"] by (simp add: hex_text_def)
  show ne: "hex_text up v \<noteq> []"
  proof
    assume nil: "hex_text up v = []"
    then have "unat v = 0" using val by (simp add: hex_value_def)
    then show False using nil by (simp add: unat_eq_0 hex_text_def)
  qed
  show "v \<noteq> 0 \<Longrightarrow> hd (hex_text up v) \<noteq> 0x30"
    using ne hd_dropWhile [of "\<lambda>c. c = 0x30" "nibbles up 8 v"] by (auto simp: hex_text_def)
qed

section \<open>Comparison and search\<close>

lemma cstr_Nil: "cstr m p [] \<Longrightarrow> m p = 0"
  by (simp add: cstr_def)

lemma cstr_Cons: "cstr m p (c # s) \<Longrightarrow> m p = c \<and> c \<noteq> 0 \<and> cstr m (p + 1) s"
  by (auto simp: cstr_def algebra_simps)

lemma uint_diff:
  fixes a b :: u8
  shows "uint a - uint b = 0 \<longleftrightarrow> a = b" "uint a - uint b < 0 \<longleftrightarrow> a < b"
  by (simp_all add: word_uint_eq_iff word_less_def)

lemma strcmp_loop_stop:
  "\<not> (m p \<noteq> 0 \<and> m p = m q) \<Longrightarrow> strcmp_loop m p q = Some (uint (m p) - uint (m q))"
  by (subst strcmp_loop.simps) auto

lemma strcmp_loop_cstr:
  "cstr m p s \<Longrightarrow> cstr m q t \<Longrightarrow>
     \<exists>r. strcmp_loop m p q = Some r \<and> (r = 0 \<longleftrightarrow> s = t) \<and> (r < 0 \<longleftrightarrow> s < t)"
proof (induction s arbitrary: p q t)
  case Nil
  have p: "m p = 0" using Nil(1) by (rule cstr_Nil)
  show ?case
  proof (cases t)
    case Nil
    then show ?thesis using p Nil.prems(2) by (simp add: strcmp_loop_stop cstr_Nil)
  next
    case (Cons d t')
    then have "m q \<noteq> 0" using Nil.prems(2) cstr_Cons by blast
    then show ?thesis using p Cons strcmp_loop_stop [of m p q] uint_diff [of "m p" "m q"]
      by (auto simp: word_gt_0)
  qed
next
  case (Cons c s)
  then have c: "m p = c" "c \<noteq> 0" "cstr m (p + 1) s" by (auto dest: cstr_Cons)
  show ?case
  proof (cases t)
    case Nil
    then have "m q = 0" using Cons.prems(2) cstr_Nil by blast
    then show ?thesis using c Nil strcmp_loop_stop [of m p q] uint_diff [of "m p" "m q"] by auto
  next
    case (Cons d t')
    then have d: "m q = d" "cstr m (q + 1) t'" using Cons.prems(2) cstr_Cons by blast+
    show ?thesis
    proof (cases "c = d")
      case True
      then have "strcmp_loop m p q = strcmp_loop m (p + 1) (q + 1)"
        using c d by (subst strcmp_loop.simps) simp
      then show ?thesis using Cons.IH [OF c(3) d(2)] Cons True by simp
    next
      case False
      then show ?thesis using c d Cons strcmp_loop_stop [of m p q] uint_diff [of c d] by auto
    qed
  qed
qed

lemma match_loop_fetch: "match_loop m h p n \<longleftrightarrow> fetch m h n = fetch m p n"
  by (induction n arbitrary: h p) auto

lemma needle_len_loop_cstr:
  assumes "cstr m p s"
  shows "i \<le> length s \<Longrightarrow> i \<le> 4096 \<Longrightarrow> needle_len_loop m (p + of_nat i) i =
    (if length s \<le> 4096 then Some (length s) else None)"
proof (induction i rule: inc_induct)
  case base
  then show ?case using cstr_end [OF assms] by (subst needle_len_loop.simps) simp
next
  case (step i)
  then show ?case using cstr_nonzero [OF assms, of i]
    by (subst needle_len_loop.simps) (auto simp: algebra_simps)
qed

text \<open>The needle occurs at position \<open>i\<close> of the haystack's first \<open>l\<close> bytes.\<close>

definition occurs_at :: "mem \<Rightarrow> addr \<Rightarrow> int \<Rightarrow> u8 list \<Rightarrow> int \<Rightarrow> bool" where
  "occurs_at m h l s i \<longleftrightarrow> 0 \<le> i \<and> i + int (length s) \<le> l \<and> fetch m (h + of_int i) (length s) = s"

lemma search_loop_first:
  assumes "fetch m p (length s) = s"
  shows "0 \<le> i \<Longrightarrow> \<forall>j<i. \<not> occurs_at m h l s j \<Longrightarrow>
    (case search_loop m h l p (length s) i of r \<Rightarrow>
      r = - 1 \<and> (\<forall>j. \<not> occurs_at m h l s j) \<or> occurs_at m h l s r \<and> (\<forall>j<r. \<not> occurs_at m h l s j))"
proof (induction "nat (l - int (length s) - i + 1)" arbitrary: i rule: less_induct)
  case less
  show ?case
  proof (cases "i \<le> l - int (length s)")
    case False
    then have "\<not> occurs_at m h l s j" for j
      using less.prems by (cases "j < i") (auto simp: occurs_at_def)
    then show ?thesis using False by (simp add: search_loop.simps)
  next
    case True
    show ?thesis
    proof (cases "occurs_at m h l s i")
      case at: True
      then have "match_loop m (h + of_int i) p (length s)"
        by (simp add: match_loop_fetch occurs_at_def assms)
      then show ?thesis using True at less.prems by (simp add: search_loop.simps [of m h l p "length s" i])
    next
      case nat: False
      then have no: "\<not> match_loop m (h + of_int i) p (length s)"
        using True less.prems by (simp add: match_loop_fetch occurs_at_def assms)
      have "\<forall>j<i + 1. \<not> occurs_at m h l s j"
        using less.prems(2) nat by (metis zle_add1_eq_le order_le_less)
      then show ?thesis
        using less.hyps [of "i + 1"] less.prems True no
        by (simp add: search_loop.simps [of m h l p "length s" i])
    qed
  qed
qed

section \<open>Block operations\<close>

lemma copy_loop_blocks:
  assumes "unat n \<le> offset d s" and "unat n \<le> offset s d"
  shows "i \<le> unat n \<Longrightarrow> copy_loop d s (of_nat i) n (store m d (fetch m s i)) = store m d (fetch m s (unat n))"
proof (induction i rule: inc_induct)
  case base
  show ?case by (subst copy_loop.simps) simp
next
  case (step i)
  let ?m = "store m d (fetch m s i)"
  have i: "i < 2 ^ 32" using step(2) unat_u32_less [of n] by (rule less_trans)
  have "offset d (s + of_nat i) \<ge> i"
  proof (rule ccontr)
    assume "\<not> ?thesis"
    then have lt: "offset d (s + of_nat i) < i" by simp
    have "s + of_nat i = d + of_nat (offset d (s + of_nat i))" by (simp add: offset_def)
    then have "d = s + of_nat (i - offset d (s + of_nat i))"
      using lt by (simp add: of_nat_diff algebra_simps)
    then have "offset s d = i - offset d (s + of_nat i)"
      using i by (metis offset_of_nat diff_le_self le_less_trans)
    then show False using assms(2) step(2) by simp
  qed
  then have "?m (s + of_nat i) = m (s + of_nat i)"
    using i by (simp add: store_apply)
  moreover have "fetch m s (Suc i) = fetch m s i @ [m (s + of_nat i)]"
    using fetch_add [of m s i 1] by simp
  ultimately have "store m d (fetch m s (Suc i)) = ?m(d + of_nat i := ?m (s + of_nat i))"
    by (simp add: store_append)
  moreover have "(of_nat i :: u32) < n"
    using step(2) i by (simp add: word_less_nat_alt unat_of_nat)
  ultimately show ?case using step(3) by (subst copy_loop.simps) (simp add: add.commute fun_upd_def)
qed

lemma memcpy_loop: "unat n \<le> offset d s \<Longrightarrow> unat n \<le> offset s d \<Longrightarrow>
    copy_loop d s 0 n m = store m d (fetch m s (unat n))"
  using copy_loop_blocks [of n d s 0 m] by simp

lemma fill_loop_store: "i \<le> unat n \<Longrightarrow>
    fill_loop d v (of_nat i) n (store m d (replicate i v)) = store m d (replicate (unat n) v)"
proof (induction i rule: inc_induct)
  case base
  show ?case by (subst fill_loop.simps) simp
next
  case (step i)
  have i: "i < 2 ^ 32" using step(2) unat_u32_less [of n] by (rule less_trans)
  have "(of_nat i :: u32) < n"
    using step(2) i by (simp add: word_less_nat_alt unat_of_nat)
  moreover have "store m d (replicate (Suc i) v) = (store m d (replicate i v))(d + of_nat i := v)"
    using store_append [of m d "replicate i v" "[v]"] by (simp add: replicate_append_same)
  ultimately show ?case using step(3) by (subst fill_loop.simps) (simp add: add.commute fun_upd_def)
qed

section \<open>Correctness of the routines\<close>

lemma cstr_dec: "cstr (store m b (dec (unat (v :: u32)) @ [0])) b (dec (unat v))"
  using dec_digits is_digit_nonzero length_dec_u32 [of v] by (intro cstr_store) auto

lemma offset_below: "offset b (b - 1) = 2 ^ 32 - 1"
  by (simp add: offset_def unsigned_minus_1_eq_mask mask_eq_exp_minus_1)

text \<open>
  (C37) Parsing inverts printing: for every 32-bit number, \<open>uitoa\<close> stores a NUL-terminated string from
  which \<open>string_to_uint\<close> gives the number back, and returns the string's length, provided the byte
  just below the buffer is NUL (the parser scans down to it).
\<close>

theorem uitoa_string_to_uint:
  assumes "m (b - 1) = 0"
  shows "string_to_uint (snd (uitoa v b m)) b = ok v \<and>
         strlen (snd (uitoa v b m)) b = ok (fst (uitoa v b m))"
proof -
  have len: "length (dec (unat v)) < 256" using length_dec_u32 [of v] by simp
  have below: "store m b (dec (unat v) @ [0]) (b - 1) = 0"
    using len assms by (simp add: store_apply offset_below)
  show ?thesis
    using string_to_uint_value [OF cstr_dec dec_digits len below] strlen_cstr [OF cstr_dec]
    by (simp add: uitoa_store)
qed

theorem uitoa_string_to_uint_witness:
  "string_to_uint (snd (uitoa 90210 0x7C00 (\<lambda>_. 0))) 0x7C00 = ok 90210"
  using uitoa_string_to_uint [of "\<lambda>_. 0" "0x7C00" 90210] by simp

text \<open>
  \<open>string_to_uint\<close> depends on the byte below the string: for a string of fewer than 256 digits
  preceded by a byte that is neither NUL nor a digit, the result is 0xFFFFFFFF (the error value)
  instead of the number.
\<close>

theorem string_to_uint_reads_below:
  assumes "cstr m p s" and "list_all is_digit s" and "length s < 256"
    and "m (p - 1) \<noteq> 0" and "\<not> is_digit (m (p - 1))"
  shows "string_to_uint m p = ok (- 1)"
proof -
  have "char_to_uint (m (p - 1)) = CHAR_TO_UINT_INVALID" using assms(5) by (simp add: char_to_uint_def)
  then show ?thesis
    using assms(2,4) string_to_uint_start [OF assms(1) _ assms(3)]
    by (simp add: list_all_iff to_uint_loop.simps)
qed

theorem string_to_uint_reads_below_witness:
  "string_to_uint ((\<lambda>_. 0)(0x1000 := 0x3A, 0x1001 := 0x34, 0x1002 := 0x32)) 0x1001 = ok (- 1)"
  by (rule string_to_uint_reads_below [of _ _ "[0x34, 0x32]"]) (simp_all add: cstr_def is_digit_def)

text \<open>
  \<open>itoa\<close> prints every \<open>int\<close> but \<open>INT_MIN\<close> (whose negation C leaves undefined): it stores the sign
  and the decimal digits as a NUL-terminated string, returns its length, and changes no byte
  outside the string and its NUL.
\<close>

theorem itoa_prints:
  assumes "- (2 ^ 31) < v" and "v < 2 ^ 31"
  shows "\<exists>m' s. itoa v b m = ok (of_nat (length s), m') \<and> cstr m' b s \<and>
    (if v < 0 then hd s = chr CHR ''-'' \<and> dec_value (tl s) = nat (- v) \<and> list_all is_digit (tl s)
     else dec_value s = nat v \<and> list_all is_digit s) \<and>
    (\<forall>q. offset b q > length s \<longrightarrow> m' q = m q)"
proof (intro exI conjI)
  have "nat \<bar>v\<bar> < 10 ^ Suc 9" using assms by (auto simp: abs_if)
  then have "length (signed_dec v) \<le> 11"
    using length_dec_bound [of "nat \<bar>v\<bar>" 9] by (auto simp: signed_dec_def abs_if split: if_splits)
  then have len: "length (signed_dec v) < 2 ^ 32" by simp
  show "itoa v b m = ok (of_nat (length (signed_dec v)), store m b (signed_dec v @ [0]))"
    by (rule itoa_store [OF assms])
  show "cstr (store m b (signed_dec v @ [0])) b (signed_dec v)"
    using len dec_digits is_digit_nonzero by (intro cstr_store) (auto simp: signed_dec_def)
  show "if v < 0 then hd (signed_dec v) = chr CHR ''-'' \<and> dec_value (tl (signed_dec v)) = nat (- v) \<and>
      list_all is_digit (tl (signed_dec v))
    else dec_value (signed_dec v) = nat v \<and> list_all is_digit (signed_dec v)"
    using dec_digits by (simp add: signed_dec_def list_all_iff)
  show "\<forall>q. offset b q > length (signed_dec v) \<longrightarrow> store m b (signed_dec v @ [0]) q = m q"
    using len by (simp add: store_apply)
qed

theorem itoa_prints_witness:
  "\<exists>m' s. itoa (- 2147483647) 0x500 (\<lambda>_. 7) = ok (of_nat (length s), m') \<and> cstr m' 0x500 s \<and>
     dec_value (tl s) = 2147483647"
  using itoa_prints [of "- 2147483647" "0x500" "\<lambda>_. 7"] by auto

text \<open>
  \<open>uint_to_hex\<close> and \<open>ptr_to_hex\<close> store a NUL-terminated string of at most eight hexadecimal digits
  with the value of the number and no leading zero, and return its length.
\<close>

theorem uint_to_hex_prints:
  "\<exists>m' s. uint_to_hex v b up m = (of_nat (length s), m') \<and> ptr_to_hex v b up m = (of_nat (length s), m') \<and>
     cstr m' b s \<and> hex_value s = unat v \<and> length s \<le> 8 \<and>
     (if v = 0 then s = [chr CHR ''0''] else hd s \<noteq> chr CHR ''0'')"
proof (intro exI conjI)
  show "uint_to_hex v b up m = (of_nat (length (hex_text up v)), store m b (hex_text up v @ [0]))"
    by (rule uint_to_hex_store)
  then show "ptr_to_hex v b up m = (of_nat (length (hex_text up v)), store m b (hex_text up v @ [0]))"
    by (simp add: ptr_to_hex_same)
  show "cstr (store m b (hex_text up v @ [0])) b (hex_text up v)"
    using hex_text_props(2,3) [of up v] by (intro cstr_store) auto
  show "if v = 0 then hex_text up v = [chr CHR ''0''] else hd (hex_text up v) \<noteq> chr CHR ''0''"
    using hex_text_props(5) [where v = v and up = up] by (simp add: hex_text_def)
qed (rule hex_text_props)+

text \<open>
  \<open>strcmp\<close> on two NUL-terminated strings returns, with a result that is zero exactly when they are
  equal and negative exactly when the first is lexicographically smaller by unsigned bytes.
\<close>

theorem strcmp_orders:
  assumes "cstr m p s" and "cstr m q t"
  shows "\<exists>r. strcmp m p q = ok r \<and> (r = 0 \<longleftrightarrow> s = t) \<and> (r < 0 \<longleftrightarrow> s < t)"
  using strcmp_loop_cstr [OF assms] by (auto simp: strcmp_def)

theorem strcmp_orders_witness:
  "\<exists>r. strcmp ((\<lambda>_. 0)(0x100 := 0x61, 0x200 := 0xE9)) 0x100 0x200 = ok r \<and> r < 0"
  using strcmp_orders [of "(\<lambda>_. 0)(0x100 := 0x61, 0x200 := 0xE9)" "0x100" "[0x61]" "0x200" "[0xE9]"]
  by (auto simp: cstr_def)

text \<open>
  \<open>find_string_offset\<close> on valid arguments finds the first occurrence: it returns the least offset at
  which the needle lies within the haystack, and -1 exactly when there is none.
\<close>

theorem find_string_offset_first:
  assumes "h \<noteq> 0" and "p \<noteq> 0" and "0 < l" and "cstr m p s" and "s \<noteq> []" and "length s \<le> 4096"
  shows "find_string_offset m h l p = - 1 \<and> (\<forall>j. \<not> occurs_at m h l s j) \<or>
    occurs_at m h l s (find_string_offset m h l p) \<and>
    (\<forall>j<find_string_offset m h l p. \<not> occurs_at m h l s j)"
proof -
  have "needle_len_loop m p 0 = Some (length s)"
    using needle_len_loop_cstr [OF assms(4), of 0] assms(6) by simp
  then have "find_string_offset m h l p = search_loop m h l p (length s) 0"
    using assms by (simp add: find_string_offset_def)
  moreover have "fetch m p (length s) = s" using assms(4) by (simp add: cstr_def)
  moreover have "\<forall>j<0. \<not> occurs_at m h l s j" by (simp add: occurs_at_def)
  ultimately show ?thesis using search_loop_first [of m p s 0 h l] by simp
qed

theorem find_string_offset_first_witness:
  "find_string_offset ((\<lambda>_. 0x41)(0x101 := 0x42, 0x200 := 0x42, 0x201 := 0)) 0x100 3 0x200 = 1"
proof -
  let ?m = "(\<lambda>_. 0x41)(0x101 := 0x42, 0x200 := 0x42, 0x201 := 0) :: mem"
  have at: "occurs_at ?m 0x100 3 [0x42] j \<longleftrightarrow> j = 1" for j
  proof
    assume j: "occurs_at ?m 0x100 3 [0x42] j"
    then have "j = 0 \<or> j = 1 \<or> j = 2" by (auto simp: occurs_at_def)
    then show "j = 1" using j by (elim disjE) (simp_all add: occurs_at_def)
  qed (simp add: occurs_at_def)
  have "cstr ?m 0x200 [0x42]" by (simp add: cstr_def)
  then show ?thesis
    using find_string_offset_first [of "0x100" "0x200" 3 ?m "[0x42]"] by (simp add: at del: fun_upd_apply)
qed

text \<open>
  With its debug check, \<open>memcpy\<close> is a faithful copy: for two regions that do not reach the end of
  the address space, it either aborts on an overlap or returns the destination pointer with the
  destination holding the old source bytes and every other byte unchanged.
\<close>

theorem memcpy_copies:
  assumes "memcpy True d s n m = ok (r, m')" and "d \<noteq> s"
    and "unat d + unat n < 2 ^ 32" and "unat s + unat n < 2 ^ 32"
  shows "r = d \<and> fetch m' d (unat n) = fetch m s (unat n) \<and>
    (\<forall>q. unat n \<le> offset d q \<longrightarrow> m' q = m q)"
proof -
  have add: "unat (x + n) = unat x + unat n" if "unat x + unat n < 2 ^ 32" for x :: u32
    using that by (simp add: unat_word_ariths)
  have ord: "\<not> (d > s \<and> d < s + n \<or> s > d \<and> s < d + n)" and out: "r = d" "m' = copy_loop d s 0 n m"
    using assms(1) by (auto simp: memcpy_def split: if_splits)
  have sep: "unat n \<le> offset d s \<and> unat n \<le> offset s d"
  proof (cases "s < d")
    case True
    then have "unat s + unat n \<le> unat d" using ord add assms(3,4) by (auto simp: word_less_nat_alt)
    moreover have "offset s d = unat d - unat s"
      using True by (simp add: offset_def unat_sub word_le_nat_alt word_less_nat_alt)
    moreover have "offset d s = 2 ^ 32 - (unat d - unat s)"
      using True by (simp add: offset_def unat_sub_if_size word_size word_less_nat_alt)
    ultimately show ?thesis using assms(3) by auto
  next
    case False
    then have lt: "d < s" using assms(2) by auto
    then have "unat d + unat n \<le> unat s" using ord add assms(3,4) by (auto simp: word_less_nat_alt)
    moreover have "offset d s = unat s - unat d"
      using lt by (simp add: offset_def unat_sub word_le_nat_alt word_less_nat_alt)
    moreover have "offset s d = 2 ^ 32 - (unat s - unat d)"
      using lt by (simp add: offset_def unat_sub_if_size word_size word_less_nat_alt)
    ultimately show ?thesis using assms(4) by auto
  qed
  have len: "length (fetch m s (unat n)) \<le> 2 ^ 32" using assms(3) by simp
  show ?thesis
    using out sep memcpy_loop fetch_store [OF len, of m d] len by (simp add: store_apply)
qed

theorem memcpy_copies_witness:
  "\<exists>m'. memcpy True 0x2000 0x1000 512 (\<lambda>a. ucast a) = ok (0x2000, m') \<and>
     fetch m' 0x2000 512 = fetch (\<lambda>a. ucast a) 0x1000 512"
  using memcpy_copies [of "0x2000" "0x1000" 512 "\<lambda>a. ucast a"] by (simp add: memcpy_def)

end
