(* ===== verification/Acpi.thy ===== *)
theory Acpi
  imports Multiboot C_Strings_Correct
begin

text \<open>
  The ACPI tables (\<open>firmware/acpi/acpi_shared.hpp\<close>, \<open>firmware/acpi/acpi.hpp\<close>, \<open>firmware/acpi/acpi.cpp\<close>): the
  header every table starts with, its checksum, the root table \<open>RSDT\<close> of 32-bit addresses, and the search of a
  table by its signature. The literals \<open>"APIC"\<close> and \<open>"FACP"\<close> lie in memory at addresses the linker
  chooses: they are parameters. Messages go to the log; of a text that is printed with a length the log has
  that many characters.
\<close>

section \<open>Data\<close>

record ACPISDTHeader =
  Signature :: "u8 list"
  Length :: u32
  Revision :: u8
  Checksum :: u8
  OEMID :: "u8 list"
  OEMTableID :: "u8 list"
  OEMRevision :: u32
  CreatorID :: u32
  CreatorRevision :: u32

definition header_size :: u32 where [const_defs]: "header_size = 36"

definition read_header :: "mem \<Rightarrow> addr \<Rightarrow> ACPISDTHeader" where
  "read_header m p =
     \<lparr>Signature = fetch m p 4, Length = read32 m (p + 4), Revision = m (p + 8), Checksum = m (p + 9),
      OEMID = fetch m (p + 10) 6, OEMTableID = fetch m (p + 16) 8, OEMRevision = read32 m (p + 24),
      CreatorID = read32 m (p + 28), CreatorRevision = read32 m (p + 32)\<rparr>"

record RSDP =
  rsdp_Signature :: "u8 list"
  rsdp_Checksum :: u8
  rsdp_OEMID :: "u8 list"
  rsdp_Revision :: u8
  RsdtAddress :: addr

definition read_rsdp :: "mem \<Rightarrow> addr \<Rightarrow> RSDP" where
  "read_rsdp m p =
     \<lparr>rsdp_Signature = fetch m p 8, rsdp_Checksum = m (p + 8), rsdp_OEMID = fetch m (p + 9) 6,
      rsdp_Revision = m (p + 15), RsdtAddress = read32 m (p + 16)\<rparr>"

text \<open>\<open>rsdt->Entries[i]\<close>: the addresses follow the header.\<close>

definition rsdt_entry :: "mem \<Rightarrow> addr \<Rightarrow> nat \<Rightarrow> addr" where
  "rsdt_entry m rsdt i = read32 m (rsdt + header_size + 4 * of_nat i)"

section \<open>Operations\<close>

definition doChecksum :: "mem \<Rightarrow> addr \<Rightarrow> bool" where
  "doChecksum m tableHeader \<longleftrightarrow> sum_loop m tableHeader (unat (Length (read_header m tableHeader))) 0 = 0"

abbreviation KT :: "u8 list \<Rightarrow> karg" where
  "KT bs \<equiv> KS (map (\<lambda>b. char_of (unat b)) bs)"

definition print_rsdp :: "mem \<Rightarrow> addr \<Rightarrow> (iolog, unit) state" where
  "print_rsdp m p =
     (if p = 0 then kprintf ''RSDP: NULL\<newline>'' []
      else do {
        kprintf ''RSDP {\<newline>'' [];
        kprintf ''  Signature: \"%s;8\"\<newline>'' [KT (rsdp_Signature (read_rsdp m p))];
        kprintf ''  Checksum: %u\<newline>'' [KU (ucast (rsdp_Checksum (read_rsdp m p)))];
        kprintf ''  OEMID: \"%s;6\"\<newline>'' [KT (rsdp_OEMID (read_rsdp m p))];
        kprintf ''  Revision: %u\<newline>'' [KU (ucast (rsdp_Revision (read_rsdp m p)))];
        kprintf ''  RsdtAddress: %h\<newline>'' [KU (RsdtAddress (read_rsdp m p))];
        kprintf ''}\<newline>'' []
      })"

definition print_header :: "ACPISDTHeader option \<Rightarrow> string \<Rightarrow> (iolog, unit) state" where
  "print_header header table_name = (case header of
     None \<Rightarrow> kprintf ''%s Header: NULL\<newline>'' [KS table_name]
   | Some h \<Rightarrow> do {
       kprintf ''%s Header {\<newline>'' [KS table_name];
       kprintf ''  Signature: \"%s;4\"\<newline>'' [KT (Signature h)];
       kprintf ''  Length: %u bytes\<newline>'' [KU (Length h)];
       kprintf ''  Revision: %u\<newline>'' [KU (ucast (Revision h))];
       kprintf ''  Checksum: %u\<newline>'' [KU (ucast (Checksum h))];
       kprintf ''  OEMID: \"%s;6\"\<newline>'' [KT (OEMID h)];
       kprintf ''  OEMTableID: \"%s;8\"\<newline>'' [KT (OEMTableID h)];
       kprintf ''  OEMRevision: %u\<newline>'' [KU (OEMRevision h)];
       kprintf ''  CreatorID: %u\<newline>'' [KU (CreatorID h)];
       kprintf ''  CreatorRevision: %u\<newline>'' [KU (CreatorRevision h)];
       kprintf ''}\<newline>'' []
     })"

definition print_rsdt :: "mem \<Rightarrow> addr \<Rightarrow> (iolog, unit) state" where
  "print_rsdt m rsdt =
     (if rsdt = 0 then kprintf ''RSDT: NULL\<newline>'' []
      else print_header (Some (read_header m rsdt)) ''RSDT'')"

text \<open>
  \<open>(rsdt->header.Length - sizeof(rsdt->header)) / 4\<close> is computed in \<open>size_t\<close>; the quotient always fits an \<open>int\<close>.
\<close>

definition rsdt_entries :: "mem \<Rightarrow> addr \<Rightarrow> nat" where
  "rsdt_entries m rsdt = unat ((Length (read_header m rsdt) - header_size) div 4)"

function table_loop :: "bool \<Rightarrow> mem \<Rightarrow> addr \<Rightarrow> addr \<Rightarrow> nat \<Rightarrow> nat \<Rightarrow> addr exec" where
  "table_loop debug m sig rsdt entries i =
     (if i < entries then
        let h = rsdt_entry m rsdt i
        in bindE (strncmp debug m h sig 4) (\<lambda>c.
             if c = 0 then ok h else table_loop debug m sig rsdt entries (i + 1))
      else ok 0)"
  by pat_completeness auto
termination
  by (relation "measure (\<lambda>(_, _, _, _, n, i). n - i)") auto

declare table_loop.simps [simp del]

definition findFACP :: "bool \<Rightarrow> mem \<Rightarrow> addr \<Rightarrow> addr \<Rightarrow> addr exec" where
  "findFACP debug m lit_FACP RootSDT = table_loop debug m lit_FACP RootSDT (rsdt_entries m RootSDT) 0"

definition findMADT :: "bool \<Rightarrow> mem \<Rightarrow> addr \<Rightarrow> addr \<Rightarrow> addr exec" where
  "findMADT debug m lit_APIC rsdt = table_loop debug m lit_APIC rsdt (rsdt_entries m rsdt) 0"

section \<open>The search\<close>

lemma strncmp_loop_0:
  assumes "\<forall>j < n. m (b + of_nat j) \<noteq> 0" and "n < 2 ^ 32"
  shows "i \<le> n \<Longrightarrow> strncmp_loop m a b (of_nat i) (of_nat n) = 0 \<longleftrightarrow>
    (\<forall>j. i \<le> j \<and> j < n \<longrightarrow> m (a + of_nat j) = m (b + of_nat j))"
proof (induction i rule: inc_induct)
  case base
  show ?case by (subst strncmp_loop.simps) auto
next
  case (step i)
  have less: "(of_nat i :: u32) < of_nat n" using step.hyps assms(2) by (simp add: word_less_nat_alt unat_of_nat)
  have nxt: "(of_nat i :: u32) + 1 = of_nat (Suc i)" by simp
  have split: "(\<forall>j. i \<le> j \<and> j < n \<longrightarrow> P j) \<longleftrightarrow> P i \<and> (\<forall>j. Suc i \<le> j \<and> j < n \<longrightarrow> P j)" for P
    using step.hyps by (metis Suc_le_eq le_neq_implies_less le_refl less_imp_le)
  show ?case
    unfolding split [of "\<lambda>j. m (a + of_nat j) = m (b + of_nat j)"] step.IH [symmetric]
    using less step.hyps assms(1) by (subst strncmp_loop.simps) (auto simp: nxt dest: unsigned_word_eqI)
qed

lemma strncmp_signature:
  assumes "fetch m lit 4 = sig" and "0 \<notin> set sig" and "h \<noteq> 0" and "lit \<noteq> 0"
  shows "strncmp debug m h lit 4 = ok (strncmp_loop m h lit 0 4) \<and>
    (strncmp_loop m h lit 0 4 = 0 \<longleftrightarrow> fetch m h 4 = sig)"
proof -
  have "\<forall>j < 4. m (lit + of_nat j) \<noteq> 0"
    using assms(1,2) nth_fetch [of _ 4 m lit] by (metis length_fetch nth_mem)
  then have "strncmp_loop m h lit 0 4 = 0 \<longleftrightarrow> (\<forall>j < 4. m (h + of_nat j) = m (lit + of_nat j))"
    using strncmp_loop_0 [of 4 m lit 0 h] by simp
  also have "\<dots> \<longleftrightarrow> fetch m h 4 = fetch m lit 4"
    by (auto simp: list_eq_iff_nth_eq nth_fetch)
  finally show ?thesis using assms by (simp add: strncmp_def)
qed

text \<open>What both searches return: the first table with the signature.\<close>

definition first_table :: "mem \<Rightarrow> u8 list \<Rightarrow> addr \<Rightarrow> addr" where
  "first_table m sig rsdt =
     (case find (\<lambda>h. Signature (read_header m h) = sig) (map (rsdt_entry m rsdt) [0..<rsdt_entries m rsdt]) of
        None \<Rightarrow> 0 | Some h \<Rightarrow> h)"

lemma table_loop_first:
  assumes "cstr m lit sig" and "length sig = 4" and "lit \<noteq> 0" and "\<forall>i < rsdt_entries m rsdt. rsdt_entry m rsdt i \<noteq> 0"
  shows "table_loop debug m lit rsdt (rsdt_entries m rsdt) 0 = ok (first_table m sig rsdt)"
proof -
  let ?n = "rsdt_entries m rsdt"
  let ?is = "\<lambda>h. Signature (read_header m h) = sig"
  have lit: "fetch m lit 4 = sig" "0 \<notin> set sig" using assms(1,2) by (simp_all add: cstr_def)
  have cmp: "strncmp debug m (rsdt_entry m rsdt i) lit 4 = ok (strncmp_loop m (rsdt_entry m rsdt i) lit 0 4) \<and>
      (strncmp_loop m (rsdt_entry m rsdt i) lit 0 4 = 0 \<longleftrightarrow> ?is (rsdt_entry m rsdt i))" if "i < ?n" for i
    using strncmp_signature [OF lit] assms(3,4) that by (simp add: read_header_def)
  have "i \<le> ?n \<Longrightarrow> table_loop debug m lit rsdt ?n i =
      ok (case find ?is (map (rsdt_entry m rsdt) [i..<?n]) of None \<Rightarrow> 0 | Some h \<Rightarrow> h)" for i
  proof (induction i rule: inc_induct)
    case base
    show ?case by (subst table_loop.simps) simp
  next
    case (step i)
    then show ?case using cmp [of i] by (subst table_loop.simps) (simp add: upt_conv_Cons Let_def)
  qed
  then show ?thesis by (simp add: first_table_def)
qed

text \<open>
  The search for the interrupt controller table returns the address of the first table of the root table whose
  signature is \<open>APIC\<close>, and 0 when there is none; likewise the search for the fixed description table with
  \<open>FACP\<close>. The addresses in the root table are not 0.
\<close>

theorem findMADT_first:
  assumes "cstr m lit (str ''APIC'')" and "cstr m lit' (str ''FACP'')" and "lit \<noteq> 0" and "lit' \<noteq> 0"
    and "\<forall>i < rsdt_entries m rsdt. rsdt_entry m rsdt i \<noteq> 0"
  shows "findMADT debug m lit rsdt = ok (first_table m (str ''APIC'') rsdt) \<and>
    findFACP debug m lit' rsdt = ok (first_table m (str ''FACP'') rsdt)"
  unfolding findMADT_def findFACP_def
  using table_loop_first [OF assms(1) _ assms(3,5)] table_loop_first [OF assms(2) _ assms(4,5)] by simp

definition sample_rsdt :: "u8 list" where
  "sample_rsdt = str ''RSDT'' @ bytes32 44 @ replicate 28 0 @ bytes32 0x3000 @ bytes32 0x4000"

definition sample_acpi_blocks :: "(addr \<times> u8 list) list" where
  "sample_acpi_blocks = [(0x100, str ''APIC'' @ [0]), (0x200, str ''FACP'' @ [0]), (0x2000, sample_rsdt),
     (0x3000, str ''FACP''), (0x4000, str ''APIC'')]"

definition sample_acpi :: mem where
  "sample_acpi = store_blocks (\<lambda>_. 0) sample_acpi_blocks"

lemma all_less_two: "(\<forall>i < (2 :: nat). P i) \<longleftrightarrow> P 0 \<and> P 1"
  by (metis One_nat_def less_2_cases_iff)

lemma length_sample_rsdt [simp]: "length sample_rsdt = 44"
  by (simp add: sample_rsdt_def)

lemma sample_acpi_block:
  assumes "i < 5" and "sample_acpi_blocks ! i = (p, bs)"
  shows "fetch sample_acpi p (length bs) = bs"
  unfolding sample_acpi_def
proof (rule fetch_blocks)
  show "sample_acpi_blocks = take i sample_acpi_blocks @ (p, bs) # drop (Suc i) sample_acpi_blocks"
    using id_take_nth_drop [of i sample_acpi_blocks] assms by (simp add: sample_acpi_blocks_def)
  consider "i = 0" | "i = 1" | "i = 2" | "i = 3" | "i = 4" using assms(1) by linarith
  then show "list_all (apart (p, bs)) (drop (Suc i) sample_acpi_blocks)" "length bs \<le> 2 ^ 32"
    using assms(2) by (cases; auto simp: sample_acpi_blocks_def apart_def offset_def)+
qed

lemma sample_acpi_tables:
  "rsdt_entries sample_acpi 0x2000 = 2" "rsdt_entry sample_acpi 0x2000 0 = 0x3000" "rsdt_entry sample_acpi 0x2000 1 = 0x4000"
proof -
  have "fetch sample_acpi 0x2000 (length sample_rsdt) = sample_rsdt"
    by (rule sample_acpi_block [of 2]) (simp_all add: sample_acpi_blocks_def)
  note r = read32_block [OF this]
  show "rsdt_entries sample_acpi 0x2000 = 2"
    using r [of 4] by (simp add: rsdt_entries_def header_size_def read_header_def sample_rsdt_def)
  show "rsdt_entry sample_acpi 0x2000 0 = 0x3000"
    using r [of 36] by (simp add: rsdt_entry_def header_size_def sample_rsdt_def)
  show "rsdt_entry sample_acpi 0x2000 1 = 0x4000"
    using r [of 40] by (simp add: rsdt_entry_def header_size_def sample_rsdt_def)
qed

theorem findMADT_first_witness:
  "findMADT True sample_acpi 0x100 0x2000 = ok 0x4000 \<and> findFACP True sample_acpi 0x200 0x2000 = ok 0x3000"
proof -
  have c: "cstr sample_acpi 0x100 (str ''APIC'')" "cstr sample_acpi 0x200 (str ''FACP'')"
    by (rule cstr_fetch, rule sample_acpi_block [of 0], simp_all add: sample_acpi_blocks_def)
       (rule cstr_fetch, rule sample_acpi_block [of 1], simp_all add: sample_acpi_blocks_def)
  have n: "\<forall>i < rsdt_entries sample_acpi 0x2000. rsdt_entry sample_acpi 0x2000 i \<noteq> 0"
    using sample_acpi_tables by (simp add: all_less_two)
  have sig: "Signature (read_header sample_acpi 0x3000) = str ''FACP''" "Signature (read_header sample_acpi 0x4000) = str ''APIC''"
    using sample_acpi_block [of 3 "0x3000" "str ''FACP''"] sample_acpi_block [of 4 "0x4000" "str ''APIC''"]
    by (simp_all add: read_header_def sample_acpi_blocks_def fetch_4)
  have two: "[0..<2] = [0, 1 :: nat]" by (simp add: upt_rec)
  have "first_table sample_acpi (str ''APIC'') 0x2000 = 0x4000" "first_table sample_acpi (str ''FACP'') 0x2000 = 0x3000"
    using sig by (simp_all add: first_table_def sample_acpi_tables [simplified] two)
  then show ?thesis using findMADT_first [OF c _ _ n, of True] by simp
qed

text \<open>
  The number of addresses in the root table is computed without looking at the size of the table: for a table
  shorter than its header it is more than a thousand million.
\<close>

theorem rsdt_entries_of_short_table:
  "Length (read_header m rsdt) < 36 \<Longrightarrow> 10 ^ 9 < rsdt_entries m rsdt"
proof -
  let ?l = "Length (read_header m rsdt)"
  assume "?l < 36"
  then have "unat (?l - 36) = 2 ^ 32 - (36 - unat ?l)"
    by (simp add: unat_sub_if' word_le_nat_alt word_less_nat_alt)
  then show ?thesis by (simp add: rsdt_entries_def header_size_def unat_div)
qed

end
