(* ===== verification/Madt.thy ===== *)
theory Madt
  imports Acpi
begin

text \<open>
  The table of interrupt controllers and processors (\<open>firmware/acpi/madt/madt.hpp\<close>, \<open>firmware/acpi/madt/madt.cpp\<close>).

  The entries follow the fixed part of the table; each starts with its type and its length in bytes.
  \<open>get_count\<close> counts them by type, \<open>parse_madt\<close> also collects their addresses in arrays of fixed sizes, for
  which it does not check the bounds. The structures that overlay the entries are read at the offsets that the
  i386 ABI gives their fields. \<open>madt_entries\<close> says that a list of entries lies in a table in memory.
\<close>

section \<open>Data\<close>

datatype EntryType = processor_local_apic | io_apic | io_apic_interrupt_source_override
  | io_apic_non_maskable_interrupt_source | local_apic_non_maskable_interrupt
  | local_apic_address_override | processor_local_x2apic

text \<open>The \<open>switch\<close> on the type byte; \<open>None\<close> is its \<open>default\<close>.\<close>

definition entry_type :: "u8 \<Rightarrow> EntryType option" where
  "entry_type b =
     (if b = 0 then Some processor_local_apic else if b = 1 then Some io_apic
      else if b = 2 then Some io_apic_interrupt_source_override
      else if b = 3 then Some io_apic_non_maskable_interrupt_source
      else if b = 4 then Some local_apic_non_maskable_interrupt
      else if b = 5 then Some local_apic_address_override
      else if b = 9 then Some processor_local_x2apic else None)"

definition EntryTypeNames :: "string list" where
  "EntryTypeNames = [''processor_local_apic'', ''io_apic'', ''io_apic_interrupt_source_override'',
     ''io_apic_non_maskable_interrupt_source'', ''local_apic_non_maskable_interrupt'',
     ''local_apic_address_override'', ''unused'', ''unused'', ''unused'', ''processor_local_x2apic'']"

definition to_string :: "u8 \<Rightarrow> string" where
  "to_string typ = (if typ \<ge> 10 then ''invalid'' else EntryTypeNames ! unat typ)"

record entry_processor_local_apic =
  lapic_processor_id :: u8
  apic_id :: u8
  can_enable :: bool
  online_capable :: bool
  lapic_flags_raw :: u32

definition read_processor_local_apic :: "mem \<Rightarrow> addr \<Rightarrow> entry_processor_local_apic" where
  "read_processor_local_apic m p =
     \<lparr>lapic_processor_id = m (p + 2), apic_id = m (p + 3), can_enable = bit (read32 m (p + 4)) 0,
      online_capable = bit (read32 m (p + 4)) 1, lapic_flags_raw = read32 m (p + 4)\<rparr>"

record entry_io_apic =
  io_apic_id :: u8
  io_apic_reserved :: u8
  io_apic_address :: addr
  global_system_interrupt_base :: u32

definition read_io_apic :: "mem \<Rightarrow> addr \<Rightarrow> entry_io_apic" where
  "read_io_apic m p =
     \<lparr>io_apic_id = m (p + 2), io_apic_reserved = m (p + 3), io_apic_address = read32 m (p + 4),
      global_system_interrupt_base = read32 m (p + 8)\<rparr>"

record entry_io_apic_interrupt_source_override =
  bus_source :: u8
  irq_source :: u8
  iso_global_system_interrupt :: u32
  iso_flags_raw :: u16

definition read_io_apic_iso :: "mem \<Rightarrow> addr \<Rightarrow> entry_io_apic_interrupt_source_override" where
  "read_io_apic_iso m p =
     \<lparr>bus_source = m (p + 2), irq_source = m (p + 3), iso_global_system_interrupt = read32 m (p + 4),
      iso_flags_raw = read16 m (p + 8)\<rparr>"

text \<open>The bit-fields of the flags: two bits of polarity, two of trigger mode.\<close>

definition iso_polarity :: "u16 \<Rightarrow> nat" where
  "iso_polarity f = unat (take_bit 2 f)"

definition iso_trigger :: "u16 \<Rightarrow> nat" where
  "iso_trigger f = unat (take_bit 2 (drop_bit 2 f))"

text \<open>
  The next two structures are not packed: the compiler aligns a 16-bit field to an even and a 32-bit field to a
  multiple of four bytes, which moves \<open>global_system_interrupt\<close> from 6 to 8, and \<open>flags\<close> and \<open>LINT\<close> from 3 and 5
  to 4 and 6.
\<close>

record entry_io_apic_nmi_source =
  nmi_source :: u8
  nmi_reserved :: u8
  nmi_flags :: u16
  nmi_global_system_interrupt :: u32

definition read_io_apic_nmi :: "mem \<Rightarrow> addr \<Rightarrow> entry_io_apic_nmi_source" where
  "read_io_apic_nmi m p =
     \<lparr>nmi_source = m (p + 2), nmi_reserved = m (p + 3), nmi_flags = read16 m (p + 4),
      nmi_global_system_interrupt = read32 m (p + 8)\<rparr>"

record entry_local_apic_nmi =
  nmi_processor_id :: u8
  local_nmi_flags :: u16
  LINT :: u8

definition read_local_apic_nmi :: "mem \<Rightarrow> addr \<Rightarrow> entry_local_apic_nmi" where
  "read_local_apic_nmi m p =
     \<lparr>nmi_processor_id = m (p + 2), local_nmi_flags = read16 m (p + 4), LINT = m (p + 6)\<rparr>"

text \<open>
  The last two structures have no entry header, and \<open>reserved\<close> overlays it; alignment puts the fields after it where
  the specification has them all the same.
\<close>

record entry_local_apic_address_override =
  override_reserved :: u16
  local_apic_address_64b :: u64

definition read_address_override :: "mem \<Rightarrow> addr \<Rightarrow> entry_local_apic_address_override" where
  "read_address_override m p = \<lparr>override_reserved = read16 m p, local_apic_address_64b = read64 m (p + 4)\<rparr>"

record entry_processor_local_x2apic =
  x2apic_reserved :: u16
  processor_local_x2apic_id :: u32
  x2apic_can_enable :: bool
  x2apic_online_capable :: bool
  acpi_id :: u32

definition read_x2apic :: "mem \<Rightarrow> addr \<Rightarrow> entry_processor_local_x2apic" where
  "read_x2apic m p =
     \<lparr>x2apic_reserved = read16 m p, processor_local_x2apic_id = read32 m (p + 4),
      x2apic_can_enable = bit (read32 m (p + 8)) 0, x2apic_online_capable = bit (read32 m (p + 8)) 1,
      acpi_id = read32 m (p + 12)\<rparr>"

definition MAX_PROCESSOR_LOCAL_APIC :: nat where [const_defs]: "MAX_PROCESSOR_LOCAL_APIC = 16"
definition MAX_IO_APIC :: nat where [const_defs]: "MAX_IO_APIC = 8"
definition MAX_IO_APIC_ISO :: nat where [const_defs]: "MAX_IO_APIC_ISO = 32"
definition MAX_IO_APIC_NMI :: nat where [const_defs]: "MAX_IO_APIC_NMI = 16"
definition MAX_LOCAL_APIC_NMI :: nat where [const_defs]: "MAX_LOCAL_APIC_NMI = 16"
definition MAX_LOCAL_APIC_ADDRESS_OVERRIDE :: nat where [const_defs]: "MAX_LOCAL_APIC_ADDRESS_OVERRIDE = 2"
definition MAX_PROCESSOR_LOCAL_X2APIC :: nat where [const_defs]: "MAX_PROCESSOR_LOCAL_X2APIC = 16"

record MADTEntryCount =
  n_processor_local_apic :: u32
  n_io_apic :: u32
  n_io_apic_isos :: u32
  n_io_apic_nmis :: u32
  n_local_apic_nmis :: u32
  n_local_apic_address_override :: u32
  n_processor_local_x2apic :: u32

definition zero_count :: MADTEntryCount where
  "zero_count = \<lparr>n_processor_local_apic = 0, n_io_apic = 0, n_io_apic_isos = 0, n_io_apic_nmis = 0,
     n_local_apic_nmis = 0, n_local_apic_address_override = 0, n_processor_local_x2apic = 0\<rparr>"

text \<open>An array of pointers, \<open>None\<close> where nothing has been assigned yet.\<close>

type_synonym ptrs = "addr option list"

record MADTParseResult =
  entry_counts :: MADTEntryCount
  processor_local_apics :: ptrs
  io_apics :: ptrs
  io_apic_isos :: ptrs
  io_apic_nmis :: ptrs
  local_apic_nmis :: ptrs
  local_apic_address_overrides :: ptrs
  processor_local_x2apics :: ptrs

definition fresh_result :: MADTParseResult where
  "fresh_result = \<lparr>entry_counts = zero_count,
     processor_local_apics = replicate MAX_PROCESSOR_LOCAL_APIC None, io_apics = replicate MAX_IO_APIC None,
     io_apic_isos = replicate MAX_IO_APIC_ISO None, io_apic_nmis = replicate MAX_IO_APIC_NMI None,
     local_apic_nmis = replicate MAX_LOCAL_APIC_NMI None,
     local_apic_address_overrides = replicate MAX_LOCAL_APIC_ADDRESS_OVERRIDE None,
     processor_local_x2apics = replicate MAX_PROCESSOR_LOCAL_X2APIC None\<rparr>"

section \<open>Walking the entries\<close>

definition entry_next :: "mem \<Rightarrow> addr \<Rightarrow> addr" where
  "entry_next m ptr = ptr + ucast (m (ptr + 1))"

definition first_entry :: "addr \<Rightarrow> addr" where
  "first_entry madt = madt + 44"

definition madt_end :: "mem \<Rightarrow> addr \<Rightarrow> addr" where
  "madt_end m madt = madt + Length (read_header m madt)"

definition walk_entries :: "mem \<Rightarrow> addr \<Rightarrow> (addr \<Rightarrow> 's \<Rightarrow> 's exec) \<Rightarrow> 's \<Rightarrow> 's exec" where
  "walk_entries m madt body s =
     bindE (hang_unless (walk (entry_next m) (madt_end m madt) body (first_entry madt) s)) (\<lambda>r. r)"

fun count_entry :: "EntryType option \<Rightarrow> MADTEntryCount \<Rightarrow> MADTEntryCount" where
  "count_entry (Some processor_local_apic) c = c\<lparr>n_processor_local_apic := n_processor_local_apic c + 1\<rparr>"
| "count_entry (Some io_apic) c = c\<lparr>n_io_apic := n_io_apic c + 1\<rparr>"
| "count_entry (Some io_apic_interrupt_source_override) c = c\<lparr>n_io_apic_isos := n_io_apic_isos c + 1\<rparr>"
| "count_entry (Some io_apic_non_maskable_interrupt_source) c = c\<lparr>n_io_apic_nmis := n_io_apic_nmis c + 1\<rparr>"
| "count_entry (Some local_apic_non_maskable_interrupt) c = c\<lparr>n_local_apic_nmis := n_local_apic_nmis c + 1\<rparr>"
| "count_entry (Some local_apic_address_override) c =
     c\<lparr>n_local_apic_address_override := n_local_apic_address_override c + 1\<rparr>"
| "count_entry (Some processor_local_x2apic) c = c\<lparr>n_processor_local_x2apic := n_processor_local_x2apic c + 1\<rparr>"
| "count_entry None c = c"

definition get_count :: "mem \<Rightarrow> addr \<Rightarrow> MADTEntryCount exec" where
  "get_count m madt = walk_entries m madt (\<lambda>ptr c. ok (count_entry (entry_type (m ptr)) c)) zero_count"

text \<open>\<open>array[i] = entry\<close>, the index not checked in the code.\<close>

definition put_ptr :: "ptrs \<Rightarrow> u32 \<Rightarrow> addr \<Rightarrow> ptrs exec" where
  "put_ptr a i p = (if unat i < length a then ok (a[unat i := Some p]) else Inl OutOfBounds)"

definition save_entry ::
    "EntryType option \<Rightarrow> addr \<Rightarrow> MADTEntryCount \<Rightarrow> MADTParseResult \<Rightarrow> MADTParseResult exec" where
  "save_entry t p idx r = (case t of
     Some processor_local_apic \<Rightarrow>
       bindE (put_ptr (processor_local_apics r) (n_processor_local_apic idx) p) (\<lambda>a. ok (r\<lparr>processor_local_apics := a\<rparr>))
   | Some io_apic \<Rightarrow> bindE (put_ptr (io_apics r) (n_io_apic idx) p) (\<lambda>a. ok (r\<lparr>io_apics := a\<rparr>))
   | Some io_apic_interrupt_source_override \<Rightarrow>
       bindE (put_ptr (io_apic_isos r) (n_io_apic_isos idx) p) (\<lambda>a. ok (r\<lparr>io_apic_isos := a\<rparr>))
   | Some io_apic_non_maskable_interrupt_source \<Rightarrow>
       bindE (put_ptr (io_apic_nmis r) (n_io_apic_nmis idx) p) (\<lambda>a. ok (r\<lparr>io_apic_nmis := a\<rparr>))
   | Some local_apic_non_maskable_interrupt \<Rightarrow>
       bindE (put_ptr (local_apic_nmis r) (n_local_apic_nmis idx) p) (\<lambda>a. ok (r\<lparr>local_apic_nmis := a\<rparr>))
   | Some local_apic_address_override \<Rightarrow>
       bindE (put_ptr (local_apic_address_overrides r) (n_local_apic_address_override idx) p)
         (\<lambda>a. ok (r\<lparr>local_apic_address_overrides := a\<rparr>))
   | Some processor_local_x2apic \<Rightarrow>
       bindE (put_ptr (processor_local_x2apics r) (n_processor_local_x2apic idx) p)
         (\<lambda>a. ok (r\<lparr>processor_local_x2apics := a\<rparr>))
   | None \<Rightarrow> ok r)"

text \<open>What is printed about an entry, in order.\<close>

definition entry_fields :: "mem \<Rightarrow> addr \<Rightarrow> io_event list" where
  "entry_fields m p = (case entry_type (m p) of
     Some processor_local_apic \<Rightarrow> (let e = read_processor_local_apic m p in
       [Kprint ''processor id: %u\<newline>'' [KU (ucast (lapic_processor_id e))],
        Kprint ''apic_id: %u\<newline>'' [KU (ucast (apic_id e))],
        Kprint ''flags: can_enable=%b, online_capable=%b\<newline>'' [KU (of_bool (can_enable e)), KU (of_bool (online_capable e))],
        Kprint ''flags_raw = %u\<newline>'' [KU (lapic_flags_raw e)]])
   | Some io_apic \<Rightarrow> (let e = read_io_apic m p in
       [Kprint ''io apic id id: %u\<newline>'' [KU (ucast (io_apic_id e))],
        Kprint ''io apic address: %h\<newline>'' [KU (io_apic_address e)],
        Kprint ''global system interrupt base = %u\<newline>'' [KU (global_system_interrupt_base e)]])
   | Some io_apic_interrupt_source_override \<Rightarrow> (let e = read_io_apic_iso m p in
       [Kprint ''Bus source = %u\<newline>'' [KU (ucast (bus_source e))],
        Kprint ''Irq source = %u\<newline>'' [KU (ucast (irq_source e))],
        Kprint ''global system interrupt  = %u\<newline>'' [KU (iso_global_system_interrupt e)],
        Kprint ''flags = %u\<newline>'' [KU (ucast (iso_flags_raw e))]])
   | Some io_apic_non_maskable_interrupt_source \<Rightarrow> (let e = read_io_apic_nmi m p in
       [Kprint ''nmi source = %u\<newline>'' [KU (ucast (nmi_source e))],
        Kprint ''reserved = %u\<newline>'' [KU (ucast (nmi_reserved e))],
        Kprint ''flags = %u\<newline>'' [KU (ucast (nmi_flags e))],
        Kprint ''global system interrupt = %u\<newline>'' [KU (nmi_global_system_interrupt e)]])
   | Some local_apic_non_maskable_interrupt \<Rightarrow> (let e = read_local_apic_nmi m p in
       [Kprint ''ACPI Processor ID : %u\<newline>'' [KU (ucast (nmi_processor_id e))],
        Kprint ''flags = %u\<newline>'' [KU (ucast (local_nmi_flags e))],
        Kprint ''LINT = %u\<newline>'' [KU (ucast (LINT e))]])
   | Some local_apic_address_override \<Rightarrow> (let e = read_address_override m p in
       [Kprint ''reserved = %u\<newline>'' [KU (ucast (override_reserved e))],
        Kprint ''local apic address 64b = 0x%llx\<newline>'' [KQ (local_apic_address_64b e)]])
   | Some processor_local_x2apic \<Rightarrow> (let e = read_x2apic m p in
       [Kprint ''processor_local_x2apic_id = %u\<newline>'' [KU (processor_local_x2apic_id e)],
        Kprint ''flags: can_enable=%u, online_capable=%u\<newline>''
          [KU (of_bool (x2apic_can_enable e)), KU (of_bool (x2apic_online_capable e))],
        Kprint ''acpi_id = %u\<newline>'' [KU (acpi_id e)]])
   | None \<Rightarrow> [Kprint ''Unknown or unused entry type\<newline>'' []])"

definition entry_messages :: "mem \<Rightarrow> addr \<Rightarrow> io_event list" where
  "entry_messages m p =
     [Kprint ''==========Start of entry===========\<newline>'' [],
      Kprint ''record length: %u\<newline>'' [KU (ucast (m (p + 1)))],
      Kprint ''Name of the entry type: %s\<newline>'' [KS (to_string (m p))]] @ entry_fields m p @
     [Kprint ''==========End of entry===========\<newline>\<newline>'' []]"

definition parse_entry ::
    "mem \<Rightarrow> addr \<Rightarrow> MADTEntryCount \<times> MADTParseResult \<times> iolog \<Rightarrow> (MADTEntryCount \<times> MADTParseResult \<times> iolog) exec" where
  "parse_entry m ptr s =
     (let (idx, r, tr) = s; t = entry_type (m ptr)
      in bindE (save_entry t ptr idx r) (\<lambda>r. ok (count_entry t idx, r, rev (entry_messages m ptr) @ tr)))"

definition parse_madt :: "mem \<Rightarrow> addr \<Rightarrow> (iolog, MADTParseResult exec) state" where
  "parse_madt m madt = State (\<lambda>tr.
     let tr = Kprint (''\<newline>'' @ [CHR 9] @ ''==========Entries===========\<newline>\<newline>'') [] #
           Kprint ''madt length = %u\<newline>'' [KU (Length (read_header m madt))] # tr
     in case walk_entries m madt (parse_entry m) (zero_count, fresh_result, tr) of
          Inl e \<Rightarrow> (Inl e, tr)
        | Inr (idx, r, tr) \<Rightarrow> (ok (r\<lparr>entry_counts := idx\<rparr>), tr))"

definition print_madt :: "mem \<Rightarrow> addr \<Rightarrow> (iolog, unit) state" where
  "print_madt m madt =
     (if madt = 0 then kprintf ''%s MADT: NULL\<newline>'' [KU madt]
      else do {
        print_header (Some (read_header m madt)) ''MADT'';
        kprintf ''MADT {\<newline>'' [];
        kprintf ''lapic address = %h\<newline>'' [KU (read32 m (madt + 36))];
        kprintf ''flags = %b\<newline>'' [KU (read32 m (madt + 40))];
        kprintf ''}\<newline>'' []
      })"

section \<open>The layout of the table\<close>

type_synonym madt_entry = "u8 \<times> u8 list"

definition entry_width :: "madt_entry \<Rightarrow> nat" where
  "entry_width e = 2 + length (snd e)"

definition entry_at :: "mem \<Rightarrow> addr \<Rightarrow> madt_entry \<Rightarrow> bool" where
  "entry_at m p e \<longleftrightarrow> m p = fst e \<and> m (p + 1) = of_nat (entry_width e) \<and> entry_width e < 256 \<and>
     fetch m (p + 2) (length (snd e)) = snd e"

definition madt_entries :: "mem \<Rightarrow> addr \<Rightarrow> madt_entry list \<Rightarrow> bool" where
  "madt_entries m madt es \<longleftrightarrow> unat madt + 44 + total entry_width es < 2 ^ 32 \<and>
     Length (read_header m madt) = of_nat (44 + total entry_width es) \<and>
     records_at (entry_at m) entry_width (madt + 44) es"

text \<open>The addresses of the entries of one type, in the order of the table.\<close>

definition of_kind :: "EntryType \<Rightarrow> (addr \<times> madt_entry) list \<Rightarrow> addr list" where
  "of_kind k xs = map fst (filter (\<lambda>(_, e). entry_type (fst e) = Some k) xs)"

abbreviation located_entries :: "addr \<Rightarrow> madt_entry list \<Rightarrow> (addr \<times> madt_entry) list" where
  "located_entries madt es \<equiv> located entry_width (madt + 44) es"

text \<open>The counter, the array and the size of the array of a type.\<close>

fun count_of :: "EntryType \<Rightarrow> MADTEntryCount \<Rightarrow> u32" where
  "count_of processor_local_apic c = n_processor_local_apic c"
| "count_of io_apic c = n_io_apic c"
| "count_of io_apic_interrupt_source_override c = n_io_apic_isos c"
| "count_of io_apic_non_maskable_interrupt_source c = n_io_apic_nmis c"
| "count_of local_apic_non_maskable_interrupt c = n_local_apic_nmis c"
| "count_of local_apic_address_override c = n_local_apic_address_override c"
| "count_of processor_local_x2apic c = n_processor_local_x2apic c"

fun array_of :: "EntryType \<Rightarrow> MADTParseResult \<Rightarrow> ptrs" where
  "array_of processor_local_apic r = processor_local_apics r"
| "array_of io_apic r = io_apics r"
| "array_of io_apic_interrupt_source_override r = io_apic_isos r"
| "array_of io_apic_non_maskable_interrupt_source r = io_apic_nmis r"
| "array_of local_apic_non_maskable_interrupt r = local_apic_nmis r"
| "array_of local_apic_address_override r = local_apic_address_overrides r"
| "array_of processor_local_x2apic r = processor_local_x2apics r"

fun capacity :: "EntryType \<Rightarrow> nat" where
  "capacity processor_local_apic = 16"
| "capacity io_apic = 8"
| "capacity io_apic_interrupt_source_override = 32"
| "capacity io_apic_non_maskable_interrupt_source = 16"
| "capacity local_apic_non_maskable_interrupt = 16"
| "capacity local_apic_address_override = 2"
| "capacity processor_local_x2apic = 16"

interpretation entries: record_table "entry_next m" "entry_at m" entry_width
proof unfold_locales
  fix p e
  assume e: "entry_at m p e"
  then have "ucast (of_nat (entry_width e) :: u8) = (of_nat (entry_width e) :: u32)"
    by (intro unsigned_word_eqI [where 'a = nat]) (simp add: entry_at_def unsigned_ucast_eq unat_of_nat take_bit_nat_eq_self)
  then show "entry_next m p = p + of_nat (entry_width e)" using e by (simp add: entry_next_def entry_at_def)
  show "0 < entry_width e" by (simp add: entry_width_def)
qed

lemma walk_entries_forE:
  assumes "madt_entries m madt es"
  shows "walk_entries m madt body s = forE (\<lambda>(q, _). body q) (located_entries madt es) s"
proof -
  note i = assms [unfolded madt_entries_def]
  have "unat (madt + 44) = unat madt + 44" using i by (simp add: unat_word_ariths)
  moreover have "unat (madt_end m madt) = unat madt + 44 + total entry_width es"
    using i by (simp add: madt_end_def unat_word_ariths unat_of_nat del: of_nat_add)
  ultimately have "walk (entry_next m) (madt_end m madt) body (madt + 44) s =
      Some (forE (\<lambda>(q, _). body q) (located_entries madt es) s)"
    using i by (intro entries.walk_records) simp_all
  then show ?thesis by (simp add: walk_entries_def first_entry_def)
qed

lemma located_entry_type:
  "madt_entries m madt es \<Longrightarrow> (p, e) \<in> set (located_entries madt es) \<Longrightarrow> m p = fst e"
  using records_at_located [of "entry_at m" entry_width "madt + 44" es p e] by (simp add: madt_entries_def entry_at_def)

text \<open>The bytes of a table: they read back as the entries.\<close>

definition entry_bytes :: "madt_entry \<Rightarrow> u8 list" where
  "entry_bytes e = [fst e, of_nat (entry_width e)] @ snd e"

definition madt_bytes :: "madt_entry list \<Rightarrow> u8 list" where
  "madt_bytes es = str ''APIC'' @ bytes32 (of_nat (44 + total entry_width es)) @ replicate 28 0 @
     bytes32 0xFEE00000 @ bytes32 1 @ concat (map entry_bytes es)"

lemma length_entry_bytes [simp]: "length (entry_bytes e) = entry_width e"
  by (simp add: entry_bytes_def entry_width_def)

lemma length_entries_bytes [simp]: "length (concat (map entry_bytes es)) = total entry_width es"
  by (induction es) simp_all

lemma entries_at_bytes:
  "fetch m p (total entry_width es) = concat (map entry_bytes es) \<Longrightarrow> list_all (\<lambda>e. entry_width e < 256) es \<Longrightarrow>
     records_at (entry_at m) entry_width p es"
proof (induction es arbitrary: p)
  case (Cons e es)
  have f: "fetch m p (entry_width e) = entry_bytes e"
    "fetch m (p + of_nat (entry_width e)) (total entry_width es) = concat (map entry_bytes es)"
    using Cons.prems(1) by (simp_all add: fetch_add append_eq_append_conv)
  have "fetch m p (length ([fst e, of_nat (entry_width e)] @ snd e)) = [fst e, of_nat (entry_width e)] @ snd e"
    using f(1) length_entry_bytes [of e] by (simp add: entry_bytes_def)
  note b = fetch_appendD [OF this]
  have "entry_at m p e" using b Cons.prems(2) by (simp add: entry_at_def)
  then show ?case using Cons.IH [OF f(2)] Cons.prems(2) by simp
qed simp

lemma madt_entries_bytes:
  assumes "fetch m madt (length (madt_bytes es)) = madt_bytes es" and "unat madt + length (madt_bytes es) < 2 ^ 32"
    and "list_all (\<lambda>e. entry_width e < 256) es"
  shows "madt_entries m madt es"
proof -
  let ?h = "str ''APIC'' @ bytes32 (of_nat (44 + total entry_width es)) @ replicate 28 0 @ bytes32 0xFEE00000 @ bytes32 1"
  have len: "length (madt_bytes es) = 44 + total entry_width es" by (simp add: madt_bytes_def)
  have "fetch m madt (length (?h @ concat (map entry_bytes es))) = ?h @ concat (map entry_bytes es)"
    using assms(1) by (simp add: madt_bytes_def)
  from fetch_appendD [OF this] have h: "fetch m madt (length ?h) = ?h"
    and b: "fetch m (madt + 44) (total entry_width es) = concat (map entry_bytes es)" by simp_all
  have "read32 m (madt + 4) = of_nat (44 + total entry_width es)"
    using read32_block [OF h, of 4] by simp
  then show ?thesis
    using entries_at_bytes [OF b assms(3)] assms(2) len by (simp add: madt_entries_def read_header_def)
qed

section \<open>Counting and collecting\<close>

lemma count_of_count_entry [simp]:
  "count_of k (count_entry t c) = count_of k c + of_bool (t = Some k)"
  by (cases "(t, c)" rule: count_entry.cases; cases k) simp_all

lemma count_eqI: "(\<And>k. count_of k c = count_of k d) \<Longrightarrow> c = d"
  using MADTEntryCount.equality [of c d]
  by (metis count_of.simps old.unit.exhaust)

lemma save_entry_None [simp]: "save_entry None p idx r = ok r"
  by (simp add: save_entry_def)

lemma save_entry_Some:
  "if unat (count_of k idx) < length (array_of k r)
   then \<exists>r'. save_entry (Some k) p idx r = ok r' \<and> entry_counts r' = entry_counts r \<and>
     (\<forall>k'. array_of k' r' = (if k' = k then (array_of k r)[unat (count_of k idx) := Some p] else array_of k' r))
   else save_entry (Some k) p idx r = Inl OutOfBounds"
proof -
  have all: "(\<forall>k. P k) \<longleftrightarrow> P processor_local_apic \<and> P io_apic \<and> P io_apic_interrupt_source_override \<and>
      P io_apic_non_maskable_interrupt_source \<and> P local_apic_non_maskable_interrupt \<and>
      P local_apic_address_override \<and> P processor_local_x2apic" for P
    by (metis EntryType.exhaust)
  show ?thesis by (cases k) (simp_all add: save_entry_def put_ptr_def all)
qed

text \<open>The arrays filled from the start with the addresses found so far.\<close>

definition filled :: "(EntryType \<Rightarrow> addr list) \<Rightarrow> MADTEntryCount \<Rightarrow> MADTParseResult \<Rightarrow> bool" where
  "filled ps idx r \<longleftrightarrow> (\<forall>k. length (ps k) \<le> capacity k \<and> count_of k idx = of_nat (length (ps k)) \<and>
     array_of k r = map Some (ps k) @ replicate (capacity k - length (ps k)) None)"

lemma capacity_bound: "capacity k \<le> 32"
  by (cases k) simp_all

lemma filled_save:
  assumes "filled ps idx r"
  shows "if length (ps k) < capacity k
    then \<exists>r'. save_entry (Some k) p idx r = ok r' \<and> entry_counts r' = entry_counts r \<and>
      filled (ps(k := ps k @ [p])) (count_entry (Some k) idx) r'
    else save_entry (Some k) p idx r = Inl OutOfBounds"
proof -
  have f: "length (ps k) \<le> capacity k" "count_of k idx = of_nat (length (ps k))"
    "array_of k r = map Some (ps k) @ replicate (capacity k - length (ps k)) None" for k
    using assms by (auto simp: filled_def)
  have u: "unat (count_of k idx) = length (ps k)"
    using f(1,2) [of k] capacity_bound [of k] by (simp add: unat_of_nat)
  have l: "length (array_of k r) = capacity k" using f(1,3) [of k] by simp
  show ?thesis
  proof (cases "length (ps k) < capacity k")
    case True
    then obtain d where d: "capacity k - length (ps k) = Suc d" by (metis Suc_diff_Suc)
    have "(array_of k r)[length (ps k) := Some p] = map Some (ps k @ [p]) @ replicate d None"
      using f(3) [of k] d by (simp add: list_update_append)
    moreover have "capacity k - length (ps k @ [p]) = d" using d by simp
    ultimately show ?thesis
      using save_entry_Some [of k idx r p] True u l f by (auto simp: filled_def)
  next
    case False
    then show ?thesis using save_entry_Some [of k idx r p] u l by simp
  qed
qed

lemma forE_parse:
  assumes "filled ps idx r" and "\<And>p e. (p, e) \<in> set xs \<Longrightarrow> m p = fst e"
  shows "case forE (\<lambda>(q, _). parse_entry m q) xs (idx, r, tr) of
      Inl e \<Rightarrow> e = OutOfBounds \<and> (\<exists>k. capacity k < length (ps k @ of_kind k xs))
    | Inr (idx', r', tr') \<Rightarrow> filled (\<lambda>k. ps k @ of_kind k xs) idx' r' \<and> extends tr tr'"
  using assms
proof (induction xs arbitrary: ps idx r tr)
  case Nil
  then show ?case by (simp add: of_kind_def)
next
  case (Cons x xs)
  obtain p e where x: "x = (p, e)" by (cases x)
  then have t: "m p = fst e" using Cons.prems(2) by simp
  have rest: "\<And>p e. (p, e) \<in> set xs \<Longrightarrow> m p = fst e" using Cons.prems(2) by simp
  let ?tr = "rev (entry_messages m p) @ tr"
  show ?case
  proof (cases "entry_type (fst e)")
    case None
    then have "of_kind k (x # xs) = of_kind k xs" for k by (simp add: of_kind_def x)
    moreover have "parse_entry m p (idx, r, tr) = ok (idx, r, ?tr)" using None t by (simp add: parse_entry_def Let_def)
    ultimately show ?thesis
      using Cons.IH [OF Cons.prems(1) rest, of ?tr] by (auto simp: x split: sum.splits dest: extends_appendD)
  next
    case (Some k)
    then have kind: "of_kind k' (x # xs) = (if k' = k then [p] else []) @ of_kind k' xs" for k'
      by (simp add: of_kind_def x)
    show ?thesis
    proof (cases "length (ps k) < capacity k")
      case True
      then obtain r' where r': "save_entry (Some k) p idx r = ok r'"
        "filled (ps(k := ps k @ [p])) (count_entry (Some k) idx) r'"
        using filled_save [OF Cons.prems(1), of k p] by auto
      have "(ps(k := ps k @ [p])) k' @ of_kind k' xs = ps k' @ of_kind k' (x # xs)" for k' by (simp add: kind)
      moreover have "parse_entry m p (idx, r, tr) = ok (count_entry (Some k) idx, r', ?tr)"
        using Some t r'(1) by (simp add: parse_entry_def Let_def)
      ultimately show ?thesis
        using Cons.IH [OF r'(2) rest, of ?tr] by (auto simp: x split: sum.splits dest: extends_appendD)
    next
      case False
      then have "capacity k < length (ps k @ of_kind k (x # xs))" by (simp add: kind)
      moreover have "parse_entry m p (idx, r, tr) = Inl OutOfBounds"
        using Some t False filled_save [OF Cons.prems(1), of k p] by (simp add: parse_entry_def Let_def)
      ultimately show ?thesis by (auto simp: x)
    qed
  qed
qed

lemma forE_count:
  assumes "\<And>p e. (p, e) \<in> set xs \<Longrightarrow> m p = fst e"
  shows "\<exists>c'. forE (\<lambda>(q, _) c. ok (count_entry (entry_type (m q)) c)) xs c = ok c' \<and>
    (\<forall>k. count_of k c' = count_of k c + of_nat (length (of_kind k xs)))"
  using assms
proof (induction xs arbitrary: c)
  case (Cons x xs)
  obtain p e where x: "x = (p, e)" by (cases x)
  then have t: "m p = fst e" using Cons.prems by simp
  obtain c' where c': "forE (\<lambda>(q, _) c. ok (count_entry (entry_type (m q)) c)) xs (count_entry (entry_type (m p)) c) = ok c'"
    "\<forall>k. count_of k c' = count_of k (count_entry (entry_type (m p)) c) + of_nat (length (of_kind k xs))"
    using Cons.IH [of "count_entry (entry_type (m p)) c"] Cons.prems by auto
  then show ?case by (simp add: x t of_kind_def)
qed (simp add: of_kind_def)

lemma filled_start: "filled (\<lambda>_. []) zero_count fresh_result"
  unfolding filled_def
proof
  fix k
  show "length [] \<le> capacity k \<and> count_of k zero_count = of_nat (length ([] :: addr list)) \<and>
    array_of k fresh_result = map Some [] @ replicate (capacity k - length ([] :: addr list)) None"
    by (cases k) (simp_all add: zero_count_def fresh_result_def const_defs)
qed

lemma parse_madt_outcome:
  assumes "madt_entries m madt es"
  shows "case run (parse_madt m madt) tr of
      (Inr r, tr') \<Rightarrow> extends tr tr' \<and> filled (\<lambda>k. of_kind k (located_entries madt es)) (entry_counts r) r
    | (Inl e, _) \<Rightarrow> e = OutOfBounds \<and> (\<exists>k. capacity k < length (of_kind k (located_entries madt es)))"
proof -
  let ?tr = "Kprint (''\<newline>'' @ [CHR 9] @ ''==========Entries===========\<newline>\<newline>'') [] #
    Kprint ''madt length = %u\<newline>'' [KU (Length (read_header m madt))] # tr"
  have counts: "array_of k (r\<lparr>entry_counts := c\<rparr>) = array_of k r" for k r c by (cases k) simp_all
  show ?thesis
    using forE_parse [OF filled_start, of "located_entries madt es" m ?tr] located_entry_type [OF assms]
    by (auto simp: parse_madt_def walk_entries_forE [OF assms] filled_def counts Let_def
        split: sum.splits dest!: extends_ConsD)
qed

text \<open>
  (C14) Parsing a table that is laid out in memory always ends. When no type has more entries than its array has
  places, each array holds the addresses of the entries of its type in the order of the table, the places after
  them unassigned, and the counters are their numbers; when a type has more, for instance with more than sixteen
  processors, the parser writes past the end of an array. Otherwise it only prints.
\<close>

theorem parse_madt_collects:
  assumes "madt_entries m madt es"
  shows "case run (parse_madt m madt) tr of
      (Inr r, tr') \<Rightarrow> extends tr tr' \<and> (\<forall>k. let ps = of_kind k (located_entries madt es) in
        length ps \<le> capacity k \<and> count_of k (entry_counts r) = of_nat (length ps) \<and>
        array_of k r = map Some ps @ replicate (capacity k - length ps) None)
    | (Inl e, _) \<Rightarrow> e = OutOfBounds \<and> (\<exists>k. capacity k < length (of_kind k (located_entries madt es)))"
  using parse_madt_outcome [OF assms, of tr] by (simp add: filled_def Let_def split: prod.splits sum.splits)

definition sample_entries :: "madt_entry list" where
  "sample_entries = [(0, [0, 0, 1, 0, 0, 0]), (0, [1, 1, 1, 0, 0, 0]), (1, [2, 0] @ bytes32 0xFEC00000 @ bytes32 0),
     (2, [0, 0] @ bytes32 2 @ bytes16 0), (4, [0xFF, 0, 0, 1])]"

definition sample_madt :: mem where
  "sample_madt = store (\<lambda>_. 0) 0x4000 (madt_bytes sample_entries)"

lemma sample_madt_entries: "madt_entries sample_madt 0x4000 sample_entries"
proof (rule madt_entries_bytes)
  have l: "length (madt_bytes sample_entries) = 88"
    by (simp add: madt_bytes_def sample_entries_def entry_width_def)
  then show "fetch sample_madt 0x4000 (length (madt_bytes sample_entries)) = madt_bytes sample_entries"
    unfolding sample_madt_def by (intro fetch_store) simp
  show "unat (0x4000 :: u32) + length (madt_bytes sample_entries) < 2 ^ 32" using l by simp
qed (simp add: sample_entries_def entry_width_def)

lemma located_sample_entries:
  "located_entries 0x4000 sample_entries =
     zip [0x402C, 0x4034, 0x403C, 0x4048, 0x4052] sample_entries"
  by (simp add: sample_entries_def entry_width_def)

theorem parse_madt_collects_witness:
  "\<exists>r. fst (run (parse_madt sample_madt 0x4000) []) = ok r \<and>
     take 2 (processor_local_apics r) = [Some 0x402C, Some 0x4034] \<and> n_processor_local_apic (entry_counts r) = 2"
proof -
  have k: "of_kind processor_local_apic (located_entries 0x4000 sample_entries) = [0x402C, 0x4034]"
    "\<And>k. length (of_kind k (located_entries 0x4000 sample_entries)) \<le> 2"
    unfolding located_sample_entries by (simp_all add: of_kind_def sample_entries_def entry_type_def)
  have "2 \<le> capacity k" for k by (cases k) simp_all
  then have "\<not> (\<exists>k. capacity k < length (of_kind k (located_entries 0x4000 sample_entries)))"
    using k(2) by (meson leD le_trans)
  then obtain r tr' where r: "run (parse_madt sample_madt 0x4000) [] = (ok r, tr')"
    "\<forall>k. let ps = of_kind k (located_entries 0x4000 sample_entries) in
        length ps \<le> capacity k \<and> count_of k (entry_counts r) = of_nat (length ps) \<and>
        array_of k r = map Some ps @ replicate (capacity k - length ps) None"
    using parse_madt_collects [OF sample_madt_entries, of "[]"] by (auto split: prod.splits sum.splits)
  have "processor_local_apics r = map Some [0x402C, 0x4034] @ replicate 14 None \<and> n_processor_local_apic (entry_counts r) = 2"
    using r(2) [rule_format, of processor_local_apic] unfolding k(1) by (simp add: Let_def)
  then show ?thesis using r(1) by (auto intro!: exI [of _ r])
qed

text \<open>
  The counters of the parser agree with \<open>get_count\<close>, which always returns on a table that is laid out in memory.
\<close>

theorem parse_madt_counts:
  assumes "madt_entries m madt es"
  shows "\<exists>c. get_count m madt = ok c \<and> (\<forall>k. count_of k c = of_nat (length (of_kind k (located_entries madt es)))) \<and>
    (\<forall>r. fst (run (parse_madt m madt) tr) = ok r \<longrightarrow> entry_counts r = c)"
proof -
  obtain c where c: "get_count m madt = ok c" "\<forall>k. count_of k c = of_nat (length (of_kind k (located_entries madt es)))"
  proof -
    have "count_of k zero_count = 0" for k by (cases k) (simp_all add: zero_count_def)
    then show ?thesis
      using that forE_count [where m = m and c = zero_count and xs = "located_entries madt es"] located_entry_type [OF assms]
      by (auto simp: get_count_def walk_entries_forE [OF assms])
  qed
  have "entry_counts r = c" if "fst (run (parse_madt m madt) tr) = ok r" for r
  proof (rule count_eqI)
    fix k
    have "run (parse_madt m madt) tr = (ok r, snd (run (parse_madt m madt) tr))" using that by (metis prod.collapse)
    then show "count_of k (entry_counts r) = count_of k c"
      using parse_madt_outcome [OF assms, of tr] c(2) by (auto simp: filled_def split: prod.splits)
  qed
  then show ?thesis using c by blast
qed

theorem parse_madt_counts_witness:
  "\<exists>c. get_count sample_madt 0x4000 = ok c \<and> n_processor_local_apic c = 2 \<and> n_io_apic c = 1"
proof -
  have k: "length (of_kind processor_local_apic (located_entries 0x4000 sample_entries)) = 2"
    "length (of_kind io_apic (located_entries 0x4000 sample_entries)) = 1"
    unfolding located_sample_entries by (simp_all add: of_kind_def sample_entries_def entry_type_def)
  obtain c where "get_count sample_madt 0x4000 = ok c"
    "\<forall>k. count_of k c = of_nat (length (of_kind k (located_entries 0x4000 sample_entries)))"
    using parse_madt_counts [OF sample_madt_entries] by blast
  moreover from this(2) [rule_format, of processor_local_apic] this(2) [rule_format, of io_apic]
  have "n_processor_local_apic c = 2" "n_io_apic c = 1" unfolding k by simp_all
  ultimately show ?thesis by blast
qed

text \<open>An entry that gives 0 as its length is never passed.\<close>

theorem entry_of_length_0_hangs:
  assumes "first_entry madt < madt_end m madt" and "m (first_entry madt + 1) = 0"
  shows "get_count m madt = Inl Hang"
proof -
  have "walk (entry_next m) (madt_end m madt) (\<lambda>ptr c. ok (count_entry (entry_type (m ptr)) c)) (first_entry madt) zero_count = None"
    by (rule walk_stuck) (use assms in \<open>simp_all add: entry_next_def\<close>)
  then show ?thesis by (simp add: get_count_def walk_entries_def)
qed

text \<open>
  The overlay of a local NMI entry reads its flags one byte late and its pin number from the byte after the entry.
\<close>

theorem local_apic_nmi_misread:
  assumes "entry_at m p (4, [processor, flags_low, flags_high, lint])"
  shows "read_local_apic_nmi m p = \<lparr>nmi_processor_id = processor,
      local_nmi_flags = ucast flags_high OR push_bit 8 (ucast lint), LINT = m (p + 6)\<rparr>"
proof -
  have "fetch m (p + 2) 4 = [processor, flags_low, flags_high, lint]"
    using assms by (simp add: entry_at_def numeral_eq_Suc)
  then show ?thesis unfolding fetch_4 by (simp add: read_local_apic_nmi_def read16_def add.assoc)
qed

end
