(* ===== verification/Mmio.thy ===== *)
theory Mmio
  imports Port_IO Memory
begin

text \<open>
  Memory-mapped registers (\<open>std::mmio_ptr\<close>, \<open>mmio_ptr_ro\<close>, \<open>mmio_ptr_wo\<close> of \<open>stdlib/special_pointers.hpp\<close>):
  every access is one volatile access of 32 bits. As with ports, the device is the parameter \<open>mhw\<close>, the value that
  the next read of an address yields after a log of events; the log, newest first, also has the messages,
  the calls of the interval timer and of the spin lock (components of their own), and the accesses to variables shared
  between cores.

  The state of a device is what the writes in the log make of it: \<open>device\<close> runs the effect of a write over the log.
\<close>

datatype mmio_event = MRead addr u32 | MWrite addr u32 | MPrint string "karg list" | MWait nat | MTimer nat bool | MLock bool
  | MLook string nat bool | MStore string nat u32

type_synonym mlog = "mmio_event list"

type_synonym mhw = "mlog \<Rightarrow> addr \<Rightarrow> u32"

definition mmio_read :: "mhw \<Rightarrow> addr \<Rightarrow> (mlog, u32) state" where
  "mmio_read hw p = State (\<lambda>tr. (hw tr p, MRead p (hw tr p) # tr))"

definition mmio_write :: "addr \<Rightarrow> u32 \<Rightarrow> (mlog, unit) state" where
  "mmio_write p v = State (\<lambda>tr. ((), MWrite p v # tr))"

definition mprintf :: "string \<Rightarrow> karg list \<Rightarrow> (mlog, unit) state" where
  "mprintf fmt args = State (\<lambda>tr. ((), MPrint fmt args # tr))"

text \<open>\<open>pit::wait\<close> of a number of milliseconds, and \<open>pit::short_timeout_async\<close>, which starts a timer.\<close>

definition pit_wait_ms :: "nat \<Rightarrow> (mlog, unit) state" where
  "pit_wait_ms ms = State (\<lambda>tr. ((), MWait ms # tr))"

definition pit_timer :: "nat \<Rightarrow> bool \<Rightarrow> (mlog, unit) state" where
  "pit_timer ms new_timeout = State (\<lambda>tr. ((), MTimer ms new_timeout # tr))"

definition spin_lock :: "bool \<Rightarrow> (mlog, unit) state" where
  "spin_lock taken = State (\<lambda>tr. ((), MLock taken # tr))"

text \<open>
  A volatile variable that another core or an interrupt handler writes is read like a register (the environment
  decides what each look finds); a store to a shared array is an event of its own.
\<close>

type_synonym flags = "mlog \<Rightarrow> string \<Rightarrow> nat \<Rightarrow> bool"

definition look :: "flags \<Rightarrow> string \<Rightarrow> nat \<Rightarrow> (mlog, bool) state" where
  "look env var i = State (\<lambda>tr. (env tr var i, MLook var i (env tr var i) # tr))"

definition store_shared :: "string \<Rightarrow> nat \<Rightarrow> u32 \<Rightarrow> (mlog, unit) state" where
  "store_shared var i v = State (\<lambda>tr. ((), MStore var i v # tr))"

lemma run_mmio [simp, exec_simps]:
  "run (mmio_read hw p) tr = (hw tr p, MRead p (hw tr p) # tr)"
  "run (mmio_write p v) tr = ((), MWrite p v # tr)"
  "run (mprintf fmt args) tr = ((), MPrint fmt args # tr)"
  "run (pit_wait_ms ms) tr = ((), MWait ms # tr)"
  "run (pit_timer ms b) tr = ((), MTimer ms b # tr)"
  "run (spin_lock b) tr = ((), MLock b # tr)"
  "run (look env var i) tr = (env tr var i, MLook var i (env tr var i) # tr)"
  "run (store_shared var i x) tr = ((), MStore var i x # tr)"
  by (simp_all add: mmio_read_def mmio_write_def mprintf_def pit_wait_ms_def pit_timer_def spin_lock_def look_def
        store_shared_def)

fun device :: "(addr \<Rightarrow> u32 \<Rightarrow> 'd \<Rightarrow> 'd) \<Rightarrow> 'd \<Rightarrow> mlog \<Rightarrow> 'd" where
  "device wr d [] = d"
| "device wr d (MWrite p v # tr) = wr p v (device wr d tr)"
| "device wr d (_ # tr) = device wr d tr"

text \<open>The writes of a log, oldest first.\<close>

fun write_of :: "mmio_event \<Rightarrow> (addr \<times> u32) list" where
  "write_of (MWrite p v) = [(p, v)]"
| "write_of _ = []"

definition writes :: "mlog \<Rightarrow> (addr \<times> u32) list" where
  "writes tr = concat (map write_of (rev tr))"

lemma writes_simps [simp]:
  "writes [] = []" "writes (e # tr) = writes tr @ write_of e"
  by (simp_all add: writes_def)

lemma device_append: "device wr d (tr @ tr') = device wr (device wr d tr') tr"
  by (induction wr d tr rule: device.induct) simp_all

end
