(* ===== verification/Io_Apic.thy ===== *)
theory Io_Apic
  imports Mmio
begin

text \<open>
  The I/O APIC driver (\<open>cpu/apic_io/apic_io.hpp\<close>, \<open>cpu/apic_io/apic_io_internals.hpp\<close>, \<open>cpu/apic_io/apic_io.cpp\<close>).
  The chip has two registers in memory: a number written to \<open>IOREGSEL\<close> selects an internal register, which
  \<open>IOWIN\<close> then reads or writes. The bit-field structures are records with the 32-bit value the compiler lays
  them out as. \<open>io_apic_write\<close> is what a write does to the chip.
\<close>

section \<open>Registers\<close>

definition io_apic_base :: addr where [const_defs]: "io_apic_base = 0xFEC00000"
definition IOREGSEL :: addr where [const_defs]: "IOREGSEL = io_apic_base + 0x00"
definition IOWIN :: addr where [const_defs]: "IOWIN = io_apic_base + 0x10"
definition number_of_apic_io_irq :: nat where [const_defs]: "number_of_apic_io_irq = 24"

definition RegisterOffsets_id :: u32 where [const_defs]: "RegisterOffsets_id = 0x00"
definition RegisterOffsets_version :: u32 where [const_defs]: "RegisterOffsets_version = 0x01"
definition RegisterOffsets_arbitration :: u32 where [const_defs]: "RegisterOffsets_arbitration = 0x02"
definition relocation_table_base :: u32 where [const_defs]: "relocation_table_base = 0x10"

record io_apic_version =
  version :: u8
  max_redirection_entry :: u8

definition version_of :: "u32 \<Rightarrow> io_apic_version" where
  "version_of raw = \<lparr>version = ucast raw, max_redirection_entry = ucast (drop_bit 16 raw)\<rparr>"

text \<open>The four bits of an APIC number, in the identification and in the arbitration register.\<close>

definition id_of :: "u32 \<Rightarrow> 4 word" where
  "id_of raw = ucast (drop_bit 24 raw)"

definition id_raw :: "4 word \<Rightarrow> u32" where
  "id_raw apic = push_bit 24 (ucast apic)"

record redirection_entry_low =
  red_vector :: u8
  red_delivery_mode :: "3 word"
  red_destination_mode :: bool
  red_delivery_status :: bool
  red_pin_polarity :: bool
  red_remote_interrupt_request :: bool
  red_trigger_mode :: bool
  red_mask :: bool

definition default_entry :: "u8 \<Rightarrow> redirection_entry_low" where
  "default_entry v = \<lparr>red_vector = v, red_delivery_mode = 0, red_destination_mode = False, red_delivery_status = False,
     red_pin_polarity = False, red_remote_interrupt_request = False, red_trigger_mode = False, red_mask = False\<rparr>"

definition red_low_raw :: "redirection_entry_low \<Rightarrow> u32" where
  "red_low_raw e = ucast (red_vector e) OR push_bit 8 (ucast (red_delivery_mode e)) OR
     push_bit 11 (of_bool (red_destination_mode e)) OR push_bit 12 (of_bool (red_delivery_status e)) OR
     push_bit 13 (of_bool (red_pin_polarity e)) OR push_bit 14 (of_bool (red_remote_interrupt_request e)) OR
     push_bit 15 (of_bool (red_trigger_mode e)) OR push_bit 16 (of_bool (red_mask e))"

definition red_low_of :: "u32 \<Rightarrow> redirection_entry_low" where
  "red_low_of raw = \<lparr>red_vector = ucast raw, red_delivery_mode = ucast (drop_bit 8 raw),
     red_destination_mode = bit raw 11, red_delivery_status = bit raw 12, red_pin_polarity = bit raw 13,
     red_remote_interrupt_request = bit raw 14, red_trigger_mode = bit raw 15, red_mask = bit raw 16\<rparr>"

text \<open>The upper half: only the destination, of which the physical form has four bits.\<close>

definition red_high_raw :: "4 word \<Rightarrow> u32" where
  "red_high_raw physical_apic_id = push_bit 24 (ucast physical_apic_id)"

section \<open>Operations\<close>

definition get_apic_id_of_owner :: "mhw \<Rightarrow> (mlog, u8) state" where
  "get_apic_id_of_owner hw = do {
     mmio_write IOREGSEL RegisterOffsets_id;
     win \<leftarrow> mmio_read hw IOWIN;
     ret (ucast (id_of win))
   }"

definition set_apic_id_of_owner :: "bool \<Rightarrow> u8 \<Rightarrow> (mlog, unit exec) state" where
  "set_apic_id_of_owner debug apic_id_of_owner =
     (if debug \<and> \<not> apic_id_of_owner < 0xF then ret (Inl Abort)
      else do {
        mmio_write IOREGSEL RegisterOffsets_id;
        mmio_write IOWIN (id_raw (ucast apic_id_of_owner));
        ret (ok ())
      })"

definition get_version_and_max_red :: "mhw \<Rightarrow> (mlog, io_apic_version) state" where
  "get_version_and_max_red hw = do {
     mmio_write IOREGSEL RegisterOffsets_version;
     win \<leftarrow> mmio_read hw IOWIN;
     ret (version_of win)
   }"

definition get_max_redirection_entry_count :: "mhw \<Rightarrow> (mlog, u8) state" where
  "get_max_redirection_entry_count hw = do {
     v \<leftarrow> get_version_and_max_red hw;
     ret (max_redirection_entry v)
   }"

definition get_arbitration :: "mhw \<Rightarrow> (mlog, u8) state" where
  "get_arbitration hw = do {
     mmio_write IOREGSEL RegisterOffsets_arbitration;
     win \<leftarrow> mmio_read hw IOWIN;
     ret (ucast (id_of win))
   }"

definition get_offsets :: "u8 \<Rightarrow> u32 \<times> u32" where
  "get_offsets red_idx =
     (let offset_raw_low = relocation_table_base + ucast red_idx * 2
      in (offset_raw_low, offset_raw_low + 1))"

definition write_redirection :: "u8 \<Rightarrow> redirection_entry_low \<Rightarrow> 4 word \<Rightarrow> (mlog, unit) state" where
  "write_redirection irq red_low physical_apic_id = do {
     mmio_write IOREGSEL (snd (get_offsets irq));
     mmio_write IOWIN (red_high_raw physical_apic_id);
     mmio_write IOREGSEL (fst (get_offsets irq));
     mmio_write IOWIN (red_low_raw red_low)
   }"

definition read_redirection :: "mhw \<Rightarrow> u8 \<Rightarrow> (mlog, redirection_entry_low \<times> u32) state" where
  "read_redirection hw irq = do {
     mmio_write IOREGSEL (fst (get_offsets irq));
     low_u \<leftarrow> mmio_read hw IOWIN;
     mmio_write IOREGSEL (snd (get_offsets irq));
     high_u \<leftarrow> mmio_read hw IOWIN;
     ret (red_low_of low_u, high_u)
   }"

text \<open>\<open>read_redirection_ws\<close> does the same through references.\<close>

definition read_redirection_ws :: "mhw \<Rightarrow> u8 \<Rightarrow> (mlog, redirection_entry_low \<times> u32) state" where
  "read_redirection_ws hw irq = do {
     mmio_write IOREGSEL (fst (get_offsets irq));
     low_u \<leftarrow> mmio_read hw IOWIN;
     mmio_write IOREGSEL (snd (get_offsets irq));
     high_u \<leftarrow> mmio_read hw IOWIN;
     ret (red_low_of low_u, high_u)
   }"

text \<open>\<open>irq_to_gsi[i]\<close>.\<close>

definition gsi_at :: "u8 list \<Rightarrow> nat \<Rightarrow> u8 exec" where
  "gsi_at irq_to_gsi i = (if i < length irq_to_gsi then ok (irq_to_gsi ! i) else Inl OutOfBounds)"

definition route_irq :: "u8 list \<Rightarrow> nat \<Rightarrow> u8 \<Rightarrow> (mlog, unit exec) state" where
  "route_irq irq_to_gsi irq vec =
     bindS (ret (gsi_at irq_to_gsi irq)) (\<lambda>gsi. do {
       write_redirection gsi (default_entry vec) 0;
       ret (ok ())
     })"

definition init_io_apic :: "bool \<Rightarrow> mhw \<Rightarrow> u8 list \<Rightarrow> (mlog, unit exec) state" where
  "init_io_apic debug hw irq_to_gsi = do {
     cur_owner \<leftarrow> get_apic_id_of_owner hw;
     mprintf ''The current owner is %u\<newline>'' [KU (ucast cur_owner)];
     bindS (if cur_owner \<noteq> 0 then set_apic_id_of_owner debug 0 else ret (ok ())) (\<lambda>_. do {
       v \<leftarrow> get_version_and_max_red hw;
       mprintf ''Version = %u, Max Redirection Entry = %u\<newline>''
         [KU (ucast (version v)), KU (ucast (max_redirection_entry v))];
       bindS (route_irq irq_to_gsi 0 32) (\<lambda>_.
       bindS (route_irq irq_to_gsi 1 33) (\<lambda>_.
         route_irq irq_to_gsi 12 44))
     })
   }"

section \<open>The chip\<close>

record io_apic_chip =
  selected :: u32
  chip_regs :: "u32 \<Rightarrow> u32"

definition io_apic_write :: "addr \<Rightarrow> u32 \<Rightarrow> io_apic_chip \<Rightarrow> io_apic_chip" where
  "io_apic_write p v c =
     (if p = IOREGSEL then c\<lparr>selected := v\<rparr>
      else if p = IOWIN then c\<lparr>chip_regs := (chip_regs c)(selected c := v)\<rparr> else c)"

abbreviation io_chip :: "io_apic_chip \<Rightarrow> mlog \<Rightarrow> io_apic_chip" where
  "io_chip c tr \<equiv> device io_apic_write c tr"

lemma io_apic_write_simps [simp]:
  "io_apic_write IOREGSEL v c = c\<lparr>selected := v\<rparr>"
  "io_apic_write IOWIN v c = c\<lparr>chip_regs := (chip_regs c)(selected c := v)\<rparr>"
  by (simp_all add: io_apic_write_def const_defs)

text \<open>The structures and their bits.\<close>

lemma red_low_roundtrip: "red_low_of (red_low_raw e) = e"
proof (rule redirection_entry_low.equality)
  show "red_vector (red_low_of (red_low_raw e)) = red_vector e"
    by (rule bit_word_eqI) (simp add: red_low_of_def red_low_raw_def bit_simps)
  show "red_delivery_mode (red_low_of (red_low_raw e)) = red_delivery_mode e"
    by (rule bit_word_eqI) (auto simp: red_low_of_def red_low_raw_def bit_simps dest: bit_imp_le_length)
qed (auto simp: red_low_of_def red_low_raw_def bit_simps dest: bit_imp_le_length)

lemma red_low_raw_default: "red_low_raw (default_entry v) = ucast v"
  by (simp add: red_low_raw_def default_entry_def)

text \<open>Writing and reading back a redirection entry through the two registers.\<close>

lemma chip_write_redirection:
  "chip_regs (io_chip c (snd (run (write_redirection irq e d) tr))) =
     (chip_regs (io_chip c tr))(snd (get_offsets irq) := red_high_raw d, fst (get_offsets irq) := red_low_raw e)"
  by (simp add: write_redirection_def run_bind)

lemma run_route_irq:
  "i < length g \<Longrightarrow> run (route_irq g i v) tr = (ok (), snd (run (write_redirection (g ! i) (default_entry v) 0) tr))"
  by (simp add: route_irq_def gsi_at_def run_bindS run_bind write_redirection_def)

text \<open>The registers of an entry: two per line, none of them below the table.\<close>

lemma offsets_distinct:
  "fst (get_offsets a) \<noteq> snd (get_offsets b)"
  "fst (get_offsets a) = fst (get_offsets b) \<longleftrightarrow> a = b"
  "snd (get_offsets a) = snd (get_offsets b) \<longleftrightarrow> a = b"
  "relocation_table_base \<le> fst (get_offsets a)" "relocation_table_base \<le> snd (get_offsets a)"
proof -
  have u: "unat (fst (get_offsets a)) = 16 + 2 * unat a" "unat (snd (get_offsets a)) = 17 + 2 * unat a" for a
    using unsigned_less [of a, where 'a = nat]
    by (simp_all add: get_offsets_def const_defs Let_def unat_word_ariths unsigned_ucast_eq take_bit_nat_eq_self)
  show "fst (get_offsets a) \<noteq> snd (get_offsets b)"
  proof
    assume "fst (get_offsets a) = snd (get_offsets b)"
    then have "16 + 2 * unat a = 17 + 2 * unat b" using u by metis
    then show False by presburger
  qed
  show "fst (get_offsets a) = fst (get_offsets b) \<longleftrightarrow> a = b" "snd (get_offsets a) = snd (get_offsets b) \<longleftrightarrow> a = b"
    using u(1) [of a] u(1) [of b] u(2) [of a] u(2) [of b] by (auto simp: word_unat_eq_iff)
  show "relocation_table_base \<le> fst (get_offsets a)" "relocation_table_base \<le> snd (get_offsets a)"
    using u [of a] by (simp_all add: word_le_nat_alt const_defs)
qed

lemma chip_init_io_apic:
  assumes "12 < length g"
  shows "\<exists>z tr'. run (init_io_apic debug hw g) tr = (ok (), tr') \<and>
    chip_regs (io_chip c tr') = (chip_regs (io_chip c tr))(0 := z,
      snd (get_offsets (g ! 0)) := 0, fst (get_offsets (g ! 0)) := red_low_raw (default_entry 32),
      snd (get_offsets (g ! 1)) := 0, fst (get_offsets (g ! 1)) := red_low_raw (default_entry 33),
      snd (get_offsets (g ! 12)) := 0, fst (get_offsets (g ! 12)) := red_low_raw (default_entry 44))"
proof (cases "ucast (id_of (hw (MWrite IOREGSEL RegisterOffsets_id # tr) IOWIN)) = (0 :: u8)")
  have l: "0 < length g" "Suc 0 < length g" "12 < length g" using assms by linarith+
  case True
  then show ?thesis
    using l
    by (intro exI [of _ "chip_regs (io_chip c tr) 0"])
       (auto simp: init_io_apic_def get_apic_id_of_owner_def get_version_and_max_red_def run_bind run_bindS
         run_route_irq chip_write_redirection red_high_raw_def)
next
  have l: "0 < length g" "Suc 0 < length g" "12 < length g" using assms by linarith+
  case False
  then show ?thesis
    using l
    by (intro exI [of _ "id_raw 0"])
       (auto simp: init_io_apic_def get_apic_id_of_owner_def set_apic_id_of_owner_def get_version_and_max_red_def
         run_bind run_bindS run_route_irq chip_write_redirection red_high_raw_def RegisterOffsets_id_def)
qed

text \<open>
  Initialising the I/O APIC, whatever the chip answers to reads, leaves it with three interrupt lines routed: the
  lines that the table gives for the ISA interrupts 0 (timer), 1 (keyboard) and 12 (mouse) have the vectors 32, 33
  and 44, unmasked, edge-triggered and delivered to processor 0, when the three lines are different; no other
  line is changed.
\<close>

theorem init_io_apic_routes:
  assumes "length g = number_of_apic_io_irq" and "distinct [g ! 0, g ! 1, g ! 12]"
  shows "case run (init_io_apic debug hw g) tr of (r, tr') \<Rightarrow> r = ok () \<and>
    (\<forall>i. let regs = chip_regs (io_chip c tr'); old = chip_regs (io_chip c tr);
             vec = map_of [(g ! 0, 32), (g ! 1, 33), (g ! 12, 44)] i
         in red_low_of (regs (fst (get_offsets i))) =
              (case vec of None \<Rightarrow> red_low_of (old (fst (get_offsets i))) | Some v \<Rightarrow> default_entry v) \<and>
            regs (snd (get_offsets i)) = (case vec of None \<Rightarrow> old (snd (get_offsets i)) | Some v \<Rightarrow> 0))"
proof -
  have base: "0 < relocation_table_base" by (simp add: const_defs)
  have zero: "fst (get_offsets i) \<noteq> 0" "snd (get_offsets i) \<noteq> 0" for i
    using offsets_distinct(4,5) [of i] base by (auto simp: const_defs)
  obtain z tr' where r: "run (init_io_apic debug hw g) tr = (ok (), tr')"
    "chip_regs (io_chip c tr') = (chip_regs (io_chip c tr))(0 := z,
      snd (get_offsets (g ! 0)) := 0, fst (get_offsets (g ! 0)) := red_low_raw (default_entry 32),
      snd (get_offsets (g ! 1)) := 0, fst (get_offsets (g ! 1)) := red_low_raw (default_entry 33),
      snd (get_offsets (g ! 12)) := 0, fst (get_offsets (g ! 12)) := red_low_raw (default_entry 44))"
    using chip_init_io_apic [of g debug hw tr c] assms(1) by (auto simp: const_defs)
  have other: "snd (get_offsets a) \<noteq> fst (get_offsets b)" for a b using offsets_distinct(1) [of b a] by metis
  show ?thesis
    unfolding r(1) prod.case r(2) Let_def
    using assms(2) by (auto simp: offsets_distinct(1-3) other zero red_low_roundtrip)
qed

text \<open>The usual wiring of a PC: the timer is on line 2.\<close>

theorem init_io_apic_routes_witness:
  "let g = (map of_nat [0..<24])[0 := 2]; c = \<lparr>selected = 0, chip_regs = \<lambda>_. 0x10000\<rparr>;
       regs = chip_regs (io_chip c (snd (run (init_io_apic True (\<lambda>_ _. 0x170011) g) [])))
   in red_low_of (regs (fst (get_offsets 2))) = default_entry 32 \<and>
      red_low_of (regs (fst (get_offsets 12))) = default_entry 44 \<and> red_mask (red_low_of (regs (fst (get_offsets 0))))"
proof -
  let ?g = "(map of_nat [0..<24])[0 := 2] :: u8 list"
  let ?c = "\<lparr>selected = 0, chip_regs = \<lambda>_. 0x10000\<rparr>"
  have g: "length ?g = number_of_apic_io_irq" "distinct [?g ! 0, ?g ! 1, ?g ! 12]" by (simp_all add: const_defs)
  have "red_mask (red_low_of 0x10000)" by (simp add: red_low_of_def bit_numeral_rec)
  then show ?thesis
    using init_io_apic_routes [OF g, where debug = True and hw = "\<lambda>_ _. 0x170011" and tr = "[]" and c = ?c] by (simp add: Let_def split: prod.splits)
qed

end
