(* ===== verification/Irq_Routing.thy ===== *)
theory Irq_Routing
  imports Madt Io_Apic
begin

text \<open>
  How \<open>multicore_setup\<close> (\<open>kernel/cpp/kernel_cpp.cpp\<close>) routes the device interrupts: it asks for exactly one I/O APIC,
  builds the table from ISA interrupts to lines of that chip out of the overrides in the interrupt controller
  table, and hands it to \<open>init_io_apic\<close>. The pointers to the entries are those that \<open>parse_madt\<close> collected.
\<close>

section \<open>Operations\<close>

text \<open>\<open>*array[i]\<close>: an index past the array, or a pointer that was never assigned.\<close>

definition get_ptr :: "ptrs \<Rightarrow> nat \<Rightarrow> addr exec" where
  "get_ptr a i = (if i < length a then (case a ! i of None \<Rightarrow> Inl Undefined | Some p \<Rightarrow> ok p) else Inl OutOfBounds)"

definition identity_table :: "u8 list" where
  "identity_table = map of_nat [0..<number_of_apic_io_irq]"

text \<open>
  One override. The interrupt number indexes the table unchecked, the line is cut to eight bits, and the bus
  is checked after the table was changed.
\<close>

definition override_step :: "mem \<Rightarrow> ptrs \<Rightarrow> nat \<Rightarrow> u8 list \<times> mlog \<Rightarrow> (u8 list \<times> mlog) exec" where
  "override_step m isos i s =
     (let (irq_to_gsi, tr) = s
      in bindE (get_ptr isos i) (\<lambda>p.
           let ios = read_io_apic_iso m p;
               gsi = ucast (iso_global_system_interrupt ios) :: u8;
               irq = irq_source ios
           in if \<not> unat irq < length irq_to_gsi then Inl OutOfBounds
              else bindE (assertE (bus_source ios = 0)) (\<lambda>_.
                ok (irq_to_gsi[unat irq := gsi],
                    MPrint ''Irq Source: %u -> GSI : %u\<newline>'' [KU (ucast irq), KU (ucast gsi)] # tr))))"

text \<open>The counter of the loop is a \<open>uint8_t\<close>: it never reaches a count of more than 255.\<close>

definition build_irq_to_gsi :: "mem \<Rightarrow> MADTParseResult \<Rightarrow> mlog \<Rightarrow> (u8 list \<times> mlog) exec" where
  "build_irq_to_gsi m parsed_madt tr =
     (let n = n_io_apic_isos (entry_counts parsed_madt)
      in bindE (forE (override_step m (io_apic_isos parsed_madt)) [0..<min 256 (unat n)] (identity_table, tr))
           (\<lambda>s. if n > 255 then Inl Hang else ok s))"

definition setup_io_apic :: "bool \<Rightarrow> mhw \<Rightarrow> mem \<Rightarrow> MADTParseResult \<Rightarrow> (mlog, unit exec) state" where
  "setup_io_apic debug hw m parsed_madt =
     bindS (ret (get_ptr (io_apics parsed_madt) 0)) (\<lambda>p. do {
       mprintf ''The number of io apic: %u\<newline>'' [KU (ucast (ucast (n_io_apic (entry_counts parsed_madt)) :: u8))];
       io_apic_len \<leftarrow> get_max_redirection_entry_count hw;
       mprintf ''This apic io uses GSI : [%u %u]\<newline>''
         [KU (global_system_interrupt_base (read_io_apic m p)),
          KU (global_system_interrupt_base (read_io_apic m p) + ucast io_apic_len)];
       bindS (ret (assertE (n_io_apic (entry_counts parsed_madt) = 1))) (\<lambda>_.
       bindS (State (\<lambda>tr. case build_irq_to_gsi m parsed_madt tr of
                  Inl e \<Rightarrow> (Inl e, tr) | Inr (t, tr') \<Rightarrow> (ok t, tr'))) (\<lambda>irq_to_gsi. do {
         mprintf ''\<newline>'' [];
         init_io_apic debug hw irq_to_gsi
       }))
     })"

section \<open>The table of lines\<close>

text \<open>An override as an entry of the table: bus, interrupt, line, flags.\<close>

definition iso_entry :: "u8 \<Rightarrow> u32 \<Rightarrow> u16 \<Rightarrow> madt_entry" where
  "iso_entry irq gsi flags = (2, [0, irq] @ bytes32 gsi @ bytes16 flags)"

definition overrides :: "madt_entry list \<Rightarrow> (u8 \<times> u32) list" where
  "overrides es = [(snd e ! 1, le32 (drop 2 (snd e))). e \<leftarrow> es, fst e = 2]"

text \<open>The line of an interrupt: that of the last override for it, and the interrupt's own number without one.\<close>

definition line_of :: "madt_entry list \<Rightarrow> nat \<Rightarrow> u8" where
  "line_of es irq = (case map_of (rev (overrides es)) (of_nat irq) of None \<Rightarrow> of_nat irq | Some gsi \<Rightarrow> ucast gsi)"

lemma read_iso_entry:
  assumes "entry_at m p (2, d)" and "length d = 8"
  shows "irq_source (read_io_apic_iso m p) = d ! 1" "iso_global_system_interrupt (read_io_apic_iso m p) = le32 (drop 2 d)"
    "bus_source (read_io_apic_iso m p) = d ! 0"
proof -
  have f: "fetch m (p + 2) (length d) = d" using assms(1) by (simp add: entry_at_def)
  show "iso_global_system_interrupt (read_io_apic_iso m p) = le32 (drop 2 d)"
    using read32_block [OF f, of 2] assms(2) by (simp add: read_io_apic_iso_def add.commute)
  show "irq_source (read_io_apic_iso m p) = d ! 1" "bus_source (read_io_apic_iso m p) = d ! 0"
    using nth_fetch [of 1 8 m "p + 2"] nth_fetch [of 0 8 m "p + 2"] f assms(2)
    by (simp_all add: read_io_apic_iso_def add.commute)
qed

lemma fold_update_nth:
  "length t = n \<Longrightarrow> list_all (\<lambda>(i, _). unat i < n) ovs \<Longrightarrow> n \<le> 256 \<Longrightarrow> j < n \<Longrightarrow>
     fold (\<lambda>(i, g) t. t[unat i := f g]) ovs t ! j =
       (case map_of (rev ovs) (of_nat j :: u8) of None \<Rightarrow> t ! j | Some g \<Rightarrow> f g)"
proof (induction ovs arbitrary: t)
  case (Cons x ovs)
  obtain i g where x: "x = (i, g)" by (cases x)
  have "of_nat j = i \<longleftrightarrow> j = unat i"
    using Cons.prems by (auto simp: unat_of_nat)
  then show ?case using Cons by (auto simp: x map_add_def nth_list_update split: option.split)
qed simp

text \<open>The overrides that the loop reads are those of the table, in its order.\<close>

lemma of_kind_iso:
  "of_kind io_apic_interrupt_source_override xs = map fst (filter (\<lambda>(_, e). fst e = 2) xs)"
proof -
  have "entry_type b = Some io_apic_interrupt_source_override \<longleftrightarrow> b = 2" for b by (simp add: entry_type_def)
  then show ?thesis by (simp add: of_kind_def)
qed

definition good_overrides :: "madt_entry list \<Rightarrow> bool" where
  "good_overrides es \<longleftrightarrow> (\<forall>d. (2, d) \<in> set es \<longrightarrow> length d = 8 \<and> d ! 0 = 0 \<and> unat (d ! 1) < number_of_apic_io_irq)"

lemma override_step_ptr: "override_step m isos i s = bindE (get_ptr isos i) (\<lambda>p. override_step m [Some p] 0 s)"
  by (cases "get_ptr isos i") (simp_all add: override_step_def get_ptr_def Let_def case_prod_beta)

lemma override_step_entry:
  assumes "entry_at m p (2, d)" and "length d = 8" and "d ! 0 = 0" and "unat (d ! 1) < length t"
  shows "override_step m [Some p] 0 (t, tr) = ok (t[unat (d ! 1) := ucast (le32 (drop 2 d))],
    MPrint ''Irq Source: %u -> GSI : %u\<newline>'' [KU (ucast (d ! 1)), KU (ucast (ucast (le32 (drop 2 d)) :: u8))] # tr)"
  using assms(3,4) by (simp add: override_step_def get_ptr_def Let_def read_iso_entry [OF assms(1,2)])

lemma forE_overrides:
  assumes "\<And>p e. (p, e) \<in> set xs \<Longrightarrow> entry_at m p e" and "good_overrides (map snd xs)"
    and "length t = number_of_apic_io_irq"
  shows "\<exists>tr'. forE (\<lambda>p. override_step m [Some p] 0) (map fst (filter (\<lambda>(_, e). fst e = 2) xs)) (t, tr) =
    ok (fold (\<lambda>(i, g) t. t[unat i := ucast g]) (overrides (map snd xs)) t, tr') \<and> (\<forall>c. io_chip c tr' = io_chip c tr)"
  using assms
proof (induction xs arbitrary: t tr)
  case Nil
  then show ?case by (simp add: overrides_def)
next
  case (Cons x xs)
  obtain p k d where x: "x = (p, k, d)" by (cases x)
  have at: "entry_at m p (k, d)" using Cons.prems(1) x by simp
  have rest: "\<And>p e. (p, e) \<in> set xs \<Longrightarrow> entry_at m p e" "good_overrides (map snd xs)"
    using Cons.prems(1,2) by (auto simp: good_overrides_def)
  show ?case
  proof (cases "k = 2")
    case False
    then show ?thesis using Cons.IH [OF rest Cons.prems(3), of tr] x by (simp add: overrides_def)
  next
    case True
    have d: "length d = 8" "d ! 0 = 0" "unat (d ! 1) < length t"
      using Cons.prems(2,3) x True by (auto simp: good_overrides_def)
    let ?t = "t[unat (d ! 1) := ucast (le32 (drop 2 d))]"
    let ?e = "MPrint ''Irq Source: %u -> GSI : %u\<newline>'' [KU (ucast (d ! 1)), KU (ucast (ucast (le32 (drop 2 d)) :: u8))]"
    have "length ?t = number_of_apic_io_irq" using Cons.prems(3) by simp
    from Cons.IH [OF rest this, of "?e # tr"] show ?thesis
      using override_step_entry [OF at [unfolded True] d] x True by (auto simp: overrides_def)
  qed
qed

lemma length_fold_update: "length (fold (\<lambda>(i, g) t. t[unat i := f g]) ovs t) = length t"
  by (induction ovs arbitrary: t) auto

lemma overrides_table:
  assumes "good_overrides es"
  shows "fold (\<lambda>(i, g) t. t[unat i := ucast g]) (overrides es) identity_table = map (line_of es) [0..<number_of_apic_io_irq]"
proof (rule nth_equalityI)
  fix j
  assume "j < length (fold (\<lambda>(i, g) t. t[unat i := ucast g]) (overrides es) identity_table)"
  then have j: "j < 24" by (simp add: length_fold_update identity_table_def const_defs)
  have "list_all (\<lambda>(i, _). unat i < 24) (overrides es)"
    using assms by (auto simp: overrides_def good_overrides_def list_all_iff const_defs)
  from fold_update_nth [OF _ this _ j, of identity_table ucast]
  show "fold (\<lambda>(i, g) t. t[unat i := ucast g]) (overrides es) identity_table ! j =
      map (line_of es) [0..<number_of_apic_io_irq] ! j"
    using j by (simp add: identity_table_def line_of_def const_defs split: option.split)
qed (simp add: length_fold_update identity_table_def)

lemma build_irq_to_gsi_table:
  assumes "madt_entries m madt es" and "good_overrides es"
    and "io_apic_isos r = map Some (of_kind io_apic_interrupt_source_override (located_entries madt es)) @ rest"
    and "n_io_apic_isos (entry_counts r) = of_nat (length (of_kind io_apic_interrupt_source_override (located_entries madt es)))"
    and "length (of_kind io_apic_interrupt_source_override (located_entries madt es)) \<le> 32"
  shows "\<exists>tr'. build_irq_to_gsi m r tr = ok (map (line_of es) [0..<number_of_apic_io_irq], tr') \<and> (\<forall>c. io_chip c tr' = io_chip c tr)"
proof -
  let ?xs = "located_entries madt es"
  let ?ps = "map fst (filter (\<lambda>(_, e). fst e = 2) ?xs)"
  have n: "n_io_apic_isos (entry_counts r) = of_nat (length ?ps)" "length ?ps \<le> 32" "io_apic_isos r = map Some ?ps @ rest"
    using assms(3-5) unfolding of_kind_iso by simp_all
  have u: "unat (of_nat (length ?ps) :: u32) = length ?ps" using n(2) by (simp add: unat_of_nat)
  have "\<And>p e. (p, e) \<in> set ?xs \<Longrightarrow> entry_at m p e"
    using assms(1) records_at_located by (auto simp: madt_entries_def)
  from forE_overrides [OF this, of ?xs identity_table tr] obtain tr' where
    f: "forE (\<lambda>p. override_step m [Some p] 0) ?ps (identity_table, tr) =
      ok (fold (\<lambda>(i, g) t. t[unat i := ucast g]) (overrides es) identity_table, tr')" and c: "\<forall>c. io_chip c tr' = io_chip c tr"
    using assms(2) by (auto simp: identity_table_def)
  have "forE (override_step m (io_apic_isos r)) [0..<length ?ps] s = forE (\<lambda>p. override_step m [Some p] 0) ?ps s" for s
  proof -
    have "forE (override_step m (io_apic_isos r)) [0..<length ?ps] s =
        forE (\<lambda>i. override_step m [Some (?ps ! i)] 0) [0..<length ?ps] s"
      by (rule forE_cong) (use override_step_ptr [of m "io_apic_isos r"] in
        \<open>simp_all add: n(3) get_ptr_def nth_append del: map_map\<close>)
    also have "\<dots> = forE (\<lambda>p. override_step m [Some p] 0) (map (nth ?ps) [0..<length ?ps]) s" by (simp only: forE_map)
    finally show ?thesis by (simp only: map_nth)
  qed
  moreover have "fold (\<lambda>(i, g) t. t[unat i := ucast g]) (overrides es) identity_table =
      map (line_of es) [0..<number_of_apic_io_irq]"
    by (rule overrides_table [OF assms(2)])
  ultimately show ?thesis
    using f c n(2) u by (simp add: build_irq_to_gsi_def n(1) Let_def min_def word_less_nat_alt del: map_map length_map)
qed

lemma setup_io_apic_lines:
  assumes "madt_entries m madt es" and "good_overrides es"
    and "filled (\<lambda>k. of_kind k (located_entries madt es)) (entry_counts r) r"
    and "length (of_kind io_apic (located_entries madt es)) = 1"
    and "distinct [line_of es 0, line_of es 1, line_of es 12]"
  shows "case run (setup_io_apic debug hw m r) tr of (res, tr') \<Rightarrow> res = ok () \<and>
    (\<forall>i. let regs = chip_regs (io_chip c tr'); old = chip_regs (io_chip c tr);
             vec = map_of [(line_of es 0, 32), (line_of es 1, 33), (line_of es 12, 44)] i
         in red_low_of (regs (fst (get_offsets i))) =
              (case vec of None \<Rightarrow> red_low_of (old (fst (get_offsets i))) | Some v \<Rightarrow> default_entry v) \<and>
            regs (snd (get_offsets i)) = (case vec of None \<Rightarrow> old (snd (get_offsets i)) | Some v \<Rightarrow> 0))"
proof -
  let ?g = "map (line_of es) [0..<number_of_apic_io_irq]"
  note f = assms(3) [unfolded filled_def, rule_format]
  obtain p where p: "of_kind io_apic (located_entries madt es) = [p]" using assms(4) by (metis One_nat_def length_0_conv length_Suc_conv)
  have io: "get_ptr (io_apics r) 0 = ok p" "n_io_apic (entry_counts r) = 1"
    using f [of io_apic] by (simp_all add: p get_ptr_def)
  have table: "\<exists>tr'. build_irq_to_gsi m r tr = ok (?g, tr') \<and> (\<forall>c. io_chip c tr' = io_chip c tr)" for tr
    using f [of io_apic_interrupt_source_override] by (intro build_irq_to_gsi_table [OF assms(1,2)]) simp_all
  have g: "?g ! 0 = line_of es 0" "?g ! 1 = line_of es 1" "?g ! 12 = line_of es 12" by (simp_all add: const_defs)
  let ?tr1 = "snd (run (do {
      mprintf ''The number of io apic: %u\<newline>'' [KU (ucast (ucast (n_io_apic (entry_counts r)) :: u8))];
      io_apic_len \<leftarrow> get_max_redirection_entry_count hw;
      mprintf ''This apic io uses GSI : [%u %u]\<newline>''
         [KU (global_system_interrupt_base (read_io_apic m p)),
          KU (global_system_interrupt_base (read_io_apic m p) + ucast io_apic_len)] }) tr)"
  have old: "chip_regs (io_chip c ?tr1) = chip_regs (io_chip c tr)"
    by (simp add: run_bind get_max_redirection_entry_count_def get_version_and_max_red_def)
  obtain tr2 where tr2: "build_irq_to_gsi m r ?tr1 = ok (?g, tr2)" "\<forall>c. io_chip c tr2 = io_chip c ?tr1" using table by blast
  have "run (setup_io_apic debug hw m r) tr = run (init_io_apic debug hw ?g) (MPrint ''\<newline>'' [] # tr2)"
    using io tr2(1) by (simp add: setup_io_apic_def run_bindS run_bind get_max_redirection_entry_count_def get_version_and_max_red_def)
  then show ?thesis
    using init_io_apic_routes [of ?g, where debug = debug and hw = hw and tr = "MPrint ''\<newline>'' [] # tr2" and c = c] assms(5) tr2(2) old
    unfolding g by simp
qed

end
