(* ===== verification/Ps2_Types.thy ===== *)
theory Ps2_Types
  imports Port_IO
begin

text \<open>
  The data of the PS/2 controller driver (\<open>drivers/ps2/controller/ps2_controller.h\<close>,
  \<open>ps2_controller_public.h\<close>): ports, command bytes, the bit-field registers with their
  byte views (the \<open>_uts\<close> unions), error codes, device types and the table that says what
  kind of response each command has.

  A C enum that only ever holds its enumerators is a datatype. An enum variable that the code
  fills from a raw byte (the test responses) stays a \<open>u8\<close>, with its enumerators as constants.
\<close>

section \<open>Ports and command bytes\<close>

definition PS2_DATA_PORT_RW :: port where [const_defs]: "PS2_DATA_PORT_RW = 0x60"
definition PS2_STATUS_PORT_R :: port where [const_defs]: "PS2_STATUS_PORT_R = 0x64"
definition PS2_COMMAND_PORT_W :: port where [const_defs]: "PS2_COMMAND_PORT_W = 0x64"
definition DEVICE_COMMAND_ACKNOLEDGED :: u8 where [const_defs]: "DEVICE_COMMAND_ACKNOLEDGED = 0xFA"
definition DEVICE_COMMAND_SELF_TEST_PASSED :: u8 where
  [const_defs]: "DEVICE_COMMAND_SELF_TEST_PASSED = 0xAA"

definition PS2_CB_read_byte_0 :: u8 where [const_defs]: "PS2_CB_read_byte_0 = 0x20"
definition PS2_CB_read_byte_N_start :: u8 where [const_defs]: "PS2_CB_read_byte_N_start = 0x21"
definition PS2_CB_read_byte_N_end :: u8 where [const_defs]: "PS2_CB_read_byte_N_end = 0x3F"
definition PS2_CB_write_next_to_byte_0 :: u8 where [const_defs]: "PS2_CB_write_next_to_byte_0 = 0x60"
definition PS2_CB_write_next_to_byte_N_end :: u8 where
  [const_defs]: "PS2_CB_write_next_to_byte_N_end = 0x7F"
definition PS2_CB_disable_second_ps2_port :: u8 where
  [const_defs]: "PS2_CB_disable_second_ps2_port = 0xA7"
definition PS2_CB_enable_second_ps2_port :: u8 where
  [const_defs]: "PS2_CB_enable_second_ps2_port = 0xA8"
definition PS2_CB_test_second_ps2_port :: u8 where [const_defs]: "PS2_CB_test_second_ps2_port = 0xA9"
definition PS2_CB_test_ps2_controller :: u8 where [const_defs]: "PS2_CB_test_ps2_controller = 0xAA"
definition PS2_CB_test_first_ps2_port :: u8 where [const_defs]: "PS2_CB_test_first_ps2_port = 0xAB"
definition PS2_CB_diagnostic_dump :: u8 where [const_defs]: "PS2_CB_diagnostic_dump = 0xAC"
definition PS2_CB_disable_first_ps2_port :: u8 where
  [const_defs]: "PS2_CB_disable_first_ps2_port = 0xAD"
definition PS2_CB_enable_first_ps2_port :: u8 where
  [const_defs]: "PS2_CB_enable_first_ps2_port = 0xAE"
definition PS2_CB_read_controller_input_port :: u8 where
  [const_defs]: "PS2_CB_read_controller_input_port = 0xC0"
definition PS2_CB_copy_low_input_to_status :: u8 where
  [const_defs]: "PS2_CB_copy_low_input_to_status = 0xC1"
definition PS2_CB_copy_high_input_to_status :: u8 where
  [const_defs]: "PS2_CB_copy_high_input_to_status = 0xC2"
definition PS2_CB_read_controller_output_port :: u8 where
  [const_defs]: "PS2_CB_read_controller_output_port = 0xD0"
definition PS2_CB_write_next_byte_to_controller_output_port :: u8 where
  [const_defs]: "PS2_CB_write_next_byte_to_controller_output_port = 0xD1"
definition PS2_CB_write_next_byte_to_first_ps2_output_buffer :: u8 where
  [const_defs]: "PS2_CB_write_next_byte_to_first_ps2_output_buffer = 0xD2"
definition PS2_CB_write_next_byte_to_second_ps2_output_buffer :: u8 where
  [const_defs]: "PS2_CB_write_next_byte_to_second_ps2_output_buffer = 0xD3"
definition PS2_CB_write_next_byte_to_second_ps2_input_buffer :: u8 where
  [const_defs]: "PS2_CB_write_next_byte_to_second_ps2_input_buffer = 0xD4"
definition PS2_CB_pulse_output_line_low_start :: u8 where
  [const_defs]: "PS2_CB_pulse_output_line_low_start = 0xF0"
definition PS2_CB_pulse_output_line_low_end :: u8 where
  [const_defs]: "PS2_CB_pulse_output_line_low_end = 0xFF"
definition PS2_CB_reset_device :: u8 where [const_defs]: "PS2_CB_reset_device = 0xFF"

section \<open>Bit-field registers and their byte views\<close>

definition byte_of_bits :: "bool list \<Rightarrow> u8" where
  "byte_of_bits bs = horner_sum of_bool 2 bs"

record PS2_StatusRegister =
  output_buffer_full_not_empty :: bool
  input_buffer_full_not_empty :: bool
  system_flag :: bool
  command_not_data :: bool
  unknown_4 :: bool
  unknown_5 :: bool
  timeout_error :: bool
  parity_error :: bool

definition status_bits :: "u8 \<Rightarrow> PS2_StatusRegister" where
  "status_bits raw = \<lparr>output_buffer_full_not_empty = bit raw 0, input_buffer_full_not_empty = bit raw 1,
     system_flag = bit raw 2, command_not_data = bit raw 3, unknown_4 = bit raw 4, unknown_5 = bit raw 5,
     timeout_error = bit raw 6, parity_error = bit raw 7\<rparr>"

record PS2_ConfigurationByte =
  first_ps2_port_enabled :: bool
  second_ps2_port_enabled :: bool
  system_flag_passed_post_one :: bool
  zero1 :: bool
  first_ps2_port_clock_disabled :: bool
  second_ps2_port_clock_disabled :: bool
  first_ps2_port_translation_enabled :: bool
  zero2 :: bool

definition config_bits :: "u8 \<Rightarrow> PS2_ConfigurationByte" where
  "config_bits raw = \<lparr>first_ps2_port_enabled = bit raw 0, second_ps2_port_enabled = bit raw 1,
     system_flag_passed_post_one = bit raw 2, zero1 = bit raw 3,
     first_ps2_port_clock_disabled = bit raw 4, second_ps2_port_clock_disabled = bit raw 5,
     first_ps2_port_translation_enabled = bit raw 6, zero2 = bit raw 7\<rparr>"

definition config_raw :: "PS2_ConfigurationByte \<Rightarrow> u8" where
  "config_raw c = byte_of_bits [first_ps2_port_enabled c, second_ps2_port_enabled c,
     system_flag_passed_post_one c, zero1 c, first_ps2_port_clock_disabled c,
     second_ps2_port_clock_disabled c, first_ps2_port_translation_enabled c, zero2 c]"

record PS2_ControllerOutputPort =
  system_reset_dont_set_infinite_loop :: bool
  A20_gate :: bool
  second_ps2_port_clock :: bool
  second_ps2_port_data :: bool
  connected_to_irq1 :: bool
  connected_to_irq12 :: bool
  first_ps2_port_clock :: bool
  first_ps2_port_data :: bool

definition output_port_bits :: "u8 \<Rightarrow> PS2_ControllerOutputPort" where
  "output_port_bits raw = \<lparr>system_reset_dont_set_infinite_loop = bit raw 0, A20_gate = bit raw 1,
     second_ps2_port_clock = bit raw 2, second_ps2_port_data = bit raw 3, connected_to_irq1 = bit raw 4,
     connected_to_irq12 = bit raw 5, first_ps2_port_clock = bit raw 6, first_ps2_port_data = bit raw 7\<rparr>"

definition output_port_raw :: "PS2_ControllerOutputPort \<Rightarrow> u8" where
  "output_port_raw p = byte_of_bits [system_reset_dont_set_infinite_loop p, A20_gate p,
     second_ps2_port_clock p, second_ps2_port_data p, connected_to_irq1 p, connected_to_irq12 p,
     first_ps2_port_clock p, first_ps2_port_data p]"

lemma bit_byte_of_bits: "length bs = 8 \<Longrightarrow> n < 8 \<Longrightarrow> bit (byte_of_bits bs) n = bs ! n"
  by (simp add: byte_of_bits_def bit_horner_sum_bit_word_iff)

lemma byte_of_bits_bits: "byte_of_bits (map (bit (b :: u8)) [0..<8]) = b"
  by (simp only: byte_of_bits_def horner_sum_bit_eq_take_bit) (simp add: take_bit_word_eq_self)

lemma bits_list_byte: "map (bit (b :: u8)) [0..<8] =
    [bit b 0, bit b 1, bit b 2, bit b 3, bit b 4, bit b 5, bit b 6, bit b 7]"
  by (simp add: upt_rec numeral_eq_Suc)

lemma config_raw_bits [simp]: "config_raw (config_bits b) = b"
  using byte_of_bits_bits [of b] unfolding bits_list_byte by (simp add: config_raw_def config_bits_def)

lemma config_bits_raw [simp]: "config_bits (config_raw c) = c"
  by (simp add: config_raw_def config_bits_def bit_byte_of_bits)

lemma output_port_raw_bits [simp]: "output_port_raw (output_port_bits b) = b"
  using byte_of_bits_bits [of b] unfolding bits_list_byte
  by (simp add: output_port_raw_def output_port_bits_def)

lemma output_port_bits_raw [simp]: "output_port_bits (output_port_raw p) = p"
  by (simp add: output_port_raw_def output_port_bits_def bit_byte_of_bits)

section \<open>Error codes\<close>

text \<open>
  \<open>PS2_ERR_device_rep3_invalid\<close> and \<open>PS2_ERR_device_rep4_invalid\<close> are both the number 10, so
  they are one value of the C type: one constructor with two names.
\<close>

datatype ps2_controller_error_code =
    PS2_ERR_none
  | PS2_ERR_invalid_port_number
  | PS2_ERR_wait_max_itt_in
  | PS2_ERR_wait_max_itt_out
  | PS2_ERR_invalid_test_port_response
  | PS2_ERR_invalid_test_controller_response
  | PS2_ERR_invalid_configuration_byte
  | PS2_ERR_status_parity
  | PS2_ERR_status_timeout
  | PS2_ERR_device_command_failed_to_acknowledge
  | PS2_ERR_device_command_failed_self_test
  | PS2_ERR_device_rep3_invalid
  | PS2_WARN_A20_line_not_set
  | PS2_WARN_invalid_configuration_byte_post_is_zero
  | PS2_WARN_n_is_zero

abbreviation PS2_ERR_device_rep4_invalid :: ps2_controller_error_code where
  "PS2_ERR_device_rep4_invalid \<equiv> PS2_ERR_device_rep3_invalid"

fun ps2_err_value :: "ps2_controller_error_code \<Rightarrow> int" where
  "ps2_err_value PS2_ERR_none = 0"
| "ps2_err_value PS2_ERR_invalid_port_number = -1"
| "ps2_err_value PS2_ERR_wait_max_itt_in = 1"
| "ps2_err_value PS2_ERR_wait_max_itt_out = 2"
| "ps2_err_value PS2_ERR_invalid_test_port_response = 3"
| "ps2_err_value PS2_ERR_invalid_test_controller_response = 4"
| "ps2_err_value PS2_ERR_invalid_configuration_byte = 5"
| "ps2_err_value PS2_ERR_status_parity = 6"
| "ps2_err_value PS2_ERR_status_timeout = 7"
| "ps2_err_value PS2_ERR_device_command_failed_to_acknowledge = 8"
| "ps2_err_value PS2_ERR_device_command_failed_self_test = 9"
| "ps2_err_value PS2_ERR_device_rep3_invalid = 10"
| "ps2_err_value PS2_WARN_A20_line_not_set = 1000"
| "ps2_err_value PS2_WARN_invalid_configuration_byte_post_is_zero = 999"
| "ps2_err_value PS2_WARN_n_is_zero = 998"

text \<open>C's \<open>if (err)\<close> is the test against \<open>PS2_ERR_none\<close>: no other code is the number zero.\<close>

lemma ps2_err_value_zero: "ps2_err_value e = 0 \<longleftrightarrow> e = PS2_ERR_none"
  by (cases e) simp_all

lemma ps2_err_value_inj: "ps2_err_value a = ps2_err_value b \<longleftrightarrow> a = b"
  by (cases a; cases b) simp_all

fun PS2_OS_Error_to_string :: "ps2_controller_error_code \<Rightarrow> string" where
  "PS2_OS_Error_to_string PS2_ERR_none = ''PS2_ERR_NONE''"
| "PS2_OS_Error_to_string PS2_ERR_invalid_port_number = ''PS2_ERR_INVALID_PORT_NUMBER''"
| "PS2_OS_Error_to_string PS2_ERR_wait_max_itt_in = ''PS2_ERR_WAIT_MAX_ITT_IN''"
| "PS2_OS_Error_to_string PS2_ERR_wait_max_itt_out = ''PS2_ERR_WAIT_MAX_ITT_OUT''"
| "PS2_OS_Error_to_string PS2_ERR_invalid_test_port_response = ''PS2_ERR_INVALID_TEST_PORT_RESPONSE''"
| "PS2_OS_Error_to_string PS2_ERR_invalid_test_controller_response =
     ''PS2_ERR_INVALID_TEST_CONTROLLER_RESPONSE''"
| "PS2_OS_Error_to_string PS2_ERR_invalid_configuration_byte = ''PS2_ERR_INVALID_CONFIGURATION_BYTE''"
| "PS2_OS_Error_to_string PS2_ERR_status_parity = ''PS2_ERR_STATUS_PARITY''"
| "PS2_OS_Error_to_string PS2_ERR_status_timeout = ''PS2_ERR_STATUS_TIMEOUT''"
| "PS2_OS_Error_to_string PS2_WARN_A20_line_not_set = ''PS2_WARN_A20_LINE_NOT_SET''"
| "PS2_OS_Error_to_string PS2_WARN_n_is_zero = ''PS2_WARN_N_IS_ZERO''"
| "PS2_OS_Error_to_string PS2_WARN_invalid_configuration_byte_post_is_zero =
     ''PS2_WARN_invalid_configuration_byte_post_is_zero''"
| "PS2_OS_Error_to_string _ = ''Unknown PS2 error code!''"

section \<open>Devices\<close>

text \<open>
  \<open>enum ps2_device_type\<close> numbers its members from 0. On an unrecognised answer the code stores
  the raw answer byte in it: \<open>device_type_of_byte\<close> is that conversion, with
  \<open>PS2_DT_number\<close> for the values that are no enumerator.
\<close>

datatype ps2_device_type =
    PS2_DT_ancient_at_keyboard
  | PS2_DT_standard_mouse
  | PS2_DT_mouse_with_scroll_wheel
  | PS2_DT_mouse_with_5_button
  | PS2_DT_mf2_keyboard_1
  | PS2_DT_mf2_keyboard_2
  | PS2_DT_short_keyboard
  | PS2_DT_122_key_host_connected
  | PS2_DT_122_key
  | PS2_DT_japanese_g_keyboard
  | PS2_DT_japanese_p_keyboard
  | PS2_DT_japanese_a_keyboard
  | PS2_DT_ncd_sun_layout_keyboard
  | PS2_DT_number u8

definition device_type_of_byte :: "u8 \<Rightarrow> ps2_device_type" where
  "device_type_of_byte b =
     (let ds = [PS2_DT_ancient_at_keyboard, PS2_DT_standard_mouse, PS2_DT_mouse_with_scroll_wheel,
        PS2_DT_mouse_with_5_button, PS2_DT_mf2_keyboard_1, PS2_DT_mf2_keyboard_2,
        PS2_DT_short_keyboard, PS2_DT_122_key_host_connected, PS2_DT_122_key,
        PS2_DT_japanese_g_keyboard, PS2_DT_japanese_p_keyboard, PS2_DT_japanese_a_keyboard,
        PS2_DT_ncd_sun_layout_keyboard]
      in if unat b < length ds then ds ! unat b else PS2_DT_number b)"

datatype ps2_device_super_type = PS2_DST_unknown | PS2_DST_keyboard | PS2_DST_mouse

fun get_device_super_type :: "ps2_device_type \<Rightarrow> ps2_device_super_type" where
  "get_device_super_type PS2_DT_ancient_at_keyboard = PS2_DST_keyboard"
| "get_device_super_type PS2_DT_mf2_keyboard_1 = PS2_DST_keyboard"
| "get_device_super_type PS2_DT_mf2_keyboard_2 = PS2_DST_keyboard"
| "get_device_super_type PS2_DT_short_keyboard = PS2_DST_keyboard"
| "get_device_super_type PS2_DT_122_key_host_connected = PS2_DST_keyboard"
| "get_device_super_type PS2_DT_122_key = PS2_DST_keyboard"
| "get_device_super_type PS2_DT_japanese_g_keyboard = PS2_DST_keyboard"
| "get_device_super_type PS2_DT_japanese_p_keyboard = PS2_DST_keyboard"
| "get_device_super_type PS2_DT_japanese_a_keyboard = PS2_DST_keyboard"
| "get_device_super_type PS2_DT_ncd_sun_layout_keyboard = PS2_DST_keyboard"
| "get_device_super_type PS2_DT_standard_mouse = PS2_DST_mouse"
| "get_device_super_type PS2_DT_mouse_with_scroll_wheel = PS2_DST_mouse"
| "get_device_super_type PS2_DT_mouse_with_5_button = PS2_DST_mouse"
| "get_device_super_type (PS2_DT_number _) = PS2_DST_unknown"

fun ps2_device_type_to_string :: "ps2_device_type \<Rightarrow> string" where
  "ps2_device_type_to_string PS2_DT_ancient_at_keyboard = ''Ancient AT Keyboard''"
| "ps2_device_type_to_string PS2_DT_standard_mouse = ''Standard Mouse''"
| "ps2_device_type_to_string PS2_DT_mouse_with_scroll_wheel = ''Mouse with Scroll Wheel''"
| "ps2_device_type_to_string PS2_DT_mouse_with_5_button = ''Mouse with 5 Buttons''"
| "ps2_device_type_to_string PS2_DT_mf2_keyboard_1 = ''MF2 Keyboard 1 (0xAB, 0x83)''"
| "ps2_device_type_to_string PS2_DT_mf2_keyboard_2 = ''MF2 Keyboard 2 (0xAB, 0xC1)''"
| "ps2_device_type_to_string PS2_DT_short_keyboard = ''Short Keyboard''"
| "ps2_device_type_to_string PS2_DT_122_key_host_connected = ''122-Key Host Connected Keyboard''"
| "ps2_device_type_to_string PS2_DT_122_key = ''122-Key Keyboard''"
| "ps2_device_type_to_string PS2_DT_japanese_g_keyboard = ''Japanese G Keyboard''"
| "ps2_device_type_to_string PS2_DT_japanese_p_keyboard = ''Japanese P Keyboard''"
| "ps2_device_type_to_string PS2_DT_japanese_a_keyboard = ''Japanese A Keyboard''"
| "ps2_device_type_to_string PS2_DT_ncd_sun_layout_keyboard = ''NCD / Sun Layout Keyboard''"
| "ps2_device_type_to_string (PS2_DT_number _) = ''Unknown PS/2 Device''"

section \<open>Responses\<close>

definition PS2_TPR_passed :: u8 where [const_defs]: "PS2_TPR_passed = 0x00"
definition PS2_TCR_passed :: u8 where [const_defs]: "PS2_TCR_passed = 0x55"
definition PS2_TCR_failed :: u8 where [const_defs]: "PS2_TCR_failed = 0xFC"

definition PS2_verify_test_port_response :: "u8 \<Rightarrow> bool" where
  "PS2_verify_test_port_response r \<longleftrightarrow> 0x00 \<le> r \<and> r \<le> 0x04"

definition PS2_verify_test_controller_response :: "u8 \<Rightarrow> bool" where
  "PS2_verify_test_controller_response r \<longleftrightarrow> r = PS2_TCR_passed \<or> r = PS2_TCR_failed"

definition PS2_verify_controller_output_port_response :: "PS2_ControllerOutputPort \<Rightarrow> bool" where
  "PS2_verify_controller_output_port_response p \<longleftrightarrow> \<not> A20_gate p"

definition PS2_TestPortResponse_to_string :: "u8 \<Rightarrow> string" where
  "PS2_TestPortResponse_to_string r =
     (if r = 0 then ''PS2_TPR_passed''
      else if r = 1 then ''PS2_TPR_clock_stuck_low''
      else if r = 2 then ''PS2_TPR_clock_stuck_high''
      else if r = 3 then ''PS2_TPR_data_stuck_low''
      else if r = 4 then ''PS2_TPR_data_stuck_high''
      else ''Invalid PS2_TestPortResponse!'')"

datatype PS2_ResponseType =
    PS2_RT_not_a_command
  | PS2_RT_none
  | PS2_RT_unknown
  | PS2_RT_controller_configuration_byte
  | PS2_RT_test_port
  | PS2_RT_test_controller
  | PS2_RT_controller_output_port

text \<open>
  The table \<open>command_to_response_type\<close>: a C initialiser list with designators, in which a later
  entry overrides an earlier one. Here the entries are tried last to first.
\<close>

definition command_to_response_type :: "u8 \<Rightarrow> PS2_ResponseType" where
  "command_to_response_type c =
     (if PS2_CB_pulse_output_line_low_start \<le> c \<and> c \<le> PS2_CB_pulse_output_line_low_end then PS2_RT_none
      else if c = PS2_CB_write_next_byte_to_second_ps2_input_buffer then PS2_RT_none
      else if c = PS2_CB_write_next_byte_to_second_ps2_output_buffer then PS2_RT_none
      else if c = PS2_CB_write_next_byte_to_first_ps2_output_buffer then PS2_RT_none
      else if c = PS2_CB_write_next_byte_to_controller_output_port then PS2_RT_none
      else if c = PS2_CB_read_controller_output_port then PS2_RT_controller_output_port
      else if c = PS2_CB_copy_high_input_to_status then PS2_RT_none
      else if c = PS2_CB_copy_low_input_to_status then PS2_RT_none
      else if c = PS2_CB_read_controller_input_port then PS2_RT_unknown
      else if c = PS2_CB_enable_first_ps2_port then PS2_RT_none
      else if c = PS2_CB_disable_first_ps2_port then PS2_RT_none
      else if c = PS2_CB_diagnostic_dump then PS2_RT_unknown
      else if c = PS2_CB_test_first_ps2_port then PS2_RT_test_port
      else if c = PS2_CB_test_ps2_controller then PS2_RT_test_controller
      else if c = PS2_CB_test_second_ps2_port then PS2_RT_test_port
      else if c = PS2_CB_enable_second_ps2_port then PS2_RT_none
      else if c = PS2_CB_disable_second_ps2_port then PS2_RT_none
      else if PS2_CB_write_next_to_byte_0 \<le> c \<and> c \<le> PS2_CB_write_next_to_byte_N_end then PS2_RT_none
      else if PS2_CB_read_byte_N_start \<le> c \<and> c \<le> PS2_CB_read_byte_N_end then PS2_RT_unknown
      else if c = PS2_CB_read_byte_0 then PS2_RT_controller_configuration_byte
      else PS2_RT_not_a_command)"

end
