(* ===== verification/Ps2_Controller.thy ===== *)
theory Ps2_Controller
  imports Ps2_Types
begin

text \<open>
  The PS/2 controller driver (\<open>drivers/ps2/controller/ps2_controller.c\<close>): the bounded polling
  loops on the status register, the command/response primitives, one function per controller
  command, the commands to the attached devices, and the identification of a device by a reset.

  A response structure that the C code leaves partly unassigned has an \<open>option\<close> field: \<open>None\<close>
  is the indeterminate value of a field that was never written.
\<close>

section \<open>Predicates on the registers\<close>

definition is_ps2_controller_ready_for_more_input :: "PS2_StatusRegister \<Rightarrow> bool" where
  "is_ps2_controller_ready_for_more_input status = (\<not> input_buffer_full_not_empty status)"

definition is_ps2_controller_ready_for_response :: "PS2_StatusRegister \<Rightarrow> bool" where
  "is_ps2_controller_ready_for_response status = output_buffer_full_not_empty status"

definition PS2_verify_status_parity :: "PS2_StatusRegister \<Rightarrow> bool" where
  "PS2_verify_status_parity status = (\<not> parity_error status)"

definition PS2_verify_status_timeout :: "PS2_StatusRegister \<Rightarrow> bool" where
  "PS2_verify_status_timeout status = (\<not> timeout_error status)"

text \<open>The source tests \<open>zero1\<close> twice; \<open>zero2\<close> is not looked at.\<close>

definition PS2_verify_configuration_byte_response ::
    "PS2_ConfigurationByte \<Rightarrow> ps2_controller_error_code" where
  "PS2_verify_configuration_byte_response bits =
     (if zero1 bits \<or> zero1 bits then PS2_ERR_invalid_configuration_byte
      else if \<not> system_flag_passed_post_one bits
      then PS2_WARN_invalid_configuration_byte_post_is_zero
      else PS2_ERR_none)"

lemmas status_defs = is_ps2_controller_ready_for_more_input_def
  is_ps2_controller_ready_for_response_def PS2_verify_status_parity_def
  PS2_verify_status_timeout_def status_bits_def

section \<open>Polling and sending\<close>

definition MAX_PS2_WAIT_LOOP :: nat where "MAX_PS2_WAIT_LOOP = 1000"

definition read_ps2_status :: "hw \<Rightarrow> (iolog, PS2_StatusRegister) state" where
  "read_ps2_status hw = do { raw \<leftarrow> inb hw PS2_STATUS_PORT_R; ret (status_bits raw) }"

definition ps2_recieve_raw_response :: "hw \<Rightarrow> (iolog, u8) state" where
  "ps2_recieve_raw_response hw = inb hw PS2_DATA_PORT_RW"

text \<open>The \<open>for\<close> loops, with the number of rounds left as the argument.\<close>

fun wait_in_loop :: "hw \<Rightarrow> nat \<Rightarrow> (iolog, ps2_controller_error_code) state" where
  "wait_in_loop hw 0 = ret PS2_ERR_wait_max_itt_in"
| "wait_in_loop hw (Suc n) = do {
     io_wait;
     status \<leftarrow> read_ps2_status hw;
     if is_ps2_controller_ready_for_more_input status then
       (if \<not> PS2_verify_status_parity status then ret PS2_ERR_status_parity
        else if \<not> PS2_verify_status_timeout status then ret PS2_ERR_status_timeout
        else ret PS2_ERR_none)
     else wait_in_loop hw n
   }"

definition wait_till_ready_for_more_input :: "hw \<Rightarrow> (iolog, ps2_controller_error_code) state" where
  "wait_till_ready_for_more_input hw = wait_in_loop hw MAX_PS2_WAIT_LOOP"

fun wait_out_loop :: "hw \<Rightarrow> nat \<Rightarrow> (iolog, ps2_controller_error_code) state" where
  "wait_out_loop hw 0 = ret PS2_ERR_wait_max_itt_out"
| "wait_out_loop hw (Suc n) = do {
     io_wait;
     status \<leftarrow> read_ps2_status hw;
     if is_ps2_controller_ready_for_response status then ret PS2_ERR_none
     else wait_out_loop hw n
   }"

definition wait_till_ready_for_response :: "hw \<Rightarrow> (iolog, ps2_controller_error_code) state" where
  "wait_till_ready_for_response hw = wait_out_loop hw MAX_PS2_WAIT_LOOP"

definition send_command_to_ps2_controller :: "hw \<Rightarrow> u8 \<Rightarrow> (iolog, ps2_controller_error_code) state" where
  "send_command_to_ps2_controller hw command = do {
     err \<leftarrow> wait_till_ready_for_more_input hw;
     if err \<noteq> PS2_ERR_none then ret err
     else do {
       outb PS2_COMMAND_PORT_W command;
       ret PS2_ERR_none
     }
   }"

section \<open>Commands with each kind of response\<close>

record 'r verified =
  response :: "'r option"
  err :: ps2_controller_error_code

record verified_unknown =
  u_response :: "u8 option"
  u_err :: "ps2_controller_error_code option"

definition send_command_none_response :: "hw \<Rightarrow> u8 \<Rightarrow> (iolog, ps2_controller_error_code) state" where
  "send_command_none_response hw command = send_command_to_ps2_controller hw command"

text \<open>On success this one returns without ever assigning \<open>ret.err\<close>.\<close>

definition send_command_unknown_response :: "hw \<Rightarrow> u8 \<Rightarrow> (iolog, verified_unknown) state" where
  "send_command_unknown_response hw command = do {
     e \<leftarrow> send_command_to_ps2_controller hw command;
     if e \<noteq> PS2_ERR_none then ret \<lparr>u_response = None, u_err = Some e\<rparr>
     else do {
       e \<leftarrow> wait_till_ready_for_response hw;
       if e \<noteq> PS2_ERR_none then ret \<lparr>u_response = None, u_err = Some e\<rparr>
       else do {
         raw_response \<leftarrow> ps2_recieve_raw_response hw;
         ret \<lparr>u_response = Some raw_response, u_err = None\<rparr>
       }
     }
   }"

definition send_command_configuration_byte_response ::
    "hw \<Rightarrow> u8 \<Rightarrow> (iolog, PS2_ConfigurationByte verified) state" where
  "send_command_configuration_byte_response hw command = do {
     e \<leftarrow> send_command_to_ps2_controller hw command;
     if e \<noteq> PS2_ERR_none then ret \<lparr>response = None, err = e\<rparr>
     else do {
       e \<leftarrow> wait_till_ready_for_response hw;
       if e \<noteq> PS2_ERR_none then ret \<lparr>response = None, err = e\<rparr>
       else do {
         raw_response \<leftarrow> ps2_recieve_raw_response hw;
         let valid_err = PS2_verify_configuration_byte_response (config_bits raw_response);
         if valid_err \<noteq> PS2_ERR_none
         then ret \<lparr>response = Some (config_bits raw_response), err = valid_err\<rparr>
         else ret \<lparr>response = Some (config_bits raw_response), err = PS2_ERR_none\<rparr>
       }
     }
   }"

definition send_command_test_port_response :: "hw \<Rightarrow> u8 \<Rightarrow> (iolog, u8 verified) state" where
  "send_command_test_port_response hw command = do {
     e \<leftarrow> send_command_to_ps2_controller hw command;
     if e \<noteq> PS2_ERR_none then ret \<lparr>response = None, err = e\<rparr>
     else do {
       e \<leftarrow> wait_till_ready_for_response hw;
       if e \<noteq> PS2_ERR_none then ret \<lparr>response = None, err = e\<rparr>
       else do {
         raw_response \<leftarrow> ps2_recieve_raw_response hw;
         if \<not> PS2_verify_test_port_response raw_response
         then ret \<lparr>response = Some raw_response, err = PS2_ERR_invalid_test_port_response\<rparr>
         else ret \<lparr>response = Some raw_response, err = PS2_ERR_none\<rparr>
       }
     }
   }"

definition send_command_test_controller_response :: "hw \<Rightarrow> u8 \<Rightarrow> (iolog, u8 verified) state" where
  "send_command_test_controller_response hw command = do {
     e \<leftarrow> send_command_to_ps2_controller hw command;
     if e \<noteq> PS2_ERR_none then ret \<lparr>response = None, err = e\<rparr>
     else do {
       e \<leftarrow> wait_till_ready_for_response hw;
       if e \<noteq> PS2_ERR_none then ret \<lparr>response = None, err = e\<rparr>
       else do {
         raw_response \<leftarrow> ps2_recieve_raw_response hw;
         if \<not> PS2_verify_test_controller_response raw_response
         then ret \<lparr>response = Some raw_response, err = PS2_ERR_invalid_test_controller_response\<rparr>
         else ret \<lparr>response = Some raw_response, err = PS2_ERR_none\<rparr>
       }
     }
   }"

definition send_command_test_controller_output_port_response ::
    "hw \<Rightarrow> u8 \<Rightarrow> (iolog, PS2_ControllerOutputPort verified) state" where
  "send_command_test_controller_output_port_response hw command = do {
     e \<leftarrow> send_command_to_ps2_controller hw command;
     if e \<noteq> PS2_ERR_none then ret \<lparr>response = None, err = e\<rparr>
     else do {
       e \<leftarrow> wait_till_ready_for_response hw;
       if e \<noteq> PS2_ERR_none then ret \<lparr>response = None, err = e\<rparr>
       else do {
         raw_response \<leftarrow> ps2_recieve_raw_response hw;
         if \<not> PS2_verify_controller_output_port_response (output_port_bits raw_response)
         then ret \<lparr>response = Some (output_port_bits raw_response), err = PS2_WARN_A20_line_not_set\<rparr>
         else ret \<lparr>response = Some (output_port_bits raw_response), err = PS2_ERR_none\<rparr>
       }
     }
   }"

section \<open>Commands to the controller\<close>

definition ps2_read_byte_0_from_internal_ram :: "hw \<Rightarrow> (iolog, PS2_ConfigurationByte verified) state" where
  "ps2_read_byte_0_from_internal_ram hw = send_command_configuration_byte_response hw PS2_CB_read_byte_0"

text \<open>
  The two asserts abort on an index outside the command range and on index 0, so the code after
  them that turns index 0 into a warning is not reached.
\<close>

definition ps2_read_byte_n_from_internal_ram :: "hw \<Rightarrow> u8 \<Rightarrow> (iolog, verified_unknown exec) state" where
  "ps2_read_byte_n_from_internal_ram hw byte_index =
     (if \<not> byte_index < PS2_CB_read_byte_N_end - PS2_CB_read_byte_0 then ret (Inl Abort)
      else if \<not> byte_index \<noteq> 0 then ret (Inl Abort)
      else do {
        r \<leftarrow> send_command_unknown_response hw (PS2_CB_read_byte_0 + byte_index);
        ret (ok (if byte_index = 0 \<and> u_err r = Some PS2_ERR_none
                 then r\<lparr>u_err := Some PS2_WARN_n_is_zero\<rparr> else r))
      })"

definition ps2_get_configuration_byte :: "hw \<Rightarrow> (iolog, PS2_ConfigurationByte verified) state" where
  "ps2_get_configuration_byte hw = send_command_configuration_byte_response hw PS2_CB_read_byte_0"

definition write_next_to_byte_0_of_interal_ram :: "hw \<Rightarrow> (iolog, ps2_controller_error_code) state" where
  "write_next_to_byte_0_of_interal_ram hw = send_command_none_response hw PS2_CB_write_next_to_byte_0"

definition write_next_to_byte_n_of_interal_ram ::
    "hw \<Rightarrow> u8 \<Rightarrow> (iolog, ps2_controller_error_code exec) state" where
  "write_next_to_byte_n_of_interal_ram hw byte_index =
     (if \<not> byte_index < PS2_CB_write_next_to_byte_N_end - PS2_CB_write_next_to_byte_0 then ret (Inl Abort)
      else do {
        e \<leftarrow> send_command_none_response hw (PS2_CB_write_next_to_byte_0 + byte_index);
        ret (ok (if byte_index = 0 \<and> e = PS2_ERR_none then PS2_WARN_n_is_zero else e))
      })"

definition ps2_set_configuration_byte ::
    "hw \<Rightarrow> PS2_ConfigurationByte \<Rightarrow> (iolog, ps2_controller_error_code) state" where
  "ps2_set_configuration_byte hw config_byte = do {
     e \<leftarrow> write_next_to_byte_0_of_interal_ram hw;
     if e \<noteq> PS2_ERR_none then ret e
     else do {
       e \<leftarrow> wait_till_ready_for_more_input hw;
       if e \<noteq> PS2_ERR_none then ret e
       else do {
         outb PS2_DATA_PORT_RW (config_raw config_byte);
         ret PS2_ERR_none
       }
     }
   }"

definition ps2_disable_first_ps2_port :: "hw \<Rightarrow> (iolog, ps2_controller_error_code) state" where
  "ps2_disable_first_ps2_port hw = send_command_to_ps2_controller hw PS2_CB_disable_first_ps2_port"

definition ps2_disable_second_ps2_port :: "hw \<Rightarrow> (iolog, ps2_controller_error_code) state" where
  "ps2_disable_second_ps2_port hw = send_command_to_ps2_controller hw PS2_CB_disable_second_ps2_port"

definition ps2_enable_first_ps2_port :: "hw \<Rightarrow> (iolog, ps2_controller_error_code) state" where
  "ps2_enable_first_ps2_port hw = send_command_to_ps2_controller hw PS2_CB_enable_first_ps2_port"

definition ps2_enable_second_ps2_port :: "hw \<Rightarrow> (iolog, ps2_controller_error_code) state" where
  "ps2_enable_second_ps2_port hw = send_command_to_ps2_controller hw PS2_CB_enable_second_ps2_port"

definition ps2_test_first_ps2_port :: "hw \<Rightarrow> (iolog, u8 verified) state" where
  "ps2_test_first_ps2_port hw = send_command_test_port_response hw PS2_CB_test_first_ps2_port"

definition ps2_test_second_ps2_port :: "hw \<Rightarrow> (iolog, u8 verified) state" where
  "ps2_test_second_ps2_port hw = send_command_test_port_response hw PS2_CB_test_second_ps2_port"

definition ps2_perform_controller_self_test :: "hw \<Rightarrow> (iolog, u8 verified) state" where
  "ps2_perform_controller_self_test hw = send_command_test_controller_response hw PS2_CB_test_ps2_controller"

definition ps2_copy_input_port_to_status :: "hw \<Rightarrow> (iolog, ps2_controller_error_code) state" where
  "ps2_copy_input_port_to_status hw = do {
     e \<leftarrow> send_command_none_response hw PS2_CB_copy_high_input_to_status;
     if e \<noteq> PS2_ERR_none then do { kprintf ''Failed during high copy\<newline>'' []; ret e }
     else do {
       e \<leftarrow> send_command_none_response hw PS2_CB_copy_low_input_to_status;
       if e \<noteq> PS2_ERR_none then do { kprintf ''Failed during low copy\<newline>'' []; ret e }
       else ret PS2_ERR_none
     }
   }"

definition ps2_read_controller_input_port :: "hw \<Rightarrow> (iolog, verified_unknown) state" where
  "ps2_read_controller_input_port hw = send_command_unknown_response hw PS2_CB_read_controller_input_port"

definition ps2_read_controller_output_port :: "hw \<Rightarrow> (iolog, PS2_ControllerOutputPort verified) state" where
  "ps2_read_controller_output_port hw =
     send_command_test_controller_output_port_response hw PS2_CB_read_controller_output_port"

definition ps2_write_next_byte_to_controller_output_port ::
    "hw \<Rightarrow> (iolog, ps2_controller_error_code) state" where
  "ps2_write_next_byte_to_controller_output_port hw =
     send_command_none_response hw PS2_CB_write_next_byte_to_controller_output_port"

text \<open>The data byte is written after waiting for the output buffer to be \<^emph>\<open>full\<close>.\<close>

definition ps2_set_controller_output_port ::
    "hw \<Rightarrow> PS2_ControllerOutputPort \<Rightarrow> (iolog, ps2_controller_error_code) state" where
  "ps2_set_controller_output_port hw output_port = do {
     e \<leftarrow> ps2_write_next_byte_to_controller_output_port hw;
     if e \<noteq> PS2_ERR_none then ret e
     else do {
       e \<leftarrow> wait_till_ready_for_response hw;
       if e \<noteq> PS2_ERR_none then ret e
       else do {
         outb PS2_DATA_PORT_RW (output_port_raw output_port);
         ret PS2_ERR_none
       }
     }
   }"

section \<open>Bytes for the attached devices\<close>

definition write_next_byte_to_first_ps2_output_port :: "hw \<Rightarrow> (iolog, ps2_controller_error_code) state" where
  "write_next_byte_to_first_ps2_output_port hw =
     send_command_none_response hw PS2_CB_write_next_byte_to_first_ps2_output_buffer"

definition write_next_byte_to_second_ps2_output_port :: "hw \<Rightarrow> (iolog, ps2_controller_error_code) state" where
  "write_next_byte_to_second_ps2_output_port hw =
     send_command_none_response hw PS2_CB_write_next_byte_to_second_ps2_output_buffer"

text \<open>These two write the data byte at once, without polling the status register again.\<close>

definition fake_ps2_keyboard_byte :: "hw \<Rightarrow> u8 \<Rightarrow> (iolog, ps2_controller_error_code) state" where
  "fake_ps2_keyboard_byte hw byte = do {
     e \<leftarrow> write_next_byte_to_first_ps2_output_port hw;
     if e \<noteq> PS2_ERR_none then ret e
     else do { outb PS2_DATA_PORT_RW byte; ret PS2_ERR_none }
   }"

definition fake_ps2_mouse_byte :: "hw \<Rightarrow> u8 \<Rightarrow> (iolog, ps2_controller_error_code) state" where
  "fake_ps2_mouse_byte hw byte = do {
     e \<leftarrow> write_next_byte_to_second_ps2_output_port hw;
     if e \<noteq> PS2_ERR_none then ret e
     else do { outb PS2_DATA_PORT_RW byte; ret PS2_ERR_none }
   }"

definition send_command_to_first_ps2_port :: "hw \<Rightarrow> u8 \<Rightarrow> (iolog, ps2_controller_error_code) state" where
  "send_command_to_first_ps2_port hw data = do {
     e \<leftarrow> wait_till_ready_for_more_input hw;
     if e \<noteq> PS2_ERR_none then ret e
     else do { outb PS2_DATA_PORT_RW data; ret PS2_ERR_none }
   }"

definition send_command_to_second_ps2_port :: "hw \<Rightarrow> u8 \<Rightarrow> (iolog, ps2_controller_error_code) state" where
  "send_command_to_second_ps2_port hw data = do {
     e \<leftarrow> wait_till_ready_for_more_input hw;
     if e \<noteq> PS2_ERR_none then ret e
     else do {
       outb PS2_COMMAND_PORT_W PS2_CB_write_next_byte_to_second_ps2_input_buffer;
       e \<leftarrow> wait_till_ready_for_more_input hw;
       if e \<noteq> PS2_ERR_none then ret e
       else do { outb PS2_DATA_PORT_RW data; ret PS2_ERR_none }
     }
   }"

text \<open>The port number is an \<open>enum\<close> that callers fill from a \<open>uint8_t\<close>: any byte can arrive.\<close>

definition send_command_or_data_to_ps2_port ::
    "hw \<Rightarrow> u8 \<Rightarrow> u8 \<Rightarrow> (iolog, ps2_controller_error_code) state" where
  "send_command_or_data_to_ps2_port hw port_number data =
     (if port_number = 1 then send_command_to_first_ps2_port hw data
      else if port_number = 2 then send_command_to_second_ps2_port hw data
      else ret PS2_ERR_invalid_port_number)"

section \<open>Resetting a port and identifying its device\<close>

record ps2_device_type_verified =
  d_err :: ps2_controller_error_code
  d_type :: "ps2_device_type option"
  mouse_or_keyboard :: "ps2_device_super_type option"

definition device_failed :: "ps2_controller_error_code \<Rightarrow> ps2_device_type_verified" where
  "device_failed e = \<lparr>d_err = e, d_type = None, mouse_or_keyboard = None\<rparr>"

text \<open>The two \<open>switch\<close> statements on the identification bytes.\<close>

definition len3_device :: "u8 \<Rightarrow> ps2_device_type option" where
  "len3_device rep3 =
     (if rep3 = 0x00 then Some PS2_DT_standard_mouse
      else if rep3 = 0x03 then Some PS2_DT_mouse_with_scroll_wheel
      else if rep3 = 0x04 then Some PS2_DT_mouse_with_5_button
      else None)"

definition len4_device :: "u8 \<Rightarrow> ps2_device_type option" where
  "len4_device rep4 =
     (if rep4 = 0x83 then Some PS2_DT_mf2_keyboard_1
      else if rep4 = 0x41 then Some PS2_DT_mf2_keyboard_1
      else if rep4 = 0xC1 then Some PS2_DT_mf2_keyboard_2
      else if rep4 = 0x84 then Some PS2_DT_short_keyboard
      else if rep4 = 0x54 then Some PS2_DT_short_keyboard
      else if rep4 = 0x85 then Some PS2_DT_122_key_host_connected
      else if rep4 = 0x86 then Some PS2_DT_122_key
      else if rep4 = 0x90 then Some PS2_DT_japanese_g_keyboard
      else if rep4 = 0x91 then Some PS2_DT_japanese_p_keyboard
      else if rep4 = 0x92 then Some PS2_DT_japanese_a_keyboard
      else if rep4 = 0xA1 then Some PS2_DT_ncd_sun_layout_keyboard
      else None)"

definition identify_len3 :: "u8 \<Rightarrow> ps2_device_type_verified" where
  "identify_len3 rep3 = (case len3_device rep3 of
       Some d \<Rightarrow> \<lparr>d_err = PS2_ERR_none, d_type = Some d, mouse_or_keyboard = Some PS2_DST_mouse\<rparr>
     | None \<Rightarrow> \<lparr>d_err = PS2_ERR_device_rep3_invalid, d_type = Some (device_type_of_byte rep3),
                mouse_or_keyboard = Some PS2_DST_mouse\<rparr>)"

definition identify_len4 :: "u8 \<Rightarrow> ps2_device_type_verified" where
  "identify_len4 rep4 = (case len4_device rep4 of
       Some d \<Rightarrow> \<lparr>d_err = PS2_ERR_none, d_type = Some d, mouse_or_keyboard = Some PS2_DST_keyboard\<rparr>
     | None \<Rightarrow> \<lparr>d_err = PS2_ERR_device_rep4_invalid, d_type = Some (device_type_of_byte rep4),
                mouse_or_keyboard = Some PS2_DST_keyboard\<rparr>)"

definition len4_prefix :: u8 where "len4_prefix = 0xAB"

definition reset_port_and_get_device_type :: "hw \<Rightarrow> u8 \<Rightarrow> (iolog, ps2_device_type_verified) state" where
  "reset_port_and_get_device_type hw portnumber = do {
     e \<leftarrow> send_command_or_data_to_ps2_port hw portnumber PS2_CB_reset_device;
     if e \<noteq> PS2_ERR_none then ret (device_failed e)
     else do {
     e \<leftarrow> wait_till_ready_for_response hw;
     if e \<noteq> PS2_ERR_none then ret (device_failed e)
     else do {
     rep1 \<leftarrow> ps2_recieve_raw_response hw;
     if rep1 \<noteq> DEVICE_COMMAND_ACKNOLEDGED
     then ret (device_failed PS2_ERR_device_command_failed_to_acknowledge)
     else do {
     e \<leftarrow> wait_till_ready_for_response hw;
     if e \<noteq> PS2_ERR_none then ret (device_failed e)
     else do {
     rep2 \<leftarrow> ps2_recieve_raw_response hw;
     if rep2 \<noteq> DEVICE_COMMAND_SELF_TEST_PASSED
     then ret (device_failed PS2_ERR_device_command_failed_self_test)
     else do {
     e \<leftarrow> wait_till_ready_for_response hw;
     if e \<noteq> PS2_ERR_none
     then ret \<lparr>d_err = PS2_ERR_none, d_type = Some PS2_DT_ancient_at_keyboard,
               mouse_or_keyboard = Some PS2_DST_keyboard\<rparr>
     else do {
     rep3 \<leftarrow> ps2_recieve_raw_response hw;
     if rep3 \<noteq> len4_prefix then ret (identify_len3 rep3)
     else do {
     e \<leftarrow> wait_till_ready_for_response hw;
     if e \<noteq> PS2_ERR_none then ret (device_failed e)
     else do {
     rep4 \<leftarrow> ps2_recieve_raw_response hw;
     ret (identify_len4 rep4)
     }}}}}}}}}"

section \<open>The generic command interface\<close>

text \<open>
  The tagged union over every kind of response (deprecated in the source, but compiled).
  \<open>T_unset\<close> is the union of a \<open>ret\<close> to which no response was assigned.
\<close>

datatype tagged_value =
    T_unset
  | T_unknown u8
  | T_configuration_byte PS2_ConfigurationByte
  | T_test_port_response u8
  | T_test_controller_response u8
  | T_controller_output_port PS2_ControllerOutputPort

record PS2_Tagged_Reponse =
  t_type :: PS2_ResponseType
  t_value :: tagged_value

record typeless_return =
  tagged_response :: PS2_Tagged_Reponse
  t_err :: ps2_controller_error_code

fun PS2_ResponseType_to_string :: "PS2_ResponseType \<Rightarrow> string" where
  "PS2_ResponseType_to_string PS2_RT_not_a_command = ''Not a command''"
| "PS2_ResponseType_to_string PS2_RT_none = ''None''"
| "PS2_ResponseType_to_string PS2_RT_unknown = ''Unknown''"
| "PS2_ResponseType_to_string PS2_RT_controller_configuration_byte = ''Controller config''"
| "PS2_ResponseType_to_string PS2_RT_test_port = ''Test port''"
| "PS2_ResponseType_to_string PS2_RT_test_controller = ''Test controller''"
| "PS2_ResponseType_to_string PS2_RT_controller_output_port = ''Controller output''"

definition broken_assert :: "(iolog, 'a exec) state" where
  "broken_assert = do {
     kprintf ''The assert failed!, This code should never be executed at all!\<newline>'' [];
     kprintf ''It means my assert function is broken!\<newline>'' [];
     ret (Inl Abort)
   }"

text \<open>In the first function the case of an unknown response falls through into the abort.\<close>

definition recieve_generic_response :: "hw \<Rightarrow> u8 \<Rightarrow> (iolog, PS2_Tagged_Reponse exec) state" where
  "recieve_generic_response hw command =
     (let response_type = command_to_response_type command in
      if \<not> response_type \<noteq> PS2_RT_not_a_command then ret (Inl Abort)
      else if \<not> response_type \<noteq> PS2_RT_none then ret (Inl Abort)
      else do {
        raw_response \<leftarrow> ps2_recieve_raw_response hw;
        let tagged = (\<lambda>v. ret (ok \<lparr>t_type = response_type, t_value = v\<rparr>));
        case response_type of
          PS2_RT_test_port \<Rightarrow> tagged (T_test_port_response raw_response)
        | PS2_RT_test_controller \<Rightarrow> tagged (T_test_controller_response raw_response)
        | PS2_RT_controller_configuration_byte \<Rightarrow> tagged (T_configuration_byte (config_bits raw_response))
        | PS2_RT_controller_output_port \<Rightarrow> tagged (T_controller_output_port (output_port_bits raw_response))
        | _ \<Rightarrow> broken_assert
      })"

definition recieve_generic_verified_response ::
    "hw \<Rightarrow> PS2_ResponseType \<Rightarrow> (iolog, typeless_return exec) state" where
  "recieve_generic_verified_response hw response_type =
     (if \<not> response_type \<noteq> PS2_RT_not_a_command then ret (Inl Abort)
      else if \<not> response_type \<noteq> PS2_RT_none then ret (Inl Abort)
      else do {
        raw_response \<leftarrow> ps2_recieve_raw_response hw;
        let answer = (\<lambda>v e. ret (ok \<lparr>tagged_response = \<lparr>t_type = response_type, t_value = v\<rparr>, t_err = e\<rparr>));
        case response_type of
          PS2_RT_test_port \<Rightarrow>
            (if \<not> PS2_verify_test_port_response raw_response
             then answer (T_test_port_response raw_response) PS2_ERR_invalid_test_port_response
             else answer (T_test_port_response raw_response) PS2_ERR_none)
        | PS2_RT_test_controller \<Rightarrow>
            (if \<not> PS2_verify_test_controller_response raw_response
             then answer (T_test_controller_response raw_response) PS2_ERR_invalid_test_controller_response
             else answer (T_test_controller_response raw_response) PS2_ERR_none)
        | PS2_RT_controller_configuration_byte \<Rightarrow>
            (let valid_err = PS2_verify_configuration_byte_response (config_bits raw_response) in
             if valid_err \<noteq> PS2_ERR_none
             then answer (T_configuration_byte (config_bits raw_response)) valid_err
             else answer (T_configuration_byte (config_bits raw_response)) PS2_ERR_none)
        | PS2_RT_controller_output_port \<Rightarrow>
            (if \<not> PS2_verify_controller_output_port_response (output_port_bits raw_response)
             then answer (T_controller_output_port (output_port_bits raw_response)) PS2_WARN_A20_line_not_set
             else answer (T_controller_output_port (output_port_bits raw_response)) PS2_ERR_none)
        | PS2_RT_unknown \<Rightarrow> answer (T_unknown raw_response) PS2_ERR_none
        | _ \<Rightarrow> broken_assert
      })"

definition send_command_and_recieve_response :: "hw \<Rightarrow> u8 \<Rightarrow> (iolog, typeless_return exec) state" where
  "send_command_and_recieve_response hw command =
     (let response_type = command_to_response_type command;
          without_response = (\<lambda>e. ret (ok \<lparr>tagged_response = \<lparr>t_type = response_type, t_value = T_unset\<rparr>,
                                             t_err = e\<rparr>)) in
      if \<not> response_type \<noteq> PS2_RT_not_a_command then ret (Inl Abort)
      else do {
        e \<leftarrow> send_command_to_ps2_controller hw command;
        if e \<noteq> PS2_ERR_none then without_response e
        else if response_type = PS2_RT_none then without_response PS2_ERR_none
        else do {
          e \<leftarrow> wait_till_ready_for_response hw;
          if e \<noteq> PS2_ERR_none then without_response e
          else recieve_generic_verified_response hw response_type
        }
      })"

section \<open>Printing a configuration byte\<close>

definition bit_arg :: "bool \<Rightarrow> karg" where
  "bit_arg b = KU (of_bool b)"

definition print_ps2_configuration_byte :: "PS2_ConfigurationByte \<Rightarrow> (iolog, unit) state" where
  "print_ps2_configuration_byte config = do {
     kprintf ''first_ps2_port_enabled = %b\<newline>'' [bit_arg (first_ps2_port_enabled config)];
     kprintf ''second_ps2_port_enabled = %b\<newline>'' [bit_arg (second_ps2_port_enabled config)];
     kprintf ''system_flag_passed_post_one = %b\<newline>'' [bit_arg (system_flag_passed_post_one config)];
     kprintf ''zero1 = %b\<newline>'' [bit_arg (zero1 config)];
     kprintf ''first_ps2_port_clock_disabled = %b\<newline>'' [bit_arg (first_ps2_port_clock_disabled config)];
     kprintf ''second_ps2_port_clock_disabled = %b\<newline>'' [bit_arg (second_ps2_port_clock_disabled config)];
     kprintf ''first_ps2_port_translation_enabled = %b\<newline>''
       [bit_arg (first_ps2_port_translation_enabled config)];
     kprintf ''zero2 = %b\<newline>'' [bit_arg (zero2 config)]
   }"

section \<open>What the polling loops establish\<close>

text \<open>A wait for input space that succeeds ends on a status read showing it, and no line error.\<close>

lemma wait_in_loop_done:
  "run (wait_in_loop hw n) tr = (PS2_ERR_none, tr') \<Longrightarrow>
     \<exists>s tr0. tr' = In 0x64 s # tr0 \<and> \<not> bit s 1 \<and> \<not> bit s 6 \<and> \<not> bit s 7"
  by (induction n arbitrary: tr)
     (auto simp: run_bind read_ps2_status_def status_defs const_defs split: if_splits)

lemma wait_out_loop_done:
  "run (wait_out_loop hw n) tr = (PS2_ERR_none, tr') \<Longrightarrow> \<exists>s tr0. tr' = In 0x64 s # tr0 \<and> bit s 0"
  by (induction n arbitrary: tr)
     (auto simp: run_bind read_ps2_status_def status_defs const_defs split: if_splits)

lemma wait_in_loop_errors:
  "fst (run (wait_in_loop hw n) tr) \<in>
     {PS2_ERR_none, PS2_ERR_status_parity, PS2_ERR_status_timeout, PS2_ERR_wait_max_itt_in}"
  by (induction n arbitrary: tr) (auto simp: run_bind read_ps2_status_def)

lemma wait_out_loop_errors:
  "fst (run (wait_out_loop hw n) tr) \<in> {PS2_ERR_none, PS2_ERR_wait_max_itt_out}"
  by (induction n arbitrary: tr) (auto simp: run_bind read_ps2_status_def)

lemmas wait_defs = wait_till_ready_for_more_input_def wait_till_ready_for_response_def

text \<open>The log after a sequence of polls that read these status bytes (oldest first).\<close>

fun polls :: "u8 list \<Rightarrow> iolog \<Rightarrow> iolog" where
  "polls [] tr = tr"
| "polls (s # ss) tr = polls ss (In 0x64 s # Out 0x80 0 # tr)"

lemma run_read_ps2_status [simp]:
  "run (read_ps2_status hw) tr = (status_bits (hw tr 0x64), In 0x64 (hw tr 0x64) # tr)"
  by (simp add: read_ps2_status_def run_bind const_defs)

definition in_verdict :: "u8 \<Rightarrow> ps2_controller_error_code" where
  "in_verdict s = (if bit s 7 then PS2_ERR_status_parity
                   else if bit s 6 then PS2_ERR_status_timeout else PS2_ERR_none)"

lemma wait_in_loop_polls:
  "\<exists>ss. snd (run (wait_in_loop hw n) tr) = polls ss tr \<and>
     (if fst (run (wait_in_loop hw n) tr) = PS2_ERR_wait_max_itt_in
      then length ss = n \<and> (\<forall>s\<in>set ss. bit s 1)
      else ss \<noteq> [] \<and> length ss \<le> n \<and> (\<forall>s\<in>set (butlast ss). bit s 1) \<and> \<not> bit (last ss) 1 \<and>
           fst (run (wait_in_loop hw n) tr) = in_verdict (last ss))"
proof (induction n arbitrary: tr)
  case 0
  then show ?case by simp
next
  case (Suc n)
  let ?s = "hw (Out 0x80 0 # tr) 0x64"
  let ?tr = "In 0x64 ?s # Out 0x80 0 # tr"
  show ?case
  proof (cases "bit ?s 1")
    case False
    then show ?thesis
      by (intro exI [of _ "[?s]"]) (simp add: run_bind status_defs in_verdict_def)
  next
    case True
    obtain ss where ss: "snd (run (wait_in_loop hw n) ?tr) = polls ss ?tr \<and>
     (if fst (run (wait_in_loop hw n) ?tr) = PS2_ERR_wait_max_itt_in
      then length ss = n \<and> (\<forall>s\<in>set ss. bit s 1)
      else ss \<noteq> [] \<and> length ss \<le> n \<and> (\<forall>s\<in>set (butlast ss). bit s 1) \<and> \<not> bit (last ss) 1 \<and>
           fst (run (wait_in_loop hw n) ?tr) = in_verdict (last ss))"
      using Suc [of ?tr] by blast
    with True show ?thesis
      by (intro exI [of _ "?s # ss"]) (auto simp: run_bind status_defs split: if_splits)
  qed
qed

text \<open>A controller that is ready at the first poll.\<close>

lemma MAX_PS2_WAIT_LOOP_Suc: "MAX_PS2_WAIT_LOOP = Suc 999"
  by (simp add: MAX_PS2_WAIT_LOOP_def)

lemma wait_in_ready:
  "\<not> bit (hw (Out 0x80 0 # tr) 0x64) 1 \<Longrightarrow>
     run (wait_till_ready_for_more_input hw) tr =
       (in_verdict (hw (Out 0x80 0 # tr) 0x64), In 0x64 (hw (Out 0x80 0 # tr) 0x64) # Out 0x80 0 # tr)"
  unfolding wait_defs MAX_PS2_WAIT_LOOP_Suc wait_in_loop.simps
  by (simp add: run_bind status_defs in_verdict_def)

lemma wait_out_ready:
  "bit (hw (Out 0x80 0 # tr) 0x64) 0 \<Longrightarrow>
     run (wait_till_ready_for_response hw) tr =
       (PS2_ERR_none, In 0x64 (hw (Out 0x80 0 # tr) 0x64) # Out 0x80 0 # tr)"
  unfolding wait_defs MAX_PS2_WAIT_LOOP_Suc wait_out_loop.simps
  by (simp add: run_bind status_defs)

end
