(* ===== verification/Ps2_Protocol.thy ===== *)
theory Ps2_Protocol
  imports Ps2_Controller
begin

text \<open>
  What the PS/2 controller driver promises about its port traffic, for every hardware.

  The interface is a chain of three locales over a predicate on logs: one that survives polling
  (\<open>ps2_poll_invariant\<close>: the delay write and a status read), one that also survives a write to a
  controller port right after a status read that showed room for it (\<open>ps2_write_invariant\<close>), and one
  that also survives printing and reading the data port (\<open>ps2_log_invariant\<close>). Every operation of
  the driver that polls before it writes keeps such a predicate, proved once in the locale whose laws
  it needs. They are interpreted for the handshake discipline, the set of ports touched, the growth
  of the log, and the sequence of data bytes read. The operations that write a data byte without
  that poll are shown to break the discipline.
\<close>

section \<open>Invariants of polled port traffic\<close>

locale ps2_poll_invariant =
  fixes I :: "iolog \<Rightarrow> bool"
  assumes log_delay: "I tr \<Longrightarrow> I (Out 0x80 0 # tr)"
    and log_status: "I tr \<Longrightarrow> I (In 0x64 v # tr)"
begin

lemma keeps_io_wait [keeps_rules]: "keeps I io_wait"
  by (simp add: keeps_def log_delay)

lemma keeps_read_status [keeps_rules]: "keeps I (read_ps2_status hw)"
  by (simp add: keeps_def log_status)

lemma keeps_wait_in_loop: "keeps I (wait_in_loop hw n)"
  by (induction n) (auto intro!: keeps_rules)

lemma keeps_wait_out_loop: "keeps I (wait_out_loop hw n)"
  by (induction n) (auto intro!: keeps_rules)

lemma keeps_wait_in [keeps_rules]: "keeps I (wait_till_ready_for_more_input hw)"
  by (simp add: wait_till_ready_for_more_input_def keeps_wait_in_loop)

lemma keeps_wait_out [keeps_rules]: "keeps I (wait_till_ready_for_response hw)"
  by (simp add: wait_till_ready_for_response_def keeps_wait_out_loop)

end

locale ps2_write_invariant = ps2_poll_invariant +
  assumes log_command: "I (In 0x64 s # tr) \<Longrightarrow> \<not> bit s 1 \<Longrightarrow> I (Out 0x64 c # In 0x64 s # tr)"
    and log_write: "I (In 0x64 s # tr) \<Longrightarrow> \<not> bit s 1 \<Longrightarrow> I (Out 0x60 c # In 0x64 s # tr)"
begin

text \<open>The polled write: the pattern every sending operation is made of.\<close>

lemma keeps_polled_write:
  assumes p: "p = 0x64 \<or> p = 0x60" and k: "keeps I k" and f: "\<And>e. keeps I (f e)"
  shows "keeps I (wait_till_ready_for_more_input hw \<bind>
           (\<lambda>e. if e \<noteq> PS2_ERR_none then f e else outb p v \<bind> (\<lambda>_. k)))"
proof (rule keepsI)
  fix tr
  assume "I tr"
  obtain e tr1 where w: "run (wait_till_ready_for_more_input hw) tr = (e, tr1)" by fastforce
  have I1: "I tr1" by (rule keepsD [OF keeps_wait_in \<open>I tr\<close> w])
  show "I (snd (run (wait_till_ready_for_more_input hw \<bind>
           (\<lambda>e. if e \<noteq> PS2_ERR_none then f e else outb p v \<bind> (\<lambda>_. k))) tr))"
  proof (cases "e = PS2_ERR_none")
    case False
    then show ?thesis using f [of e] I1 by (simp add: run_bind w keeps_def)
  next
    case True
    obtain s tr0 where "tr1 = In 0x64 s # tr0" "\<not> bit s 1"
      using w wait_in_loop_done unfolding wait_defs True by blast
    then have "I (Out p v # tr1)"
      using I1 p log_command log_write by blast
    then show ?thesis using k True by (simp add: run_bind w keeps_def)
  qed
qed

lemma keeps_send_command [keeps_rules]: "keeps I (send_command_to_ps2_controller hw c)"
  unfolding send_command_to_ps2_controller_def
  by (rule keeps_polled_write) (auto simp: const_defs intro: keeps_rules)

lemma keeps_send_first [keeps_rules]: "keeps I (send_command_to_first_ps2_port hw d)"
  unfolding send_command_to_first_ps2_port_def
  by (rule keeps_polled_write) (auto simp: const_defs intro: keeps_rules)

lemma keeps_send_second [keeps_rules]: "keeps I (send_command_to_second_ps2_port hw d)"
  unfolding send_command_to_second_ps2_port_def
  by (intro keeps_polled_write) (auto simp: const_defs intro: keeps_rules)

lemma keeps_send_port [keeps_rules]: "keeps I (send_command_or_data_to_ps2_port hw p d)"
  unfolding send_command_or_data_to_ps2_port_def by (auto intro!: keeps_rules)

lemma keeps_none_response [keeps_rules]: "keeps I (send_command_none_response hw c)"
  unfolding send_command_none_response_def by (rule keeps_rules)

lemma keeps_set_configuration_byte [keeps_rules]: "keeps I (ps2_set_configuration_byte hw c)"
  unfolding ps2_set_configuration_byte_def write_next_to_byte_0_of_interal_ram_def
  by (intro keeps_rules keeps_polled_write) (auto simp: const_defs)

end

locale ps2_log_invariant = ps2_write_invariant +
  assumes log_print: "I tr \<Longrightarrow> I (Kprint fmt args # tr)"
    and log_data: "I tr \<Longrightarrow> I (In 0x60 v # tr)"
begin

lemma keeps_kprintf [keeps_rules]: "keeps I (kprintf fmt args)"
  by (simp add: keeps_def log_print)

lemma keeps_recieve_raw [keeps_rules]: "keeps I (ps2_recieve_raw_response hw)"
  by (simp add: keeps_def ps2_recieve_raw_response_def const_defs log_data)

lemma keeps_responses [keeps_rules]:
  "keeps I (send_command_unknown_response hw c)"
  "keeps I (send_command_configuration_byte_response hw c)"
  "keeps I (send_command_test_port_response hw c)"
  "keeps I (send_command_test_controller_response hw c)"
  "keeps I (send_command_test_controller_output_port_response hw c)"
  unfolding send_command_unknown_response_def send_command_configuration_byte_response_def
    send_command_test_port_response_def send_command_test_controller_response_def
    send_command_test_controller_output_port_response_def Let_def
  by (intro keeps_rules)+

lemma keeps_commands [keeps_rules]:
  "keeps I (ps2_get_configuration_byte hw)"
  "keeps I (ps2_disable_first_ps2_port hw)"
  "keeps I (ps2_disable_second_ps2_port hw)"
  "keeps I (ps2_enable_first_ps2_port hw)"
  "keeps I (ps2_enable_second_ps2_port hw)"
  "keeps I (ps2_test_first_ps2_port hw)"
  "keeps I (ps2_test_second_ps2_port hw)"
  "keeps I (ps2_perform_controller_self_test hw)"
  unfolding ps2_get_configuration_byte_def ps2_disable_first_ps2_port_def
    ps2_disable_second_ps2_port_def ps2_enable_first_ps2_port_def ps2_enable_second_ps2_port_def
    ps2_test_first_ps2_port_def ps2_test_second_ps2_port_def ps2_perform_controller_self_test_def
  by (rule keeps_rules)+

lemma keeps_copy_input_port [keeps_rules]: "keeps I (ps2_copy_input_port_to_status hw)"
  unfolding ps2_copy_input_port_to_status_def by (intro keeps_rules)

lemma keeps_print_configuration [keeps_rules]: "keeps I (print_ps2_configuration_byte c)"
  unfolding print_ps2_configuration_byte_def by (intro keeps_rules)

lemma keeps_reset [keeps_rules]: "keeps I (reset_port_and_get_device_type hw p)"
  unfolding reset_port_and_get_device_type_def by (intro keeps_rules)

lemma keeps_generic [keeps_rules]: "keeps I (recieve_generic_verified_response hw t)"
  unfolding recieve_generic_verified_response_def broken_assert_def Let_def
  by (cases t) (simp_all, (intro keeps_rules)+)

lemma keeps_send_generic [keeps_rules]: "keeps I (send_command_and_recieve_response hw c)"
  unfolding send_command_and_recieve_response_def Let_def by (intro keeps_rules)

end

section \<open>The handshake discipline\<close>

text \<open>
  Every write to the command or data port is made right after a status read that showed an empty
  input buffer.
\<close>

fun disciplined :: "iolog \<Rightarrow> bool" where
  "disciplined [] = True"
| "disciplined (Out p v # tr) =
     ((p = 0x60 \<or> p = 0x64 \<longrightarrow> (case tr of In q s # _ \<Rightarrow> q = 0x64 \<and> \<not> bit s 1 | _ \<Rightarrow> False)) \<and>
      disciplined tr)"
| "disciplined (_ # tr) = disciplined tr"

interpretation handshake: ps2_log_invariant disciplined
  by unfold_locales auto

fun event_port :: "io_event \<Rightarrow> port option" where
  "event_port (In p _) = Some p"
| "event_port (Out p _) = Some p"
| "event_port (Kprint _ _) = None"

definition confined :: "port set \<Rightarrow> iolog \<Rightarrow> bool" where
  "confined P tr \<longleftrightarrow> (\<forall>e\<in>set tr. \<forall>p. event_port e = Some p \<longrightarrow> p \<in> P)"

lemma confined_Nil [simp]: "confined P []"
  by (simp add: confined_def)

interpretation ports: ps2_log_invariant "confined {0x60, 0x64, 0x80}"
  by unfold_locales (auto simp: confined_def)

interpretation growth: ps2_log_invariant "extends tr" for tr
  by unfold_locales auto

text \<open>
  A message is one event of the log. On the machine it is a series of accesses to the serial port: each character is
  a \<open>Send\<close> after as many \<open>Poll\<close>s as it takes. \<open>with_serial msg tr\<close> is the log with every message replaced
  by the accesses \<open>msg\<close> gives for it.
\<close>

datatype serial_access = Poll u8 | Send u8

primrec serial_event :: "serial_access \<Rightarrow> io_event" where
  "serial_event (Poll v) = In 0x3FD v"
| "serial_event (Send v) = Out 0x3F8 v"

type_synonym messages = "iolog \<Rightarrow> string \<Rightarrow> karg list \<Rightarrow> serial_access list"

fun with_serial :: "messages \<Rightarrow> iolog \<Rightarrow> iolog" where
  "with_serial msg [] = []"
| "with_serial msg (Kprint fmt args # tr) = map serial_event (msg tr fmt args) @ with_serial msg tr"
| "with_serial msg (e # tr) = e # with_serial msg tr"

lemma with_serial_append: "\<exists>new'. with_serial msg (new @ tr) = new' @ with_serial msg tr"
proof (induction new)
  case (Cons e new)
  then obtain new' where new: "with_serial msg (new @ tr) = new' @ with_serial msg tr" by blast
  have "\<exists>xs. with_serial msg (e # new @ tr) = xs @ new' @ with_serial msg tr"
  proof (cases e)
    case (In p v)
    then show ?thesis by (auto simp: new intro: exI [of _ "[e]"])
  next
    case (Out p v)
    then show ?thesis by (auto simp: new intro: exI [of _ "[e]"])
  qed (simp add: new)
  then show ?case by (metis append_Cons append_assoc)
qed simp

lemma extends_with_serial: "extends tr tr' \<Longrightarrow> extends (with_serial msg tr) (with_serial msg tr')"
  using with_serial_append by (auto simp: extends_def)

lemma disciplined_serial: "disciplined (map serial_event ss @ tr) \<longleftrightarrow> disciplined tr"
proof (induction ss)
  case (Cons s ss)
  then show ?case by (cases s) simp_all
qed simp

lemma disciplined_with_serial: "disciplined tr \<Longrightarrow> disciplined (with_serial msg tr)"
proof (induction tr rule: disciplined.induct)
  case (2 p v tr)
  then show ?case by (auto split: list.splits io_event.splits)
qed (simp_all add: disciplined_serial)

lemma confined_with_serial:
  "confined P tr \<Longrightarrow> confined (P \<union> {0x3F8, 0x3FD}) (with_serial msg tr)"
proof (induction msg tr rule: with_serial.induct)
  case (2 msg fmt args tr)
  have "\<forall>s. event_port (serial_event s) \<in> {Some 0x3F8, Some 0x3FD}"
    by (metis event_port.simps(1,2) insertCI serial_access.exhaust serial_event.simps)
  with 2 show ?case by (fastforce simp: confined_def)
qed (auto simp: confined_def)

section \<open>The bytes a device answers with\<close>

fun data_reads :: "iolog \<Rightarrow> u8 list" where
  "data_reads [] = []"
| "data_reads (In p v # tr) = (if p = 0x60 then data_reads tr @ [v] else data_reads tr)"
| "data_reads (_ # tr) = data_reads tr"

interpretation answers: ps2_write_invariant "\<lambda>tr. data_reads tr = bs" for bs
  by unfold_locales simp_all

lemma run_wait_out_reads:
  "run (wait_till_ready_for_response hw) tr = (e, tr') \<Longrightarrow> data_reads tr' = data_reads tr"
  using keepsD [OF answers.keeps_wait_out [of _ hw]] by blast

lemma run_send_port_reads:
  "run (send_command_or_data_to_ps2_port hw p d) tr = (e, tr') \<Longrightarrow> data_reads tr' = data_reads tr"
  using keepsD [OF answers.keeps_send_port [of _ hw]] by blast

text \<open>
  The identification protocol, as the PS/2 documentation tabulates it: a reset is answered by an acknowledge
  and the passed self test, followed by zero to two identity bytes. Each row is a complete answer, the device
  it identifies and its kind.
\<close>

definition device_answers :: "(u8 list \<times> ps2_device_type \<times> ps2_device_super_type) list" where
  "device_answers =
    [([0xFA, 0xAA], PS2_DT_ancient_at_keyboard, PS2_DST_keyboard),
     ([0xFA, 0xAA, 0x00], PS2_DT_standard_mouse, PS2_DST_mouse),
     ([0xFA, 0xAA, 0x03], PS2_DT_mouse_with_scroll_wheel, PS2_DST_mouse),
     ([0xFA, 0xAA, 0x04], PS2_DT_mouse_with_5_button, PS2_DST_mouse),
     ([0xFA, 0xAA, 0xAB, 0x83], PS2_DT_mf2_keyboard_1, PS2_DST_keyboard),
     ([0xFA, 0xAA, 0xAB, 0x41], PS2_DT_mf2_keyboard_1, PS2_DST_keyboard),
     ([0xFA, 0xAA, 0xAB, 0xC1], PS2_DT_mf2_keyboard_2, PS2_DST_keyboard),
     ([0xFA, 0xAA, 0xAB, 0x84], PS2_DT_short_keyboard, PS2_DST_keyboard),
     ([0xFA, 0xAA, 0xAB, 0x54], PS2_DT_short_keyboard, PS2_DST_keyboard),
     ([0xFA, 0xAA, 0xAB, 0x85], PS2_DT_122_key_host_connected, PS2_DST_keyboard),
     ([0xFA, 0xAA, 0xAB, 0x86], PS2_DT_122_key, PS2_DST_keyboard),
     ([0xFA, 0xAA, 0xAB, 0x90], PS2_DT_japanese_g_keyboard, PS2_DST_keyboard),
     ([0xFA, 0xAA, 0xAB, 0x91], PS2_DT_japanese_p_keyboard, PS2_DST_keyboard),
     ([0xFA, 0xAA, 0xAB, 0x92], PS2_DT_japanese_a_keyboard, PS2_DST_keyboard),
     ([0xFA, 0xAA, 0xAB, 0xA1], PS2_DT_ncd_sun_layout_keyboard, PS2_DST_keyboard)]"

lemma len3_device_answers: "len3_device b = Some t \<Longrightarrow> ([0xFA, 0xAA, b], t, PS2_DST_mouse) \<in> set device_answers"
  by (auto simp: len3_device_def device_answers_def split: if_splits)

lemma len4_device_answers:
  "len4_device b = Some t \<Longrightarrow> ([0xFA, 0xAA, 0xAB, b], t, PS2_DST_keyboard) \<in> set device_answers"
  by (auto simp: len4_device_def device_answers_def split: if_splits)

lemma ancient_answers: "([0xFA, 0xAA], PS2_DT_ancient_at_keyboard, PS2_DST_keyboard) \<in> set device_answers"
  by (simp add: device_answers_def)

text \<open>The kind in the table is the one the driver's own classification of device types gives.\<close>

lemma device_answers_kind:
  "(bs, t, k) \<in> set device_answers \<Longrightarrow> get_device_super_type t = k \<and> k \<noteq> PS2_DST_unknown"
  by (auto simp: device_answers_def)

lemmas reset_defs = reset_port_and_get_device_type_def device_failed_def
  identify_len3_def identify_len4_def ps2_recieve_raw_response_def len4_prefix_def

lemma reset_answered:
  assumes "run (reset_port_and_get_device_type hw p) tr = (d, tr')" and "d_err d = PS2_ERR_none"
  shows "\<exists>bs t k. data_reads tr' = data_reads tr @ bs \<and> (bs, t, k) \<in> set device_answers \<and>
           d_type d = Some t \<and> mouse_or_keyboard d = Some k"
  using assms
  by (auto simp: reset_defs run_bind const_defs
      split: prod.splits if_splits option.splits
      dest!: run_wait_out_reads run_send_port_reads
      intro: len3_device_answers len4_device_answers ancient_answers)

lemma reset_identified:
  assumes "run (reset_port_and_get_device_type hw p) tr = (d, tr')" and "d_err d = PS2_ERR_none"
  shows "\<exists>t. d_type d = Some t \<and> mouse_or_keyboard d = Some (get_device_super_type t) \<and>
           get_device_super_type t \<noteq> PS2_DST_unknown"
  using reset_answered [OF assms] device_answers_kind by metis

text \<open>Two concrete devices: a controller that is always ready, with a wheel mouse that answers a reset.\<close>

definition mouse_on_reset :: hw where
  "mouse_on_reset tr p =
     (if p = 0x64 then 1 else case data_reads tr of [] \<Rightarrow> 0xFA | [_] \<Rightarrow> 0xAA | _ \<Rightarrow> 0x03)"

definition always_ready :: hw where
  "always_ready tr p = 1"

lemmas ready_runs = run_bind wait_in_ready wait_out_ready in_verdict_def always_ready_def
  mouse_on_reset_def send_command_or_data_to_ps2_port_def send_command_to_second_ps2_port_def
  send_command_to_ps2_controller_def send_command_none_response_def const_defs

lemma run_mouse_on_reset:
  "d_err (fst (run (reset_port_and_get_device_type mouse_on_reset 2) [])) = PS2_ERR_none"
  "data_reads (snd (run (reset_port_and_get_device_type mouse_on_reset 2) [])) = [0xFA, 0xAA, 3]"
  by (simp_all add: reset_defs ready_runs len3_device_def)

section \<open>Correctness of the operations\<close>

text \<open>
  Waiting for the controller to accept input polls the status register at most 1000 times and
  terminates on every hardware. It reports a time-out exactly when all 1000 polls showed a full
  input buffer; otherwise every poll but the last did, the last one did not, and the result is
  the parity and time-out verdict on that last status byte.
\<close>

theorem wait_till_ready_for_more_input_polls:
  "\<exists>ss. snd (run (wait_till_ready_for_more_input hw) tr) = polls ss tr \<and>
     (if fst (run (wait_till_ready_for_more_input hw) tr) = PS2_ERR_wait_max_itt_in
      then length ss = 1000 \<and> list_all (\<lambda>s. bit s 1) ss
      else ss \<noteq> [] \<and> length ss \<le> 1000 \<and> list_all (\<lambda>s. bit s 1) (butlast ss) \<and> \<not> bit (last ss) 1 \<and>
           fst (run (wait_till_ready_for_more_input hw) tr) = in_verdict (last ss))"
  using wait_in_loop_polls [of hw MAX_PS2_WAIT_LOOP tr]
  unfolding wait_defs MAX_PS2_WAIT_LOOP_def list_all_iff .

text \<open>
  (C34) When a reset reports success, the bytes the driver read from the data port since the call
  are one complete row of the documented table of answers (acknowledge, self test passed, identity bytes),
  and the reported device type and kind are the ones of that row.
\<close>

theorem reset_port_and_get_device_type_identifies:
  assumes "run (reset_port_and_get_device_type hw p) tr = (d, tr')" and "d_err d = PS2_ERR_none"
  shows "\<exists>bs t k. data_reads tr' = data_reads tr @ bs \<and> (bs, t, k) \<in> set device_answers \<and>
           d_type d = Some t \<and> mouse_or_keyboard d = Some k"
  using assms by (rule reset_answered)

theorem reset_port_and_get_device_type_identifies_witness:
  "d_type (fst (run (reset_port_and_get_device_type mouse_on_reset 2) [])) =
     Some PS2_DT_mouse_with_scroll_wheel"
  using reset_port_and_get_device_type_identifies [of mouse_on_reset 2 "[]", OF surjective_pairing]
  by (auto simp: run_mouse_on_reset device_answers_def)

text \<open>
  The tag the generic interface gives to the response of a specific one.
\<close>

definition tag_with :: "PS2_ResponseType \<Rightarrow> ('r \<Rightarrow> tagged_value) \<Rightarrow> 'r verified \<Rightarrow> typeless_return exec" where
  "tag_with t f v = ok \<lparr>tagged_response = \<lparr>t_type = t, t_value = (case response v of
     None \<Rightarrow> T_unset | Some r \<Rightarrow> f r)\<rparr>, t_err = err v\<rparr>"

lemma generic_as_specific:
  assumes "command_to_response_type c = t"
  shows "t = PS2_RT_test_port \<Longrightarrow> run (send_command_and_recieve_response hw c) tr =
      map_prod (tag_with t T_test_port_response) id (run (send_command_test_port_response hw c) tr)"
    and "t = PS2_RT_test_controller \<Longrightarrow> run (send_command_and_recieve_response hw c) tr =
      map_prod (tag_with t T_test_controller_response) id
        (run (send_command_test_controller_response hw c) tr)"
    and "t = PS2_RT_controller_configuration_byte \<Longrightarrow> run (send_command_and_recieve_response hw c) tr =
      map_prod (tag_with t T_configuration_byte) id
        (run (send_command_configuration_byte_response hw c) tr)"
    and "t = PS2_RT_controller_output_port \<Longrightarrow> run (send_command_and_recieve_response hw c) tr =
      map_prod (tag_with t T_controller_output_port) id
        (run (send_command_test_controller_output_port_response hw c) tr)"
  using assms
  by (auto simp: send_command_and_recieve_response_def recieve_generic_verified_response_def
      send_command_test_port_response_def send_command_test_controller_response_def
      send_command_configuration_byte_response_def send_command_test_controller_output_port_response_def
      tag_with_def run_bind Let_def split: prod.split)

text \<open>
  (C35) The generic command interface agrees with the command-specific functions the driver uses:
  for the commands the driver sends (reading the configuration byte, the self test, the two port
  tests, reading the output port) both do the same port traffic and return the same response and
  error, the generic one tagged with the type the table gives the command.
\<close>

theorem send_command_and_recieve_response_agrees:
  "run (send_command_and_recieve_response hw PS2_CB_read_byte_0) tr =
     map_prod (tag_with PS2_RT_controller_configuration_byte T_configuration_byte) id
       (run (ps2_get_configuration_byte hw) tr) \<and>
   run (send_command_and_recieve_response hw PS2_CB_test_ps2_controller) tr =
     map_prod (tag_with PS2_RT_test_controller T_test_controller_response) id
       (run (ps2_perform_controller_self_test hw) tr) \<and>
   run (send_command_and_recieve_response hw PS2_CB_test_first_ps2_port) tr =
     map_prod (tag_with PS2_RT_test_port T_test_port_response) id (run (ps2_test_first_ps2_port hw) tr) \<and>
   run (send_command_and_recieve_response hw PS2_CB_test_second_ps2_port) tr =
     map_prod (tag_with PS2_RT_test_port T_test_port_response) id (run (ps2_test_second_ps2_port hw) tr) \<and>
   run (send_command_and_recieve_response hw PS2_CB_read_controller_output_port) tr =
     map_prod (tag_with PS2_RT_controller_output_port T_controller_output_port) id
       (run (ps2_read_controller_output_port hw) tr)"
  by (simp add: generic_as_specific ps2_get_configuration_byte_def ps2_perform_controller_self_test_def
      ps2_test_first_ps2_port_def ps2_test_second_ps2_port_def ps2_read_controller_output_port_def
      command_to_response_type_def const_defs)

text \<open>
  The fake-byte operations do not follow the handshake: whenever one of them succeeds, its data
  byte was written directly after the command byte, without a status read in between, so the log
  it leaves is not disciplined. (The controller documentation quoted in the header asks for the
  poll.)
\<close>

theorem fake_byte_breaks_handshake:
  "run (fake_ps2_keyboard_byte hw b) tr = (PS2_ERR_none, tr') \<or>
   run (fake_ps2_mouse_byte hw b) tr = (PS2_ERR_none, tr') \<Longrightarrow> \<not> disciplined tr'"
  by (auto simp: fake_ps2_keyboard_byte_def fake_ps2_mouse_byte_def run_bind const_defs
      write_next_byte_to_first_ps2_output_port_def write_next_byte_to_second_ps2_output_port_def
      send_command_none_response_def send_command_to_ps2_controller_def
      split: prod.splits if_splits)

theorem fake_byte_breaks_handshake_witness:
  "\<not> disciplined (snd (run (fake_ps2_keyboard_byte always_ready 0x1C) []))"
  by (rule fake_byte_breaks_handshake [of always_ready "0x1C" "[]"])
     (simp add: fake_ps2_keyboard_byte_def write_next_byte_to_first_ps2_output_port_def ready_runs)

end
