(* ===== verification/Ps2_Setup.thy ===== *)
theory Ps2_Setup
  imports Ps2_Protocol
begin

text \<open>
  \<open>setup_ps2_controller\<close> of \<open>drivers/ps2/controller/ps2_controller.c\<close>: the ten-step bring-up of the
  controller, one definition per step of the source, sequenced with early return (\<open>bindS\<close>). The
  compile-time switch \<open>QEMU\<close> is the boolean parameter \<open>qemu\<close>. A field of the returned structure
  that the taken path does not assign is \<open>None\<close>.
\<close>

section \<open>Collaborators\<close>

text \<open>\<open>drivers/usb/controller/usb_controller.c\<close> and \<open>firmware/acpi/acpi.c\<close>, as they are.\<close>

datatype usb_cont_error_code = USB_CONT_ERR_none

definition initialize_usb_controllers :: usb_cont_error_code where
  "initialize_usb_controllers = USB_CONT_ERR_none"

definition disable_legacy_usb_support :: usb_cont_error_code where
  "disable_legacy_usb_support = USB_CONT_ERR_none"

definition does_ps2_controller_exist :: bool where
  "does_ps2_controller_exist = True"

section \<open>The result structure\<close>

datatype ps2_initialize_device_errors =
    PS2_ID_ERR_none
  | PS2_ID_ERR_no_second_port
  | PS2_ID_ERR_could_not_init
  | PS2_ID_ERR_usb_error
  | PS2_ID_ERR_ps2_controller_does_not_exist
  | PS2_ID_ERR_controller_self_test_failed
  | PS2_ID_ERR_first_port_self_test_failed
  | PS2_ID_ERR_second_port_self_test_failed
  | PS2_ID_ERR_could_not_reset_device1
  | PS2_ID_ERR_could_not_reset_device2
  | PS2_ID_ERR_two_keyboard
  | PS2_ID_ERR_two_mouse

record ps2_initialize_device_state =
  internal_err :: "ps2_controller_error_code option"
  ps2_state_err :: ps2_initialize_device_errors
  port_one_device_type :: "ps2_device_type option"
  port_two_device_type :: "ps2_device_type option"

text \<open>A step either leaves the function (with its return value, or by an abort) or goes on.\<close>

type_synonym setup_exit = "ps2_initialize_device_state exec"
type_synonym 'a bringup = "(iolog, setup_exit + 'a) state"

definition leave_with ::
    "ps2_initialize_device_errors \<Rightarrow> ps2_controller_error_code option \<Rightarrow> 'a bringup" where
  "leave_with st e = ret (Inl (ok \<lparr>internal_err = e, ps2_state_err = st,
     port_one_device_type = None, port_two_device_type = None\<rparr>))"

definition proceed :: "'a \<Rightarrow> 'a bringup" where
  "proceed x = ret (Inr x)"

definition err_arg :: "ps2_controller_error_code \<Rightarrow> karg" where
  "err_arg e = KU (word_of_int (ps2_err_value e))"

primrec print_lines :: "string list \<Rightarrow> (iolog, unit) state" where
  "print_lines [] = ret ()"
| "print_lines (l # ls) = do { kprintf l []; print_lines ls }"

text \<open>The error block the source repeats: its own lines, the number, the name, and the return.\<close>

definition could_not_init :: "string list \<Rightarrow> string \<Rightarrow> ps2_controller_error_code \<Rightarrow> 'a bringup" where
  "could_not_init msgs value_fmt e = do {
     print_lines msgs;
     kprintf value_fmt [err_arg e];
     kprintf ''The error: %s\<newline>'' [KS (PS2_OS_Error_to_string e)];
     leave_with PS2_ID_ERR_could_not_init (Some e)
   }"

definition check_err ::
    "(iolog, ps2_controller_error_code) state \<Rightarrow> string list \<Rightarrow> unit bringup" where
  "check_err m msgs = do {
     e \<leftarrow> m;
     if e \<noteq> PS2_ERR_none then could_not_init msgs ''The error value: %u\<newline>'' e
     else proceed ()
   }"

text \<open>
  A variable or field that was never assigned is \<open>None\<close>. It may be copied, which yields another unassigned
  variable; a computation, a decision or a message that depends on it has no meaning.
\<close>

definition use_value :: "'r option \<Rightarrow> 'r bringup" where
  "use_value v = (case v of Some r \<Rightarrow> proceed r | None \<Rightarrow> ret (Inl (Inl Undefined)))"

definition use_response :: "'r verified \<Rightarrow> 'r bringup" where
  "use_response v = use_value (response v)"

definition check_config :: "hw \<Rightarrow> string list \<Rightarrow> PS2_ConfigurationByte bringup" where
  "check_config hw msgs = do {
     vr_cb \<leftarrow> ps2_get_configuration_byte hw;
     if err vr_cb \<noteq> PS2_ERR_none then could_not_init msgs ''\<newline>The error value: %u\<newline>'' (err vr_cb)
     else use_response vr_cb
   }"

text \<open>Step 7 copies the response into \<open>config_byte\<close> before it looks at the error.\<close>

definition copy_config :: "hw \<Rightarrow> string list \<Rightarrow> PS2_ConfigurationByte option bringup" where
  "copy_config hw msgs = do {
     vr_cb \<leftarrow> ps2_get_configuration_byte hw;
     let config_byte = response vr_cb;
     if err vr_cb \<noteq> PS2_ERR_none then could_not_init msgs ''\<newline>The error value: %u\<newline>'' (err vr_cb)
     else proceed config_byte
   }"

section \<open>The steps\<close>

definition setup_step_1_2 :: "unit bringup" where
  "setup_step_1_2 =
     (if initialize_usb_controllers \<noteq> USB_CONT_ERR_none then leave_with PS2_ID_ERR_usb_error None
      else if disable_legacy_usb_support \<noteq> USB_CONT_ERR_none then leave_with PS2_ID_ERR_usb_error None
      else if \<not> does_ps2_controller_exist then leave_with PS2_ID_ERR_ps2_controller_does_not_exist None
      else proceed ())"

definition setup_step_3_4 :: "hw \<Rightarrow> unit bringup" where
  "setup_step_3_4 hw =
     bindS (check_err (ps2_disable_first_ps2_port hw)
       [''\<newline>[PANIC] Error in Step 3 of initializing the PS2 Controller. Could not disable first ps2 port.\<newline>''])
     (\<lambda>_. bindS (check_err (ps2_disable_second_ps2_port hw)
       [''\<newline>[PANIC] Error in Step 3 of initializing the PS2 Controller. Could not disable second ps2 port.\<newline>''])
     (\<lambda>_. do { discard \<leftarrow> inb hw PS2_DATA_PORT_RW; proceed () }))"

definition setup_get_first_config :: "hw \<Rightarrow> bool \<Rightarrow> PS2_ConfigurationByte bringup" where
  "setup_get_first_config hw qemu = do {
     vr_cb \<leftarrow> ps2_get_configuration_byte hw;
     if err vr_cb \<noteq> PS2_ERR_none then
       (if err vr_cb = PS2_WARN_invalid_configuration_byte_post_is_zero then
          (if \<not> qemu then could_not_init
             [''\<newline>[PANIC] Error in Step 5 of initializing the PS2 Controller. Could not get the configuration byte - failed to post?\<newline>'']
             ''The error value: %u\<newline>'' (err vr_cb)
           else do {
             kprintf ''It seems a qemu bug happned where the configuration byte POST bit hasn't been set\<newline>'' [];
             kprintf ''Maybe this is a catastrophic state on a regular machine\<newline>'' [];
             use_response vr_cb
           })
        else could_not_init
          [''\<newline>[PANIC] Error in Step 5 of initializing the PS2 Controller. Could not get the configuration byte\<newline>'']
          ''The error value: %u\<newline>'' (err vr_cb))
     else use_response vr_cb
   }"

definition step_5_config :: "bool \<Rightarrow> PS2_ConfigurationByte \<Rightarrow> PS2_ConfigurationByte" where
  "step_5_config qemu config_byte =
     (if qemu then config_byte\<lparr>system_flag_passed_post_one := True\<rparr> else config_byte)
       \<lparr>first_ps2_port_enabled := False, first_ps2_port_translation_enabled := False,
        first_ps2_port_clock_disabled := False\<rparr>"

definition setup_step_5 :: "hw \<Rightarrow> bool \<Rightarrow> unit bringup" where
  "setup_step_5 hw qemu =
     bindS (setup_get_first_config hw qemu) (\<lambda>config_byte. do {
       kprintf ''\<newline>\<newline>'' [];
       print_ps2_configuration_byte config_byte;
       kprintf ''\<newline>\<newline>'' [];
       check_err (ps2_set_configuration_byte hw (step_5_config qemu config_byte))
         [''\<newline>[PANIC] Error in Step 5 of initializing the PS2 Controller. Could not set the configuration byte\<newline>'']
     })"

definition setup_step_6 :: "hw \<Rightarrow> unit bringup" where
  "setup_step_6 hw = do {
     tc_vr \<leftarrow> ps2_perform_controller_self_test hw;
     if err tc_vr \<noteq> PS2_ERR_none then could_not_init
       [''\<newline>[PANIC] Error in Step 6 of initializing the PS2 Controller. The PS2 Controler could not perform self test\<newline>'']
       ''The error value: %u\<newline>'' (err tc_vr)
     else bindS (use_response tc_vr) (\<lambda>r.
       if r \<noteq> PS2_TCR_passed then do {
         kprintf ''\<newline>[PANIC] Error in Step 6 of initializing the PS2 Controller. The PS2 Controler self test didn't pass\<newline>'' [];
         leave_with PS2_ID_ERR_controller_self_test_failed None
       }
       else proceed ())
   }"

text \<open>Step 7 yields \<open>second_port_supported\<close>.\<close>

definition setup_step_7 :: "hw \<Rightarrow> bool bringup" where
  "setup_step_7 hw =
     bindS (check_err (ps2_enable_second_ps2_port hw)
       [''\<newline>[PANIC] Error in Step 7 of initializing the PS2 Controller. Could not enable second ps2 port\<newline>''])
     (\<lambda>_. bindS (copy_config hw
       [''\<newline>[PANIC] Error in Step 7 of initializing the PS2 Controller. Could not get configuration byte\<newline>''])
     (\<lambda>copied. bindS (use_value copied) (\<lambda>config_byte. do {
       print_ps2_configuration_byte config_byte;
       let second_port_supported = (\<not> second_ps2_port_clock_disabled config_byte);
       bindS (check_err (ps2_disable_second_ps2_port hw)
         [''\<newline>[PANIC] Error in Step 7 of initializing the PS2 Controller. Could not disable second ps2 port\<newline>'',
          ''\<newline>Error disabling the second ps2_port''])
       (\<lambda>_. if second_port_supported then
         bindS (check_config hw
           [''\<newline>[PANIC] Error in Step 7 of initializing the PS2 Controller. Could not get configuration byte for cleanup\<newline>''])
         (\<lambda>config_byte. bindS (check_err (ps2_set_configuration_byte hw
             (config_byte\<lparr>second_ps2_port_clock_disabled := False, second_ps2_port_enabled := False\<rparr>))
           [''\<newline>[PANIC] Error in Step 7 of initializing the PS2 Controller. Could not set configuration byte for cleanup\<newline>'',
            ''\<newline>Error disabling the second ps2_port''])
         (\<lambda>_. proceed True))
        else proceed False)
     })))"

definition setup_test_port ::
    "(iolog, u8 verified) state \<Rightarrow> string \<Rightarrow> string \<Rightarrow> ps2_initialize_device_errors \<Rightarrow> unit bringup" where
  "setup_test_port m msg_err msg_resp st = do {
     test_port_vr \<leftarrow> m;
     if err test_port_vr \<noteq> PS2_ERR_none
     then could_not_init [msg_err] ''The error value: %u\<newline>'' (err test_port_vr)
     else bindS (use_response test_port_vr) (\<lambda>r.
       if r \<noteq> PS2_TPR_passed then do {
         kprintf msg_resp [];
         kprintf ''The reponse value: %u\<newline>'' [KU (ucast r)];
         kprintf ''The response name: %s\<newline>'' [KS (PS2_TestPortResponse_to_string r)];
         leave_with st None
       }
       else proceed ())
   }"

definition setup_step_8 :: "hw \<Rightarrow> unit bringup" where
  "setup_step_8 hw =
     bindS (setup_test_port (ps2_test_first_ps2_port hw)
       ''\<newline>[PANIC] Error in Step 8 of initializing the PS2 Controller. First port errored during self test\<newline>''
       ''\<newline>[PANIC] Error in Step 8 of initializing the PS2 Controller. First port couldn't pass test\<newline>''
       PS2_ID_ERR_first_port_self_test_failed)
     (\<lambda>_. setup_test_port (ps2_test_second_ps2_port hw)
       ''\<newline>[PANIC] Error in Step 8 of initializing the PS2 Controller. Second port errored during self test\<newline>''
       ''\<newline>[PANIC] Error in Step 8 of initializing the PS2 Controller. Second port couldn't pass test\<newline>''
       PS2_ID_ERR_second_port_self_test_failed)"

definition setup_step_9 :: "hw \<Rightarrow> unit bringup" where
  "setup_step_9 hw =
     bindS (check_err (ps2_enable_first_ps2_port hw)
       [''\<newline>[PANIC] Error in Step 9 of initializing the PS2 Controller. Could not enable first ps2 port\<newline>''])
     (\<lambda>_. bindS (check_err (ps2_enable_second_ps2_port hw)
       [''\<newline>[PANIC] Error in Step 9 of initializing the PS2 Controller. Could not enable second ps2 port\<newline>''])
     (\<lambda>_. bindS (check_config hw
       [''\<newline>[PANIC] Error in Step 9 of initializing the PS2 Controller. Could not get configuration byte\<newline>''])
     (\<lambda>config_byte. check_err (ps2_set_configuration_byte hw
         (config_byte\<lparr>first_ps2_port_enabled := True, second_ps2_port_enabled := True\<rparr>))
       [''\<newline>[PANIC] Error in Step 9 of initializing the PS2 Controller. Could not set configuration byte\<newline>''])))"

text \<open>
  Step 10. The messages print the (zero) error of step 9 as the error value. \<open>device_kind\<close> is the
  \<open>switch\<close> on the super type: \<open>True\<close> for a keyboard, \<open>False\<close> for a mouse, an abort otherwise; a
  super type that was never assigned has no meaning.
\<close>

definition device_kind :: "ps2_device_type_verified \<Rightarrow> bool bringup" where
  "device_kind d = (case mouse_or_keyboard d of
       None \<Rightarrow> ret (Inl (Inl Undefined))
     | Some PS2_DST_keyboard \<Rightarrow> proceed True
     | Some PS2_DST_mouse \<Rightarrow> proceed False
     | Some PS2_DST_unknown \<Rightarrow> ret (Inl (Inl Abort)))"

definition setup_reset ::
    "hw \<Rightarrow> u8 \<Rightarrow> string \<Rightarrow> ps2_initialize_device_errors \<Rightarrow> ps2_device_type option \<Rightarrow>
     (bool \<times> ps2_device_type option) bringup" where
  "setup_reset hw port msg st port_one = do {
     d \<leftarrow> reset_port_and_get_device_type hw port;
     if d_err d \<noteq> PS2_ERR_none then do {
       kprintf msg [];
       kprintf ''The error value: %u\<newline>'' [err_arg PS2_ERR_none];
       kprintf ''The error: %s\<newline>'' [KS (PS2_OS_Error_to_string (d_err d))];
       ret (Inl (ok \<lparr>internal_err = Some (d_err d), ps2_state_err = st,
                     port_one_device_type = port_one, port_two_device_type = None\<rparr>))
     }
     else bindS (device_kind d) (\<lambda>k. proceed (k, d_type d))
   }"

definition setup_second_device ::
    "hw \<Rightarrow> bool \<Rightarrow> ps2_device_type option \<Rightarrow> ps2_initialize_device_state bringup" where
  "setup_second_device hw keyboard1 type1 =
     bindS (setup_reset hw 2
       ''\<newline>[PANIC] Error in Step 10 of initializing the PS2 Controller. Could not reset port 2\<newline>''
       PS2_ID_ERR_could_not_reset_device2 type1)
     (\<lambda>(keyboard2, type2).
       let keyboard_count = of_bool keyboard1 + of_bool keyboard2;
           mouse_count = of_bool (\<not> keyboard1) + of_bool (\<not> keyboard2)
       in proceed \<lparr>internal_err = Some PS2_ERR_none,
            ps2_state_err = (if keyboard_count = (2 :: u8) then PS2_ID_ERR_two_keyboard
                             else if mouse_count = (2 :: u8) then PS2_ID_ERR_two_mouse
                             else PS2_ID_ERR_none),
            port_one_device_type = type1, port_two_device_type = type2\<rparr>)"

definition setup_step_10 :: "hw \<Rightarrow> bool \<Rightarrow> ps2_initialize_device_state bringup" where
  "setup_step_10 hw second_port_supported =
     bindS (setup_reset hw 1
       ''\<newline>[PANIC] Error in Step 10 of initializing the PS2 Controller. Could not reset port 1\<newline>''
       PS2_ID_ERR_could_not_reset_device1 None)
     (\<lambda>(keyboard1, type1).
       if \<not> second_port_supported then
         ret (Inl (ok \<lparr>internal_err = Some PS2_ERR_none, ps2_state_err = PS2_ID_ERR_no_second_port,
                       port_one_device_type = type1, port_two_device_type = None\<rparr>))
       else setup_second_device hw keyboard1 type1)"

definition setup_steps :: "hw \<Rightarrow> bool \<Rightarrow> ps2_initialize_device_state bringup" where
  "setup_steps hw qemu =
     bindS setup_step_1_2 (\<lambda>_. bindS (setup_step_3_4 hw) (\<lambda>_. bindS (setup_step_5 hw qemu)
     (\<lambda>_. bindS (setup_step_6 hw) (\<lambda>_. bindS (setup_step_7 hw) (\<lambda>second_port_supported.
     bindS (setup_step_8 hw) (\<lambda>_. bindS (setup_step_9 hw)
     (\<lambda>_. setup_step_10 hw second_port_supported)))))))"

definition setup_ps2_controller :: "hw \<Rightarrow> bool \<Rightarrow> (iolog, ps2_initialize_device_state exec) state" where
  "setup_ps2_controller hw qemu = do {
     r \<leftarrow> setup_steps hw qemu;
     ret (case r of Inl exit \<Rightarrow> exit | Inr st \<Rightarrow> ok st)
   }"

section \<open>Port traffic of the bring-up\<close>

context ps2_log_invariant
begin

lemma keeps_print_lines [keeps_rules]: "keeps I (print_lines ls)"
  by (induction ls) (auto intro!: keeps_rules)

lemma keeps_exits [keeps_rules]:
  "keeps I (leave_with st e)" "keeps I (proceed x)" "keeps I (use_value w)" "keeps I (use_response v)"
  "keeps I (device_kind d)"
  by (simp_all add: keeps_def leave_with_def proceed_def use_value_def use_response_def device_kind_def
      split: option.split ps2_device_super_type.split)

lemma keeps_could_not_init [keeps_rules]: "keeps I (could_not_init msgs fmt e)"
  unfolding could_not_init_def by (intro keeps_rules)

lemma keeps_checks [keeps_rules]:
  "keeps I m \<Longrightarrow> keeps I (check_err m msgs)"
  "keeps I m' \<Longrightarrow> keeps I (setup_test_port m' a b st)"
  "keeps I (check_config hw msgs)"
  "keeps I (copy_config hw msgs)"
  unfolding check_err_def setup_test_port_def check_config_def copy_config_def Let_def by (intro keeps_rules; assumption)+

lemma keeps_flush: "keeps I (inb hw PS2_DATA_PORT_RW)"
  by (simp add: keeps_def const_defs log_data)

lemma keeps_steps [keeps_rules]:
  "keeps I setup_step_1_2"
  "keeps I (setup_step_3_4 hw)"
  "keeps I (setup_step_5 hw qemu)"
  "keeps I (setup_step_6 hw)"
  "keeps I (setup_step_7 hw)"
  "keeps I (setup_step_8 hw)"
  "keeps I (setup_step_9 hw)"
  "keeps I (setup_step_10 hw second)"
  unfolding setup_step_1_2_def setup_step_3_4_def setup_step_5_def setup_step_6_def
    setup_step_7_def setup_step_8_def setup_step_9_def setup_step_10_def
    setup_get_first_config_def setup_reset_def setup_second_device_def Let_def
  by (intro keeps_rules keeps_flush)+

lemma keeps_setup: "keeps I (setup_ps2_controller hw qemu)"
  unfolding setup_ps2_controller_def setup_steps_def by (intro keeps_rules)

end

section \<open>Outcomes of the bring-up\<close>

text \<open>What each outcome means for the fields of the returned structure.\<close>

definition has_kind :: "ps2_device_super_type \<Rightarrow> ps2_device_type option \<Rightarrow> bool" where
  "has_kind k d = (case d of None \<Rightarrow> False | Some t \<Rightarrow> get_device_super_type t = k)"

definition outcome_explained :: "ps2_initialize_device_state \<Rightarrow> bool" where
  "outcome_explained st = (let one = port_one_device_type st; two = port_two_device_type st in
     case ps2_state_err st of
       PS2_ID_ERR_none \<Rightarrow>
         (has_kind PS2_DST_keyboard one \<and> has_kind PS2_DST_mouse two \<or>
          has_kind PS2_DST_mouse one \<and> has_kind PS2_DST_keyboard two) \<and> internal_err st = Some PS2_ERR_none
     | PS2_ID_ERR_two_keyboard \<Rightarrow>
         has_kind PS2_DST_keyboard one \<and> has_kind PS2_DST_keyboard two \<and> internal_err st = Some PS2_ERR_none
     | PS2_ID_ERR_two_mouse \<Rightarrow>
         has_kind PS2_DST_mouse one \<and> has_kind PS2_DST_mouse two \<and> internal_err st = Some PS2_ERR_none
     | PS2_ID_ERR_no_second_port \<Rightarrow>
         (has_kind PS2_DST_keyboard one \<or> has_kind PS2_DST_mouse one) \<and> two = None \<and>
         internal_err st = Some PS2_ERR_none
     | PS2_ID_ERR_could_not_init \<Rightarrow> (\<exists>e. internal_err st = Some e \<and> e \<noteq> PS2_ERR_none)
     | PS2_ID_ERR_could_not_reset_device1 \<Rightarrow> (\<exists>e. internal_err st = Some e \<and> e \<noteq> PS2_ERR_none)
     | PS2_ID_ERR_could_not_reset_device2 \<Rightarrow>
         (has_kind PS2_DST_keyboard one \<or> has_kind PS2_DST_mouse one) \<and>
         (\<exists>e. internal_err st = Some e \<and> e \<noteq> PS2_ERR_none)
     | PS2_ID_ERR_usb_error \<Rightarrow> False
     | PS2_ID_ERR_ps2_controller_does_not_exist \<Rightarrow> False
     | _ \<Rightarrow> internal_err st = None)"

definition exit_explained :: "setup_exit \<Rightarrow> bool" where
  "exit_explained r = (case r of Inl _ \<Rightarrow> False | Inr st \<Rightarrow> outcome_explained st)"

text \<open>A response is missing only together with a time-out or line error.\<close>

definition answered :: "'r verified \<Rightarrow> bool" where
  "answered v = (response v = None \<longrightarrow> err v \<in> {PS2_ERR_status_parity, PS2_ERR_status_timeout,
     PS2_ERR_wait_max_itt_in, PS2_ERR_wait_max_itt_out})"

lemma yields_wait_in: "yields (\<lambda>e. e \<in> {PS2_ERR_none, PS2_ERR_status_parity, PS2_ERR_status_timeout,
    PS2_ERR_wait_max_itt_in}) (wait_till_ready_for_more_input hw)"
  unfolding yields_def wait_defs using wait_in_loop_errors by blast

lemma yields_wait_out: "yields (\<lambda>e. e \<in> {PS2_ERR_none, PS2_ERR_wait_max_itt_out})
    (wait_till_ready_for_response hw)"
  unfolding yields_def wait_defs using wait_out_loop_errors by blast

lemma yields_send: "yields (\<lambda>e. e \<in> {PS2_ERR_none, PS2_ERR_status_parity, PS2_ERR_status_timeout,
    PS2_ERR_wait_max_itt_in}) (send_command_to_ps2_controller hw c)"
  unfolding send_command_to_ps2_controller_def
  by (rule yields_bind [OF yields_wait_in]) (auto intro: yields_after)

lemma yields_command_response:
  assumes "yields answered k"
  shows "yields answered (send_command_to_ps2_controller hw c \<bind> (\<lambda>e.
           if e \<noteq> PS2_ERR_none then ret \<lparr>response = None, err = e\<rparr>
           else wait_till_ready_for_response hw \<bind> (\<lambda>e.
             if e \<noteq> PS2_ERR_none then ret \<lparr>response = None, err = e\<rparr> else k)))"
  by (intro yields_bind [OF yields_send] yields_if yields_bind [OF yields_wait_out])
     (auto simp: answered_def assms)

lemma yields_answered:
  "yields answered (send_command_configuration_byte_response hw c)"
  "yields answered (send_command_test_port_response hw c)"
  "yields answered (send_command_test_controller_response hw c)"
  unfolding send_command_configuration_byte_response_def send_command_test_port_response_def
    send_command_test_controller_response_def Let_def
  by (intro yields_command_response yields_after, simp add: answered_def)+

lemma yields_answered_commands:
  "yields answered (ps2_get_configuration_byte hw)"
  "yields answered (ps2_perform_controller_self_test hw)"
  "yields answered (ps2_test_first_ps2_port hw)"
  "yields answered (ps2_test_second_ps2_port hw)"
  unfolding ps2_get_configuration_byte_def ps2_perform_controller_self_test_def
    ps2_test_first_ps2_port_def ps2_test_second_ps2_port_def
  by (rule yields_answered)+

abbreviation explained :: "('a \<Rightarrow> bool) \<Rightarrow> 'a bringup \<Rightarrow> bool" where
  "explained P \<equiv> yields (outcome exit_explained P)"

lemma explained_exits [simp]:
  "explained P (proceed x) \<longleftrightarrow> P x"
  "explained P (leave_with st e) \<longleftrightarrow>
     outcome_explained \<lparr>internal_err = e, ps2_state_err = st,
       port_one_device_type = None, port_two_device_type = None\<rparr>"
  by (simp_all add: proceed_def leave_with_def exit_explained_def)

lemma explained_could_not_init: "e \<noteq> PS2_ERR_none \<Longrightarrow> explained P (could_not_init msgs fmt e)"
  unfolding could_not_init_def
  by (intro yields_after) (simp add: outcome_explained_def)

lemma explained_use_response:
  "answered v \<Longrightarrow> err v \<notin> {PS2_ERR_status_parity, PS2_ERR_status_timeout,
     PS2_ERR_wait_max_itt_in, PS2_ERR_wait_max_itt_out} \<Longrightarrow> explained (\<lambda>_. True) (use_response v)"
  by (auto simp: use_value_def use_response_def answered_def split: option.split)

lemma explained_use_value: "v \<noteq> None \<Longrightarrow> explained (\<lambda>_. True) (use_value v)"
  by (auto simp: use_value_def)

lemma explained_check_err: "explained (\<lambda>_. True) (check_err m msgs)"
  unfolding check_err_def
  by (intro yields_after yields_if explained_could_not_init) simp_all

lemma explained_check_config: "explained (\<lambda>_. True) (check_config hw msgs)"
  unfolding check_config_def
  by (rule yields_bind [OF yields_answered_commands(1)])
     (auto intro: explained_could_not_init explained_use_response)

lemma explained_copy_config: "explained (\<lambda>v. v \<noteq> None) (copy_config hw msgs)"
  unfolding copy_config_def Let_def
  by (rule yields_bind [OF yields_answered_commands(1)])
     (auto intro: explained_could_not_init simp: answered_def)

lemma explained_step_1_2: "explained (\<lambda>_. True) setup_step_1_2"
  by (simp add: setup_step_1_2_def initialize_usb_controllers_def disable_legacy_usb_support_def
      does_ps2_controller_exist_def)

lemma explained_step_3_4: "explained (\<lambda>_. True) (setup_step_3_4 hw)"
  unfolding setup_step_3_4_def
  by (intro yields_bindS [OF explained_check_err] yields_after) simp

lemma explained_step_5: "explained (\<lambda>_. True) (setup_step_5 hw qemu)"
proof -
  have "explained (\<lambda>_. True) (setup_get_first_config hw qemu)"
    unfolding setup_get_first_config_def
    by (rule yields_bind [OF yields_answered_commands(1)])
       (auto intro!: explained_could_not_init explained_use_response yields_after)
  then show ?thesis
    unfolding setup_step_5_def
    by (rule yields_bindS) (intro yields_after explained_check_err)
qed

lemma explained_step_6: "explained (\<lambda>_. True) (setup_step_6 hw)"
  unfolding setup_step_6_def
  by (rule yields_bind [OF yields_answered_commands(2)])
     (auto intro!: explained_could_not_init yields_bindS [OF explained_use_response] yields_after
       simp: outcome_explained_def)

lemma explained_step_7: "explained (\<lambda>_. True) (setup_step_7 hw)"
  unfolding setup_step_7_def Let_def
  by (intro yields_bindS [OF explained_check_err] yields_bindS [OF explained_check_config]
      yields_bindS [OF explained_copy_config] yields_bindS [OF explained_use_value]
      yields_after yields_if) simp_all

lemma explained_test_port:
  assumes "yields answered m"
    and "st \<in> {PS2_ID_ERR_first_port_self_test_failed, PS2_ID_ERR_second_port_self_test_failed}"
  shows "explained (\<lambda>_. True) (setup_test_port m a b st)"
  unfolding setup_test_port_def using assms(2)
  by (intro yields_bind [OF assms(1)])
     (auto intro!: explained_could_not_init yields_bindS [OF explained_use_response] yields_after
       simp: outcome_explained_def)

lemma explained_step_8: "explained (\<lambda>_. True) (setup_step_8 hw)"
  unfolding setup_step_8_def
  by (intro yields_bindS [OF explained_test_port] explained_test_port yields_answered_commands) simp_all

lemma explained_step_9: "explained (\<lambda>_. True) (setup_step_9 hw)"
  unfolding setup_step_9_def
  by (intro yields_bindS [OF explained_check_err] yields_bindS [OF explained_check_config]
      explained_check_err)

definition kind_agrees :: "bool \<times> ps2_device_type option \<Rightarrow> bool" where
  "kind_agrees r = has_kind (if fst r then PS2_DST_keyboard else PS2_DST_mouse) (snd r)"

lemma explained_device_kind:
  assumes "d_err d = PS2_ERR_none \<longrightarrow> (\<exists>t. d_type d = Some t \<and>
      mouse_or_keyboard d = Some (get_device_super_type t) \<and> get_device_super_type t \<noteq> PS2_DST_unknown)"
    and "d_err d = PS2_ERR_none"
  shows "explained (\<lambda>k. kind_agrees (k, d_type d)) (device_kind d)"
  using assms
  by (auto simp: device_kind_def kind_agrees_def has_kind_def split: ps2_device_super_type.split)

lemma yields_reset:
  "yields (\<lambda>d. d_err d = PS2_ERR_none \<longrightarrow> (\<exists>t. d_type d = Some t \<and>
      mouse_or_keyboard d = Some (get_device_super_type t) \<and> get_device_super_type t \<noteq> PS2_DST_unknown))
     (reset_port_and_get_device_type hw p)"
  unfolding yields_def using reset_identified [OF surjective_pairing] by blast

lemma explained_setup_reset:
  assumes "\<And>e. e \<noteq> PS2_ERR_none \<Longrightarrow> outcome_explained \<lparr>internal_err = Some e, ps2_state_err = st,
      port_one_device_type = port_one, port_two_device_type = None\<rparr>"
  shows "explained kind_agrees (setup_reset hw p msg st port_one)"
  unfolding setup_reset_def
  by (intro yields_bind [OF yields_reset] yields_if yields_bindS [OF explained_device_kind] yields_after)
     (auto simp: exit_explained_def assms)

lemma explained_second_device:
  assumes "kind_agrees (k1, t1)"
  shows "explained outcome_explained (setup_second_device hw k1 t1)"
  unfolding setup_second_device_def using assms
  by (intro yields_bindS [OF explained_setup_reset])
     (auto simp: outcome_explained_def kind_agrees_def split: if_splits)

lemma explained_step_10: "explained outcome_explained (setup_step_10 hw second)"
  unfolding setup_step_10_def
  by (rule yields_bindS [OF explained_setup_reset])
     (auto simp: outcome_explained_def exit_explained_def kind_agrees_def
       intro!: explained_second_device split: if_splits)

lemma explained_setup: "explained outcome_explained (setup_steps hw qemu)"
  unfolding setup_steps_def
  by (rule yields_bindS, rule explained_step_1_2 explained_step_3_4 explained_step_5 explained_step_6
      explained_step_7 explained_step_8 explained_step_9)+
     (rule explained_step_10)

section \<open>Correctness of the bring-up\<close>

lemma setup_outcome:
  "\<exists>st. fst (run (setup_ps2_controller hw qemu) tr) = ok st \<and> outcome_explained st"
proof -
  obtain r tr' where r: "run (setup_steps hw qemu) tr = (r, tr')"
    by (cases "run (setup_steps hw qemu) tr")
  have "outcome exit_explained outcome_explained r"
    by (rule yieldsD [OF explained_setup r])
  then show ?thesis
    by (auto simp: setup_ps2_controller_def run_bind r outcome_def exit_explained_def
        split: sum.splits)
qed

text \<open>
  (C10) On every hardware, the bring-up terminates with a result, as far as the messages it prints return: it never
  reaches one of its aborts (\<open>Impossible device super type\<close>), and nothing it computes, decides or prints depends
  on a response or device type that was not received (step 7 copies the configuration byte before it looks
  at the error, but does not use the copy then). The outcome is truthful: success means one keyboard
  and one mouse were identified, the two-keyboard, two-mouse and single-port outcomes come with device types of those
  kinds, and every initialisation or reset failure carries a non-zero driver error.
\<close>

theorem setup_ps2_controller_outcome:
  "\<exists>st. fst (run (setup_ps2_controller hw qemu) tr) = ok st \<and> outcome_explained st"
  by (rule setup_outcome)

text \<open>
  (C11) On every hardware, the complete bring-up obeys the controller's handshake: each byte written to
  the command port or the data port is written right after a status read that showed the input
  buffer empty. The driver itself touches no port but 0x60, 0x64 and the delay port 0x80. This remains true whatever
  its messages do on the serial port: with every message replaced by any series of reads of the line
  status (0x3FD) and writes of the data register (0x3F8), the traffic is disciplined, touches no
  further port, and comes after what happened before.
\<close>

theorem setup_ps2_controller_handshake:
  "confined {0x60, 0x64, 0x80} (snd (run (setup_ps2_controller hw qemu) [])) \<and>
   disciplined (with_serial msg (snd (run (setup_ps2_controller hw qemu) []))) \<and>
   confined {0x60, 0x64, 0x80, 0x3F8, 0x3FD} (with_serial msg (snd (run (setup_ps2_controller hw qemu) []))) \<and>
   extends (with_serial msg tr) (with_serial msg (snd (run (setup_ps2_controller hw qemu) tr)))"
proof -
  have "disciplined (snd (run (setup_ps2_controller hw qemu) []))"
    and c: "confined {0x60, 0x64, 0x80} (snd (run (setup_ps2_controller hw qemu) []))"
    and "extends tr (snd (run (setup_ps2_controller hw qemu) tr))"
    using handshake.keeps_setup ports.keeps_setup growth.keeps_setup [of tr] by (simp_all add: keeps_def)
  moreover have "{0x60, 0x64, 0x80, 0x3F8, 0x3FD} = {0x60, 0x64, 0x80} \<union> {0x3F8, 0x3FD :: u16}" by auto
  ultimately show ?thesis
    using disciplined_with_serial confined_with_serial [OF c] extends_with_serial by simp
qed

end
