(* ===== verification/Ps2_I8042.thy ===== *)
theory Ps2_I8042
  imports Ps2_Setup
begin

text \<open>
  An abstract specification of the hardware behind the driver and the proof that the bring-up works
  on it. The specification is the documented 8042 protocol quoted in \<open>ps2_controller.h\<close>: a
  configuration byte, commands on port 0x64, data on port 0x60, a queue of response bytes, and a device
  on each port that answers a reset with its identification sequence. \<open>moves\<close> is the functional
  refinement between the driver's operations and steps of that machine.
\<close>

section \<open>The controller and its two devices\<close>

datatype pending = No_data | Config_byte | Second_port

record i8042 =
  configuration :: PS2_ConfigurationByte
  pending_data :: pending
  responses :: "u8 list"

definition on_command :: "u8 \<Rightarrow> i8042 \<Rightarrow> i8042" where
  "on_command c d =
     (if c = 0x20 then d\<lparr>responses := responses d @ [config_raw (configuration d)]\<rparr>
      else if c = 0x60 then d\<lparr>pending_data := Config_byte\<rparr>
      else if c = 0xA7 then d\<lparr>configuration := configuration d\<lparr>second_ps2_port_clock_disabled := True\<rparr>\<rparr>
      else if c = 0xA8 then d\<lparr>configuration := configuration d\<lparr>second_ps2_port_clock_disabled := False\<rparr>\<rparr>
      else if c = 0xAD then d\<lparr>configuration := configuration d\<lparr>first_ps2_port_clock_disabled := True\<rparr>\<rparr>
      else if c = 0xAE then d\<lparr>configuration := configuration d\<lparr>first_ps2_port_clock_disabled := False\<rparr>\<rparr>
      else if c = 0xAA then d\<lparr>responses := responses d @ [0x55]\<rparr>
      else if c = 0xA9 \<or> c = 0xAB then d\<lparr>responses := responses d @ [0x00]\<rparr>
      else if c = 0xD4 then d\<lparr>pending_data := Second_port\<rparr>
      else d)"

text \<open>\<open>ids\<close> are the answers of the devices on port one and port two to a reset.\<close>

definition on_data :: "u8 list \<times> u8 list \<Rightarrow> u8 \<Rightarrow> i8042 \<Rightarrow> i8042" where
  "on_data ids v d = (case pending_data d of
       Config_byte \<Rightarrow> d\<lparr>configuration := config_bits v, pending_data := No_data\<rparr>
     | Second_port \<Rightarrow> d\<lparr>responses := responses d @ (if v = 0xFF then snd ids else []), pending_data := No_data\<rparr>
     | No_data \<Rightarrow> d\<lparr>responses := responses d @ (if v = 0xFF then fst ids else [])\<rparr>)"

fun i8042_step :: "u8 list \<times> u8 list \<Rightarrow> io_event \<Rightarrow> i8042 \<Rightarrow> i8042" where
  "i8042_step ids (Out p v) d = (if p = 0x64 then on_command v d else if p = 0x60 then on_data ids v d else d)"
| "i8042_step ids (In p v) d = (if p = 0x60 then d\<lparr>responses := tl (responses d)\<rparr> else d)"
| "i8042_step ids (Kprint _ _) d = d"

fun i8042_after :: "u8 list \<times> u8 list \<Rightarrow> i8042 \<Rightarrow> iolog \<Rightarrow> i8042" where
  "i8042_after ids d [] = d"
| "i8042_after ids d (e # tr) = i8042_step ids e (i8042_after ids d tr)"

definition i8042_hw :: "u8 list \<times> u8 list \<Rightarrow> i8042 \<Rightarrow> hw" where
  "i8042_hw ids d tr p = (let r = responses (i8042_after ids d tr) in
     if p = 0x64 then (if r = [] then 0 else 1) else if r = [] then 0 else hd r)"

section \<open>Operations as steps of the machine\<close>

definition moves ::
    "u8 list \<times> u8 list \<Rightarrow> i8042 \<Rightarrow> (iolog, 'a) state \<Rightarrow> i8042 \<Rightarrow> 'a \<Rightarrow> i8042 \<Rightarrow> bool" where
  "moves ids d0 m d x d' \<longleftrightarrow>
     (\<forall>tr. i8042_after ids d0 tr = d \<longrightarrow> (\<exists>tr'. run m tr = (x, tr') \<and> i8042_after ids d0 tr' = d'))"

lemma moves_start:
  "moves ids d m d x d' \<Longrightarrow> \<exists>tr. run m [] = (x, tr) \<and> i8042_after ids d tr = d'"
  by (simp add: moves_def)

lemma moves_ret: "moves ids d0 (ret x) d x d"
  by (simp add: moves_def)

lemma moves_bind:
  assumes "moves ids d0 m d x d'" and "moves ids d0 (f x) d' y d''"
  shows "moves ids d0 (m \<bind> f) d y d''"
  unfolding moves_def
proof (intro allI impI)
  fix tr
  assume tr: "i8042_after ids d0 tr = d"
  obtain tr1 where 1: "run m tr = (x, tr1)" "i8042_after ids d0 tr1 = d'"
    using assms(1) tr by (auto simp: moves_def)
  obtain tr2 where 2: "run (f x) tr1 = (y, tr2)" "i8042_after ids d0 tr2 = d''"
    using assms(2) 1(2) by (auto simp: moves_def)
  show "\<exists>tr'. run (m \<bind> f) tr = (y, tr') \<and> i8042_after ids d0 tr' = d''"
    by (simp add: run_bind 1 2)
qed

lemma moves_bindS:
  assumes "moves ids d0 m d (Inr x) d'" and "moves ids d0 (f x) d' y d''"
  shows "moves ids d0 (bindS m f) d y d''"
  unfolding bindS_def by (rule moves_bind [OF assms(1)]) (simp add: assms(2))

lemma moves_if: "(b \<Longrightarrow> moves ids d0 m d x d') \<Longrightarrow> (\<not> b \<Longrightarrow> moves ids d0 n d x d') \<Longrightarrow>
    moves ids d0 (if b then m else n) d x d'"
  by simp

lemma moves_kprintf: "moves ids d0 (kprintf f a) d () d"
  by (simp add: moves_def)

lemma moves_outb:
  "moves ids d0 (outb 0x64 c) d () (on_command c d)"
  "moves ids d0 (outb 0x60 c) d () (on_data ids c d)"
  by (simp_all add: moves_def)

lemma moves_wait_in:
  "moves ids d0 (wait_till_ready_for_more_input (i8042_hw ids d0)) d PS2_ERR_none d"
  by (auto simp: moves_def wait_in_ready i8042_hw_def in_verdict_def Let_def)

lemma moves_wait_out:
  "responses d \<noteq> [] \<Longrightarrow> moves ids d0 (wait_till_ready_for_response (i8042_hw ids d0)) d PS2_ERR_none d"
  by (auto simp: moves_def wait_out_ready i8042_hw_def Let_def)

lemma moves_recieve:
  "responses d = b # bs \<Longrightarrow>
     moves ids d0 (ps2_recieve_raw_response (i8042_hw ids d0)) d b (d\<lparr>responses := bs\<rparr>)"
  by (auto simp: moves_def ps2_recieve_raw_response_def const_defs i8042_hw_def Let_def)

lemma moves_send_command:
  "moves ids d0 (send_command_to_ps2_controller (i8042_hw ids d0) c) d PS2_ERR_none (on_command c d)"
  unfolding send_command_to_ps2_controller_def
  by (rule moves_bind [OF moves_wait_in], simp add: const_defs)
     (rule moves_bind [OF moves_outb(1)], rule moves_ret)

lemma moves_recieve_last:
  "moves ids d0 (ps2_recieve_raw_response (i8042_hw ids d0)) (d\<lparr>responses := [b]\<rparr>) b (d\<lparr>responses := []\<rparr>)"
  using moves_recieve [of "d\<lparr>responses := [b]\<rparr>"] by simp

text \<open>A command with a one-byte response, on an idle machine.\<close>

lemma moves_command_response:
  assumes "on_command c d = d\<lparr>responses := [b]\<rparr>" and "responses d = []"
    and "moves ids d0 (k b) d x d"
  shows "moves ids d0 (send_command_to_ps2_controller (i8042_hw ids d0) c \<bind> (\<lambda>e.
      if e \<noteq> PS2_ERR_none then ret (f e)
      else wait_till_ready_for_response (i8042_hw ids d0) \<bind> (\<lambda>e.
        if e \<noteq> PS2_ERR_none then ret (f e)
        else ps2_recieve_raw_response (i8042_hw ids d0) \<bind> k))) d x d"
proof -
  have d: "d\<lparr>responses := []\<rparr> = d" using assms(2) by (cases d) simp
  have "moves ids d0 (ps2_recieve_raw_response (i8042_hw ids d0) \<bind> k) (d\<lparr>responses := [b]\<rparr>) x d"
    using moves_bind [OF moves_recieve_last [where d = d and b = b]] assms(3) by (simp add: d)
  then show ?thesis
    by (intro moves_bind [OF moves_send_command])
       (simp add: assms(1), intro moves_bind [OF moves_wait_out], simp_all)
qed

lemma moves_get_configuration:
  assumes "responses d = []"
  shows "moves ids d0 (ps2_get_configuration_byte (i8042_hw ids d0)) d
    \<lparr>response = Some (configuration d), err = PS2_verify_configuration_byte_response (configuration d)\<rparr> d"
  unfolding ps2_get_configuration_byte_def send_command_configuration_byte_response_def Let_def
  by (rule moves_command_response [of _ _ "config_raw (configuration d)"])
     (simp_all add: assms on_command_def const_defs moves_ret)

lemma moves_tests:
  assumes "responses d = []"
  shows "moves ids d0 (ps2_perform_controller_self_test (i8042_hw ids d0)) d
      \<lparr>response = Some PS2_TCR_passed, err = PS2_ERR_none\<rparr> d"
    and "moves ids d0 (ps2_test_first_ps2_port (i8042_hw ids d0)) d
      \<lparr>response = Some PS2_TPR_passed, err = PS2_ERR_none\<rparr> d"
    and "moves ids d0 (ps2_test_second_ps2_port (i8042_hw ids d0)) d
      \<lparr>response = Some PS2_TPR_passed, err = PS2_ERR_none\<rparr> d"
  unfolding ps2_perform_controller_self_test_def send_command_test_controller_response_def
    ps2_test_first_ps2_port_def ps2_test_second_ps2_port_def send_command_test_port_response_def
    PS2_verify_test_controller_response_def PS2_verify_test_port_response_def
  by (rule moves_command_response [where b = PS2_TCR_passed]
        moves_command_response [where b = PS2_TPR_passed];
      simp add: assms on_command_def const_defs moves_ret)+

lemma moves_set_configuration:
  "pending_data d = No_data \<Longrightarrow>
     moves ids d0 (ps2_set_configuration_byte (i8042_hw ids d0) c) d PS2_ERR_none (d\<lparr>configuration := c\<rparr>)"
  unfolding ps2_set_configuration_byte_def write_next_to_byte_0_of_interal_ram_def
    send_command_none_response_def
  by (rule moves_bind [OF moves_send_command], simp, rule moves_bind [OF moves_wait_in], simp add: const_defs,
      rule moves_bind [OF moves_outb(2)])
     (cases d, simp add: on_command_def on_data_def moves_ret)

lemma moves_enable_disable:
  "moves ids d0 (ps2_disable_first_ps2_port (i8042_hw ids d0)) d PS2_ERR_none (on_command 0xAD d)"
  "moves ids d0 (ps2_disable_second_ps2_port (i8042_hw ids d0)) d PS2_ERR_none (on_command 0xA7 d)"
  "moves ids d0 (ps2_enable_first_ps2_port (i8042_hw ids d0)) d PS2_ERR_none (on_command 0xAE d)"
  "moves ids d0 (ps2_enable_second_ps2_port (i8042_hw ids d0)) d PS2_ERR_none (on_command 0xA8 d)"
  unfolding ps2_disable_first_ps2_port_def ps2_disable_second_ps2_port_def
    ps2_enable_first_ps2_port_def ps2_enable_second_ps2_port_def const_defs
  by (rule moves_send_command)+

lemma moves_send_port:
  assumes "pending_data d = No_data" and "responses d = []"
  shows "moves ids d0 (send_command_or_data_to_ps2_port (i8042_hw ids d0) 1 0xFF) d PS2_ERR_none
      (d\<lparr>responses := fst ids\<rparr>)"
    and "moves ids d0 (send_command_or_data_to_ps2_port (i8042_hw ids d0) 2 0xFF) d PS2_ERR_none
      (d\<lparr>responses := snd ids\<rparr>)"
proof -
  have 1: "on_data ids 0xFF d = d\<lparr>responses := fst ids\<rparr>"
    and 2: "on_data ids 0xFF (on_command 0xD4 d) = d\<lparr>responses := snd ids\<rparr>"
    using assms by (cases d; simp add: on_data_def on_command_def)+
  show "moves ids d0 (send_command_or_data_to_ps2_port (i8042_hw ids d0) 1 0xFF) d PS2_ERR_none
      (d\<lparr>responses := fst ids\<rparr>)"
    unfolding send_command_or_data_to_ps2_port_def send_command_to_first_ps2_port_def const_defs
    by (simp, rule moves_bind [OF moves_wait_in], simp,
        rule moves_bind [OF moves_outb(2)], simp add: 1 moves_ret)
  show "moves ids d0 (send_command_or_data_to_ps2_port (i8042_hw ids d0) 2 0xFF) d PS2_ERR_none
      (d\<lparr>responses := snd ids\<rparr>)"
    unfolding send_command_or_data_to_ps2_port_def send_command_to_second_ps2_port_def const_defs
    by (simp, rule moves_bind [OF moves_wait_in], simp, rule moves_bind [OF moves_outb(1)],
        rule moves_bind [OF moves_wait_in], simp, rule moves_bind [OF moves_outb(2)], simp add: 2 moves_ret)
qed

text \<open>Reading one more answer of a device.\<close>

lemma moves_answer:
  assumes "moves ids d0 (k b) (d\<lparr>responses := bs\<rparr>) x d'"
  shows "moves ids d0 (wait_till_ready_for_response (i8042_hw ids d0) \<bind> (\<lambda>e.
      if e \<noteq> PS2_ERR_none then f e else ps2_recieve_raw_response (i8042_hw ids d0) \<bind> k))
      (d\<lparr>responses := b # bs\<rparr>) x d'"
  by (rule moves_bind [OF moves_wait_out], simp, simp, rule moves_bind [OF moves_recieve], simp)
     (simp add: assms)

lemma moves_reset_keyboard:
  assumes ids: "fst ids = [0xFA, 0xAA, 0xAB, k]" and k: "len4_device k = Some t"
    and d: "pending_data d = No_data" "responses d = []"
  shows "moves ids d0 (reset_port_and_get_device_type (i8042_hw ids d0) 1) d
    \<lparr>d_err = PS2_ERR_none, d_type = Some t, mouse_or_keyboard = Some PS2_DST_keyboard\<rparr> d"
proof -
  have same: "d\<lparr>responses := []\<rparr> = d" using d(2) by (cases d) simp
  show ?thesis
    unfolding reset_port_and_get_device_type_def const_defs
    by (rule moves_bind [OF moves_send_port(1) [OF d]], simp add: ids)
       (rule moves_answer, simp, rule moves_answer, simp, rule moves_answer, simp add: len4_prefix_def,
        rule moves_answer, simp add: identify_len4_def k same moves_ret)
qed

lemma moves_reset_mouse:
  assumes ids: "snd ids = [0xFA, 0xAA, m]" and m: "len3_device m = Some t"
    and d: "pending_data d = No_data" "responses d = []"
  shows "moves ids d0 (reset_port_and_get_device_type (i8042_hw ids d0) 2) d
    \<lparr>d_err = PS2_ERR_none, d_type = Some t, mouse_or_keyboard = Some PS2_DST_mouse\<rparr> d"
proof -
  have same: "d\<lparr>responses := []\<rparr> = d" using d(2) by (cases d) simp
  have "m \<noteq> 0xAB" using m by (auto simp: len3_device_def)
  then show ?thesis
    unfolding reset_port_and_get_device_type_def const_defs
    by (intro moves_bind [OF moves_send_port(2) [OF d]], simp add: ids)
       (rule moves_answer, simp, rule moves_answer, simp, rule moves_answer,
        simp add: len4_prefix_def identify_len3_def m same moves_ret)
qed

section \<open>The bring-up on the machine\<close>

lemma moves_check_err:
  "moves ids d0 m d PS2_ERR_none d' \<Longrightarrow> moves ids d0 (check_err m msgs) d (Inr ()) d'"
  unfolding check_err_def proceed_def by (rule moves_bind, assumption) (simp add: moves_ret)

lemma moves_check_config:
  assumes "responses d = []"
    and "PS2_verify_configuration_byte_response (configuration d) = PS2_ERR_none"
  shows "moves ids d0 (check_config (i8042_hw ids d0) msgs) d (Inr (configuration d)) d"
  unfolding check_config_def use_response_def use_value_def proceed_def
  by (rule moves_bind [OF moves_get_configuration [OF assms(1)]]) (simp add: assms(2) moves_ret)

lemma moves_copy_config:
  assumes "responses d = []"
    and "PS2_verify_configuration_byte_response (configuration d) = PS2_ERR_none"
  shows "moves ids d0 (copy_config (i8042_hw ids d0) msgs) d (Inr (Some (configuration d))) d"
  unfolding copy_config_def Let_def proceed_def
  by (rule moves_bind [OF moves_get_configuration [OF assms(1)]]) (simp add: assms(2) moves_ret)

lemma moves_use_value: "moves ids d0 (use_value (Some x)) d (Inr x) d"
  by (simp add: use_value_def proceed_def moves_ret)

lemma moves_print_configuration: "moves ids d0 (print_ps2_configuration_byte c) d () d"
  unfolding print_ps2_configuration_byte_def by (intro moves_bind [OF moves_kprintf] moves_kprintf)

lemma moves_step_1_2: "moves ids d0 setup_step_1_2 d (Inr ()) d"
  by (simp add: setup_step_1_2_def initialize_usb_controllers_def disable_legacy_usb_support_def
      does_ps2_controller_exist_def proceed_def moves_ret)

lemma moves_flush:
  "responses d = [] \<Longrightarrow> moves ids d0 (inb (i8042_hw ids d0) PS2_DATA_PORT_RW) d 0 d"
  by (auto simp: moves_def const_defs i8042_hw_def)

text \<open>An idle machine, described by its configuration.\<close>

definition idle :: "PS2_ConfigurationByte \<Rightarrow> i8042" where
  "idle c = \<lparr>configuration = c, pending_data = No_data, responses = []\<rparr>"

lemma idle_simps [simp]:
  "configuration (idle c) = c" "pending_data (idle c) = No_data" "responses (idle c) = []"
  "(idle c)\<lparr>configuration := c'\<rparr> = idle c'"
  "on_command 0xAD (idle c) = idle (c\<lparr>first_ps2_port_clock_disabled := True\<rparr>)"
  "on_command 0xA7 (idle c) = idle (c\<lparr>second_ps2_port_clock_disabled := True\<rparr>)"
  "on_command 0xAE (idle c) = idle (c\<lparr>first_ps2_port_clock_disabled := False\<rparr>)"
  "on_command 0xA8 (idle c) = idle (c\<lparr>second_ps2_port_clock_disabled := False\<rparr>)"
  by (simp_all add: idle_def on_command_def)

lemmas moves_enable_idle = moves_enable_disable [where d = "idle c" for c, simplified]

lemmas moves_set_idle = moves_set_configuration [where d = "idle c0" for c0, simplified]

lemma moves_step_3_4:
  "moves ids d0 (setup_step_3_4 (i8042_hw ids d0)) (idle c) (Inr ())
     (idle (c\<lparr>first_ps2_port_clock_disabled := True, second_ps2_port_clock_disabled := True\<rparr>))"
  unfolding setup_step_3_4_def proceed_def
  by (intro moves_bindS [OF moves_check_err [OF moves_enable_idle(1)]]
      moves_bindS [OF moves_check_err [OF moves_enable_idle(2)]] moves_bind [OF moves_flush] moves_ret) simp

lemma moves_step_5:
  assumes "\<not> zero1 c" and "system_flag_passed_post_one c \<or> qemu"
  shows "moves ids d0 (setup_step_5 (i8042_hw ids d0) qemu) (idle c) (Inr ()) (idle (step_5_config qemu c))"
proof -
  have get: "moves ids d0 (setup_get_first_config (i8042_hw ids d0) qemu) (idle c) (Inr c) (idle c)"
    unfolding setup_get_first_config_def use_response_def use_value_def proceed_def
    using assms
    by (intro moves_bind [OF moves_get_configuration])
       (auto simp: PS2_verify_configuration_byte_response_def intro!: moves_bind [OF moves_kprintf] moves_ret)
  show ?thesis
    unfolding setup_step_5_def
    by (intro moves_bindS [OF get] moves_bind [OF moves_kprintf] moves_bind [OF moves_print_configuration]
        moves_check_err moves_set_idle)
qed

lemma moves_step_6: "moves ids d0 (setup_step_6 (i8042_hw ids d0)) (idle c) (Inr ()) (idle c)"
  unfolding setup_step_6_def use_response_def use_value_def proceed_def
  by (rule moves_bind [OF moves_tests(1)], simp, simp, rule moves_bindS [OF moves_ret], simp add: moves_ret)

lemma moves_test_port:
  assumes "moves ids d0 m d \<lparr>response = Some PS2_TPR_passed, err = PS2_ERR_none\<rparr> d"
  shows "moves ids d0 (setup_test_port m a b st) d (Inr ()) d"
  unfolding setup_test_port_def use_response_def use_value_def proceed_def
  by (rule moves_bind [OF assms], simp, rule moves_bindS [OF moves_ret], simp add: moves_ret)

lemma moves_step_8: "moves ids d0 (setup_step_8 (i8042_hw ids d0)) (idle c) (Inr ()) (idle c)"
  unfolding setup_step_8_def
  by (intro moves_bindS [OF moves_test_port] moves_test_port moves_tests) simp_all

lemma config_verdict:
  "\<not> zero1 c \<Longrightarrow> system_flag_passed_post_one c \<Longrightarrow>
     PS2_verify_configuration_byte_response c = PS2_ERR_none"
  by (simp add: PS2_verify_configuration_byte_response_def)

lemma moves_step_7:
  assumes "\<not> zero1 c" and "system_flag_passed_post_one c"
  shows "moves ids d0 (setup_step_7 (i8042_hw ids d0)) (idle c) (Inr True)
    (idle (c\<lparr>second_ps2_port_clock_disabled := False, second_ps2_port_enabled := False\<rparr>))"
  unfolding setup_step_7_def Let_def proceed_def
  apply (rule moves_bindS [OF moves_check_err [OF moves_enable_idle(4)]])
  apply (rule moves_bindS [OF moves_copy_config], simp, simp add: config_verdict assms)
  apply (rule moves_bindS [OF moves_use_value])
  apply (rule moves_bind [OF moves_print_configuration])
  apply (rule moves_bindS [OF moves_check_err [OF moves_enable_idle(2)]], simp)
  apply (rule moves_bindS [OF moves_check_config], simp, simp add: config_verdict assms)
  apply (rule moves_bindS [OF moves_check_err [OF moves_set_idle]], simp add: moves_ret)
  done

lemma moves_step_9:
  assumes "\<not> zero1 c" and "system_flag_passed_post_one c"
  shows "moves ids d0 (setup_step_9 (i8042_hw ids d0)) (idle c) (Inr ())
    (idle (c\<lparr>first_ps2_port_clock_disabled := False, second_ps2_port_clock_disabled := False,
             first_ps2_port_enabled := True, second_ps2_port_enabled := True\<rparr>))"
  unfolding setup_step_9_def
  apply (rule moves_bindS [OF moves_check_err [OF moves_enable_idle(3)]])
  apply (rule moves_bindS [OF moves_check_err [OF moves_enable_idle(4)]])
  apply (rule moves_bindS [OF moves_check_config], simp, simp add: config_verdict assms)
  apply (rule moves_check_err)
  using moves_set_idle apply fastforce
  done

lemma moves_step_10:
  assumes ids: "ids = ([0xFA, 0xAA, 0xAB, k], [0xFA, 0xAA, m])"
    and k: "len4_device k = Some kt" and m: "len3_device m = Some mt"
  shows "moves ids d0 (setup_step_10 (i8042_hw ids d0) True) (idle c)
    (Inr \<lparr>internal_err = Some PS2_ERR_none, ps2_state_err = PS2_ID_ERR_none,
          port_one_device_type = Some kt, port_two_device_type = Some mt\<rparr>) (idle c)"
proof -
  have one: "moves ids d0 (setup_reset (i8042_hw ids d0) 1 msg st p1) (idle c) (Inr (True, Some kt)) (idle c)"
    for msg st p1
    unfolding setup_reset_def device_kind_def proceed_def
    by (rule moves_bind [OF moves_reset_keyboard [OF _ k]])
       (simp_all add: ids, rule moves_bindS [OF moves_ret], rule moves_ret)
  have two: "moves ids d0 (setup_reset (i8042_hw ids d0) 2 msg st p1) (idle c) (Inr (False, Some mt)) (idle c)"
    for msg st p1
    unfolding setup_reset_def device_kind_def proceed_def
    by (rule moves_bind [OF moves_reset_mouse [OF _ m]])
       (simp_all add: ids, rule moves_bindS [OF moves_ret], rule moves_ret)
  show ?thesis
    unfolding setup_step_10_def setup_second_device_def
    by (rule moves_bindS [OF one], simp, rule moves_bindS [OF two]) (simp add: proceed_def moves_ret)
qed

text \<open>
  (C2) On a machine that follows the 8042 protocol, with a keyboard on port one and a mouse on port
  two that answer a reset with identities the driver knows, the bring-up succeeds: it reports one
  keyboard and one mouse with exactly those types, and leaves the controller idle with both port
  interrupts on, both clocks running and scancode translation off. The initial configuration may
  be any with the reserved bit 3 clear and the POST flag set (a clear POST flag is accepted when
  built for QEMU, and then set).
\<close>

theorem setup_ps2_controller_on_i8042:
  assumes "len4_device k = Some kt" and "len3_device m = Some mt"
    and "\<not> zero1 c" and "system_flag_passed_post_one c \<or> qemu"
    and "ids = ([0xFA, 0xAA, 0xAB, k], [0xFA, 0xAA, m])"
  shows "\<exists>tr. run (setup_ps2_controller (i8042_hw ids (idle c)) qemu) [] =
      (ok \<lparr>internal_err = Some PS2_ERR_none, ps2_state_err = PS2_ID_ERR_none,
           port_one_device_type = Some kt, port_two_device_type = Some mt\<rparr>, tr) \<and>
    i8042_after ids (idle c) tr =
      idle (c\<lparr>first_ps2_port_enabled := True, second_ps2_port_enabled := True,
              system_flag_passed_post_one := True,
              first_ps2_port_clock_disabled := False, second_ps2_port_clock_disabled := False,
              first_ps2_port_translation_enabled := False\<rparr>)"
proof -
  let ?c5 = "step_5_config qemu (c\<lparr>first_ps2_port_clock_disabled := True,
     second_ps2_port_clock_disabled := True\<rparr>)"
  let ?c7 = "?c5\<lparr>second_ps2_port_clock_disabled := False, second_ps2_port_enabled := False\<rparr>"
  have ok5: "\<not> zero1 ?c5" "system_flag_passed_post_one ?c5"
    and ok7: "\<not> zero1 ?c7" "system_flag_passed_post_one ?c7"
    using assms(3,4) by (auto simp: step_5_config_def)
  have "moves ids (idle c) (setup_steps (i8042_hw ids (idle c)) qemu) (idle c)
    (Inr \<lparr>internal_err = Some PS2_ERR_none, ps2_state_err = PS2_ID_ERR_none,
          port_one_device_type = Some kt, port_two_device_type = Some mt\<rparr>)
    (idle (?c7\<lparr>first_ps2_port_clock_disabled := False, second_ps2_port_clock_disabled := False,
             first_ps2_port_enabled := True, second_ps2_port_enabled := True\<rparr>))"
    unfolding setup_steps_def using assms(3,4)
    by (intro moves_bindS [OF moves_step_1_2] moves_bindS [OF moves_step_3_4]
        moves_bindS [OF moves_step_5] moves_bindS [OF moves_step_6] moves_bindS [OF moves_step_7 [OF ok5]]
        moves_bindS [OF moves_step_8] moves_bindS [OF moves_step_9 [OF ok7]]
        moves_step_10 [OF assms(5,1,2)]) auto
  from moves_start [OF this] assms(4) show ?thesis
    by (cases c) (auto simp: setup_ps2_controller_def run_bind step_5_config_def)
qed

theorem setup_ps2_controller_on_i8042_witness:
  "\<exists>tr. run (setup_ps2_controller
        (i8042_hw ([0xFA, 0xAA, 0xAB, 0x83], [0xFA, 0xAA, 0x00]) (idle (config_bits 0x75))) False) [] =
      (ok \<lparr>internal_err = Some PS2_ERR_none, ps2_state_err = PS2_ID_ERR_none,
           port_one_device_type = Some PS2_DT_mf2_keyboard_1,
           port_two_device_type = Some PS2_DT_standard_mouse\<rparr>, tr)"
  using setup_ps2_controller_on_i8042 [of "0x83" PS2_DT_mf2_keyboard_1 "0x00" PS2_DT_standard_mouse
      "config_bits 0x75" False, OF _ _ _ _ refl]
  by (auto simp: len4_device_def len3_device_def config_bits_def)

end
