(* ===== verification/Reentrant_Lock.thy ===== *)
theory Reentrant_Lock
  imports Prelude
begin

text \<open>
  The re-entrant spin lock of \<open>cpu/multicore/multicore.c\<close>, shared by all cores: one 32-bit word holding
  a locked flag (bit 31), a recursion count (bits 16 to 30) and the owner (bits 0 to 15), changed
  only by compare-and-swap.

  The decisions each function makes on a value it read are plain functions of that value. The loops
  around them are a step relation in which every load and every compare-and-swap is one atomic step
  of one core, a weak compare-and-swap may fail for no reason, and the cores interleave freely.
  \<open>depth\<close> is a ghost: how many times a core holds the lock. The core id, masked to 16 bits as the
  code does, is a \<open>16 word\<close>; the code relies on different cores having different masked ids.
\<close>

section \<open>The lock word\<close>

definition LOCK_FLAG :: u32 where "LOCK_FLAG = push_bit 31 1"
definition RECURSION_SHIFT :: nat where "RECURSION_SHIFT = 16"
definition RECURSION_MASK :: u32 where "RECURSION_MASK = push_bit RECURSION_SHIFT 0x7FFF"
definition OWNER_MASK :: u32 where "OWNER_MASK = 0xFFFF"

definition recursion :: "u32 \<Rightarrow> u32" where
  "recursion e = drop_bit RECURSION_SHIFT (e AND RECURSION_MASK)"

text \<open>The body of the loop in \<open>reentrant_trylock\<close>: \<open>None\<close> is \<open>return false\<close>.\<close>

definition trylock_desired :: "u32 \<Rightarrow> u32 \<Rightarrow> u32 option" where
  "trylock_desired cpu_id expected =
     (let is_locked = expected AND LOCK_FLAG;
          owner = expected AND OWNER_MASK
      in if is_locked \<noteq> 0 \<and> owner = cpu_id then
           (if recursion expected = 0x7FFF then None
            else Some (expected + push_bit RECURSION_SHIFT 1))
         else if is_locked = 0 then Some (LOCK_FLAG OR cpu_id OR push_bit RECURSION_SHIFT 1)
         else None)"

text \<open>The fast path of \<open>reentrant_lock\<close>: its guard, and its body with \<open>None\<close> for \<open>break\<close>.\<close>

definition owned_by :: "u32 \<Rightarrow> u32 \<Rightarrow> bool" where
  "owned_by cpu_id e \<longleftrightarrow> e AND (LOCK_FLAG OR OWNER_MASK) = LOCK_FLAG OR cpu_id"

definition fast_desired :: "u32 \<Rightarrow> u32 option" where
  "fast_desired expected =
     (if recursion expected = 0x7FFF then None else Some (expected + push_bit RECURSION_SHIFT 1))"

text \<open>The body of the loop in \<open>reentrant_unlock\<close>: \<open>None\<close> is the early return.\<close>

definition unlock_desired :: "u32 \<Rightarrow> u32 \<Rightarrow> u32 option" where
  "unlock_desired cpu_id expected =
     (let is_locked = expected AND LOCK_FLAG;
          owner = expected AND OWNER_MASK
      in if is_locked = 0 \<or> owner \<noteq> cpu_id then None
         else if recursion expected > 1 then Some (expected - push_bit RECURSION_SHIFT 1)
         else Some 0)"

section \<open>Cores running the lock functions\<close>

type_synonym core = "16 word"

definition cpu_id :: "core \<Rightarrow> u32" where
  "cpu_id c = ucast c"

text \<open>
  Where a core is: outside (\<open>Idle\<close>); in \<open>reentrant_trylock\<close> before its compare-and-swap (with the value
  it expects); in the fast path of \<open>reentrant_lock\<close>; about to call \<open>reentrant_trylock\<close> from it, in that
  call, or in the read-only spin; in \<open>reentrant_unlock\<close> before its compare-and-swap.
\<close>

datatype pc = Idle | Trying u32 | Fast u32 | Lock_start | Lock_trying u32 | Spinning | Unlocking u32

record system =
  lock_word :: u32
  at :: "core \<Rightarrow> pc"
  depth :: "core \<Rightarrow> nat"

definition goto :: "core \<Rightarrow> pc \<Rightarrow> system \<Rightarrow> system" where
  "goto c l s = s\<lparr>at := (at s)(c := l)\<rparr>"

definition acquire :: "core \<Rightarrow> u32 \<Rightarrow> system \<Rightarrow> system" where
  "acquire c d s = s\<lparr>lock_word := d, at := (at s)(c := Idle), depth := (depth s)(c := depth s c + 1)\<rparr>"

definition release :: "core \<Rightarrow> u32 \<Rightarrow> system \<Rightarrow> system" where
  "release c d s = s\<lparr>lock_word := d, at := (at s)(c := Idle), depth := (depth s)(c := depth s c - 1)\<rparr>"

inductive lock_step :: "system \<Rightarrow> system \<Rightarrow> bool" where
  trylock_call: "at s c = Idle \<Longrightarrow> lock_step s (goto c (Trying (lock_word s)) s)"
| trylock_false: "at s c = Trying e \<Longrightarrow> trylock_desired (cpu_id c) e = None \<Longrightarrow> lock_step s (goto c Idle s)"
| trylock_cas: "at s c = Trying e \<Longrightarrow> trylock_desired (cpu_id c) e = Some d \<Longrightarrow> lock_word s = e \<Longrightarrow>
    lock_step s (acquire c d s)"
| trylock_retry: "at s c = Trying e \<Longrightarrow> trylock_desired (cpu_id c) e = Some d \<Longrightarrow>
    lock_step s (goto c (Trying (lock_word s)) s)"
| lock_call: "at s c = Idle \<Longrightarrow>
    lock_step s (goto c (if owned_by (cpu_id c) (lock_word s) then Fast (lock_word s) else Lock_start) s)"
| fast_break: "at s c = Fast e \<Longrightarrow> fast_desired e = None \<Longrightarrow> lock_step s (goto c Lock_start s)"
| fast_cas: "at s c = Fast e \<Longrightarrow> fast_desired e = Some d \<Longrightarrow> lock_word s = e \<Longrightarrow> lock_step s (acquire c d s)"
| fast_retry: "at s c = Fast e \<Longrightarrow> fast_desired e = Some d \<Longrightarrow>
    lock_step s (goto c (if owned_by (cpu_id c) (lock_word s) then Fast (lock_word s) else Lock_start) s)"
| lock_try: "at s c = Lock_start \<Longrightarrow> lock_step s (goto c (Lock_trying (lock_word s)) s)"
| lock_false: "at s c = Lock_trying e \<Longrightarrow> trylock_desired (cpu_id c) e = None \<Longrightarrow>
    lock_step s (goto c Spinning s)"
| lock_cas: "at s c = Lock_trying e \<Longrightarrow> trylock_desired (cpu_id c) e = Some d \<Longrightarrow> lock_word s = e \<Longrightarrow>
    lock_step s (acquire c d s)"
| lock_retry: "at s c = Lock_trying e \<Longrightarrow> trylock_desired (cpu_id c) e = Some d \<Longrightarrow>
    lock_step s (goto c (Lock_trying (lock_word s)) s)"
| spin: "at s c = Spinning \<Longrightarrow>
    lock_step s (goto c (if lock_word s AND LOCK_FLAG \<noteq> 0 then Spinning else Lock_start) s)"
| unlock_call: "at s c = Idle \<Longrightarrow> lock_step s (goto c (Unlocking (lock_word s)) s)"
| unlock_refused: "at s c = Unlocking e \<Longrightarrow> unlock_desired (cpu_id c) e = None \<Longrightarrow> lock_step s (goto c Idle s)"
| unlock_cas: "at s c = Unlocking e \<Longrightarrow> unlock_desired (cpu_id c) e = Some d \<Longrightarrow> lock_word s = e \<Longrightarrow>
    lock_step s (release c d s)"
| unlock_retry: "at s c = Unlocking e \<Longrightarrow> unlock_desired (cpu_id c) e = Some d \<Longrightarrow> lock_word s \<noteq> e \<Longrightarrow>
    lock_step s (goto c (Unlocking (lock_word s)) s)"

definition lock_init :: "system \<Rightarrow> bool" where
  "lock_init s \<longleftrightarrow> lock_word s = 0 \<and> (\<forall>c. at s c = Idle \<and> depth s c = 0)"

section \<open>The abstract lock\<close>

datatype abstract_lock = Free | Held core nat

text \<open>The word that represents an abstract lock state.\<close>

fun encode :: "abstract_lock \<Rightarrow> u32" where
  "encode Free = 0"
| "encode (Held c k) = of_nat (2 ^ 31 + k * 2 ^ 16 + unat c)"

fun abstract_acquire :: "core \<Rightarrow> abstract_lock \<Rightarrow> abstract_lock option" where
  "abstract_acquire c Free = Some (Held c 1)"
| "abstract_acquire c (Held o' k) = (if o' = c \<and> k < 0x7FFF then Some (Held c (k + 1)) else None)"

fun abstract_release :: "core \<Rightarrow> abstract_lock \<Rightarrow> abstract_lock option" where
  "abstract_release c Free = None"
| "abstract_release c (Held o' k) =
     (if o' \<noteq> c then None else if k > 1 then Some (Held c (k - 1)) else Some Free)"

fun valid_lock :: "abstract_lock \<Rightarrow> bool" where
  "valid_lock Free = True"
| "valid_lock (Held c k) = (1 \<le> k \<and> k \<le> 0x7FFF)"

lemma unat_core: "unat (c :: core) < 65536"
  by (rule less_le_trans [OF unsigned_less]) simp

lemma unat_encode_Held: "k \<le> 0x7FFF \<Longrightarrow> unat (encode (Held c k)) = 2 ^ 31 + k * 2 ^ 16 + unat c"
proof -
  assume "k \<le> 0x7FFF"
  then have "2 ^ 31 + k * 2 ^ 16 + unat c < (2 :: nat) ^ 32" using unat_core [of c] by simp
  then show ?thesis by (simp only: encode.simps unat_of_nat) simp
qed

text \<open>Reading the three fields of a represented state.\<close>

lemma lock_constants:
  "LOCK_FLAG = 0x80000000" "OWNER_MASK = mask 16" "RECURSION_MASK = push_bit 16 (mask 15)"
  "push_bit RECURSION_SHIFT 1 = (0x10000 :: u32)"
  by (simp_all add: LOCK_FLAG_def OWNER_MASK_def RECURSION_MASK_def RECURSION_SHIFT_def
      mask_eq_exp_minus_1)

lemma flag_unat: "e AND LOCK_FLAG = 0 \<longleftrightarrow> unat e < 2 ^ 31" for e :: u32
proof -
  have "e AND LOCK_FLAG = 0 \<longleftrightarrow> \<not> bit e 31"
    unfolding LOCK_FLAG_def push_bit_of_1 by (rule and_exp_eq_0_iff_not_bit)
  also have "\<dots> \<longleftrightarrow> unat e < 2 ^ 31"
  proof -
    have "bit e 31 \<longleftrightarrow> bit (unat e) 31" by (simp add: bit_unsigned_iff)
    then have "bit e 31 \<longleftrightarrow> odd (unat e div 2 ^ 31)" by (simp only: bit_iff_odd)
    moreover have "unat e div 2 ^ 31 < 2"
      using unat_u32_less [of e] by (simp add: less_mult_imp_div_less)
    ultimately show ?thesis
      by (auto simp: div_less_iff_less_mult less_2_cases_iff div_eq_0_iff)
  qed
  finally show ?thesis .
qed

lemma owner_unat: "unat (e AND OWNER_MASK) = unat e mod 2 ^ 16" for e :: u32
  by (simp add: lock_constants take_bit_eq_mask [symmetric] take_bit_eq_mod unat_mod)

lemma recursion_unat: "unat (recursion e) = unat e div 2 ^ 16 mod 2 ^ 15"
proof -
  have "recursion e = take_bit 15 (drop_bit 16 e)"
    unfolding recursion_def lock_constants RECURSION_SHIFT_def
    by (rule bit_word_eqI) (auto simp: bit_simps)
  then show ?thesis
    by (simp add: take_bit_eq_mod drop_bit_eq_div unat_div unat_mod)
qed

text \<open>The fields of a represented lock.\<close>

lemma encode_fields:
  assumes "k \<le> 0x7FFF"
  shows "encode (Held c k) AND LOCK_FLAG \<noteq> 0"
    and "encode (Held c k) AND OWNER_MASK = cpu_id d \<longleftrightarrow> c = d"
    and "unat (recursion (encode (Held c k))) = k"
proof -
  note u = unat_encode_Held [OF assms, of c] and c = unat_core [of c]
  show "encode (Held c k) AND LOCK_FLAG \<noteq> 0"
    using u by (simp add: flag_unat del: encode.simps)
  have "unat (encode (Held c k) AND OWNER_MASK) = unat c"
    using u c by (simp add: owner_unat mod_add_eq [symmetric] del: encode.simps)
  moreover have "unat (cpu_id d) = unat d" using unat_core [of d] by (simp add: cpu_id_def unsigned_ucast_eq take_bit_nat_eq_self)
  ultimately show "encode (Held c k) AND OWNER_MASK = cpu_id d \<longleftrightarrow> c = d"
    by (metis word_unat_eq_iff)
  show "unat (recursion (encode (Held c k))) = k"
    using u c assms by (simp add: recursion_unat div_add1_eq del: encode.simps)
qed

lemma recursion_full: "k \<le> 0x7FFF \<Longrightarrow> recursion (encode (Held c k)) = 0x7FFF \<longleftrightarrow> k = 0x7FFF"
  using encode_fields(3) [of k c] by (auto simp: word_unat_eq_iff simp del: encode.simps)

lemma encode_Suc: "encode (Held c (Suc k)) = encode (Held c k) + push_bit RECURSION_SHIFT 1"
  by (simp add: RECURSION_SHIFT_def algebra_simps)

lemma encode_fresh: "LOCK_FLAG OR cpu_id c OR push_bit RECURSION_SHIFT 1 = encode (Held c 1)"
proof -
  have "LOCK_FLAG OR cpu_id c OR push_bit RECURSION_SHIFT 1 = 0x80000000 OR 0x10000 OR ucast c"
    by (simp add: lock_constants(1) RECURSION_SHIFT_def cpu_id_def or.commute or.left_commute)
  also have "\<dots> = 0x80000000 + (0x10000 + ucast c)"
  proof -
    have lo: "bit (ucast c :: u32) n \<Longrightarrow> n < 16" for n
      using bit_imp_le_length [of c n] by (simp add: bit_simps)
    have "ucast c AND (2 ^ 16 :: u32) = 0" "(0x10000 OR ucast c) AND (2 ^ 31 :: u32) = 0"
      unfolding and_exp_eq_0_iff_not_bit using lo [of 16] lo [of 31] by (auto simp: bit_or_iff)
    then have "(0x10000 :: u32) AND ucast c = 0" "(0x80000000 :: u32) AND (0x10000 OR ucast c) = 0"
      by (simp_all add: and.commute)
    then show ?thesis by (simp add: disjunctive_add_eq_or)
  qed
  also have "\<dots> = encode (Held c 1)" by simp
  finally show ?thesis .
qed

section \<open>The decisions implement the abstract lock\<close>

lemma trylock_abstract:
  "valid_lock a \<Longrightarrow> trylock_desired (cpu_id c) (encode a) = map_option encode (abstract_acquire c a)"
proof (cases a)
  case Free
  then show ?thesis using encode_fresh [of c]
    by (simp add: trylock_desired_def del: encode.simps) (simp add: Free)
next
  case (Held d k)
  assume "valid_lock a"
  then have k: "k \<le> 0x7FFF" using Held by simp
  show ?thesis
    using encode_fields [OF k, of d] recursion_full [OF k, of d] encode_Suc [of d k] Held k
    by (auto simp: trylock_desired_def Let_def simp del: encode.simps)
qed

lemma unlock_abstract:
  "valid_lock a \<Longrightarrow> unlock_desired (cpu_id c) (encode a) = map_option encode (abstract_release c a)"
proof (cases a)
  case Free
  then show ?thesis by (simp add: unlock_desired_def)
next
  case (Held d k)
  assume "valid_lock a"
  then have k: "1 \<le> k" "k \<le> 0x7FFF" using Held by simp_all
  have "encode (Held d k) = encode (Held d (k - 1)) + push_bit RECURSION_SHIFT 1"
    using encode_Suc [of d "k - 1"] k by simp
  moreover have "recursion (encode (Held d k)) > 1 \<longleftrightarrow> k > 1"
    using encode_fields(3) [OF k(2), of d] by (simp add: word_less_nat_alt del: encode.simps)
  ultimately show ?thesis
    using encode_fields(1,2) [OF k(2), of d] Held
    by (auto simp: unlock_desired_def Let_def simp del: encode.simps(2))
qed

lemma owned_by_fields:
  assumes "owned_by (cpu_id c) e"
  shows "e AND LOCK_FLAG \<noteq> 0" and "e AND OWNER_MASK = cpu_id c"
proof -
  have f: "bit LOCK_FLAG n \<longleftrightarrow> n = 31" for n
    using bit_exp_iff [of 31 n, where 'a = u32] by (auto simp: LOCK_FLAG_def)
  have o: "bit OWNER_MASK n \<longleftrightarrow> n < 16" for n
    by (auto simp: lock_constants bit_mask_iff)
  have id: "bit (cpu_id c) n \<Longrightarrow> n < 16" for n
    using bit_imp_le_length [of c n] by (simp add: cpu_id_def bit_simps)
  have e: "bit (e AND (LOCK_FLAG OR OWNER_MASK)) n = bit (LOCK_FLAG OR cpu_id c) n" for n
    using assms by (simp add: owned_by_def)
  have bits: "(bit e n \<and> (n = 31 \<or> n < 16)) = (n = 31 \<or> bit (cpu_id c) n)" for n
    using e [of n] by (simp only: bit_and_iff bit_or_iff f o)
  have "bit e 31" using bits [of 31] by simp
  then have "bit (e AND LOCK_FLAG) 31" by (simp only: bit_and_iff f)
  then show "e AND LOCK_FLAG \<noteq> 0" by (metis bit_0_eq bot_apply bot_bool_def)
  have low: "bit e n = bit (cpu_id c) n" if "n < 16" for n using bits [of n] that by simp
  show "e AND OWNER_MASK = cpu_id c"
    by (rule bit_word_eqI) (metis bit_and_iff o low id)
qed

lemma owned_by_encode: "valid_lock a \<Longrightarrow> owned_by (cpu_id c) (encode a) \<Longrightarrow> \<exists>k. a = Held c k"
  using owned_by_fields [of c "encode a"]
  by (cases a) (simp_all add: encode_fields(2) del: encode.simps(2))

lemma fast_abstract:
  assumes "valid_lock a" and "owned_by (cpu_id c) (encode a)" and "fast_desired (encode a) = Some d"
  shows "\<exists>a'. abstract_acquire c a = Some a' \<and> d = encode a'"
proof -
  obtain k where a: "a = Held c k" using owned_by_encode [OF assms(1,2)] by blast
  then have k: "k \<le> 0x7FFF" using assms(1) by simp
  then have "k \<noteq> 0x7FFF" and "d = encode (Held c (Suc k))"
    using assms(3) recursion_full [OF k, of c] a
    by (auto simp: fast_desired_def encode_Suc split: if_splits simp del: encode.simps)
  then show ?thesis using a k by simp
qed

lemma valid_acquire: "valid_lock a \<Longrightarrow> abstract_acquire c a = Some a' \<Longrightarrow> valid_lock a'"
  by (cases a) (auto split: if_splits)

lemma valid_release: "valid_lock a \<Longrightarrow> abstract_release c a = Some a' \<Longrightarrow> valid_lock a'"
  by (cases a) (auto split: if_splits)

section \<open>The invariant of the interleaved system\<close>

fun held_by :: "abstract_lock \<Rightarrow> core \<Rightarrow> nat" where
  "held_by Free c = 0"
| "held_by (Held d k) c = (if c = d then k else 0)"

definition represents :: "system \<Rightarrow> abstract_lock \<Rightarrow> bool" where
  "represents s a \<longleftrightarrow> valid_lock a \<and> lock_word s = encode a \<and> depth s = held_by a \<and>
     (\<forall>c e. at s c = Fast e \<longrightarrow> owned_by (cpu_id c) e)"

lemma represents_goto:
  assumes "represents s a" and "\<And>e. l = Fast e \<Longrightarrow> owned_by (cpu_id c) e"
  shows "represents (goto c l s) a"
  using assms by (auto simp: represents_def goto_def split: if_splits)

lemma represents_acquire:
  assumes "represents s a" and "abstract_acquire c a = Some a'" and "d = encode a'"
  shows "represents (acquire c d s) a'"
proof -
  have "(held_by a)(c := held_by a c + 1) = held_by a'"
    using assms(2) by (cases a) (auto split: if_splits)
  then show ?thesis
    using assms valid_acquire by (auto simp: represents_def acquire_def split: if_splits)
qed

lemma represents_release:
  assumes "represents s a" and "abstract_release c a = Some a'" and "d = encode a'"
  shows "represents (release c d s) a'"
proof -
  have "(held_by a)(c := held_by a c - 1) = held_by a'"
    using assms(1,2) by (cases a) (auto simp: represents_def fun_eq_iff split: if_splits)
  then show ?thesis
    using assms valid_release by (auto simp: represents_def release_def split: if_splits)
qed

text \<open>Every step of the cores is a step of the abstract lock, or leaves it alone.\<close>

definition abstract_step :: "abstract_lock \<Rightarrow> abstract_lock \<Rightarrow> bool" where
  "abstract_step a a' \<longleftrightarrow> a' = a \<or> (\<exists>c. abstract_acquire c a = Some a' \<or> abstract_release c a = Some a')"

lemma goto_simulates:
  assumes "represents s a" and "\<And>e. l = Fast e \<Longrightarrow> owned_by (cpu_id c) e"
  shows "\<exists>a'. represents (goto c l s) a' \<and> abstract_step a a'"
  using represents_goto [OF assms] by (auto simp: abstract_step_def)

lemma acquire_simulates:
  assumes "represents s a" and "trylock_desired (cpu_id c) (lock_word s) = Some d"
  shows "\<exists>a'. represents (acquire c d s) a' \<and> abstract_step a a'"
  using assms trylock_abstract [of a c] represents_acquire [OF assms(1)]
  by (fastforce simp: represents_def abstract_step_def)

lemma lock_step_simulates:
  assumes "lock_step s s'" and "represents s a"
  shows "\<exists>a'. represents s' a' \<and> abstract_step a a'"
  using assms
proof (cases rule: lock_step.cases)
  case (fast_cas c e d)
  then have "owned_by (cpu_id c) (encode a)" "valid_lock a" "fast_desired (encode a) = Some d"
    using assms(2) by (auto simp: represents_def)
  then obtain a' where "abstract_acquire c a = Some a'" "d = encode a'" using fast_abstract by blast
  then show ?thesis
    using fast_cas represents_acquire [OF assms(2)] by (auto simp: abstract_step_def)
next
  case (unlock_cas c e d)
  then have "map_option encode (abstract_release c a) = Some d"
    using assms(2) unlock_abstract [of a c] by (simp add: represents_def)
  then show ?thesis
    using unlock_cas represents_release [OF assms(2)] by (auto simp: abstract_step_def)
next
  case (trylock_cas c e d)
  then show ?thesis using acquire_simulates [OF assms(2)] by simp
next
  case (lock_cas c e d)
  then show ?thesis using acquire_simulates [OF assms(2)] by simp
qed (auto intro!: goto_simulates [OF assms(2)] split: if_splits)

interpretation lock: system_invariant lock_init lock_step "\<lambda>s. \<exists>a. represents s a"
proof
  fix s
  assume "lock_init s"
  then have "represents s Free" by (auto simp: lock_init_def represents_def)
  then show "\<exists>a. represents s a" ..
next
  fix s s'
  assume "\<exists>a. represents s a" and "lock_step s s'"
  then show "\<exists>a. represents s' a" using lock_step_simulates by blast
qed

section \<open>Correctness of the lock\<close>

lemma lock_uncontended_run:
  assumes "represents s a" and "at s c = Idle" and "abstract_acquire c a = Some a'"
  shows "\<exists>s'. lock_step\<^sup>*\<^sup>* s s' \<and> represents s' a' \<and> at s' c = Idle"
proof -
  let ?s1 = "goto c (Trying (lock_word s)) s"
  let ?s2 = "acquire c (encode a') ?s1"
  have w: "valid_lock a" "lock_word s = encode a" using assms(1) by (simp_all add: represents_def)
  have 1: "lock_step s ?s1" using assms(2) by (rule trylock_call)
  have "trylock_desired (cpu_id c) (lock_word s) = Some (encode a')"
    using trylock_abstract [OF w(1), of c] w(2) assms(3) by simp
  then have 2: "lock_step ?s1 ?s2"
    by (intro trylock_cas [where e = "lock_word s"]) (simp_all add: goto_def)
  have "represents ?s2 a'"
    by (rule represents_acquire [OF represents_goto [OF assms(1)] assms(3) refl]) simp
  moreover have "at ?s2 c = Idle" by (simp add: acquire_def)
  ultimately show ?thesis using 1 2 by (meson converse_rtranclp_into_rtranclp r_into_rtranclp)
qed

definition quiet :: system where
  "quiet = \<lparr>lock_word = 0, at = \<lambda>_. Idle, depth = \<lambda>_. 0\<rparr>"

lemma quiet_reach: "reach lock_init lock_step quiet" "represents quiet Free"
  by (rule reach_init) (auto simp: lock_init_def quiet_def represents_def)

lemma reach_rtranclp: "step\<^sup>*\<^sup>* s s' \<Longrightarrow> reach init step s \<Longrightarrow> reach init step s'"
  by (induction rule: rtranclp_induct) (auto intro: reach_step)

text \<open>
  (C5) Mutual exclusion, and what the lock word says: in every state the cores can reach, with any interleaving and
  any spurious failure of the weak compare-and-swap, either the word is 0 and no core holds the lock, or
  exactly one core holds it, and the word has the locked flag, that core as the owner, and in its recursion field
  how many times the core holds it. That number never exceeds 32767, so it never spills into the flag.
\<close>

theorem reentrant_lock_exclusive:
  assumes "reach lock_init lock_step s"
  shows "lock_word s = 0 \<and> (\<forall>c. depth s c = 0) \<or>
    (\<exists>owner. lock_word s AND LOCK_FLAG \<noteq> 0 \<and> lock_word s AND OWNER_MASK = cpu_id owner \<and>
       unat (recursion (lock_word s)) = depth s owner \<and> 1 \<le> depth s owner \<and> depth s owner \<le> 0x7FFF \<and>
       (\<forall>c. c \<noteq> owner \<longrightarrow> depth s c = 0))"
proof -
  obtain a where a: "represents s a" using lock.reach_inv [OF assms] by blast
  then show ?thesis
  proof (cases a)
    case Free
    then show ?thesis using a by (simp add: represents_def)
  next
    case (Held d k)
    then have "k \<le> 0x7FFF" using a by (simp add: represents_def)
    from encode_fields [OF this, of d] Held a show ?thesis
      by (intro disjI2 exI [of _ d]) (auto simp: represents_def simp del: encode.simps)
  qed
qed

theorem reentrant_lock_exclusive_witness:
  "\<exists>s. reach lock_init lock_step s \<and> depth s 3 = 1 \<and> lock_word s AND LOCK_FLAG \<noteq> 0 \<and>
     lock_word s AND OWNER_MASK = cpu_id 3 \<and> unat (recursion (lock_word s)) = 1 \<and> {c. depth s c \<noteq> 0} = {3}"
proof -
  have "\<exists>s. lock_step\<^sup>*\<^sup>* quiet s \<and> represents s (Held 3 1) \<and> at s 3 = Idle"
    by (rule lock_uncontended_run [OF quiet_reach(2)]) (simp_all add: quiet_def)
  then obtain s where s: "lock_step\<^sup>*\<^sup>* quiet s" "represents s (Held 3 1)" by blast
  have r: "reach lock_init lock_step s" by (rule reach_rtranclp [OF s(1) quiet_reach(1)])
  have three: "depth s 3 = 1" using s(2) by (simp add: represents_def)
  then have "\<not> (\<forall>c. depth s c = 0)" by (metis zero_neq_one)
  then obtain owner where o: "lock_word s AND LOCK_FLAG \<noteq> 0" "lock_word s AND OWNER_MASK = cpu_id owner"
    "unat (recursion (lock_word s)) = depth s owner" "1 \<le> depth s owner" "\<forall>c. c \<noteq> owner \<longrightarrow> depth s c = 0"
    using reentrant_lock_exclusive [OF r] by blast
  have "owner = 3" using o(5) three by (metis zero_neq_one)
  with o three have "{c. depth s c \<noteq> 0} = {3}" by (metis (mono_tags, lifting) Collect_cong not_one_le_zero singleton_conv)
  then show ?thesis using r three o \<open>owner = 3\<close> by (intro exI [of _ s]) simp
qed

text \<open>
  (C6) Refinement: the lock word always represents an abstract re-entrant lock (free, or held by a core a
  number of times), and each atomic step of any core either leaves the abstract lock as it is or is one
  abstract acquire (of a free lock, or again by its owner below the limit) or release (by its owner
  only). In particular a core that does not own the lock cannot release it.
\<close>

theorem reentrant_lock_refines:
  assumes "reach lock_init lock_step s" and "lock_step s s'"
  shows "\<exists>a a'. lock_word s = encode a \<and> lock_word s' = encode a' \<and> valid_lock a \<and>
    depth s = held_by a \<and> depth s' = held_by a' \<and> abstract_step a a'"
proof -
  obtain a where a: "represents s a" using lock.reach_inv [OF assms(1)] by blast
  then obtain a' where "represents s' a'" "abstract_step a a'"
    using lock_step_simulates [OF assms(2)] by blast
  then show ?thesis using a by (auto simp: represents_def)
qed

theorem reentrant_lock_refines_witness:
  "\<exists>s' a a'. lock_step quiet s' \<and> lock_word s' = encode a' \<and> abstract_step a a'"
proof -
  have "lock_step quiet (goto 5 (Trying (lock_word quiet)) quiet)"
    by (rule trylock_call) (simp add: quiet_def)
  then show ?thesis using reentrant_lock_refines [OF quiet_reach(1)] by blast
qed

text \<open>
  Progress without contention: a core outside the lock functions that may acquire the abstract lock
  (it is free, or the core owns it and has not reached the recursion limit) can complete an
  acquisition by its own steps alone.
\<close>

theorem reentrant_lock_uncontended:
  assumes "reach lock_init lock_step s" and "at s c = Idle" and "lock_word s = encode a"
    and "valid_lock a" and "abstract_acquire c a = Some a'" and "depth s = held_by a"
  shows "\<exists>s'. lock_step\<^sup>*\<^sup>* s s' \<and> lock_word s' = encode a' \<and> depth s' c = depth s c + 1 \<and> at s' c = Idle"
proof -
  obtain b where "represents s b" using lock.reach_inv [OF assms(1)] by blast
  then have "represents s a" using assms(3,4,6) by (simp add: represents_def)
  then obtain s' where s': "lock_step\<^sup>*\<^sup>* s s'" "represents s' a'" "at s' c = Idle"
    using lock_uncontended_run assms(2,5) by blast
  have "held_by a' c = held_by a c + 1" using assms(5) by (cases a) (auto split: if_splits)
  then show ?thesis using s' assms(6) by (auto simp: represents_def)
qed

theorem reentrant_lock_uncontended_witness:
  "\<exists>s'. lock_step\<^sup>*\<^sup>* quiet s' \<and> lock_word s' = encode (Held 7 1) \<and> at s' 7 = Idle"
  using reentrant_lock_uncontended [OF quiet_reach(1), of 7 Free "Held 7 1"]
  by (auto simp: quiet_def fun_eq_iff)

end
