(* ===== verification/Virtual_Memory.thy ===== *)
theory Virtual_Memory
  imports Prelude
begin

text \<open>
  The page allocator and the paging structures of \<open>other/virtual_memory.c\<close>.

  The 128 KiB page bitmap is a function from byte indices, with the bound of the C array checked at
  every access. The page directory is a global array of 1024 entries; page tables are reached through
  addresses, in a memory of aligned 32-bit words. The address the linker gives \<open>first_page_table\<close> is the
  parameter \<open>fpt\<close>. Loops over pages run over \<open>nat\<close> indices below 2^20, so the 32-bit counters of the
  source do not wrap.
\<close>

section \<open>The bitmap\<close>

definition PAGE_PRESENT :: u32 where [const_defs]: "PAGE_PRESENT = 0x1"
definition PAGE_RW :: u32 where [const_defs]: "PAGE_RW = 0x2"
definition PAGE_SIZE :: u32 where [const_defs]: "PAGE_SIZE = 0x1000"
definition NUM_PAGES :: nat where "NUM_PAGES = 4 * 1024 * 1024 * 1024 div 0x1000"
definition BITMAP_SIZE :: nat where "BITMAP_SIZE = NUM_PAGES div 8"

type_synonym bitmap = "nat \<Rightarrow> u8"

definition page_index :: "u32 \<Rightarrow> u32" where
  "page_index addr = addr div PAGE_SIZE"

definition set_page_present :: "u32 \<Rightarrow> bitmap \<Rightarrow> bitmap exec" where
  "set_page_present idx bm = (let b = unat (idx div 8) in
     if b < BITMAP_SIZE then ok (bm(b := bm b OR push_bit (unat (idx mod 8)) 1)) else Inl OutOfBounds)"

definition clear_page_present :: "u32 \<Rightarrow> bitmap \<Rightarrow> bitmap exec" where
  "clear_page_present idx bm = (let b = unat (idx div 8) in
     if b < BITMAP_SIZE then ok (bm(b := bm b AND NOT (push_bit (unat (idx mod 8)) 1))) else Inl OutOfBounds)"

definition is_page_present :: "u32 \<Rightarrow> bitmap \<Rightarrow> bool exec" where
  "is_page_present idx bm = (let b = unat (idx div 8) in
     if b < BITMAP_SIZE then ok (bm b AND push_bit (unat (idx mod 8)) 1 \<noteq> 0) else Inl OutOfBounds)"

text \<open>\<open>for (j = 0; j < n; j++) set_page_present(start + j)\<close>, and the same for clearing.\<close>

fun set_range :: "u32 \<Rightarrow> nat \<Rightarrow> bitmap \<Rightarrow> bitmap exec" where
  "set_range start 0 bm = ok bm"
| "set_range start (Suc n) bm = bindE (set_page_present start bm) (set_range (start + 1) n)"

fun clear_range :: "u32 \<Rightarrow> nat \<Rightarrow> bitmap \<Rightarrow> bitmap exec" where
  "clear_range start 0 bm = ok bm"
| "clear_range start (Suc n) bm = bindE (clear_page_present start bm) (clear_range (start + 1) n)"

definition init_page_bitmap :: "bitmap \<Rightarrow> bitmap exec" where
  "init_page_bitmap bm = set_range 0 1024 (\<lambda>b. if b < BITMAP_SIZE then 0 else bm b)"

section \<open>Allocation\<close>

function alloc_page_loop :: "nat \<Rightarrow> bitmap \<Rightarrow> (u32 \<times> bitmap) exec" where
  "alloc_page_loop i bm =
     (if i < NUM_PAGES then
        bindE (is_page_present (of_nat i) bm) (\<lambda>present.
          if \<not> present then
            bindE (set_page_present (of_nat i) bm) (\<lambda>bm. ok (of_nat i * PAGE_SIZE, bm))
          else alloc_page_loop (i + 1) bm)
      else ok (0, bm))"
  by pat_completeness auto
termination
  by (relation "measure (\<lambda>(i, _). NUM_PAGES - i)") auto

declare alloc_page_loop.simps [simp del]

definition alloc_page :: "bitmap \<Rightarrow> (u32 \<times> bitmap) exec" where
  "alloc_page bm = alloc_page_loop 0 bm"

definition free_page :: "u32 \<Rightarrow> bitmap \<Rightarrow> bitmap exec" where
  "free_page phys_addr bm = clear_page_present (page_index phys_addr) bm"

function alloc_n_loop :: "nat \<Rightarrow> nat \<Rightarrow> nat \<Rightarrow> nat \<Rightarrow> bitmap \<Rightarrow> (u32 \<times> bitmap) exec" where
  "alloc_n_loop n i start count bm =
     (if i < NUM_PAGES then
        bindE (is_page_present (of_nat i) bm) (\<lambda>present.
          if \<not> present then
            (let start = (if count = 0 then i else start);
                 count = count + 1
             in if count = n
                then bindE (set_range (of_nat start) n bm) (\<lambda>bm. ok (of_nat start * PAGE_SIZE, bm))
                else alloc_n_loop n (i + 1) start count bm)
          else alloc_n_loop n (i + 1) start 0 bm)
      else ok (0, bm))"
  by pat_completeness auto
termination
  by (relation "measure (\<lambda>(_, i, _). NUM_PAGES - i)") auto

declare alloc_n_loop.simps [simp del]

definition alloc_n_pages :: "u32 \<Rightarrow> bitmap \<Rightarrow> (u32 \<times> bitmap) exec" where
  "alloc_n_pages n bm =
     (if n = 0 \<or> unat n > NUM_PAGES then ok (0, bm) else alloc_n_loop (unat n) 0 0 0 bm)"

definition free_n_pages :: "u32 \<Rightarrow> u32 \<Rightarrow> bitmap \<Rightarrow> bitmap exec" where
  "free_n_pages phys_addr n bm = clear_range (page_index phys_addr) (unat n) bm"

section \<open>Address translation\<close>

record vm =
  page_directory :: "nat \<Rightarrow> u32"
  words :: "u32 \<Rightarrow> u32"

text \<open>\<open>pt[i]\<close> for a page table at address \<open>pt\<close>.\<close>

definition entry :: "vm \<Rightarrow> u32 \<Rightarrow> nat \<Rightarrow> u32" where
  "entry s pt i = words s (pt + of_nat (4 * i))"

definition init_paging :: "u32 \<Rightarrow> vm \<Rightarrow> vm" where
  "init_paging fpt s =
     s\<lparr>words := fold (\<lambda>i w. w(fpt + of_nat (4 * i) := (of_nat i * PAGE_SIZE) OR PAGE_PRESENT OR PAGE_RW))
                 [0..<1024] (words s),
       page_directory := (page_directory s)(0 := fpt OR PAGE_PRESENT OR PAGE_RW)\<rparr>"

definition virt_to_phys :: "vm \<Rightarrow> u32 \<Rightarrow> u32" where
  "virt_to_phys s virt_addr =
     (let pd_index = unat (drop_bit 22 virt_addr AND 0x3FF);
          pt_index = unat (drop_bit 12 virt_addr AND 0x3FF);
          offset = virt_addr AND 0xFFF;
          pd_entry = page_directory s pd_index
      in if pd_entry AND PAGE_PRESENT = 0 then 0
         else let pt = pd_entry AND 0xFFFFF000;
                  pt_entry = entry s pt pt_index
              in if pt_entry AND PAGE_PRESENT = 0 then 0
                 else (pt_entry AND 0xFFFFF000) + offset)"

text \<open>The two nested scans: the first table index, and the first directory index, that map the page.\<close>

definition scan_table :: "vm \<Rightarrow> u32 \<Rightarrow> u32 \<Rightarrow> nat option" where
  "scan_table s pt phys_page =
     List.find (\<lambda>i. entry s pt i AND PAGE_PRESENT \<noteq> 0 \<and> entry s pt i AND 0xFFFFF000 = phys_page) [0..<1024]"

fun scan_directory :: "vm \<Rightarrow> u32 \<Rightarrow> nat list \<Rightarrow> (nat \<times> nat) option" where
  "scan_directory s phys_page [] = None"
| "scan_directory s phys_page (pd_index # ds) =
     (let pd_entry = page_directory s pd_index in
      if pd_entry AND PAGE_PRESENT = 0 then scan_directory s phys_page ds
      else case scan_table s (pd_entry AND 0xFFFFF000) phys_page of
             Some pt_index \<Rightarrow> Some (pd_index, pt_index)
           | None \<Rightarrow> scan_directory s phys_page ds)"

definition phys_to_virt :: "vm \<Rightarrow> u32 \<Rightarrow> u32" where
  "phys_to_virt s phys_addr =
     (let offset = phys_addr AND 0xFFF;
          phys_page = phys_addr AND 0xFFFFF000
      in case scan_directory s phys_page [0..<1024] of
           Some (pd_index, pt_index) \<Rightarrow>
             push_bit 22 (of_nat pd_index) OR push_bit 12 (of_nat pt_index) OR offset
         | None \<Rightarrow> 0)"

section \<open>The heap interface\<close>

record heap =
  hbm :: bitmap
  hvm :: vm

text \<open>The header is one 32-bit word, the number of pages, written at the virtual address found.\<close>

definition kmalloc :: "u32 \<Rightarrow> heap \<Rightarrow> (u32 \<times> heap) exec" where
  "kmalloc sz h =
     (if sz = 0 then ok (0, h)
      else let pages_needed = (sz + PAGE_SIZE - 1) div PAGE_SIZE in
        bindE (alloc_n_pages pages_needed (hbm h)) (\<lambda>(phys_addr, bm).
          if phys_addr = 0 then ok (0, h\<lparr>hbm := bm\<rparr>)
          else let virt_addr = phys_to_virt (hvm h) phys_addr
               in ok (virt_addr + 4,
                      \<lparr>hbm = bm, hvm = (hvm h)\<lparr>words := (words (hvm h))(virt_addr := pages_needed)\<rparr>\<rparr>)))"

definition kfree :: "u32 \<Rightarrow> heap \<Rightarrow> heap exec" where
  "kfree ptr h =
     (if ptr = 0 then ok h
      else let header = ptr - 4;
               phys_addr = virt_to_phys (hvm h) header
           in bindE (free_n_pages phys_addr (words (hvm h) header) (hbm h)) (\<lambda>bm. ok (h\<lparr>hbm := bm\<rparr>)))"

section \<open>The set of pages in use\<close>

definition used :: "bitmap \<Rightarrow> nat \<Rightarrow> bool" where
  "used bm i \<longleftrightarrow> bit (bm (i div 8)) (i mod 8)"

lemma page_numbers: "NUM_PAGES = 1048576" "BITMAP_SIZE = 131072"
  by (simp_all add: NUM_PAGES_def BITMAP_SIZE_def)

lemma page_word:
  assumes "i < NUM_PAGES"
  shows "unat (of_nat i div 8 :: u32) = i div 8" "unat (of_nat i mod 8 :: u32) = i mod 8"
    "i div 8 < BITMAP_SIZE"
  using assms by (simp_all add: page_numbers unat_div unat_mod unat_of_nat)

lemma same_page: "i div 8 = j div 8 \<Longrightarrow> i mod 8 = j mod (8 :: nat) \<longleftrightarrow> i = j"
  by (metis div_mult_mod_eq)

lemma set_page_used:
  assumes "i < NUM_PAGES"
  shows "\<exists>bm'. set_page_present (of_nat i) bm = ok bm' \<and> used bm' = (\<lambda>j. used bm j \<or> j = i)"
proof -
  let ?bm = "bm(i div 8 := bm (i div 8) OR push_bit (i mod 8) 1)"
  have "used ?bm j \<longleftrightarrow> used bm j \<or> j = i" for j
  proof (cases "j div 8 = i div 8")
    case True
    have "bit (push_bit (i mod 8) 1 :: u8) (j mod 8) \<longleftrightarrow> j mod 8 = i mod 8"
      by (auto simp: bit_simps)
    then show ?thesis using True same_page [OF True] by (simp add: used_def bit_or_iff del: push_bit_of_1)
  next
    case False
    then show ?thesis by (auto simp: used_def)
  qed
  then have "used ?bm = (\<lambda>j. used bm j \<or> j = i)" by (simp add: fun_eq_iff)
  then show ?thesis using page_word [OF assms] by (simp add: set_page_present_def Let_def)
qed

lemma clear_page_used:
  assumes "i < NUM_PAGES"
  shows "\<exists>bm'. clear_page_present (of_nat i) bm = ok bm' \<and> used bm' = (\<lambda>j. used bm j \<and> j \<noteq> i)"
proof -
  let ?bm = "bm(i div 8 := bm (i div 8) AND NOT (push_bit (i mod 8) 1))"
  have "used ?bm j \<longleftrightarrow> used bm j \<and> j \<noteq> i" for j
  proof (cases "j div 8 = i div 8")
    case True
    have "bit (NOT (push_bit (i mod 8) 1) :: u8) (j mod 8) \<longleftrightarrow> j mod 8 \<noteq> i mod 8"
      by (auto simp: bit_simps)
    then show ?thesis using True same_page [OF True]
      by (auto simp: used_def bit_and_iff simp del: push_bit_of_1)
  next
    case False
    then show ?thesis by (auto simp: used_def)
  qed
  then have "used ?bm = (\<lambda>j. used bm j \<and> j \<noteq> i)" by (simp add: fun_eq_iff)
  then show ?thesis using page_word [OF assms] by (simp add: clear_page_present_def Let_def)
qed

lemma is_page_used: "i < NUM_PAGES \<Longrightarrow> is_page_present (of_nat i) bm = ok (used bm i)"
  using page_word [of i]
  by (simp add: is_page_present_def Let_def used_def and_exp_eq_0_iff_not_bit)

lemma set_range_used:
  "start + n \<le> NUM_PAGES \<Longrightarrow>
     \<exists>bm'. set_range (of_nat start) n bm = ok bm' \<and> used bm' = (\<lambda>j. used bm j \<or> j \<in> {start..<start + n})"
proof (induction n arbitrary: start bm)
  case (Suc n)
  obtain bm1 where 1: "set_page_present (of_nat start) bm = ok bm1" "used bm1 = (\<lambda>j. used bm j \<or> j = start)"
    using set_page_used [of start bm] Suc.prems by auto
  obtain bm2 where 2: "set_range (of_nat (Suc start)) n bm1 = ok bm2"
    "used bm2 = (\<lambda>j. used bm1 j \<or> j \<in> {Suc start..<Suc start + n})"
    using Suc.IH [of "Suc start" bm1] Suc.prems by auto
  have "set_range (of_nat start) (Suc n) bm = ok bm2" using 1(1) 2(1) by (simp add: add.commute)
  moreover have "used bm2 = (\<lambda>j. used bm j \<or> j \<in> {start..<start + Suc n})"
    unfolding 2(2) 1(2) by (intro ext) auto
  ultimately show ?case by blast
qed simp

lemma clear_range_used:
  "start + n \<le> NUM_PAGES \<Longrightarrow>
     \<exists>bm'. clear_range (of_nat start) n bm = ok bm' \<and> used bm' = (\<lambda>j. used bm j \<and> j \<notin> {start..<start + n})"
proof (induction n arbitrary: start bm)
  case (Suc n)
  obtain bm1 where 1: "clear_page_present (of_nat start) bm = ok bm1" "used bm1 = (\<lambda>j. used bm j \<and> j \<noteq> start)"
    using clear_page_used [of start bm] Suc.prems by auto
  obtain bm2 where 2: "clear_range (of_nat (Suc start)) n bm1 = ok bm2"
    "used bm2 = (\<lambda>j. used bm1 j \<and> j \<notin> {Suc start..<Suc start + n})"
    using Suc.IH [of "Suc start" bm1] Suc.prems by auto
  have "clear_range (of_nat start) (Suc n) bm = ok bm2" using 1(1) 2(1) by (simp add: add.commute)
  moreover have "used bm2 = (\<lambda>j. used bm j \<and> j \<notin> {start..<start + Suc n})"
    unfolding 2(2) 1(2) by (intro ext) auto
  ultimately show ?case by blast
qed simp

section \<open>First fit\<close>

definition free_run :: "bitmap \<Rightarrow> nat \<Rightarrow> nat \<Rightarrow> bool" where
  "free_run bm n p \<longleftrightarrow> p + n \<le> NUM_PAGES \<and> (\<forall>j. p \<le> j \<and> j < p + n \<longrightarrow> \<not> used bm j)"

definition first_fit :: "bitmap \<Rightarrow> nat \<Rightarrow> u32 \<times> bitmap \<Rightarrow> bool" where
  "first_fit bm n r \<longleftrightarrow>
     (\<exists>p. free_run bm n p \<and> (\<forall>q<p. \<not> free_run bm n q) \<and> fst r = of_nat p * PAGE_SIZE \<and>
          used (snd r) = (\<lambda>j. used bm j \<or> j \<in> {p..<p + n})) \<or>
     (\<forall>p. \<not> free_run bm n p) \<and> r = (0, bm)"

lemma alloc_n_loop_first_fit:
  assumes "0 < n"
  shows "count < n \<Longrightarrow> count \<le> i \<Longrightarrow> (0 < count \<longrightarrow> start = i - count) \<Longrightarrow>
    (\<forall>j. i - count \<le> j \<and> j < i \<longrightarrow> \<not> used bm j) \<Longrightarrow> (\<forall>p. free_run bm n p \<longrightarrow> i - count \<le> p) \<Longrightarrow>
    i \<le> NUM_PAGES \<Longrightarrow> \<exists>r. alloc_n_loop n i start count bm = ok r \<and> first_fit bm n r"
proof (induction "NUM_PAGES - i" arbitrary: i start count rule: less_induct)
  case less
  show ?case
  proof (cases "i < NUM_PAGES")
    case False
    have "\<not> free_run bm n p" for p
    proof
      assume run: "free_run bm n p"
      then have "i - count \<le> p" using less.prems(5) by blast
      moreover have "p + n \<le> NUM_PAGES" using run by (simp add: free_run_def)
      ultimately show False using False less.prems(1,2) by linarith
    qed
    then show ?thesis using False by (subst alloc_n_loop.simps) (simp add: first_fit_def)
  next
    case True
    note here = is_page_used [OF True, of bm]
    show ?thesis
    proof (cases "used bm i")
      case used: True
      have "i + 1 - 0 \<le> p" if "free_run bm n p" for p
      proof (rule ccontr)
        assume "\<not> i + 1 - 0 \<le> p"
        moreover have "i - count \<le> p" using that less.prems(5) by blast
        ultimately have "p \<le> i" "i < p + n" using less.prems(1,2) by linarith+
        then show False using that used by (simp add: free_run_def)
      qed
      then have "\<exists>r. alloc_n_loop n (i + 1) start 0 bm = ok r \<and> first_fit bm n r"
        using less.prems True assms by (intro less.hyps) simp_all
      then show ?thesis using True used by (subst alloc_n_loop.simps) (simp add: here)
    next
      case fresh: False
      let ?start = "if count = 0 then i else start"
      have start: "?start = i - count" using less.prems(3) by simp
      have run: "\<not> used bm j" if "i - count \<le> j" "j < i + 1" for j
        using that fresh less.prems(4) by (cases "j = i") auto
      show ?thesis
      proof (cases "count + 1 = n")
        case full: True
        have span: "i - count + n = i + 1" using full less.prems(2) by simp
        have at: "free_run bm n (i - count)"
          unfolding free_run_def span using run True by simp
        obtain bm' where "set_range (of_nat (i - count)) n bm = ok bm'"
          "used bm' = (\<lambda>j. used bm j \<or> j \<in> {i - count..<i - count + n})"
          using set_range_used [of "i - count" n bm] at by (auto simp: free_run_def)
        moreover have "\<forall>q<i - count. \<not> free_run bm n q" using less.prems(5) by (meson not_le)
        ultimately have "first_fit bm n (of_nat (i - count) * PAGE_SIZE, bm')"
          unfolding first_fit_def using at by (intro disjI1 exI [of _ "i - count"]) simp
        moreover have "alloc_n_loop n i start count bm = ok (of_nat (i - count) * PAGE_SIZE, bm')"
          using True fresh start full \<open>set_range (of_nat (i - count)) n bm = ok bm'\<close>
          by (subst alloc_n_loop.simps) (simp add: here Let_def del: of_nat_diff)
        ultimately show ?thesis by blast
      next
        case False
        have "alloc_n_loop n i start count bm = alloc_n_loop n (i + 1) ?start (count + 1) bm"
          using True fresh False by (subst alloc_n_loop.simps) (simp add: here Let_def)
        moreover have "\<exists>r. alloc_n_loop n (i + 1) ?start (count + 1) bm = ok r \<and> first_fit bm n r"
          using less.prems True False run start by (intro less.hyps) simp_all
        ultimately show ?thesis by simp
      qed
    qed
  qed
qed

lemma alloc_n_pages_fits:
  assumes "n \<noteq> 0" and "unat n \<le> NUM_PAGES"
  shows "\<exists>r. alloc_n_pages n bm = ok r \<and> first_fit bm (unat n) r"
  using assms alloc_n_loop_first_fit [of "unat n" 0 0 0 bm]
  by (simp add: alloc_n_pages_def unat_gt_0)

lemma alloc_n_pages_total:
  "\<exists>r. alloc_n_pages n bm = ok r \<and>
     (if n = 0 \<or> unat n > NUM_PAGES then r = (0, bm) else first_fit bm (unat n) r)"
  using alloc_n_pages_fits [of n bm] by (auto simp: alloc_n_pages_def)

section \<open>The allocator as an interface\<close>

locale page_allocator =
  fixes in_use :: "'s \<Rightarrow> nat \<Rightarrow> bool"
    and alloc :: "nat \<Rightarrow> 's \<Rightarrow> (nat \<times> 's) option"
    and free :: "nat \<Rightarrow> nat \<Rightarrow> 's \<Rightarrow> 's option"
    and limit :: nat
  assumes alloc_fresh: "alloc n s = Some (p, s') \<Longrightarrow> p + n \<le> limit \<and> (\<forall>j. p \<le> j \<and> j < p + n \<longrightarrow> \<not> in_use s j)"
    and alloc_used: "alloc n s = Some (p, s') \<Longrightarrow> in_use s' = (\<lambda>j. in_use s j \<or> j \<in> {p..<p + n})"
    and free_used: "p + n \<le> limit \<Longrightarrow>
      \<exists>s'. free p n s = Some s' \<and> in_use s' = (\<lambda>j. in_use s j \<and> j \<notin> {p..<p + n})"
begin

lemma alloc_disjoint:
  assumes "alloc n s = Some (p, s1)" and "alloc k s1 = Some (q, s2)"
  shows "{p..<p + n} \<inter> {q..<q + k} = {}"
proof (rule equals0I)
  fix j
  assume "j \<in> {p..<p + n} \<inter> {q..<q + k}"
  then show False using alloc_fresh [OF assms(2)] by (auto simp: alloc_used [OF assms(1)])
qed

lemma free_restores:
  assumes "alloc n s = Some (p, s')"
  shows "\<exists>s''. free p n s' = Some s'' \<and> in_use s'' = in_use s"
proof -
  have "p + n \<le> limit" using alloc_fresh [OF assms] by simp
  then obtain s'' where "free p n s' = Some s''" "in_use s'' = (\<lambda>j. in_use s' j \<and> j \<notin> {p..<p + n})"
    using free_used by blast
  moreover from this have "in_use s'' = in_use s"
    using alloc_fresh [OF assms] by (auto simp: alloc_used [OF assms] fun_eq_iff)
  ultimately show ?thesis by blast
qed

end

definition alloc_run :: "nat \<Rightarrow> bitmap \<Rightarrow> (nat \<times> bitmap) option" where
  "alloc_run n bm = (if 0 < n \<and> n \<le> NUM_PAGES then
     (case alloc_n_pages (of_nat n) bm of
        Inr (a, bm') \<Rightarrow> if a = 0 then None else Some (unat (page_index a), bm')
      | Inl _ \<Rightarrow> None)
     else None)"

definition free_pages_at :: "nat \<Rightarrow> nat \<Rightarrow> bitmap \<Rightarrow> bitmap option" where
  "free_pages_at p n bm = (case free_n_pages (of_nat p * PAGE_SIZE) (of_nat n) bm of
     Inr bm' \<Rightarrow> Some bm' | Inl _ \<Rightarrow> None)"

lemma page_index_of_page:
  assumes "p < NUM_PAGES"
  shows "page_index (of_nat p * PAGE_SIZE) = of_nat p" and "unat (of_nat p :: u32) = p"
proof -
  show u: "unat (of_nat p :: u32) = p" using assms by (simp add: unat_of_nat page_numbers)
  have "unat (of_nat p * PAGE_SIZE) = p * 4096"
    using assms by (simp add: unat_word_ariths u PAGE_SIZE_def page_numbers)
  then show "page_index (of_nat p * PAGE_SIZE) = of_nat p"
    by (simp add: page_index_def word_unat_eq_iff unat_div u PAGE_SIZE_def)
qed

lemma alloc_run_first_fit:
  assumes "alloc_run n bm = Some (p, bm')"
  shows "free_run bm n p" and "used bm' = (\<lambda>j. used bm j \<or> j \<in> {p..<p + n})"
proof -
  have n: "0 < n" "n \<le> NUM_PAGES" using assms by (auto simp: alloc_run_def split: if_splits)
  then have u: "unat (of_nat n :: u32) = n" by (simp add: unat_of_nat page_numbers)
  then have "(of_nat n :: u32) \<noteq> 0" using n(1) by (metis neq0_conv unat_0)
  then obtain r where r: "alloc_n_pages (of_nat n) bm = ok r" "first_fit bm n r"
    using alloc_n_pages_fits [of "of_nat n" bm] n u by auto
  then have "fst r \<noteq> 0" and p: "p = unat (page_index (fst r))" and bm': "bm' = snd r"
    using assms n by (auto simp: alloc_run_def split: if_splits prod.splits)
  then obtain q where q: "free_run bm n q" "fst r = of_nat q * PAGE_SIZE"
    "used bm' = (\<lambda>j. used bm j \<or> j \<in> {q..<q + n})"
    using r(2) by (auto simp: first_fit_def)
  have "q < NUM_PAGES" using q(1) n(1) by (simp add: free_run_def)
  then have "p = q" using p q(2) by (simp add: page_index_of_page)
  then show "free_run bm n p" "used bm' = (\<lambda>j. used bm j \<or> j \<in> {p..<p + n})" using q by simp_all
qed

lemma free_n_used:
  assumes "p + n \<le> NUM_PAGES"
  shows "\<exists>bm'. free_n_pages (of_nat p * PAGE_SIZE) (of_nat n) bm = ok bm' \<and>
    used bm' = (\<lambda>j. used bm j \<and> j \<notin> {p..<p + n})"
proof (cases "n = 0")
  case True
  then show ?thesis by (simp add: free_n_pages_def)
next
  case False
  then have "p < NUM_PAGES" using assms by simp
  moreover have "unat (of_nat n :: u32) = n" using assms by (simp add: unat_of_nat page_numbers)
  ultimately show ?thesis
    using clear_range_used [OF assms, of bm] by (simp add: free_n_pages_def page_index_of_page)
qed

interpretation pages: page_allocator used alloc_run free_pages_at NUM_PAGES
proof
  fix n bm p bm'
  assume a: "alloc_run n bm = Some (p, bm')"
  show "p + n \<le> NUM_PAGES \<and> (\<forall>j. p \<le> j \<and> j < p + n \<longrightarrow> \<not> used bm j)"
    using alloc_run_first_fit(1) [OF a] by (simp add: free_run_def)
  show "used bm' = (\<lambda>j. used bm j \<or> j \<in> {p..<p + n})"
    by (rule alloc_run_first_fit(2) [OF a])
next
  fix p n bm
  assume "p + n \<le> NUM_PAGES"
  then show "\<exists>bm'. free_pages_at p n bm = Some bm' \<and> used bm' = (\<lambda>j. used bm j \<and> j \<notin> {p..<p + n})"
    using free_n_used [of p n bm] by (auto simp: free_pages_at_def)
qed

lemma alloc_run_Some:
  "0 < n \<Longrightarrow> n \<le> NUM_PAGES \<Longrightarrow> alloc_n_pages (of_nat n) bm = ok (a, bm') \<Longrightarrow> a \<noteq> 0 \<Longrightarrow>
     alloc_run n bm = Some (unat (page_index a), bm')"
  by (simp add: alloc_run_def)

lemma free_after_alloc:
  assumes "free_run bm n p" and "used bm1 = (\<lambda>j. used bm j \<or> j \<in> {p..<p + n})"
  shows "\<exists>bm2. free_n_pages (of_nat p * PAGE_SIZE) (of_nat n) bm1 = ok bm2 \<and> used bm2 = used bm"
  using free_n_used [of p n bm1] assms by (auto simp: free_run_def fun_eq_iff)

section \<open>Translation\<close>

lemma small_bits: "i < 1024 \<Longrightarrow> bit (i :: nat) n \<Longrightarrow> n < 10"
proof (rule ccontr)
  assume i: "i < 1024" and b: "bit i n" and "\<not> n < 10"
  then have "take_bit 10 i = i" by (simp add: take_bit_nat_eq_self)
  then show False using b \<open>\<not> n < 10\<close> by (metis bit_take_bit_iff)
qed

lemma low_mask: "(0xFFF :: u32) = mask 12" "(0x3FF :: u32) = mask 10" "(0xFFFFF000 :: u32) = NOT (mask 12)"
  by (simp_all add: mask_eq_exp_minus_1 not_eq_complement)

lemma page_offset_split: "(a AND 0xFFFFF000) + (a AND 0xFFF) = (a :: u32)"
proof -
  have "(a AND 0xFFFFF000) AND (a AND 0xFFF) = 0" "(a AND 0xFFFFF000) OR (a AND 0xFFF) = a"
    unfolding low_mask by (rule bit_word_eqI; auto simp: bit_simps)+
  then show ?thesis by (metis disjunctive_add_eq_or)
qed

text \<open>The virtual address assembled by \<open>phys_to_virt\<close> decomposes into the indices it was built from.\<close>

lemma assembled_address:
  fixes a :: u32
  assumes "d < 1024" and "t < 1024"
  defines "v \<equiv> push_bit 22 (of_nat d) OR push_bit 12 (of_nat t) OR (a AND 0xFFF)"
  shows "unat (drop_bit 22 v AND 0x3FF) = d" "unat (drop_bit 12 v AND 0x3FF) = t" "v AND 0xFFF = a AND 0xFFF"
proof -
  have "drop_bit 22 v AND 0x3FF = of_nat d"
    unfolding v_def low_mask
    by (rule bit_word_eqI) (auto simp: bit_simps dest: small_bits [OF assms(1)] small_bits [OF assms(2)])
  moreover have "drop_bit 12 v AND 0x3FF = of_nat t"
    unfolding v_def low_mask
    by (rule bit_word_eqI) (auto simp: bit_simps dest: small_bits [OF assms(1)] small_bits [OF assms(2)])
  ultimately show "unat (drop_bit 22 v AND 0x3FF) = d" "unat (drop_bit 12 v AND 0x3FF) = t"
    using assms(1,2) by (simp_all add: unat_of_nat)
  show "v AND 0xFFF = a AND 0xFFF"
    unfolding v_def low_mask by (rule bit_word_eqI) (auto simp: bit_simps)
qed

lemma scan_table_Some:
  "scan_table s pt page = Some t \<Longrightarrow>
     t < 1024 \<and> entry s pt t AND PAGE_PRESENT \<noteq> 0 \<and> entry s pt t AND 0xFFFFF000 = page"
  unfolding scan_table_def find_Some_iff by auto

lemma scan_directory_Some:
  "scan_directory s page ds = Some (d, t) \<Longrightarrow>
     d \<in> set ds \<and> page_directory s d AND PAGE_PRESENT \<noteq> 0 \<and>
     scan_table s (page_directory s d AND 0xFFFFF000) page = Some t"
  by (induction ds) (auto simp: Let_def split: if_splits option.splits)

lemma phys_to_virt_found:
  assumes "scan_directory s (a AND 0xFFFFF000) [0..<1024] = Some (d, t)"
  shows "virt_to_phys s (phys_to_virt s a) = a"
proof -
  note found = scan_directory_Some [OF assms]
  have d: "d < 1024" using found by simp
  have t: "t < 1024" and e: "entry s (page_directory s d AND 0xFFFFF000) t AND PAGE_PRESENT \<noteq> 0"
    "entry s (page_directory s d AND 0xFFFFF000) t AND 0xFFFFF000 = a AND 0xFFFFF000"
    using scan_table_Some found by blast+
  have v: "phys_to_virt s a = push_bit 22 (of_nat d) OR push_bit 12 (of_nat t) OR (a AND 0xFFF)"
    using assms by (simp add: phys_to_virt_def Let_def)
  show ?thesis
    unfolding v virt_to_phys_def Let_def assembled_address [OF d t, of a]
    using found e by (simp add: page_offset_split)
qed

lemma fold_updates:
  "inj_on f {..<n} \<Longrightarrow> k < n \<Longrightarrow> fold (\<lambda>i w. w(f i := g i)) [0..<n] w (f k) = g k"
proof (induction n)
  case (Suc n)
  show ?case
  proof (cases "k = n")
    case False
    then have "k < n" "f k \<noteq> f n" using Suc.prems by (auto simp: inj_on_def)
    moreover have "inj_on f {..<n}" using Suc.prems(1) by (rule inj_on_subset) auto
    ultimately show ?thesis using Suc.IH by simp
  qed simp
qed simp

lemma identity_entry:
  assumes "t < 1024"
  shows "entry (init_paging fpt s) fpt t = push_bit 12 (of_nat t) OR PAGE_PRESENT OR PAGE_RW"
proof -
  let ?f = "\<lambda>i. fpt + of_nat (4 * i) :: u32"
  have "inj_on ?f {..<1024}"
  proof (rule inj_onI)
    fix i j :: nat
    assume ij: "i \<in> {..<1024}" "j \<in> {..<1024}" "?f i = ?f j"
    then have "unat (of_nat (4 * i) :: u32) = unat (of_nat (4 * j) :: u32)" by simp
    then show "i = j" using ij(1,2) by (simp only: unat_of_nat) simp
  qed
  from fold_updates [OF this assms] show ?thesis
    by (simp add: entry_def init_paging_def push_bit_eq_mult PAGE_SIZE_def del: of_nat_mult)
qed

lemma flag_bits:
  "(x AND PAGE_PRESENT = 0) = (\<not> bit x 0)" "(PAGE_PRESENT OR PAGE_RW) = mask 2"
  using and_exp_eq_0_iff_not_bit [of x 0] by (simp_all add: const_defs mask_eq_exp_minus_1)

lemma identity_fields:
  "(push_bit 12 x OR PAGE_PRESENT OR PAGE_RW) AND 0xFFFFF000 = push_bit 12 x"
  "(push_bit 12 x OR PAGE_PRESENT OR PAGE_RW) AND PAGE_PRESENT \<noteq> 0"
  unfolding flag_bits or.assoc low_mask
  by (rule bit_word_eqI, auto simp: bit_simps)+

lemma identity_directory:
  assumes "fpt AND 0xFFF = 0"
  shows "page_directory (init_paging fpt s) 0 AND 0xFFFFF000 = fpt"
    and "page_directory (init_paging fpt s) 0 AND PAGE_PRESENT \<noteq> 0"
proof -
  have "fpt = push_bit 12 (drop_bit 12 fpt)"
  proof (rule bit_word_eqI)
    fix n
    have "\<not> bit fpt n" if "n < 12"
    proof -
      have "bit (fpt AND 0xFFF) n = bit fpt n" using that unfolding low_mask by (simp add: bit_simps)
      then show ?thesis using assms by simp
    qed
    then show "bit fpt n = bit (push_bit 12 (drop_bit 12 fpt)) n" if "n < LENGTH(32)"
      using that by (cases "n < 12") (auto simp: bit_simps)
  qed
  then show "page_directory (init_paging fpt s) 0 AND 0xFFFFF000 = fpt"
    "page_directory (init_paging fpt s) 0 AND PAGE_PRESENT \<noteq> 0"
    using identity_fields [of "drop_bit 12 fpt"] by (simp_all add: init_paging_def or.assoc)
qed

lemma identity_translation:
  assumes "fpt AND 0xFFF = 0" and "a < 0x400000"
  shows "virt_to_phys (init_paging fpt s) a = a"
proof -
  have small: "\<not> bit a n" if "22 \<le> n" for n
  proof -
    have "unat a < 2 ^ 22" using assms(2) by (simp add: word_less_nat_alt)
    then have "take_bit 22 (unat a) = unat a" by (rule take_bit_nat_eq_self)
    then have "take_bit 22 a = a" by (metis unsigned_take_bit_eq word_unat_eq_iff)
    then show ?thesis using that by (metis bit_take_bit_iff not_le)
  qed
  have low: "bit a n \<Longrightarrow> n - 12 < 10" for n using small [of n] by (cases "22 \<le> n") auto
  have pd: "drop_bit 22 a AND 0x3FF = 0"
    unfolding low_mask by (rule bit_word_eqI) (simp add: bit_simps small)
  let ?t = "unat (drop_bit 12 a AND 0x3FF)"
  have t: "?t < 1024"
    unfolding low_mask take_bit_eq_mask [symmetric]
    by (simp only: unsigned_take_bit_eq) (simp add: take_bit_eq_mod)
  have page: "push_bit 12 (drop_bit 12 a AND 0x3FF) = a AND 0xFFFFF000"
    unfolding low_mask by (rule bit_word_eqI) (use low in \<open>auto simp: bit_simps\<close>)
  have e: "entry (init_paging fpt s) fpt ?t =
      push_bit 12 (drop_bit 12 a AND 0x3FF) OR PAGE_PRESENT OR PAGE_RW"
    using identity_entry [OF t] by (simp only: of_nat_unat ucast_id)
  show ?thesis
    unfolding virt_to_phys_def Let_def pd unat_0 identity_directory(1) [OF assms(1)] e identity_fields(1)
    by (simp only: identity_directory(2) [OF assms(1)] identity_fields(2) if_False)
       (simp only: page page_offset_split)
qed

text \<open>After \<open>init_paging\<close> alone no page from 4 MiB on is mapped.\<close>

lemma unmapped_above:
  assumes "fpt AND 0xFFF = 0" and "\<And>d. d \<noteq> 0 \<Longrightarrow> page_directory s d AND PAGE_PRESENT = 0"
    and "1024 \<le> p" and "p < NUM_PAGES"
  shows "phys_to_virt (init_paging fpt s) (of_nat p * PAGE_SIZE) = 0"
proof -
  let ?s = "init_paging fpt s"
  have page: "of_nat p * PAGE_SIZE AND 0xFFFFF000 = push_bit 12 (of_nat p)"
  proof -
    have "of_nat p * PAGE_SIZE = push_bit 12 (of_nat p)" by (simp add: PAGE_SIZE_def push_bit_eq_mult)
    moreover have "push_bit 12 (of_nat p :: u32) AND 0xFFFFF000 = push_bit 12 (of_nat p)"
      unfolding low_mask by (rule bit_word_eqI) (auto simp: bit_simps)
    ultimately show ?thesis by simp
  qed
  have ne: "push_bit 12 (of_nat t) \<noteq> (push_bit 12 (of_nat p) :: u32)" if "t < 1024" for t
  proof
    assume eq: "push_bit 12 (of_nat t) = (push_bit 12 (of_nat p) :: u32)"
    have "unat (push_bit 12 (of_nat q) :: u32) = q * 4096" if "q < NUM_PAGES" for q
      using that by (simp add: push_bit_eq_mult unat_word_ariths unat_of_nat page_numbers)
    from this [of t] this [of p] have "t * 4096 = p * 4096"
      using eq assms(3,4) that by simp
    then show False using that assms(3) by simp
  qed
  have "scan_table ?s fpt (push_bit 12 (of_nat p)) = None"
    unfolding scan_table_def find_None_iff
    by (auto simp: identity_entry identity_fields ne simp del: push_bit_of_nat)
  moreover have "scan_directory ?s page' ds = None" if "0 \<notin> set ds" for ds page'
    using that assms(2) by (induction ds) (auto simp: init_paging_def Let_def)
  ultimately have "scan_directory ?s (push_bit 12 (of_nat p)) (0 # [Suc 0..<1024]) = None"
    using identity_directory [OF assms(1), of s]
    by (simp only: scan_directory.simps Let_def if_False option.case) simp
  moreover have "[0..<1024] = 0 # [Suc 0..<1024]" by (rule upt_conv_Cons) simp
  ultimately show ?thesis unfolding phys_to_virt_def Let_def page by simp
qed

section \<open>Correctness of the allocator and of translation\<close>

text \<open>
  (C12) \<open>alloc_n_pages\<close> is first fit: it never leaves the bitmap's bounds; for a page count in range it
  returns the address of the lowest run of that many free pages and marks exactly those pages used,
  or, when no such run exists, returns 0 and changes nothing; for any other count it returns 0.
\<close>

theorem alloc_n_pages_first_fit:
  "\<exists>r. alloc_n_pages n bm = ok r \<and>
     (if n = 0 \<or> unat n > NUM_PAGES then r = (0, bm) else first_fit bm (unat n) r)"
  by (rule alloc_n_pages_total)

text \<open>
  (C21) Freeing undoes an allocation, and allocations do not overlap. For a page count in range \<open>alloc_n_pages\<close> returns. If
  there is a run of so many free pages, then \<open>free_n_pages\<close> with the address returned and the same count gives back a
  bitmap with exactly the pages in use that were in use before; and until then no further allocation, of any size, gets a
  page of that run. If memory is exhausted, the address is 0 and the bitmap is as before.
\<close>

theorem alloc_free_pages:
  assumes "0 < n" and "n \<le> NUM_PAGES"
  shows "\<exists>a bm1. alloc_n_pages (of_nat n) bm = ok (a, bm1) \<and>
    (if \<exists>p. free_run bm n p
     then (\<exists>bm2. free_n_pages a (of_nat n) bm1 = ok bm2 \<and> used bm2 = used bm) \<and>
       (\<forall>k b bm3. 0 < k \<and> k \<le> NUM_PAGES \<and> alloc_n_pages (of_nat k) bm1 = ok (b, bm3) \<and> b \<noteq> 0 \<longrightarrow>
          {unat (page_index a)..<unat (page_index a) + n} \<inter> {unat (page_index b)..<unat (page_index b) + k} = {})
     else a = 0 \<and> bm1 = bm)"
proof -
  have u: "unat (of_nat n :: u32) = n" using assms by (simp add: unat_of_nat page_numbers)
  then have "(of_nat n :: u32) \<noteq> 0" using assms(1) by (metis neq0_conv unat_0)
  then obtain a bm1 where r: "alloc_n_pages (of_nat n) bm = ok (a, bm1)" "first_fit bm n (a, bm1)"
    using alloc_n_pages_fits [of "of_nat n" bm] assms u by auto
  show ?thesis
  proof (cases "\<exists>p. free_run bm n p")
    case True
    then obtain p where p: "free_run bm n p" "a = of_nat p * PAGE_SIZE" "used bm1 = (\<lambda>j. used bm j \<or> j \<in> {p..<p + n})"
      using r(2) by (auto simp: first_fit_def)
    then have "p < NUM_PAGES" using assms(1) by (simp add: free_run_def)
    then have a: "unat (page_index a) = p" using p(2) by (simp add: page_index_of_page)
    have "{p..<p + n} \<inter> {unat (page_index b)..<unat (page_index b) + k} = {}"
      if "0 < k" "k \<le> NUM_PAGES" "alloc_n_pages (of_nat k) bm1 = ok (b, bm3)" "b \<noteq> 0" for k b bm3
    proof (rule equals0I)
      fix j
      assume "j \<in> {p..<p + n} \<inter> {unat (page_index b)..<unat (page_index b) + k}"
      moreover from this have "used bm1 j" using p(3) by simp
      ultimately show False using pages.alloc_fresh [OF alloc_run_Some [OF that]] by auto
    qed
    then show ?thesis using True r(1) a free_after_alloc [OF p(1,3)] p(2) by auto
  next
    case False
    then show ?thesis using r by (auto simp: first_fit_def)
  qed
qed

lemma first_two_pages:
  "alloc_n_pages (of_nat 1) ((\<lambda>_. 0)(0 := 1)) = ok (0x1000, (\<lambda>_. 0)(0 := 3))"
  "alloc_n_pages (of_nat 1) ((\<lambda>_. 0)(0 := 3)) = ok (0x2000, (\<lambda>_. 0)(0 := 7))"
  by (simp_all add: alloc_n_pages_def page_numbers alloc_n_loop.simps is_page_present_def
      set_page_present_def Let_def PAGE_SIZE_def)

theorem alloc_free_pages_witness:
  "\<exists>bm2. free_n_pages 0x1000 1 ((\<lambda>_. 0)(0 := 3)) = ok bm2 \<and> used bm2 = used ((\<lambda>_. 0)(0 := 1))"
proof -
  have "free_run ((\<lambda>_. 0)(0 := 1)) 1 1" by (simp add: free_run_def used_def page_numbers less_Suc_eq_le le_Suc_eq bit_1_iff)
  then have "\<exists>p. free_run ((\<lambda>_. 0)(0 := 1)) 1 p" ..
  then show ?thesis
    using alloc_free_pages [of 1 "(\<lambda>_. 0)(0 := 1)"] first_two_pages(1) by (auto simp: page_numbers)
qed

text \<open>
  The two translations agree: whenever \<open>phys_to_virt\<close> finds a virtual address for a physical one,
  \<open>virt_to_phys\<close> maps it back, whatever the page directory and tables hold.
\<close>

theorem phys_to_virt_inverse:
  assumes "phys_to_virt s a \<noteq> 0"
  shows "virt_to_phys s (phys_to_virt s a) = a"
  using assms phys_to_virt_found [of s a]
  by (auto simp: phys_to_virt_def Let_def split: option.splits prod.splits)

theorem phys_to_virt_inverse_witness:
  "virt_to_phys \<lparr>page_directory = (\<lambda>_. 0)(0 := 0x1001), words = (\<lambda>_. 0)(0x1004 := 0x5001)\<rparr> 0x1123 = 0x5123"
proof -
  let ?s = "\<lparr>page_directory = (\<lambda>_. 0)(0 := 0x1001), words = (\<lambda>_. 0)(0x1004 := 0x5001)\<rparr> :: vm"
  have upt: "[0..<1024] = 0 # Suc 0 # [Suc (Suc 0)..<1024]"
    using upt_conv_Cons [of 0 1024] upt_conv_Cons [of "Suc 0" 1024] by simp
  have "phys_to_virt ?s 0x5123 = 0x1123"
    unfolding phys_to_virt_def scan_table_def upt
    by (simp add: scan_table_def upt entry_def const_defs Let_def)
  then show ?thesis using phys_to_virt_inverse [of ?s "0x5123"] by simp
qed

text \<open>
  After \<open>init_paging\<close> (with a page-aligned first table), the first 4 MiB are identity mapped.
\<close>

theorem init_paging_identity:
  assumes "fpt AND 0xFFF = 0" and "a < 0x400000"
  shows "virt_to_phys (init_paging fpt s) a = a"
  using assms by (rule identity_translation)

theorem init_paging_identity_witness:
  "virt_to_phys (init_paging 0x101000 \<lparr>page_directory = \<lambda>_. 0, words = \<lambda>_. 0\<rparr>) 0x3FFFFC = 0x3FFFFC"
  by (rule init_paging_identity) simp_all

text \<open>
  With the kernel's own start-up state (the first 1024 pages in use, only the first 4 MiB mapped)
  every successful \<open>kmalloc\<close> returns the address 4: the pages it gets lie above the mapped range, so
  \<open>phys_to_virt\<close> yields NULL and the header is written at address 0.
\<close>

theorem kmalloc_after_init:
  assumes "fpt AND 0xFFF = 0" and "\<forall>d. d \<noteq> 0 \<longrightarrow> page_directory s d AND PAGE_PRESENT = 0"
    and "\<forall>j<1024. used bm j"
    and "kmalloc sz \<lparr>hbm = bm, hvm = init_paging fpt s\<rparr> = ok (ptr, h')"
  shows "ptr = 0 \<or> ptr = 4"
proof (cases "sz = 0 \<or> ptr = 0")
  case True
  then show ?thesis using assms(4) by (auto simp: kmalloc_def)
next
  case False
  let ?n = "(sz + PAGE_SIZE - 1) div PAGE_SIZE"
  obtain r where r: "alloc_n_pages ?n bm = ok r"
    "if ?n = 0 \<or> unat ?n > NUM_PAGES then r = (0, bm) else first_fit bm (unat ?n) r"
    using alloc_n_pages_total [of ?n bm] by blast
  have ptr: "fst r \<noteq> 0" "ptr = phys_to_virt (init_paging fpt s) (fst r) + 4"
    using assms(4) False r(1) by (auto simp: kmalloc_def Let_def split: prod.splits if_splits)
  then obtain p where p: "free_run bm (unat ?n) p" "fst r = of_nat p * PAGE_SIZE" "?n \<noteq> 0"
    using r(2) by (auto simp: first_fit_def split: if_splits)
  then have "p < NUM_PAGES" "\<not> used bm p" by (auto simp: free_run_def unat_gt_0 [symmetric])
  then have "1024 \<le> p" using assms(3) by (meson not_le)
  then have "phys_to_virt (init_paging fpt s) (fst r) = 0"
    unfolding p(2) using assms(1,2) \<open>p < NUM_PAGES\<close> by (intro unmapped_above) auto
  then show ?thesis using ptr by simp
qed

lemma kmalloc_total: "\<exists>ptr h'. kmalloc sz h = ok (ptr, h')"
  using alloc_n_pages_total [of "(sz + PAGE_SIZE - 1) div PAGE_SIZE" "hbm h"]
  by (auto simp: kmalloc_def Let_def split: prod.split)

theorem kmalloc_after_init_witness:
  "\<exists>ptr h'. kmalloc 100 \<lparr>hbm = (\<lambda>b. if b < 128 then - 1 else 0),
       hvm = init_paging 0x101000 \<lparr>page_directory = \<lambda>_. 0, words = \<lambda>_. 0\<rparr>\<rparr> = ok (ptr, h') \<and>
     (ptr = 0 \<or> ptr = 4)"
proof -
  let ?bm = "(\<lambda>b. if b < 128 then - 1 else 0) :: bitmap"
  let ?s = "\<lparr>page_directory = \<lambda>_. 0, words = \<lambda>_. 0\<rparr> :: vm"
  obtain ptr h' where k: "kmalloc 100 \<lparr>hbm = ?bm, hvm = init_paging 0x101000 ?s\<rparr> = ok (ptr, h')"
    using kmalloc_total by blast
  have "used ?bm j" if "j < 1024" for j
    using that by (simp add: used_def)
  then have "ptr = 0 \<or> ptr = 4" using k by (intro kmalloc_after_init [where s = ?s]) simp_all
  then show ?thesis using k by blast
qed

end
