(* ===== verification/Gdt.thy ===== *)
theory Gdt
  imports Prelude
begin

text \<open>
  Segment descriptors: the bit-range helpers of \<open>cpu/gdt/f1_binary_operation.c\<close>, the getters and setters
  of \<open>cpu/gdt/f3_segment_descriptor_internals.c\<close> on the two 32-bit halves, and the bit-field structure of
  \<open>cpu/gdt/gdt.h\<close> with its base and limit accessors.

  A shift by 32 or more has no meaning in C and gives \<open>Inl Undefined\<close>. A setter also prints the value
  it was given (\<open>printBinary\<close>): the call is part of its result.
\<close>

section \<open>Bit ranges\<close>

text \<open>
  \<open>1 << count\<close> is a shift of an \<open>int\<close>; a count of 31 gives the sign bit, as GCC defines it.
\<close>

definition generateMask :: "u8 \<Rightarrow> u8 \<Rightarrow> u32 exec" where
  "generateMask endBig startSmall =
     (let width = endBig - startSmall + 1;
          count = uint endBig - uint startSmall + 1
      in bindE (if width \<ge> 32 then ok 0xFFFFFFFF
                else if 0 \<le> count \<and> count < 32 then ok (push_bit (nat count) 1 - 1)
                else Inl Undefined)
           (\<lambda>mask. shl32 mask (unat startSmall)))"

definition generateAntiMask :: "u8 \<Rightarrow> u8 \<Rightarrow> u32 exec" where
  "generateAntiMask endBig startSmall = bindE (generateMask endBig startSmall) (\<lambda>m. ok (NOT m))"

definition getBits :: "u32 \<Rightarrow> u8 \<Rightarrow> u8 \<Rightarrow> u32 exec" where
  "getBits val endBig startSmall =
     bindE (generateMask endBig startSmall) (\<lambda>mask_left. shr32 (val AND mask_left) (unat startSmall))"

text \<open>\<open>getBits2\<close>: the other way round, with an error value; the result carries the message it writes.\<close>

definition getBits2 :: "u32 \<Rightarrow> u8 \<Rightarrow> u8 \<Rightarrow> (u32 \<times> string) exec" where
  "getBits2 val endBig startSmall =
     (if endBig < startSmall then ok (- 1, ''[ERROR]: big >= small '')
      else bindE (shr32 val (unat startSmall)) (\<lambda>shifted_value.
        let count = uint endBig - uint startSmall + 1 in
        if count < 32 then ok (shifted_value AND (push_bit (nat count) 1 - 1), []) else Inl Undefined))"

definition setBits :: "u32 \<Rightarrow> u32 \<Rightarrow> u8 \<Rightarrow> u8 \<Rightarrow> u32 exec" where
  "setBits a_dest b_value endBig startSmall =
     bindE (shl32 b_value (unat startSmall)) (\<lambda>b_shifted.
     bindE (generateAntiMask endBig startSmall) (\<lambda>a_reverse_mask.
       ok ((a_dest AND a_reverse_mask) OR b_shifted)))"

section \<open>The descriptor as two words\<close>

record SegmentDescriptor =
  lower :: u32
  higher :: u32

type_synonym print_call = "u32 \<times> string"

definition TYPE_START :: u8 where [const_defs]: "TYPE_START = 8"
definition DESCRIPTOR_TYPE_S :: u8 where [const_defs]: "DESCRIPTOR_TYPE_S = 12"
definition DPL_START :: u8 where [const_defs]: "DPL_START = 13"
definition DPL_END :: u8 where [const_defs]: "DPL_END = 14"
definition SEGMENT_LIMIT_START_1 :: u8 where [const_defs]: "SEGMENT_LIMIT_START_1 = 0"
definition SEGMENT_LIMIT_END_1 :: u8 where [const_defs]: "SEGMENT_LIMIT_END_1 = 15"
definition SEGMENT_LIMIT_START_2 :: u8 where [const_defs]: "SEGMENT_LIMIT_START_2 = 16"
definition SEGMENT_LIMIT_END_2 :: u8 where [const_defs]: "SEGMENT_LIMIT_END_2 = 19"
definition AVL :: u8 where [const_defs]: "AVL = 20"
definition DEFAULT_OPERATION_SIZE :: u8 where [const_defs]: "DEFAULT_OPERATION_SIZE = 22"
definition GRANULARITY :: u8 where [const_defs]: "GRANULARITY = 23"

text \<open>
  These two names are redefined as macros for the access byte further down the header, after the constants
  15 and 21 of the same names: at their uses they are \<open>1 << 7\<close> and \<open>1 << 5\<close>.
\<close>

definition PRESENT :: u8 where [const_defs]: "PRESENT = push_bit 7 1"
definition LONG_MODE :: u8 where [const_defs]: "LONG_MODE = push_bit 5 1"

text \<open>\<open>setBitsModify\<close> through a pointer to one of the two halves.\<close>

definition setBitsModify_higher :: "u32 \<Rightarrow> u8 \<Rightarrow> u8 \<Rightarrow> SegmentDescriptor \<Rightarrow> SegmentDescriptor exec" where
  "setBitsModify_higher b_value endBig startSmall sd =
     bindE (setBits (higher sd) b_value endBig startSmall) (\<lambda>w. ok (sd\<lparr>higher := w\<rparr>))"

definition setBitsModify_lower :: "u32 \<Rightarrow> u8 \<Rightarrow> u8 \<Rightarrow> SegmentDescriptor \<Rightarrow> SegmentDescriptor exec" where
  "setBitsModify_lower b_value endBig startSmall sd =
     bindE (setBits (lower sd) b_value endBig startSmall) (\<lambda>w. ok (sd\<lparr>lower := w\<rparr>))"

text \<open>The type is accessed through the bit-field view: bits 8 to 11 of the higher half.\<close>

definition getType :: "SegmentDescriptor \<Rightarrow> u8" where
  "getType sd = take_bit 4 (ucast (drop_bit 8 (higher sd)))"

definition setType :: "SegmentDescriptor \<Rightarrow> u8 \<Rightarrow> SegmentDescriptor \<times> print_call" where
  "setType sd typ =
     (sd\<lparr>higher := (higher sd AND NOT (push_bit 8 (mask 4))) OR push_bit 8 (ucast (take_bit 4 typ))\<rparr>,
      (ucast typ, ''type''))"

definition getDescriptorTypeS :: "SegmentDescriptor \<Rightarrow> u8 exec" where
  "getDescriptorTypeS sd =
     bindE (getBits (higher sd) DESCRIPTOR_TYPE_S DESCRIPTOR_TYPE_S) (\<lambda>v. ok (ucast v))"

definition setDescriptorTypeS :: "SegmentDescriptor \<Rightarrow> u8 \<Rightarrow> (SegmentDescriptor \<times> print_call) exec" where
  "setDescriptorTypeS sd descriptorTypeS =
     bindE (setBitsModify_higher (ucast descriptorTypeS) DESCRIPTOR_TYPE_S DESCRIPTOR_TYPE_S sd)
       (\<lambda>sd. ok (sd, (ucast descriptorTypeS, ''descriptorTypeS'')))"

definition getPriviledgeDPL :: "SegmentDescriptor \<Rightarrow> u8 exec" where
  "getPriviledgeDPL sd = bindE (getBits (higher sd) DPL_END DPL_START) (\<lambda>v. ok (ucast v))"

definition setPriviledgeDPL :: "SegmentDescriptor \<Rightarrow> u8 \<Rightarrow> (SegmentDescriptor \<times> print_call) exec" where
  "setPriviledgeDPL sd priviledgeDPL =
     bindE (setBitsModify_higher (ucast priviledgeDPL) DPL_END DPL_START sd)
       (\<lambda>sd. ok (sd, (ucast priviledgeDPL, ''priviledgeDPL'')))"

definition getPresent :: "SegmentDescriptor \<Rightarrow> u8 exec" where
  "getPresent sd = bindE (getBits (higher sd) PRESENT PRESENT) (\<lambda>v. ok (ucast v))"

definition setPresent :: "SegmentDescriptor \<Rightarrow> u8 \<Rightarrow> (SegmentDescriptor \<times> print_call) exec" where
  "setPresent sd presentP =
     bindE (setBitsModify_higher (ucast presentP) PRESENT PRESENT sd)
       (\<lambda>sd. ok (sd, (ucast presentP, ''presentP'')))"

definition getSegmentLimit :: "SegmentDescriptor \<Rightarrow> u32 exec" where
  "getSegmentLimit sd =
     bindE (getBits (higher sd) SEGMENT_LIMIT_END_2 SEGMENT_LIMIT_START_2) (\<lambda>segmentLimit_19_16.
     bindE (getBits (lower sd) SEGMENT_LIMIT_END_1 SEGMENT_LIMIT_START_1) (\<lambda>segmentLimit_15_0.
       ok (push_bit 16 segmentLimit_19_16 OR segmentLimit_15_0)))"

definition setSegmentLimit :: "SegmentDescriptor \<Rightarrow> u32 \<Rightarrow> (SegmentDescriptor \<times> print_call) exec" where
  "setSegmentLimit sd segmentLimit =
     bindE (getBits segmentLimit SEGMENT_LIMIT_END_2 SEGMENT_LIMIT_START_2) (\<lambda>higher_19_16.
     bindE (getBits segmentLimit SEGMENT_LIMIT_END_1 SEGMENT_LIMIT_START_1) (\<lambda>lower_15_0.
     bindE (setBitsModify_higher higher_19_16 SEGMENT_LIMIT_END_2 SEGMENT_LIMIT_START_2 sd) (\<lambda>sd.
     bindE (setBitsModify_lower lower_15_0 SEGMENT_LIMIT_END_1 SEGMENT_LIMIT_START_1 sd) (\<lambda>sd.
       ok (sd, (segmentLimit, ''segmentLimit''))))))"

definition getAVL :: "SegmentDescriptor \<Rightarrow> u8 exec" where
  "getAVL sd = bindE (getBits (higher sd) AVL AVL) (\<lambda>v. ok (ucast v))"

definition setAVL :: "SegmentDescriptor \<Rightarrow> u8 \<Rightarrow> (SegmentDescriptor \<times> print_call) exec" where
  "setAVL sd avl =
     bindE (setBitsModify_higher (ucast avl) AVL AVL sd) (\<lambda>sd. ok (sd, (ucast avl, ''avl'')))"

definition getLongMode :: "SegmentDescriptor \<Rightarrow> u8 exec" where
  "getLongMode sd = bindE (getBits (higher sd) LONG_MODE LONG_MODE) (\<lambda>v. ok (ucast v))"

definition setLongMode :: "SegmentDescriptor \<Rightarrow> u8 \<Rightarrow> (SegmentDescriptor \<times> print_call) exec" where
  "setLongMode sd L =
     bindE (setBitsModify_higher (ucast L) LONG_MODE LONG_MODE sd) (\<lambda>sd. ok (sd, (ucast L, ''L'')))"

definition getDefaultOperationSize :: "SegmentDescriptor \<Rightarrow> u8 exec" where
  "getDefaultOperationSize sd =
     bindE (getBits (higher sd) DEFAULT_OPERATION_SIZE DEFAULT_OPERATION_SIZE) (\<lambda>v. ok (ucast v))"

definition setDefaultOperationSize :: "SegmentDescriptor \<Rightarrow> u8 \<Rightarrow> (SegmentDescriptor \<times> print_call) exec" where
  "setDefaultOperationSize sd DsB =
     bindE (setBitsModify_higher (ucast DsB) DEFAULT_OPERATION_SIZE DEFAULT_OPERATION_SIZE sd)
       (\<lambda>sd. ok (sd, (ucast DsB, ''DsB'')))"

definition getGranularity :: "SegmentDescriptor \<Rightarrow> u8 exec" where
  "getGranularity sd = bindE (getBits (higher sd) GRANULARITY GRANULARITY) (\<lambda>v. ok (ucast v))"

definition setGranularity :: "SegmentDescriptor \<Rightarrow> u8 \<Rightarrow> (SegmentDescriptor \<times> print_call) exec" where
  "setGranularity sd granularity =
     bindE (setBitsModify_higher (ucast granularity) GRANULARITY GRANULARITY sd)
       (\<lambda>sd. ok (sd, (ucast granularity, ''granularity'')))"

definition getBaseAddress :: "SegmentDescriptor \<Rightarrow> u32 exec" where
  "getBaseAddress sd =
     bindE (getBits (lower sd) 31 16) (\<lambda>base_0_15.
     bindE (getBits (higher sd) 7 0) (\<lambda>base_16_23.
     bindE (getBits (higher sd) 31 24) (\<lambda>base_24_31.
       ok (push_bit 0 base_0_15 OR push_bit 16 base_16_23 OR push_bit 24 base_24_31))))"

definition setBaseAddress :: "SegmentDescriptor \<Rightarrow> u32 \<Rightarrow> (SegmentDescriptor \<times> print_call) exec" where
  "setBaseAddress sd baseAddress =
     bindE (getBits baseAddress 31 24) (\<lambda>higher_31_24.
     bindE (getBits baseAddress 23 16) (\<lambda>higher_7_0.
     bindE (getBits baseAddress 15 0) (\<lambda>lower_31_16.
     bindE (setBitsModify_lower lower_31_16 31 16 sd) (\<lambda>sd.
     bindE (setBitsModify_higher higher_7_0 7 0 sd) (\<lambda>sd.
     bindE (setBitsModify_higher higher_31_24 31 24 sd) (\<lambda>sd.
       ok (sd, (baseAddress, ''baseAddress''))))))))"

text \<open>The access byte and the flags nibble, through the byte view.\<close>

definition get_access :: "SegmentDescriptor \<Rightarrow> u8" where
  "get_access sd = ucast (drop_bit 8 (higher sd))"

definition get_flags :: "SegmentDescriptor \<Rightarrow> u8" where
  "get_flags sd = drop_bit 4 (ucast (drop_bit 16 (higher sd)))"

section \<open>The bit-field structure\<close>

record segment_descriptor =
  limit_low :: u16
  base_low :: u16
  base_middle :: u8
  seg_type :: "4 word"
  s_bit :: bool
  dpl :: "2 word"
  p_bit :: bool
  limit_high :: "4 word"
  avl_bit :: bool
  l_bit :: bool
  db_bit :: bool
  g_bit :: bool
  base_high :: u8

definition get_segment_descriptor_base :: "segment_descriptor \<Rightarrow> u32" where
  "get_segment_descriptor_base desc =
     push_bit 24 (ucast (base_high desc)) OR push_bit 16 (ucast (base_middle desc)) OR ucast (base_low desc)"

definition set_segment_descriptor_base :: "segment_descriptor \<Rightarrow> u32 \<Rightarrow> segment_descriptor" where
  "set_segment_descriptor_base desc base =
     desc\<lparr>base_low := ucast base, base_middle := ucast (drop_bit 16 base), base_high := ucast (drop_bit 24 base)\<rparr>"

definition set_segment_descriptor_limit :: "segment_descriptor \<Rightarrow> u32 \<Rightarrow> segment_descriptor" where
  "set_segment_descriptor_limit desc limit =
     desc\<lparr>limit_low := ucast limit, limit_high := ucast (drop_bit 16 limit)\<rparr>"

definition get_segment_descriptor_limit :: "segment_descriptor \<Rightarrow> u32" where
  "get_segment_descriptor_limit desc = push_bit 16 (ucast (limit_high desc)) OR ucast (limit_low desc)"

text \<open>How the compiler lays the structure out in the two words (little endian, fields from bit 0 up).\<close>

definition layout :: "segment_descriptor \<Rightarrow> SegmentDescriptor" where
  "layout d = \<lparr>lower = ucast (limit_low d) OR push_bit 16 (ucast (base_low d)),
     higher = ucast (base_middle d) OR push_bit 8 (ucast (seg_type d)) OR push_bit 12 (of_bool (s_bit d)) OR
       push_bit 13 (ucast (dpl d)) OR push_bit 15 (of_bool (p_bit d)) OR push_bit 16 (ucast (limit_high d)) OR
       push_bit 20 (of_bool (avl_bit d)) OR push_bit 21 (of_bool (l_bit d)) OR
       push_bit 22 (of_bool (db_bit d)) OR push_bit 23 (of_bool (g_bit d)) OR
       push_bit 24 (ucast (base_high d))\<rparr>"

section \<open>Bit ranges as fields of a word\<close>

definition field_get :: "nat \<Rightarrow> nat \<Rightarrow> u32 \<Rightarrow> u32" where
  "field_get lo len w = take_bit len (drop_bit lo w)"

definition field_set :: "nat \<Rightarrow> nat \<Rightarrow> u32 \<Rightarrow> u32 \<Rightarrow> u32" where
  "field_set lo len v w = (w AND NOT (push_bit lo (mask len))) OR push_bit lo v"

lemma bit_u32: "bit (w :: u32) n \<Longrightarrow> n < 32"
  using bit_imp_le_length [of w n] by simp

lemma generateMask_range:
  assumes "startSmall \<le> endBig" and "endBig < 32"
  shows "generateMask endBig startSmall =
    ok (push_bit (unat startSmall) (mask (unat endBig - unat startSmall + 1)))"
proof -
  define n where "n = unat endBig - unat startSmall + 1"
  have le: "unat startSmall \<le> unat endBig" and lt: "unat endBig < 32"
    using assms by (simp_all add: word_le_nat_alt word_less_nat_alt)
  have n32: "n \<le> 32" using le lt unfolding n_def by linarith
  have w: "unat (endBig - startSmall + 1) = n"
    unfolding n_def unat_word_ariths unat_sub [OF assms(1)] using le lt by simp
  have c: "uint endBig - uint startSmall + 1 = int n"
    using le unfolding n_def by (simp only: uint_nat of_nat_add of_nat_diff of_nat_1)
  have s: "unat startSmall < 32" using le lt by linarith
  have ge: "32 \<le> endBig - startSmall + 1 \<longleftrightarrow> n = 32"
    unfolding word_le_nat_alt w using n32 by auto
  have m: "(if n = 32 then ok 0xFFFFFFFF
      else if 0 \<le> int n \<and> int n < 32 then ok (push_bit (nat (int n)) 1 - 1) else Inl Undefined) =
    ok (mask n :: u32)"
    using n32 by (auto simp: mask_eq_exp_minus_1 push_bit_eq_mult)
  show ?thesis
    unfolding generateMask_def Let_def ge c m bindE_simps shl32_def n_def [symmetric] by (simp only: s if_True)
qed

lemma generateAntiMask_range:
  assumes "startSmall \<le> endBig" and "endBig < 32"
  shows "generateAntiMask endBig startSmall =
    ok (NOT (push_bit (unat startSmall) (mask (unat endBig - unat startSmall + 1))))"
  by (simp add: generateAntiMask_def generateMask_range [OF assms])

lemma range_start:
  assumes "startSmall \<le> endBig" and "endBig < (32 :: u8)"
  shows "unat startSmall < 32"
proof -
  have "startSmall < 32" using assms by simp
  then show ?thesis by (simp add: word_less_nat_alt)
qed

lemma getBits_range:
  assumes "startSmall \<le> endBig" and "endBig < 32"
  shows "getBits v endBig startSmall = ok (field_get (unat startSmall) (unat endBig - unat startSmall + 1) v)"
proof -
  have "drop_bit (unat startSmall) (v AND push_bit (unat startSmall) (mask n)) =
      field_get (unat startSmall) n v" for n
    by (rule bit_word_eqI) (auto simp: field_get_def bit_simps dest: bit_u32)
  then show ?thesis
    by (simp only: getBits_def generateMask_range [OF assms] bindE_simps shr32_def range_start [OF assms] if_True)
qed

lemma getBits2_agrees:
  assumes "startSmall \<le> endBig" and "endBig < 32" and "startSmall \<noteq> 0 \<or> endBig \<noteq> 31"
  shows "getBits2 v endBig startSmall = bindE (getBits v endBig startSmall) (\<lambda>r. ok (r, []))"
proof -
  define n where "n = unat endBig - unat startSmall + 1"
  have le: "unat startSmall \<le> unat endBig" and lt: "unat endBig < 32"
    using assms(1,2) by (simp_all add: word_le_nat_alt word_less_nat_alt)
  have "unat startSmall \<noteq> 0 \<or> unat endBig \<noteq> 31"
    using assms(3) by (simp add: word_unat_eq_iff)
  then have n: "n < 32" using le lt unfolding n_def by linarith
  have c: "uint endBig - uint startSmall + 1 = int n"
    using le unfolding n_def by (simp only: uint_nat of_nat_add of_nat_diff of_nat_1)
  have "drop_bit (unat startSmall) v AND (push_bit n 1 - 1) = field_get (unat startSmall) n v"
    by (simp add: field_get_def take_bit_eq_mask mask_eq_exp_minus_1 push_bit_eq_mult)
  moreover have "\<not> endBig < startSmall" using assms(1) by (simp add: not_less)
  ultimately show ?thesis
    using n by (simp add: getBits2_def getBits_range [OF assms(1,2)] shr32_def range_start [OF assms(1,2)] c
        flip: n_def) (simp add: n_def)
qed

lemma setBits_range:
  assumes "startSmall \<le> endBig" and "endBig < 32"
  shows "setBits a b endBig startSmall =
    ok (field_set (unat startSmall) (unat endBig - unat startSmall + 1) b a)"
  by (simp only: setBits_def generateAntiMask_range [OF assms] bindE_simps shl32_def range_start [OF assms]
      if_True field_set_def)

lemma field_get_set_same:
  assumes "lo + len \<le> 32" and "take_bit len v = v"
  shows "field_get lo len (field_set lo len v w) = v"
proof (rule bit_word_eqI)
  fix i assume "i < LENGTH(32)"
  then show "bit (field_get lo len (field_set lo len v w)) i = bit v i"
    using assms(1) arg_cong [OF assms(2), of "\<lambda>x. bit x i"]
    by (auto simp: field_get_def field_set_def bit_simps)
qed

lemma field_get_set_other:
  assumes "take_bit len v = v" and "lo' + len' \<le> lo \<or> lo + len \<le> lo'"
  shows "field_get lo' len' (field_set lo len v w) = field_get lo' len' w"
proof (rule bit_word_eqI)
  fix i assume "i < LENGTH(32)"
  have "bit v (i + lo' - lo) \<Longrightarrow> i + lo' - lo < len"
    using arg_cong [OF assms(1), of "\<lambda>x. bit x (i + lo' - lo)"] by (simp add: bit_simps)
  then show "bit (field_get lo' len' (field_set lo len v w)) i = bit (field_get lo' len' w) i"
    using assms(2) bit_u32 [of w "i + lo'"]
    by (simp add: field_get_def field_set_def bit_simps add.commute) linarith
qed

lemma field_get_fits [simp]: "take_bit len (field_get lo len w) = field_get lo len w"
  by (simp add: field_get_def)

lemma field_set_get [simp]: "field_set lo len (field_get lo len w) w = w"
  by (rule bit_word_eqI) (auto simp: field_get_def field_set_def bit_simps)

lemma field_set_set:
  "take_bit len v = v \<Longrightarrow> field_set lo len v' (field_set lo len v w) = field_set lo len v' w"
proof (rule bit_word_eqI)
  fix i assume fits: "take_bit len v = v" and "i < LENGTH(32)"
  have "bit v (i - lo) \<Longrightarrow> i - lo < len"
    using arg_cong [OF fits, of "\<lambda>x. bit x (i - lo)"] by (simp add: bit_simps)
  then show "bit (field_set lo len v' (field_set lo len v w)) i = bit (field_set lo len v' w) i"
    by (auto simp: field_set_def bit_simps)
qed

section \<open>The accessors as fields\<close>

lemmas range_simps = getBits_range setBits_range setBitsModify_higher_def setBitsModify_lower_def const_defs

lemmas getters_def = getType_def getDescriptorTypeS_def getPriviledgeDPL_def getSegmentLimit_def getAVL_def
  getDefaultOperationSize_def getGranularity_def getBaseAddress_def

lemma getBaseAddress_fields:
  "getBaseAddress sd = ok (field_get 16 16 (lower sd) OR push_bit 16 (field_get 0 8 (higher sd)) OR
     push_bit 24 (field_get 24 8 (higher sd)))"
  by (simp add: getBaseAddress_def range_simps)

lemma setBaseAddress_fields:
  "setBaseAddress sd base = ok (sd\<lparr>lower := field_set 16 16 (field_get 0 16 base) (lower sd),
     higher := field_set 24 8 (field_get 24 8 base) (field_set 0 8 (field_get 16 8 base) (higher sd))\<rparr>,
     (base, ''baseAddress''))"
  by (simp add: setBaseAddress_def range_simps)

lemma getSegmentLimit_fields:
  "getSegmentLimit sd = ok (push_bit 16 (field_get 16 4 (higher sd)) OR field_get 0 16 (lower sd))"
  by (simp add: getSegmentLimit_def range_simps)

lemma setSegmentLimit_fields:
  "setSegmentLimit sd limit = ok (sd\<lparr>lower := field_set 0 16 (field_get 0 16 limit) (lower sd),
     higher := field_set 16 4 (field_get 16 4 limit) (higher sd)\<rparr>, (limit, ''segmentLimit''))"
  by (simp add: setSegmentLimit_def range_simps)

lemma getType_field: "getType sd = ucast (field_get 8 4 (higher sd))"
  by (rule bit_word_eqI) (auto simp: getType_def field_get_def bit_simps)

lemma small_getters:
  "getDescriptorTypeS sd = ok (ucast (field_get 12 1 (higher sd)))"
  "getPriviledgeDPL sd = ok (ucast (field_get 13 2 (higher sd)))"
  "getAVL sd = ok (ucast (field_get 20 1 (higher sd)))"
  "getDefaultOperationSize sd = ok (ucast (field_get 22 1 (higher sd)))"
  "getGranularity sd = ok (ucast (field_get 23 1 (higher sd)))"
  by (simp_all add: getters_def range_simps) (simp add: numeral_2_eq_2)

lemma small_setters:
  "setDescriptorTypeS sd v = ok (sd\<lparr>higher := field_set 12 1 (ucast v) (higher sd)\<rparr>, (ucast v, ''descriptorTypeS''))"
  "setPriviledgeDPL sd v = ok (sd\<lparr>higher := field_set 13 2 (ucast v) (higher sd)\<rparr>, (ucast v, ''priviledgeDPL''))"
  "setAVL sd v = ok (sd\<lparr>higher := field_set 20 1 (ucast v) (higher sd)\<rparr>, (ucast v, ''avl''))"
  "setDefaultOperationSize sd v = ok (sd\<lparr>higher := field_set 22 1 (ucast v) (higher sd)\<rparr>, (ucast v, ''DsB''))"
  "setGranularity sd v = ok (sd\<lparr>higher := field_set 23 1 (ucast v) (higher sd)\<rparr>, (ucast v, ''granularity''))"
  by (simp_all add: setDescriptorTypeS_def setPriviledgeDPL_def setAVL_def setDefaultOperationSize_def
      setGranularity_def range_simps) (simp add: numeral_2_eq_2)

lemma base_from_fields:
  "field_get 0 16 base OR push_bit 16 (field_get 16 8 base) OR push_bit 24 (field_get 24 8 base) = base"
proof (rule bit_word_eqI)
  fix i assume "i < LENGTH(32)"
  then show "bit (field_get 0 16 base OR push_bit 16 (field_get 16 8 base) OR push_bit 24 (field_get 24 8 base)) i
     = bit base i"
    by (cases "i < 16"; cases "i < 24") (auto simp: field_get_def bit_simps)
qed

lemma limit_from_fields: "push_bit 16 (field_get 16 4 limit) OR field_get 0 16 limit = take_bit 20 limit"
proof (rule bit_word_eqI)
  fix i assume "i < LENGTH(32)"
  then show "bit (push_bit 16 (field_get 16 4 limit) OR field_get 0 16 limit) i = bit (take_bit 20 limit) i"
    by (auto simp: field_get_def bit_simps)
qed

section \<open>The contract of an accessor pair\<close>

text \<open>
  What a getter and its setter promise each other, for the values that fit the field: the setter returns,
  the getter then returns what was set, setting what is already there changes nothing, and the last
  value set wins.
\<close>

locale accessor =
  fixes getter :: "SegmentDescriptor \<Rightarrow> 'v exec"
    and setter :: "SegmentDescriptor \<Rightarrow> 'v \<Rightarrow> (SegmentDescriptor \<times> print_call) exec"
    and fits :: "'v \<Rightarrow> bool"
  assumes setter_ok: "\<exists>sd' p. setter sd v = ok (sd', p)"
    and get_set: "fits v \<Longrightarrow> setter sd v = ok (sd', p) \<Longrightarrow> getter sd' = ok v"
    and get_fits: "\<exists>v. getter sd = ok v \<and> fits v"
    and set_get: "getter sd = ok v \<Longrightarrow> setter sd v = ok (sd', p) \<Longrightarrow> sd' = sd"
    and set_set: "fits v \<Longrightarrow> setter sd v = ok (sd', p) \<Longrightarrow> setter sd' v' = setter sd v'"
begin

lemma set_idem: "fits v \<Longrightarrow> setter sd v = ok (sd', p) \<Longrightarrow> setter sd' v = ok (sd', p)"
  using set_set by simp

lemma restore:
  assumes "getter sd = ok old" and "fits v" and "setter sd v = ok (sd', p)"
  shows "\<exists>p'. setter sd' old = ok (sd, p')"
proof -
  obtain sd'' p' where "setter sd old = ok (sd'', p')" using setter_ok by blast
  then show ?thesis using set_get [OF assms(1)] set_set [OF assms(2,3)] by auto
qed

end

text \<open>The fields kept in a few bits of the higher half all have this contract.\<close>

lemma higher_field_accessor:
  assumes "\<And>sd. getter sd = ok (ucast (field_get lo len (higher sd)))"
    and "\<And>sd v. setter sd v = ok (sd\<lparr>higher := field_set lo len (ucast v) (higher sd)\<rparr>, (ucast v, name))"
    and "lo + len \<le> 32" and "len \<le> 8"
  shows "accessor getter setter (\<lambda>v :: u8. take_bit len v = v)"
proof unfold_locales
  have down: "take_bit len (ucast v :: u32) = ucast v" if "take_bit len v = v" for v :: u8
    using that by (metis unsigned_take_bit_eq)
  have up: "ucast (ucast v :: u32) = v" for v :: u8
    by (rule bit_word_eqI) (auto simp: bit_simps)
  have small: "ucast (ucast (field_get lo len w) :: u8) = field_get lo len w" for w
    using assms(4) by (intro bit_word_eqI) (auto simp: field_get_def bit_simps)
  fix sd sd' v p v'
  show "\<exists>sd' p. setter sd v = ok (sd', p)" by (simp add: assms(2))
  show "getter sd' = ok v" if "take_bit len v = v" "setter sd v = ok (sd', p)"
    using that by (auto simp: assms(1,2) field_get_set_same [OF assms(3) down] up)
  show "\<exists>v. getter sd = ok v \<and> take_bit len v = v"
    by (simp add: assms(1)) (metis field_get_fits unsigned_take_bit_eq)
  show "sd' = sd" if "getter sd = ok v" "setter sd v = ok (sd', p)"
    using that by (auto simp: assms(1,2) small)
  show "setter sd' v' = setter sd v'" if "take_bit len v = v" "setter sd v = ok (sd', p)"
    using that by (auto simp: assms(2) field_set_set [OF down])
qed

interpretation descriptor_type: accessor getDescriptorTypeS setDescriptorTypeS "\<lambda>v. take_bit 1 v = v"
  by (rule higher_field_accessor [OF small_getters(1) small_setters(1)]) simp_all

interpretation privilege: accessor getPriviledgeDPL setPriviledgeDPL "\<lambda>v. take_bit 2 v = v"
  by (rule higher_field_accessor [OF small_getters(2) small_setters(2)]) simp_all

interpretation available: accessor getAVL setAVL "\<lambda>v. take_bit 1 v = v"
  by (rule higher_field_accessor [OF small_getters(3) small_setters(3)]) simp_all

interpretation operation_size: accessor getDefaultOperationSize setDefaultOperationSize "\<lambda>v. take_bit 1 v = v"
  by (rule higher_field_accessor [OF small_getters(4) small_setters(4)]) simp_all

interpretation granularity: accessor getGranularity setGranularity "\<lambda>v. take_bit 1 v = v"
  by (rule higher_field_accessor [OF small_getters(5) small_setters(5)]) simp_all

lemmas field_simps = field_get_set_same field_get_set_other base_from_fields limit_from_fields

lemma field_get_base:
  fixes lo mid hi :: u32
  assumes "take_bit 16 lo = lo" and "take_bit 8 mid = mid"
  shows "field_get 0 16 (lo OR push_bit 16 mid OR push_bit 24 hi) = lo"
    and "field_get 16 8 (lo OR push_bit 16 mid OR push_bit 24 hi) = mid"
    and "field_get 24 8 (lo OR push_bit 16 mid OR push_bit 24 hi) = take_bit 8 hi"
proof -
  have lo: "bit lo i \<Longrightarrow> i < 16" and mid: "bit mid i \<Longrightarrow> i < 8" for i
    using arg_cong [OF assms(1), of "\<lambda>x. bit x i"] arg_cong [OF assms(2), of "\<lambda>x. bit x i"]
    by (simp_all add: bit_simps)
  show "field_get 0 16 (lo OR push_bit 16 mid OR push_bit 24 hi) = lo"
    by (rule bit_word_eqI) (auto simp: field_get_def bit_simps dest: lo)
  show "field_get 16 8 (lo OR push_bit 16 mid OR push_bit 24 hi) = mid"
    by (rule bit_word_eqI) (auto simp: field_get_def bit_simps dest: lo mid)
  show "field_get 24 8 (lo OR push_bit 16 mid OR push_bit 24 hi) = take_bit 8 hi"
    by (rule bit_word_eqI) (auto simp: field_get_def bit_simps dest: lo mid)
qed

lemma field_set_commute:
  assumes "take_bit len v = v" and "take_bit len' v' = v'" and "lo' + len' \<le> lo"
  shows "field_set lo len v (field_set lo' len' v' w) = field_set lo' len' v' (field_set lo len v w)"
proof (rule bit_word_eqI)
  fix i
  have "bit v (i - lo) \<Longrightarrow> i - lo < len" and "bit v' (i - lo') \<Longrightarrow> i - lo' < len'"
    using arg_cong [OF assms(1), of "\<lambda>x. bit x (i - lo)"] arg_cong [OF assms(2), of "\<lambda>x. bit x (i - lo')"]
    by (simp_all add: bit_simps)
  then show "bit (field_set lo len v (field_set lo' len' v' w)) i =
      bit (field_set lo' len' v' (field_set lo len v w)) i"
    using assms(3) by (auto simp: field_set_def bit_simps)
qed

interpretation base: accessor getBaseAddress setBaseAddress "\<lambda>_. True"
proof unfold_locales
  fix sd sd' v p v'
  show "\<exists>sd' p. setBaseAddress sd v = ok (sd', p)" by (simp add: setBaseAddress_fields)
  show "getBaseAddress sd' = ok v" if "setBaseAddress sd v = ok (sd', p)"
    using that by (auto simp: setBaseAddress_fields getBaseAddress_fields field_simps)
  show "\<exists>v. getBaseAddress sd = ok v \<and> True" by (simp add: getBaseAddress_fields)
  show "sd' = sd" if "getBaseAddress sd = ok v" "setBaseAddress sd v = ok (sd', p)"
    using that by (auto simp: setBaseAddress_fields getBaseAddress_fields field_get_base)
  show "setBaseAddress sd' v' = setBaseAddress sd v'" if "setBaseAddress sd v = ok (sd', p)"
    using that by (auto simp: setBaseAddress_fields field_set_set field_set_commute [of 8 _ 8 _ 0 24])
qed

lemma field_get_limit:
  fixes lo hi :: u32
  assumes "take_bit 16 lo = lo"
  shows "field_get 0 16 (push_bit 16 hi OR lo) = lo" and "field_get 16 4 (push_bit 16 hi OR lo) = take_bit 4 hi"
proof -
  have lo: "bit lo i \<Longrightarrow> i < 16" for i
    using arg_cong [OF assms, of "\<lambda>x. bit x i"] by (simp add: bit_simps)
  show "field_get 0 16 (push_bit 16 hi OR lo) = lo" "field_get 16 4 (push_bit 16 hi OR lo) = take_bit 4 hi"
    by (intro bit_word_eqI; auto simp: field_get_def bit_simps dest: lo)+
qed

interpretation limit: accessor getSegmentLimit setSegmentLimit "\<lambda>v. take_bit 20 v = v"
proof unfold_locales
  fix sd sd' v p v'
  show "\<exists>sd' p. setSegmentLimit sd v = ok (sd', p)" by (simp add: setSegmentLimit_fields)
  show "getSegmentLimit sd' = ok v" if "take_bit 20 v = v" "setSegmentLimit sd v = ok (sd', p)"
    using that by (auto simp: setSegmentLimit_fields getSegmentLimit_fields field_simps)
  show "\<exists>v. getSegmentLimit sd = ok v \<and> take_bit 20 v = v"
    by (auto simp: getSegmentLimit_fields field_get_def bit_simps intro!: bit_word_eqI)
  show "sd' = sd" if "getSegmentLimit sd = ok v" "setSegmentLimit sd v = ok (sd', p)"
    using that by (auto simp: setSegmentLimit_fields getSegmentLimit_fields field_get_limit)
  show "setSegmentLimit sd' v' = setSegmentLimit sd v'" if "setSegmentLimit sd v = ok (sd', p)"
    using that by (auto simp: setSegmentLimit_fields field_set_set)
qed

section \<open>The two views of a descriptor\<close>

lemma field_bits: "field_get lo len a = field_get lo len b \<longleftrightarrow> (\<forall>i. lo \<le> i \<and> i < lo + len \<longrightarrow> bit a i = bit b i)"
proof
  assume eq: "field_get lo len a = field_get lo len b"
  show "\<forall>i. lo \<le> i \<and> i < lo + len \<longrightarrow> bit a i = bit b i"
  proof (intro allI impI)
    fix i assume "lo \<le> i \<and> i < lo + len"
    then show "bit a i = bit b i"
      using arg_cong [OF eq, of "\<lambda>w. bit w (i - lo)"] by (auto simp: field_get_def bit_simps)
  qed
qed (auto simp: field_get_def bit_simps intro!: bit_word_eqI)

lemma halves_eqI:
  assumes "field_get 0 8 a = field_get 0 8 b" and "field_get 8 4 a = field_get 8 4 b"
    and "field_get 12 1 a = field_get 12 1 b" and "field_get 13 2 a = field_get 13 2 b"
    and "field_get 15 1 a = field_get 15 1 b" and "field_get 16 4 a = field_get 16 4 b"
    and "field_get 20 1 a = field_get 20 1 b" and "field_get 21 1 a = field_get 21 1 b"
    and "field_get 22 1 a = field_get 22 1 b" and "field_get 23 1 a = field_get 23 1 b"
    and "field_get 24 8 a = field_get 24 8 b"
  shows "a = b"
proof (rule bit_word_eqI)
  fix i assume "i < LENGTH(32)"
  then consider "i < 8" | "8 \<le> i" "i < 12" | "i = 12" | "13 \<le> i" "i < 15" | "i = 15" | "16 \<le> i" "i < 20"
    | "i = 20" | "i = 21" | "i = 22" | "i = 23" | "24 \<le> i" "i < 32"
    by fastforce
  then show "bit a i = bit b i"
    using assms unfolding field_bits by cases auto
qed

lemma field_get_or: "field_get lo len (a OR b) = field_get lo len a OR field_get lo len b"
  by (rule bit_word_eqI) (auto simp: field_get_def bit_simps)

lemma field_get_push:
  assumes "take_bit m x = x"
  shows "lo + m \<le> 32 \<Longrightarrow> field_get lo m (push_bit lo x) = x"
    and "lo + len \<le> k \<or> k + m \<le> lo \<Longrightarrow> field_get lo len (push_bit k x) = 0"
proof -
  have fits: "bit x i \<Longrightarrow> i < m" for i
    using arg_cong [OF assms, of "\<lambda>w. bit w i"] by (simp add: bit_simps)
  show "lo + m \<le> 32 \<Longrightarrow> field_get lo m (push_bit lo x) = x"
    by (rule bit_word_eqI) (auto simp: field_get_def bit_simps dest: fits)
  show "lo + len \<le> k \<or> k + m \<le> lo \<Longrightarrow> field_get lo len (push_bit k x) = 0"
    by (rule bit_word_eqI) (auto simp: field_get_def bit_simps dest: fits)
qed

lemma fits_16: "take_bit 16 (ucast (w :: u16)) = (ucast w :: u32)"
  and fits_8: "take_bit 8 (ucast (v :: u8)) = (ucast v :: u32)"
  and fits_4: "take_bit 4 (ucast (u :: 4 word)) = (ucast u :: u32)"
  and fits_2: "take_bit 2 (ucast (t :: 2 word)) = (ucast t :: u32)"
  and fits_1: "take_bit 1 (of_bool b) = (of_bool b :: u32)"
  using bit_imp_le_length [of w] bit_imp_le_length [of v] bit_imp_le_length [of u] bit_imp_le_length [of t]
  by (auto intro!: bit_word_eqI simp: bit_simps)

lemmas layout_field =
  field_get_push [OF fits_16] field_get_push [OF fits_8] field_get_push [OF fits_4]
  field_get_push [OF fits_2] field_get_push [OF fits_1]
  field_get_push [OF fits_16, where lo = 0, simplified] field_get_push [OF fits_8, where lo = 0, simplified]
  field_get_push(2) [OF fits_16, where k = 0, simplified] field_get_push(2) [OF fits_8, where k = 0, simplified]

lemma layout_fields:
  "field_get 0 16 (lower (layout d)) = ucast (limit_low d)"
  "field_get 16 16 (lower (layout d)) = ucast (base_low d)"
  "field_get 0 8 (higher (layout d)) = ucast (base_middle d)"
  "field_get 8 4 (higher (layout d)) = ucast (seg_type d)"
  "field_get 12 1 (higher (layout d)) = of_bool (s_bit d)"
  "field_get 13 2 (higher (layout d)) = ucast (dpl d)"
  "field_get 15 1 (higher (layout d)) = of_bool (p_bit d)"
  "field_get 16 4 (higher (layout d)) = ucast (limit_high d)"
  "field_get 20 1 (higher (layout d)) = of_bool (avl_bit d)"
  "field_get 21 1 (higher (layout d)) = of_bool (l_bit d)"
  "field_get 22 1 (higher (layout d)) = of_bool (db_bit d)"
  "field_get 23 1 (higher (layout d)) = of_bool (g_bit d)"
  "field_get 24 8 (higher (layout d)) = ucast (base_high d)"
  by (simp_all add: layout_def field_get_or layout_field del: One_nat_def)

lemma layout_getters:
  "getBaseAddress (layout d) = ok (get_segment_descriptor_base d)"
  "getSegmentLimit (layout d) = ok (get_segment_descriptor_limit d)"
  by (simp_all add: getBaseAddress_fields getSegmentLimit_fields layout_fields get_segment_descriptor_base_def
      get_segment_descriptor_limit_def or.commute or.left_commute)

lemma ucast_fields:
  "field_get 0 16 v = ucast (ucast v :: u16)" "field_get 16 8 v = ucast (ucast (drop_bit 16 v) :: u8)"
  "field_get 24 8 v = ucast (ucast (drop_bit 24 v) :: u8)" "field_get 16 4 v = ucast (ucast (drop_bit 16 v) :: 4 word)"
  by (auto intro!: bit_word_eqI simp: field_get_def bit_simps)

lemma halves_lowI:
  assumes "field_get 0 16 a = field_get 0 16 b" and "field_get 16 16 a = field_get 16 16 b"
  shows "a = b"
proof (rule bit_word_eqI)
  fix i assume "i < LENGTH(32)"
  then consider "i < 16" | "16 \<le> i" "i < 32" by fastforce
  then show "bit a i = bit b i" using assms unfolding field_bits by cases auto
qed

lemmas layout_sel = layout_fields field_get_set_same field_get_set_other fits_16 fits_8 fits_4 fits_2 fits_1

lemma layout_set_base:
  "setBaseAddress (layout d) base = ok (layout (set_segment_descriptor_base d base), (base, ''baseAddress''))"
proof -
  let ?l = "field_set 16 16 (field_get 0 16 base) (lower (layout d))"
  let ?h = "field_set 24 8 (field_get 24 8 base) (field_set 0 8 (field_get 16 8 base) (higher (layout d)))"
  have "?l = lower (layout (set_segment_descriptor_base d base))"
    by (rule halves_lowI) (simp_all add: layout_sel set_segment_descriptor_base_def ucast_fields [of base])
  moreover have "?h = higher (layout (set_segment_descriptor_base d base))"
    by (rule halves_eqI)
      (simp_all add: layout_sel set_segment_descriptor_base_def ucast_fields [of base] del: One_nat_def)
  ultimately show ?thesis by (simp add: setBaseAddress_fields)
qed

lemma layout_set_limit:
  "setSegmentLimit (layout d) limit = ok (layout (set_segment_descriptor_limit d limit), (limit, ''segmentLimit''))"
proof -
  let ?l = "field_set 0 16 (field_get 0 16 limit) (lower (layout d))"
  let ?h = "field_set 16 4 (field_get 16 4 limit) (higher (layout d))"
  have "?l = lower (layout (set_segment_descriptor_limit d limit))"
    by (rule halves_lowI) (simp_all add: layout_sel set_segment_descriptor_limit_def ucast_fields [of limit])
  moreover have "?h = higher (layout (set_segment_descriptor_limit d limit))"
    by (rule halves_eqI)
      (simp_all add: layout_sel set_segment_descriptor_limit_def ucast_fields [of limit] del: One_nat_def)
  ultimately show ?thesis by (simp add: setSegmentLimit_fields)
qed

section \<open>Properties\<close>

text \<open>
  Setting the base address of a descriptor returns, prints the base, makes the getter return exactly that
  32-bit base, and leaves the segment limit and every attribute of the descriptor as they were.
\<close>

theorem setBaseAddress_sets:
  "\<exists>sd'. setBaseAddress sd base = ok (sd', (base, ''baseAddress'')) \<and> getBaseAddress sd' = ok base \<and>
     getSegmentLimit sd' = getSegmentLimit sd \<and> getType sd' = getType sd \<and>
     getDescriptorTypeS sd' = getDescriptorTypeS sd \<and> getPriviledgeDPL sd' = getPriviledgeDPL sd \<and>
     getAVL sd' = getAVL sd \<and> getDefaultOperationSize sd' = getDefaultOperationSize sd \<and>
     getGranularity sd' = getGranularity sd"
proof -
  obtain sd' where set: "setBaseAddress sd base = ok (sd', (base, ''baseAddress''))"
    by (simp add: setBaseAddress_fields)
  then have "getBaseAddress sd' = ok base" by (rule base.get_set [OF TrueI])
  then show ?thesis
    using set by (auto simp: setBaseAddress_fields getSegmentLimit_fields getType_field small_getters
        field_get_set_other simp del: One_nat_def)
qed

text \<open>
  Setting the segment limit returns, makes the getter return the low 20 bits of the argument (all the
  field can hold), and leaves the base address and every attribute of the descriptor as they were.
\<close>

theorem setSegmentLimit_sets:
  "\<exists>sd'. setSegmentLimit sd limit = ok (sd', (limit, ''segmentLimit'')) \<and>
     getSegmentLimit sd' = ok (take_bit 20 limit) \<and>
     getBaseAddress sd' = getBaseAddress sd \<and> getType sd' = getType sd \<and>
     getDescriptorTypeS sd' = getDescriptorTypeS sd \<and> getPriviledgeDPL sd' = getPriviledgeDPL sd \<and>
     getAVL sd' = getAVL sd \<and> getDefaultOperationSize sd' = getDefaultOperationSize sd \<and>
     getGranularity sd' = getGranularity sd"
  by (simp add: setSegmentLimit_fields getSegmentLimit_fields getBaseAddress_fields getType_field small_getters
      field_get_set_other field_get_set_same limit_from_fields del: One_nat_def)

text \<open>
  The two interfaces to a segment descriptor agree: on the two words the compiler makes of the bit-field
  structure, the shift-and-mask getters and setters of the base and of the limit compute what the bit-field
  accessors of \<open>gdt.h\<close> compute.
\<close>

theorem accessors_agree:
  "getBaseAddress (layout d) = ok (get_segment_descriptor_base d) \<and>
   getSegmentLimit (layout d) = ok (get_segment_descriptor_limit d) \<and>
   setBaseAddress (layout d) base = ok (layout (set_segment_descriptor_base d base), (base, ''baseAddress'')) \<and>
   setSegmentLimit (layout d) limit = ok (layout (set_segment_descriptor_limit d limit), (limit, ''segmentLimit''))"
  using layout_getters layout_set_base layout_set_limit by blast

text \<open>
  The privilege level: a level of two bits is stored and read back, and the old level can be put back
  to restore the descriptor exactly; a wider argument is not masked, and 4 makes the segment present
  (bit 15) although the level it sets is 0.
\<close>

theorem setPriviledgeDPL_unmasked:
  assumes "take_bit 2 v = v" and "getPriviledgeDPL sd = ok old"
  shows "\<exists>sd' p p'. setPriviledgeDPL sd v = ok (sd', p) \<and> getPriviledgeDPL sd' = ok v \<and>
      setPriviledgeDPL sd' old = ok (sd, p') \<and>
      (\<exists>bad q. setPriviledgeDPL sd 4 = ok (bad, q) \<and> getPriviledgeDPL bad = ok 0 \<and> bit (higher bad) 15)"
proof -
  obtain sd' p where set: "setPriviledgeDPL sd v = ok (sd', p)" using privilege.setter_ok by blast
  obtain p' where "setPriviledgeDPL sd' old = ok (sd, p')" using privilege.restore [OF assms(2,1) set] by blast
  moreover have "bit (field_set 13 2 4 w) 15" "field_get 13 2 (field_set 13 2 4 w) = 0" for w
    by (auto intro!: bit_word_eqI simp: field_set_def field_get_def bit_simps)
  ultimately show ?thesis
    using set privilege.get_set [OF assms(1) set] by (auto simp: small_getters small_setters)
qed

theorem setPriviledgeDPL_unmasked_witness:
  "\<exists>sd' p p'. setPriviledgeDPL \<lparr>lower = 0xFFFF, higher = 0xCF1A00\<rparr> 3 = ok (sd', p) \<and>
      getPriviledgeDPL sd' = ok 3 \<and> setPriviledgeDPL sd' 0 = ok (\<lparr>lower = 0xFFFF, higher = 0xCF1A00\<rparr>, p') \<and>
      (\<exists>bad q. setPriviledgeDPL \<lparr>lower = 0xFFFF, higher = 0xCF1A00\<rparr> 4 = ok (bad, q) \<and>
        getPriviledgeDPL bad = ok 0 \<and> bit (higher bad) 15)"
proof (rule setPriviledgeDPL_unmasked)
  show "take_bit 2 3 = (3 :: u8)" by (simp add: take_bit_eq_mask mask_eq_exp_minus_1)
  show "getPriviledgeDPL \<lparr>lower = 0xFFFF, higher = 0xCF1A00\<rparr> = ok 0"
    by (simp add: small_getters field_get_def take_bit_eq_mask mask_eq_exp_minus_1 drop_bit_eq_div)
qed

text \<open>
  The header redefines \<open>PRESENT\<close> and \<open>LONG_MODE\<close> for the access byte after declaring them as bit numbers,
  so the four accessors of the present bit and of the long-mode bit shift a 32-bit word by 128 or by 32:
  C gives them no meaning on any descriptor.
\<close>

theorem shadowed_accessors:
  "getPresent sd = Inl Undefined \<and> setPresent sd v = Inl Undefined \<and>
   getLongMode sd = Inl Undefined \<and> setLongMode sd v = Inl Undefined"
  by (simp add: getPresent_def setPresent_def getLongMode_def setLongMode_def getBits_def
      setBitsModify_higher_def setBits_def generateMask_def shl32_def const_defs push_bit_eq_mult)

end
