(* ===== verification/Idt.thy ===== *)
theory Idt
  imports Pic
begin

text \<open>
  The interrupt descriptor table: \<open>cpu/idt/idt.c\<close>, \<open>cpu/idt/idt.h\<close>, \<open>cpu/idt/idt_ps2.c\<close>,
  \<open>cpu/idt/idt_ps2.h\<close>, \<open>cpu/pic/pic_ps2.h\<close>.

  The state is the table of 256 gates, the \<open>vectors\<close> array of the vectors some setup has installed, and the
  limit of \<open>idtr\<close>. Vectors are \<open>uint8_t\<close>, so no index leaves the arrays. Addresses of handlers come from the
  linker and are a record of parameters; \<open>isr_stub_table\<close> is the sequence of words from that label on, of
  which the assembly file fills the first \<open>ISR_STUB_COUNT\<close>.
\<close>

section \<open>Data\<close>

record segment_selector =
  rpl :: "2 word"
  ti :: bool
  sel_index :: "13 word"

record idt32_entry =
  isr_offset_low :: u16
  kernel_cs :: segment_selector
  reserved :: u8
  gate_type :: "4 word"
  bit_44_is_zero :: bool
  gate_dpl :: "2 word"
  present :: bool
  isr_offset_high :: u16

definition IDT_MAX_VECTOR_COUNT :: nat where [const_defs]: "IDT_MAX_VECTOR_COUNT = 256"

definition GT32_TASK_GATE :: u8 where [const_defs]: "GT32_TASK_GATE = 0x5"
definition GT32_IG16 :: u8 where [const_defs]: "GT32_IG16 = 0x6"
definition GT32_TG16 :: u8 where [const_defs]: "GT32_TG16 = 0x7"
definition GT32_IG32 :: u8 where [const_defs]: "GT32_IG32 = 0xe"
definition GT32_TG32 :: u8 where [const_defs]: "GT32_TG32 = 0xf"

definition is_valid_gate_type32 :: "u8 \<Rightarrow> bool" where
  "is_valid_gate_type32 gt \<longleftrightarrow> gt \<in> {GT32_TASK_GATE, GT32_IG16, GT32_TG16, GT32_IG32, GT32_TG32}"

record idt_state =
  idt :: "u8 \<Rightarrow> idt32_entry"
  vectors :: "u8 \<Rightarrow> bool"
  idtr_limit :: u16

text \<open>The addresses the linker gives to the handlers of the assembly and C++ files.\<close>

record handlers =
  isr_stub_table :: "nat \<Rightarrow> u32"
  interrupt_5_handler :: u32
  interrupt_8_handler :: u32
  interrupt_11_handler :: u32
  interrupt_13_handler :: u32
  interrupt_56_handler :: u32
  interrupt_57_handler :: u32
  apic_wait_interrupt_handler_asm :: u32
  bad_interrupt_handler :: u32
  keyboard_interrupt_handler_port1 :: u32
  keyboard_interrupt_handler_port2 :: u32
  mouse_interrupt_handler_port1 :: u32
  mouse_interrupt_handler_port2 :: u32

text \<open>How many stub addresses the assembly file puts after the label \<open>isr_stub_table\<close>.\<close>

definition ISR_STUB_COUNT :: nat where "ISR_STUB_COUNT = 49"

section \<open>Operations\<close>

definition gate :: "u32 \<Rightarrow> u8 \<Rightarrow> u8 \<Rightarrow> bool \<Rightarrow> idt32_entry" where
  "gate isr gt dpl p =
     \<lparr>isr_offset_low = ucast (isr AND 0xFFFF), kernel_cs = \<lparr>rpl = 0, ti = False, sel_index = 2\<rparr>, reserved = 0,
      gate_type = ucast gt, bit_44_is_zero = False, gate_dpl = ucast dpl, present = p,
      isr_offset_high = ucast (drop_bit 16 isr)\<rparr>"

definition idt_set_descriptor :: "u8 \<Rightarrow> u32 \<Rightarrow> u8 \<Rightarrow> u8 \<Rightarrow> bool \<Rightarrow> idt_state \<Rightarrow> idt_state exec" where
  "idt_set_descriptor vector isr gt dpl p s =
     bindE (assertE (is_valid_gate_type32 gt)) (\<lambda>_.
       ok (s\<lparr>idt := (idt s)(vector := gate isr gt dpl p)\<rparr>))"

text \<open>The pair of statements every setup makes: install a 32-bit interrupt gate, remember the vector.\<close>

definition install :: "u8 \<Rightarrow> u32 \<Rightarrow> idt_state \<Rightarrow> idt_state exec" where
  "install vector isr s =
     bindE (idt_set_descriptor vector isr GT32_IG32 0 True s) (\<lambda>s.
       ok (s\<lparr>vectors := (vectors s)(vector := True)\<rparr>))"

fun install_all :: "(u8 \<times> u32) list \<Rightarrow> idt_state \<Rightarrow> idt_state exec" where
  "install_all [] s = ok s"
| "install_all ((v, isr) # rest) s = bindE (install v isr s) (install_all rest)"

text \<open>The two loops over the stub table; with \<open>DEBUG\<close> vector 3 is left to the debugger.\<close>

definition exception_stubs :: "bool \<Rightarrow> handlers \<Rightarrow> (u8 \<times> u32) list" where
  "exception_stubs debug h =
     map (\<lambda>v. (of_nat v, isr_stub_table h v)) (filter (\<lambda>v. \<not> (debug \<and> v = 3)) [0..<32])"

definition irq_stubs :: "handlers \<Rightarrow> (u8 \<times> u32) list" where
  "irq_stubs h = map (\<lambda>v. (of_nat v, isr_stub_table h v)) (filter (\<lambda>v. v \<noteq> 34) [32..<50])"

definition idt_init :: "bool \<Rightarrow> handlers \<Rightarrow> idt_state \<Rightarrow> idt_state exec" where
  "idt_init debug h s =
     bindE (ok (s\<lparr>idtr_limit := of_nat (8 * IDT_MAX_VECTOR_COUNT - 1)\<rparr>)) (\<lambda>s.
     bindE (install_all (exception_stubs debug h) s) (\<lambda>s.
     bindE (install_all (irq_stubs h) s) (\<lambda>s.
     bindE (install 5 (interrupt_5_handler h) s) (\<lambda>s.
     bindE (install 8 (interrupt_8_handler h) s) (\<lambda>s.
     bindE (install 11 (interrupt_11_handler h) s) (\<lambda>s.
     bindE (install 13 (interrupt_13_handler h) s) (\<lambda>s.
     bindE (install 56 (interrupt_56_handler h) s) (\<lambda>s.
     bindE (install 57 (interrupt_57_handler h) s) (\<lambda>s.
     bindE (idt_set_descriptor 58 (apic_wait_interrupt_handler_asm h) GT32_IG32 0 True s) (\<lambda>s.
       ok (s\<lparr>vectors := (vectors s)(57 := True)\<rparr>)))))))))))"

text \<open>\<open>get_idt_entry\<close>: the index of the entry whose address it returns.\<close>

definition get_idt_entry :: "u8 \<Rightarrow> idt_state \<Rightarrow> u8 exec" where
  "get_idt_entry entry_index s =
     (let idt_entry_index_max = ucast (idtr_limit s div 8) in
      bindE (assertE (entry_index \<le> idt_entry_index_max)) (\<lambda>_. ok entry_index))"

definition set_present :: "bool \<Rightarrow> u8 \<Rightarrow> idt_state \<Rightarrow> idt_state" where
  "set_present p v s = s\<lparr>idt := (idt s)(v := (idt s v)\<lparr>present := p\<rparr>)\<rparr>"

definition enable_idt_entry :: "u8 \<Rightarrow> idt_state \<Rightarrow> idt_state exec" where
  "enable_idt_entry entry_index s =
     bindE (assertE (vectors s entry_index)) (\<lambda>_.
     bindE (get_idt_entry entry_index s) (\<lambda>entry. ok (set_present True entry s)))"

definition disable_idt_entry :: "u8 \<Rightarrow> idt_state \<Rightarrow> idt_state exec" where
  "disable_idt_entry entry_index s =
     bindE (get_idt_entry entry_index s) (\<lambda>entry. ok (set_present False entry s))"

section \<open>The gates of the PS/2 ports\<close>

definition bad_port :: u8 where [const_defs]: "bad_port = 255"
definition bad_irq :: u8 where [const_defs]: "bad_irq = 255"

definition PS2_PORT1_INTERUPT_VECTOR :: u8 where
  [const_defs]: "PS2_PORT1_INTERUPT_VECTOR = START_OF_USER_ALLOCATABLE_INTERRUPT + PS2_PORT1_IRQ"
definition PS2_PORT2_INTERUPT_VECTOR :: u8 where
  [const_defs]: "PS2_PORT2_INTERUPT_VECTOR = START_OF_USER_ALLOCATABLE_INTERRUPT + PS2_PORT2_IRQ"

text \<open>An array of three, indexed by a port number.\<close>

definition port_array :: "'a \<Rightarrow> 'a \<Rightarrow> 'a \<Rightarrow> u8 \<Rightarrow> 'a exec" where
  "port_array a0 a1 a2 port =
     (if port = 0 then ok a0 else if port = 1 then ok a1 else if port = 2 then ok a2 else Inl OutOfBounds)"

definition interrupt_vector_of_port :: "u8 \<Rightarrow> u8 exec" where
  "interrupt_vector_of_port = port_array bad_port PS2_PORT1_INTERUPT_VECTOR PS2_PORT2_INTERUPT_VECTOR"

definition irq_of_ps2_port :: "u8 \<Rightarrow> u8 exec" where
  "irq_of_ps2_port = port_array bad_irq PS2_PORT1_IRQ PS2_PORT2_IRQ"

definition keyboard_interrupt_handlers :: "handlers \<Rightarrow> u8 \<Rightarrow> u32 exec" where
  "keyboard_interrupt_handlers h = port_array (bad_interrupt_handler h)
     (keyboard_interrupt_handler_port1 h) (keyboard_interrupt_handler_port2 h)"

definition mouse_interrupt_handlers :: "handlers \<Rightarrow> u8 \<Rightarrow> u32 exec" where
  "mouse_interrupt_handlers h = port_array (bad_interrupt_handler h)
     (mouse_interrupt_handler_port1 h) (mouse_interrupt_handler_port2 h)"

text \<open>The tagged union of \<open>idt_ps2.h\<close>, with the fields \<open>idt_init_ps2\<close> uses (it only copies the device types).\<close>

datatype idt_init_ps2_fields =
    ITT_one_keyboard_one_mouse (keyboard_port: u8) (mouse_port: u8)
  | ITT_two_keyboard
  | ITT_two_mouse
  | ITT_one_keyboard
  | ITT_one_mouse
  | ITT_no_ps2_device

definition idt_init_ps2_quick :: "handlers \<Rightarrow> idt_state \<Rightarrow> idt_state exec" where
  "idt_init_ps2_quick h s =
     bindE (install 33 (keyboard_interrupt_handler_port1 h) s) (\<lambda>s.
       install 44 (mouse_interrupt_handler_port2 h) s)"

text \<open>
  The timer's gate (\<open>timers/pit/idt_pit.c\<close>). Its handler is an assembly routine, here the address \<open>pit_isr\<close>; the vector,
  the first one that can be allocated, is not recorded.
\<close>

definition PIT_INTERUPT_VECTOR :: u8 where [const_defs]: "PIT_INTERUPT_VECTOR = START_OF_USER_ALLOCATABLE_INTERRUPT + 0"

definition idt_init_pit :: "u32 \<Rightarrow> idt_state \<Rightarrow> idt_state exec" where
  "idt_init_pit pit_isr s = idt_set_descriptor PIT_INTERUPT_VECTOR pit_isr GT32_IG32 0 True s"

definition idt_init_ps2_keyboard_mouse :: "handlers \<Rightarrow> u8 \<Rightarrow> u8 \<Rightarrow> idt_state \<Rightarrow> idt_state exec" where
  "idt_init_ps2_keyboard_mouse h kport mport s =
     bindE (assertE (mport = 1 \<or> mport = 2)) (\<lambda>_.
     bindE (assertE (kport = 1 \<or> kport = 2)) (\<lambda>_.
     bindE (assertE (kport \<noteq> mport)) (\<lambda>_.
     bindE (interrupt_vector_of_port kport) (\<lambda>keyboard_interrupt_vector.
     bindE (keyboard_interrupt_handlers h kport) (\<lambda>keyboard_interrupt_handler.
     bindE (install keyboard_interrupt_vector keyboard_interrupt_handler s) (\<lambda>s.
     bindE (interrupt_vector_of_port mport) (\<lambda>mouse_interrupt_vector.
     bindE (mouse_interrupt_handlers h mport) (\<lambda>mouse_interrupt_handler.
       install mouse_interrupt_vector mouse_interrupt_handler s))))))))"

fun idt_init_ps2 :: "handlers \<Rightarrow> idt_init_ps2_fields \<Rightarrow> idt_state \<Rightarrow> idt_state exec" where
  "idt_init_ps2 h (ITT_one_keyboard_one_mouse kport mport) s = idt_init_ps2_keyboard_mouse h kport mport s"
| "idt_init_ps2 h ITT_two_keyboard s =
     bindE (install PS2_PORT1_INTERUPT_VECTOR (keyboard_interrupt_handler_port1 h) s) (\<lambda>s.
       install PS2_PORT2_INTERUPT_VECTOR (keyboard_interrupt_handler_port2 h) s)"
| "idt_init_ps2 h ITT_two_mouse s =
     bindE (idt_set_descriptor PS2_PORT1_INTERUPT_VECTOR (mouse_interrupt_handler_port1 h) GT32_IG32 0 True s) (\<lambda>s.
     bindE (idt_set_descriptor PS2_PORT2_INTERUPT_VECTOR (mouse_interrupt_handler_port2 h) GT32_IG32 0 True s) (\<lambda>s.
       ok (s\<lparr>vectors := (vectors s)(PS2_PORT1_INTERUPT_VECTOR := True, PS2_PORT2_INTERUPT_VECTOR := True)\<rparr>)))"
| "idt_init_ps2 h ITT_one_keyboard s =
     idt_set_descriptor PS2_PORT1_INTERUPT_VECTOR (keyboard_interrupt_handler_port1 h) GT32_IG32 0 True s"
| "idt_init_ps2 h ITT_one_mouse s =
     idt_set_descriptor PS2_PORT1_INTERUPT_VECTOR (mouse_interrupt_handler_port1 h) GT32_IG32 0 True s"
| "idt_init_ps2 h ITT_no_ps2_device s = ok s"

section \<open>The table after a setup\<close>

text \<open>A gate the processor accepts for an interrupt of ring 0: a 32-bit interrupt gate into the kernel's code segment.\<close>

definition gate_ok :: "idt32_entry \<Rightarrow> bool" where
  "gate_ok e \<longleftrightarrow> gate_type e = ucast GT32_IG32 \<and> gate_dpl e = 0 \<and> reserved e = 0 \<and> \<not> bit_44_is_zero e \<and>
     kernel_cs e = \<lparr>rpl = 0, ti = False, sel_index = 2\<rparr>"

definition isr_of :: "idt32_entry \<Rightarrow> u32" where
  "isr_of e = push_bit 16 (ucast (isr_offset_high e)) OR ucast (isr_offset_low e)"

lemma isr_of_gate [simp]: "isr_of (gate isr gt d p) = isr"
proof (rule bit_word_eqI)
  fix i assume "i < LENGTH(32)"
  moreover have "isr AND 0xFFFF = take_bit 16 isr" by (simp add: take_bit_eq_mask mask_eq_exp_minus_1)
  ultimately show "bit (isr_of (gate isr gt d p)) i = bit isr i"
    by (cases "i < 16") (auto simp: isr_of_def gate_def bit_simps)
qed

lemma gate_ok_gate [simp]: "gate_ok (gate isr GT32_IG32 0 p)"
  by (simp add: gate_ok_def gate_def)

lemma gate_present [simp]: "present (gate isr gt d p) = p"
  by (simp add: gate_def)

lemma idt_set_descriptor_IG32 [simp]:
  "idt_set_descriptor v isr GT32_IG32 d p s = ok (s\<lparr>idt := (idt s)(v := gate isr GT32_IG32 d p)\<rparr>)"
  by (simp add: idt_set_descriptor_def is_valid_gate_type32_def)

definition with_gates :: "(u8 \<times> u32) list \<Rightarrow> idt_state \<Rightarrow> idt_state" where
  "with_gates gs s = s\<lparr>idt := (\<lambda>v. case map_of (rev gs) v of None \<Rightarrow> idt s v | Some isr \<Rightarrow> gate isr GT32_IG32 0 True),
     vectors := (\<lambda>v. vectors s v \<or> v \<in> fst ` set gs)\<rparr>"

lemma install_with_gates: "install v isr s = ok (with_gates [(v, isr)] s)"
  by (auto simp: install_def with_gates_def fun_eq_iff)

lemma with_gates_append: "with_gates hs (with_gates gs s) = with_gates (gs @ hs) s"
  by (rule idt_state.equality) (auto simp: with_gates_def fun_eq_iff map_add_def split: option.splits)

lemma install_all_with_gates: "install_all gs s = ok (with_gates gs s)"
proof (induction gs s rule: install_all.induct)
  case (2 v isr rest s)
  then show ?case by (simp add: install_with_gates with_gates_append)
qed (simp add: with_gates_def)

text \<open>The gates \<open>idt_init\<close> installs, in its order.\<close>

definition init_gates :: "bool \<Rightarrow> handlers \<Rightarrow> (u8 \<times> u32) list" where
  "init_gates debug h = exception_stubs debug h @ irq_stubs h @
     [(5, interrupt_5_handler h), (8, interrupt_8_handler h), (11, interrupt_11_handler h),
      (13, interrupt_13_handler h), (56, interrupt_56_handler h), (57, interrupt_57_handler h)]"

lemma idt_init_with_gates:
  "idt_init debug h s = ok (let s' = with_gates (init_gates debug h) (s\<lparr>idtr_limit := 2047\<rparr>) in
     s'\<lparr>idt := (idt s')(58 := gate (apic_wait_interrupt_handler_asm h) GT32_IG32 0 True)\<rparr>)"
proof -
  have "vectors (with_gates (init_gates debug h) t) 57" for t
    by (simp add: with_gates_def init_gates_def)
  then show ?thesis
    by (simp add: idt_init_def install_with_gates install_all_with_gates with_gates_append init_gates_def Let_def
        IDT_MAX_VECTOR_COUNT_def fun_upd_idem)
qed

text \<open>The handler \<open>idt_init\<close> is meant to leave at each vector.\<close>

definition handler_of :: "bool \<Rightarrow> handlers \<Rightarrow> u8 \<Rightarrow> u32 option" where
  "handler_of debug h v =
     (if v = 5 then Some (interrupt_5_handler h) else if v = 8 then Some (interrupt_8_handler h)
      else if v = 11 then Some (interrupt_11_handler h) else if v = 13 then Some (interrupt_13_handler h)
      else if v = 56 then Some (interrupt_56_handler h) else if v = 57 then Some (interrupt_57_handler h)
      else if v = 58 then Some (apic_wait_interrupt_handler_asm h)
      else if debug \<and> v = 3 \<or> v = 34 then None
      else if v < 50 then Some (isr_stub_table h (unat v)) else None)"

lemma map_of_stubs:
  "b \<le> 256 \<Longrightarrow> map_of (rev (map (\<lambda>n. (of_nat n :: u8, f n)) (filter P [a..<b]))) v =
     (if a \<le> unat v \<and> unat v < b \<and> P (unat v) then Some (f (unat v)) else None)"
proof (induction b)
  case (Suc b)
  then have "unat (of_nat b :: u8) = b" by (simp add: unat_of_nat)
  then have "v = of_nat b \<longleftrightarrow> unat v = b" by (simp add: word_unat_eq_iff)
  then show ?case using Suc by (auto simp: less_Suc_eq)
qed simp

lemma stubs_at:
  "map_of (rev (exception_stubs debug h)) v =
     (if v < 32 \<and> \<not> (debug \<and> v = 3) then Some (isr_stub_table h (unat v)) else None)"
  "map_of (rev (irq_stubs h)) v =
     (if 32 \<le> v \<and> v < 50 \<and> v \<noteq> 34 then Some (isr_stub_table h (unat v)) else None)"
  unfolding exception_stubs_def irq_stubs_def by (subst map_of_stubs; auto simp: word_less_nat_alt word_le_nat_alt word_unat_eq_iff)+

lemma init_gates_at:
  assumes "v \<noteq> 58"
  shows "map_of (rev (init_gates debug h)) v = handler_of debug h v"
proof -
  have "v < 32 \<Longrightarrow> v < 50" by (erule less_trans) simp
  then show ?thesis
    using assms by (auto simp: init_gates_def handler_of_def stubs_at map_add_def not_le)
qed

lemma init_gates_vectors: "v \<in> fst ` set (init_gates debug h) \<longleftrightarrow> v \<noteq> 58 \<and> handler_of debug h v \<noteq> None"
proof (cases "v = 58")
  case False
  then show ?thesis
    using init_gates_at [OF False, of debug h] map_of_eq_None_iff [of "rev (init_gates debug h)" v] by auto
next
  case True
  have "map_of (rev (init_gates debug h)) 58 = None"
    by (simp add: init_gates_def stubs_at map_add_def)
  then show ?thesis using True by (simp add: map_of_eq_None_iff)
qed

lemma idt_init_result:
  "\<exists>s'. idt_init debug h s = ok s' \<and> idtr_limit s' = 2047 \<and>
     (\<forall>v. idt s' v = (case handler_of debug h v of None \<Rightarrow> idt s v | Some isr \<Rightarrow> gate isr GT32_IG32 0 True)) \<and>
     (\<forall>v. vectors s' v = (vectors s v \<or> v \<noteq> 58 \<and> handler_of debug h v \<noteq> None))"
proof -
  let ?s = "with_gates (init_gates debug h) (s\<lparr>idtr_limit := 2047\<rparr>)"
  have "idt ?s v = (case handler_of debug h v of None \<Rightarrow> idt s v | Some isr \<Rightarrow> gate isr GT32_IG32 0 True)"
    if "v \<noteq> 58" for v
    using that by (simp add: with_gates_def init_gates_at cong: option.case_cong)
  moreover have "handler_of debug h 58 = Some (apic_wait_interrupt_handler_asm h)"
    by (simp add: handler_of_def)
  moreover have "vectors ?s v = (vectors s v \<or> v \<noteq> 58 \<and> handler_of debug h v \<noteq> None)" for v
    by (simp add: with_gates_def init_gates_vectors)
  moreover have "idtr_limit ?s = 2047" by (simp add: with_gates_def)
  ultimately show ?thesis by (simp add: idt_init_with_gates Let_def)
qed

section \<open>What every sequence of setups keeps\<close>

text \<open>
  The kernel starts with a zeroed table and then calls the operations in whatever order: the step relation is
  any of them that returns. Every direct call of \<open>idt_set_descriptor\<close> in the kernel asks for a 32-bit interrupt gate of
  ring 0; such calls, for any vector and routine, are steps too. The invariant: a vector marked as installed has a
  well-formed gate.
\<close>

definition idt_boot :: "idt_state \<Rightarrow> bool" where
  "idt_boot s \<longleftrightarrow> (\<forall>v. \<not> vectors s v) \<and> idtr_limit s = 0"

inductive idt_step :: "bool \<Rightarrow> handlers \<Rightarrow> idt_state \<Rightarrow> idt_state \<Rightarrow> bool" for debug h where
  step_init: "idt_init debug h s = ok s' \<Longrightarrow> idt_step debug h s s'"
| step_ps2: "idt_init_ps2 h args s = ok s' \<Longrightarrow> idt_step debug h s s'"
| step_pit: "idt_init_pit pit_isr s = ok s' \<Longrightarrow> idt_step debug h s s'"
| step_descriptor: "idt_set_descriptor v isr GT32_IG32 0 p s = ok s' \<Longrightarrow> idt_step debug h s s'"
| step_quick: "idt_init_ps2_quick h s = ok s' \<Longrightarrow> idt_step debug h s s'"
| step_enable: "enable_idt_entry v s = ok s' \<Longrightarrow> idt_step debug h s s'"
| step_disable: "disable_idt_entry v s = ok s' \<Longrightarrow> idt_step debug h s s'"

definition idt_inv :: "idt_state \<Rightarrow> bool" where
  "idt_inv s \<longleftrightarrow> (\<forall>v. vectors s v \<longrightarrow> gate_ok (idt s v)) \<and> (idtr_limit s = 0 \<or> idtr_limit s = 2047)"

lemma gate_ok_present [simp]: "gate_ok (e\<lparr>present := p\<rparr>) = gate_ok e"
  by (simp add: gate_ok_def)

lemma get_idt_entry_ok: "get_idt_entry v s = ok w \<Longrightarrow> w = v"
  by (auto simp: get_idt_entry_def bindE_Inr_iff)

lemma get_idt_entry_0: "idtr_limit s = 0 \<Longrightarrow> get_idt_entry v s = (if v = 0 then ok v else Inl Abort)"
  by (simp add: get_idt_entry_def)

lemma get_idt_entry_2047: "idtr_limit s = 2047 \<Longrightarrow> get_idt_entry v s = ok v"
proof -
  have "v \<le> - 1" by (rule word_order.extremum)
  moreover have "(- 1 :: u8) = 255" by simp
  ultimately show "idtr_limit s = 2047 \<Longrightarrow> get_idt_entry v s = ok v"
    by (simp add: get_idt_entry_def)
qed

lemma inv_with_gates: "idt_inv s \<Longrightarrow> idt_inv (with_gates gs s)"
proof -
  assume inv: "idt_inv s"
  have "gate_ok (idt (with_gates gs s) v)" if "vectors (with_gates gs s) v" for v
  proof (cases "map_of (rev gs) v")
    case None
    then have "v \<notin> fst ` set gs" by (simp add: map_of_eq_None_iff)
    then show ?thesis using that inv None by (simp add: with_gates_def idt_inv_def)
  qed (simp add: with_gates_def)
  then show ?thesis using inv by (simp add: idt_inv_def with_gates_def)
qed

lemma inv_set_gate: "idt_inv s \<Longrightarrow> idt_inv (s\<lparr>idt := (idt s)(v := gate isr GT32_IG32 0 p)\<rparr>)"
  by (simp add: idt_inv_def)

lemma inv_set_present: "idt_inv s \<Longrightarrow> idt_inv (set_present p v s)"
  by (simp add: idt_inv_def set_present_def)

lemma inv_init: "idt_inv s \<Longrightarrow> idt_init debug h s = ok s' \<Longrightarrow> idt_inv s'"
  using idt_init_result [of debug h s] by (auto simp: idt_inv_def split: option.splits)

lemma inv_ps2:
  assumes "idt_inv s" and "idt_init_ps2 h args s = ok s'"
  shows "idt_inv s'"
proof (cases args)
  case (ITT_one_keyboard_one_mouse kport mport)
  then show ?thesis
    using assms by (auto simp: idt_init_ps2_keyboard_mouse_def install_with_gates bindE_Inr_iff intro!: inv_with_gates)
next
  case ITT_two_mouse
  then show ?thesis
    using assms inv_with_gates [OF inv_with_gates [OF assms(1)],
        of "[(PS2_PORT2_INTERUPT_VECTOR, mouse_interrupt_handler_port2 h)]"
          "[(PS2_PORT1_INTERUPT_VECTOR, mouse_interrupt_handler_port1 h)]"]
    by (auto simp: idt_inv_def with_gates_def split: if_splits)
qed (use assms in \<open>auto simp: install_with_gates bindE_Inr_iff intro!: inv_with_gates inv_set_gate\<close>)

lemma idt_inv_step: "idt_inv s \<Longrightarrow> idt_step debug h s s' \<Longrightarrow> idt_inv s'"
  by (erule idt_step.cases)
     (auto simp: idt_init_ps2_quick_def idt_init_pit_def install_with_gates enable_idt_entry_def disable_idt_entry_def bindE_Inr_iff
       intro: inv_init inv_ps2 inv_with_gates inv_set_present inv_set_gate)

interpretation idt_system: system_invariant idt_boot "idt_step debug h" idt_inv for debug h
proof unfold_locales
  show "idt_boot s \<Longrightarrow> idt_inv s" for s by (simp add: idt_boot_def idt_inv_def)
  show "idt_inv s \<Longrightarrow> idt_step debug h s s' \<Longrightarrow> idt_inv s'" for s s' by (rule idt_inv_step)
qed

section \<open>Properties\<close>

text \<open>
  Initialising the table always returns and leaves at each vector exactly the gate the kernel means to have
  there: a present ring-0 32-bit interrupt gate to the stub or handler of that vector, every other entry
  untouched; and it records every vector it installed, except 58.
\<close>

theorem idt_init_gates:
  "\<exists>s'. idt_init debug h s = ok s' \<and>
     (\<forall>v. idt s' v = (case handler_of debug h v of None \<Rightarrow> idt s v | Some isr \<Rightarrow> gate isr GT32_IG32 0 True)) \<and>
     (\<forall>v. vectors s' v = (vectors s v \<or> v \<noteq> 58 \<and> handler_of debug h v \<noteq> None)) \<and>
     isr_of (idt s' 14) = isr_stub_table h 14 \<and> gate_ok (idt s' 14) \<and>
     isr_of (idt s' 49) = isr_stub_table h ISR_STUB_COUNT"
proof -
  obtain s' where s': "idt_init debug h s = ok s'"
    and gates: "\<And>v. idt s' v = (case handler_of debug h v of None \<Rightarrow> idt s v | Some isr \<Rightarrow> gate isr GT32_IG32 0 True)"
    and vecs: "\<And>v. vectors s' v = (vectors s v \<or> v \<noteq> 58 \<and> handler_of debug h v \<noteq> None)"
    using idt_init_result by blast
  have "handler_of debug h 14 = Some (isr_stub_table h 14)" "handler_of debug h 49 = Some (isr_stub_table h 49)"
    by (simp_all add: handler_of_def)
  then show ?thesis using s' gates vecs by (simp add: ISR_STUB_COUNT_def)
qed

text \<open>
  (C19) From boot, through any sequence of table operations (the set-ups of exceptions, keyboard and mouse and timer, single
  descriptors, enabling and disabling), every vector recorded as installed has a well-formed ring-0 interrupt
  gate. Enabling such an entry never exposes an uninitialised descriptor: once \<open>idt_init\<close> has set the limit of the table
  it makes the entry present and leaves its routine alone, and before that, when the limit is 0, it aborts for every vector but 0.
\<close>

theorem reachable_vectors_have_gates:
  assumes "reach idt_boot (idt_step debug h) s" and "vectors s v"
  shows "gate_ok (idt s v) \<and>
    (if idtr_limit s = 0 \<and> v \<noteq> 0 then enable_idt_entry v s = Inl Abort
     else \<exists>s'. enable_idt_entry v s = ok s' \<and> present (idt s' v) \<and> gate_ok (idt s' v) \<and> isr_of (idt s' v) = isr_of (idt s v))"
proof -
  have inv: "idt_inv s" by (rule idt_system.reach_inv [OF assms(1)])
  have lim: "get_idt_entry v s = (if idtr_limit s = 0 \<and> v \<noteq> 0 then Inl Abort else ok v)"
    using inv by (cases "idtr_limit s = 0") (simp_all add: get_idt_entry_0 get_idt_entry_2047 idt_inv_def)
  have "enable_idt_entry v s = (if idtr_limit s = 0 \<and> v \<noteq> 0 then Inl Abort else ok (set_present True v s))"
    using assms(2) by (simp add: enable_idt_entry_def lim)
  then show ?thesis using inv assms(2) by (simp add: idt_inv_def set_present_def isr_of_def)
qed

definition example_boot :: idt_state where
  "example_boot = \<lparr>idt = (\<lambda>_. (gate 0 0 0 False)), vectors = (\<lambda>_. False), idtr_limit = 0\<rparr>"

definition example_handlers :: handlers where
  "example_handlers = \<lparr>isr_stub_table = (\<lambda>n. 0x201000 + 16 * of_nat n), interrupt_5_handler = 0x202000,
     interrupt_8_handler = 0x202010, interrupt_11_handler = 0x202020, interrupt_13_handler = 0x202030,
     interrupt_56_handler = 0x202040, interrupt_57_handler = 0x202050, apic_wait_interrupt_handler_asm = 0x202060,
     bad_interrupt_handler = 0x202070, keyboard_interrupt_handler_port1 = 0x202080,
     keyboard_interrupt_handler_port2 = 0x202090, mouse_interrupt_handler_port1 = 0x2020A0,
     mouse_interrupt_handler_port2 = 0x2020B0\<rparr>"

lemma idt_init_reachable:
  assumes "idt_boot s"
  shows "\<exists>s'. idt_init debug h s = ok s' \<and> reach idt_boot (idt_step debug h) s' \<and> idtr_limit s' = 2047 \<and>
     (\<forall>v. vectors s' v = (v \<noteq> 58 \<and> handler_of debug h v \<noteq> None)) \<and>
     (\<forall>v isr. handler_of debug h v = Some isr \<longrightarrow> idt s' v = gate isr GT32_IG32 0 True)"
proof -
  obtain s' where s': "idt_init debug h s = ok s'" "idtr_limit s' = 2047"
    "\<And>v. idt s' v = (case handler_of debug h v of None \<Rightarrow> idt s v | Some isr \<Rightarrow> gate isr GT32_IG32 0 True)"
    "\<And>v. vectors s' v = (vectors s v \<or> v \<noteq> 58 \<and> handler_of debug h v \<noteq> None)"
    using idt_init_result by blast
  have "reach idt_boot (idt_step debug h) s'"
    using assms step_init [OF s'(1)] by (blast intro: reach_step [of idt_boot _ s] reach_init [of idt_boot s])
  then show ?thesis using s' assms by (simp add: idt_boot_def)
qed

theorem reachable_vectors_have_gates_witness:
  "\<exists>s. reach idt_boot (idt_step False example_handlers) s \<and> gate_ok (idt s 33) \<and>
     (\<exists>s'. enable_idt_entry 33 s = ok s' \<and> present (idt s' 33) \<and> isr_of (idt s' 33) = 0x201210)"
proof -
  have boot: "idt_boot example_boot" by (simp add: idt_boot_def example_boot_def)
  obtain s where s: "reach idt_boot (idt_step False example_handlers) s" "idtr_limit s = 2047"
    "\<And>v. vectors s v = (v \<noteq> 58 \<and> handler_of False example_handlers v \<noteq> None)"
    "\<And>v isr. handler_of False example_handlers v = Some isr \<Longrightarrow> idt s v = gate isr GT32_IG32 0 True"
    using idt_init_reachable [OF boot, of False example_handlers] by auto
  have h: "handler_of False example_handlers 33 = Some 0x201210"
    by (simp add: handler_of_def example_handlers_def)
  have "vectors s 33" "idtr_limit s \<noteq> 0" using s(2,3) h by simp_all
  with reachable_vectors_have_gates [OF s(1), of 33] show ?thesis using s(1) s(4) [OF h] by auto
qed

text \<open>
  The vector of the APIC wait interrupt: \<open>idt_init\<close> installs its gate but records vector 57 a second time
  instead of 58, so after booting the entry can be disabled and then never enabled again: enabling it aborts.
\<close>

theorem wait_vector_not_recorded:
  "\<exists>s' s''. idt_init debug h example_boot = ok s' \<and> isr_of (idt s' 58) = apic_wait_interrupt_handler_asm h \<and>
     present (idt s' 58) \<and> \<not> vectors s' 58 \<and>
     disable_idt_entry 58 s' = ok s'' \<and> \<not> present (idt s'' 58) \<and> enable_idt_entry 58 s'' = Inl Abort"
proof -
  have boot: "idt_boot example_boot" by (simp add: idt_boot_def example_boot_def)
  obtain s' where s': "idt_init debug h example_boot = ok s'" "idtr_limit s' = 2047"
    "\<And>v. vectors s' v = (v \<noteq> 58 \<and> handler_of debug h v \<noteq> None)"
    "\<And>v isr. handler_of debug h v = Some isr \<Longrightarrow> idt s' v = gate isr GT32_IG32 0 True"
    using idt_init_reachable [OF boot, of debug h] by auto
  have "handler_of debug h 58 = Some (apic_wait_interrupt_handler_asm h)" by (simp add: handler_of_def)
  then show ?thesis
    using s' by (simp add: disable_idt_entry_def enable_idt_entry_def get_idt_entry_2047 set_present_def)
qed

text \<open>
  With a keyboard and a mouse on the two ports, in either order, \<open>idt_init_ps2\<close> installs at the vector of
  each port's interrupt line the handler of the device on that port and records both vectors; with a port
  number that is not 1 or 2, or the same port twice, it aborts without changing the table.
\<close>

theorem idt_init_ps2_gates:
  "idt_init_ps2 h (ITT_one_keyboard_one_mouse kport mport) s =
     (if (kport, mport) = (1, 2) then ok (with_gates [(33, keyboard_interrupt_handler_port1 h), (44, mouse_interrupt_handler_port2 h)] s)
      else if (kport, mport) = (2, 1) then ok (with_gates [(44, keyboard_interrupt_handler_port2 h), (33, mouse_interrupt_handler_port1 h)] s)
      else Inl Abort)"
  by (auto simp: idt_init_ps2_keyboard_mouse_def assertE_def interrupt_vector_of_port_def
      keyboard_interrupt_handlers_def mouse_interrupt_handlers_def port_array_def install_with_gates
      with_gates_append const_defs)

text \<open>
  Disabling an entry and enabling it again gives back the same table when the entry was installed and
  present, after initialisation; both operations change nothing but that entry's present bit.
\<close>

theorem disable_enable_idt_entry:
  assumes "idtr_limit s = 2047" and "vectors s v" and "present (idt s v)"
  shows "\<exists>t. disable_idt_entry v s = ok t \<and> \<not> present (idt t v) \<and> (idt t)(v := idt s v) = idt s \<and>
     enable_idt_entry v t = ok s"
proof -
  have "(idt s v)\<lparr>present := True\<rparr> = idt s v" using assms(3) by (cases "idt s v") simp
  then have "s\<lparr>idt := (idt s)(v := (idt s v)\<lparr>present := True\<rparr>)\<rparr> = s" by simp
  then show ?thesis
    using assms by (simp add: disable_idt_entry_def enable_idt_entry_def get_idt_entry_2047 set_present_def)
qed

theorem disable_enable_idt_entry_witness:
  "\<exists>t. disable_idt_entry 7 (with_gates [(7, 0x1234)] (example_boot\<lparr>idtr_limit := 2047\<rparr>)) = ok t \<and>
     \<not> present (idt t 7) \<and>
     enable_idt_entry 7 t = ok (with_gates [(7, 0x1234)] (example_boot\<lparr>idtr_limit := 2047\<rparr>))"
  using disable_enable_idt_entry [of "with_gates [(7, 0x1234)] (example_boot\<lparr>idtr_limit := 2047\<rparr>)" 7]
  by (auto simp: with_gates_def)

end
