(* ===== verification/Ps2_Keyboard.thy ===== *)
theory Ps2_Keyboard
  imports Ps2_Protocol Idt
begin

text \<open>
  The command side of the PS/2 keyboard driver (\<open>drivers/ps2/keyboard/ps2_keyboard.c\<close>,
  \<open>ps2_keyboard.h\<close>, \<open>ps2_keyboard_public.h\<close>): which port and interrupt line the active keyboard has, the
  acknowledged transmission of a byte with its bounded resends, and one function per keyboard command.

  The global \<open>kps\<close> is an argument, and part of the result of the functions that assign it. A response is the
  32-bit value of its enumeration, so that the \<open>-1\<close> of the error returns is kept.
\<close>

section \<open>Data\<close>

definition KCB_setLEDs :: u8 where [const_defs]: "KCB_setLEDs = 0xED"
definition KCB_echo :: u8 where [const_defs]: "KCB_echo = 0xEE"
definition KCB_get_set_ScanCodeSet :: u8 where [const_defs]: "KCB_get_set_ScanCodeSet = 0xF0"
definition KCB_identify_keyboard :: u8 where [const_defs]: "KCB_identify_keyboard = 0xF2"
definition KCB_set_typematic_rate_delay :: u8 where [const_defs]: "KCB_set_typematic_rate_delay = 0xF3"
definition KCB_enable_scanning :: u8 where [const_defs]: "KCB_enable_scanning = 0xF4"
definition KCB_disable_scanning :: u8 where [const_defs]: "KCB_disable_scanning = 0xF5"
definition KCB_set_default_parameters :: u8 where [const_defs]: "KCB_set_default_parameters = 0xF6"
definition KCB_set_all_to_typematic_autorepeat :: u8 where
  [const_defs]: "KCB_set_all_to_typematic_autorepeat = 0xF7"
definition KCB_set_all_to_make_release :: u8 where [const_defs]: "KCB_set_all_to_make_release = 0xF8"
definition KCB_set_all_to_make_only :: u8 where [const_defs]: "KCB_set_all_to_make_only = 0xF9"
definition KCB_set_all_to_typematic_autorepeat_make_release :: u8 where
  [const_defs]: "KCB_set_all_to_typematic_autorepeat_make_release = 0xFA"
definition KCB_set_specific_to_typematic_autorepeat_only :: u8 where
  [const_defs]: "KCB_set_specific_to_typematic_autorepeat_only = 0xFB"
definition KCB_set_specific_to_make_release :: u8 where [const_defs]: "KCB_set_specific_to_make_release = 0xFC"
definition KCB_set_specific_to_make_only :: u8 where [const_defs]: "KCB_set_specific_to_make_only = 0xFD"
definition KCB_resend_last_byte :: u8 where [const_defs]: "KCB_resend_last_byte = 0xFE"
definition KCB_reset_and_self_test :: u8 where [const_defs]: "KCB_reset_and_self_test = 0xFF"

definition KRB_self_test_passed :: u8 where [const_defs]: "KRB_self_test_passed = 0xAA"
definition KRB_echo_response :: u8 where [const_defs]: "KRB_echo_response = 0xEE"
definition KRB_command_acknowledged :: u8 where [const_defs]: "KRB_command_acknowledged = 0xFA"
definition KRB_resend :: u8 where [const_defs]: "KRB_resend = 0xFE"

datatype ps2_keyboard_error_code =
    PS2_KB_ERR_none
  | PS2_KB_ERR_invalid_command
  | PS2_KB_ERR_could_not_send_command
  | PS2_KB_ERR_could_not_recieve_response
  | PS2_KB_ERR_resend_too_much
  | PS2_KB_ERR_non_ack_response
  | PS2_KB_ERR_response_was_not_echo
  | PS2_KB_ERR_invalid_scancode
  | PS2_KB_ERR_self_test_failed

text \<open>The self-test error has no case of its own in the source.\<close>

definition ps2_keyboard_error_to_string :: "ps2_keyboard_error_code \<Rightarrow> string" where
  "ps2_keyboard_error_to_string code = (case code of
     PS2_KB_ERR_none \<Rightarrow> ''No error''
   | PS2_KB_ERR_invalid_command \<Rightarrow> ''Invalid command (Runtime check in static inline wrapper)''
   | PS2_KB_ERR_could_not_send_command \<Rightarrow> ''Could not send command''
   | PS2_KB_ERR_could_not_recieve_response \<Rightarrow> ''Could not receive response''
   | PS2_KB_ERR_resend_too_much \<Rightarrow> ''Resend attempted too many times''
   | PS2_KB_ERR_non_ack_response \<Rightarrow> ''Non-acknowledged response''
   | PS2_KB_ERR_response_was_not_echo \<Rightarrow> ''Response was not echo''
   | PS2_KB_ERR_invalid_scancode \<Rightarrow> ''Invalid scancode''
   | PS2_KB_ERR_self_test_failed \<Rightarrow> ''Unknown error'')"

record ps2_keyboard_verified_response =
  k_err :: ps2_keyboard_error_code
  k_response :: u32

record kcb_led_state =
  ScrollLock :: bool
  NumberLock :: bool
  CapsLock :: bool
  led_reserved :: "5 word"

definition kcb_led_state_raw :: "kcb_led_state \<Rightarrow> u8" where
  "kcb_led_state_raw l = of_bool (ScrollLock l) OR push_bit 1 (of_bool (NumberLock l)) OR
     push_bit 2 (of_bool (CapsLock l)) OR push_bit 3 (ucast (led_reserved l))"

record kcb_typematic =
  repeat_rate :: "5 word"
  delay_repeat :: "2 word"
  must_be_zero :: bool

definition kcb_typematic_raw :: "kcb_typematic \<Rightarrow> u8" where
  "kcb_typematic_raw t = ucast (repeat_rate t) OR push_bit 5 (ucast (delay_repeat t)) OR
     push_bit 7 (of_bool (must_be_zero t))"

record kps =
  initialized :: bool
  number_of_keyboards :: u8
  active_port :: u8
  active_irq :: u8
  active_interrupt_vector :: u8
  active_scancode_set :: u8

section \<open>The active keyboard\<close>

definition set_irq_and_vector :: "kps \<Rightarrow> kps" where
  "set_irq_and_vector k =
     (if active_port k = 1
      then k\<lparr>active_interrupt_vector := PS2_PORT1_INTERUPT_VECTOR, active_irq := PS2_PORT1_IRQ\<rparr>
      else k\<lparr>active_interrupt_vector := PS2_PORT2_INTERUPT_VECTOR, active_irq := PS2_PORT2_IRQ\<rparr>)"

definition set_single_keyboard_port :: "u8 \<Rightarrow> kps \<Rightarrow> kps" where
  "set_single_keyboard_port single_keyboard_port k =
     (set_irq_and_vector (k\<lparr>active_port := single_keyboard_port, number_of_keyboards := 1\<rparr>))\<lparr>initialized := True\<rparr>"

definition quick_k_init :: "kps \<Rightarrow> kps" where
  "quick_k_init k = (set_single_keyboard_port 1 k)\<lparr>active_scancode_set := 1\<rparr>"

definition set_dual_keyboard_port :: "kps \<Rightarrow> (iolog, kps) state" where
  "set_dual_keyboard_port k = do {
     kprintf ''[PANIC-WARNING] Dual keyboard ports commands works by setting the active keyboard\<newline>'' [];
     kprintf ''[PANIC-WARNING] No currently selected keyboard'' [];
     kprintf ''[PANIC-WARNING] Need to do: set_active_keyboard_for_commands(1 or 2);\<newline>'' [];
     ret (k\<lparr>number_of_keyboards := 2\<rparr>)
   }"

definition set_active_keyboard_for_commands :: "u8 \<Rightarrow> kps \<Rightarrow> kps exec" where
  "set_active_keyboard_for_commands keyboard_idx k =
     bindE (assertE (number_of_keyboards k > 1)) (\<lambda>_.
     bindE (assertE (keyboard_idx \<le> number_of_keyboards k)) (\<lambda>_.
       ok (set_irq_and_vector (k\<lparr>active_port := keyboard_idx\<rparr>))))"

definition disable_keyboard_interrupts :: "kps \<Rightarrow> idt_state \<Rightarrow> idt_state exec" where
  "disable_keyboard_interrupts k = disable_idt_entry (active_interrupt_vector k)"

definition enable_keyboard_interrupts :: "kps \<Rightarrow> idt_state \<Rightarrow> idt_state exec" where
  "enable_keyboard_interrupts k = enable_idt_entry (active_interrupt_vector k)"

definition validate_keyboard_command :: "u8 \<Rightarrow> bool" where
  "validate_keyboard_command cmd \<longleftrightarrow> cmd \<in> {KCB_setLEDs, KCB_echo, KCB_get_set_ScanCodeSet, KCB_identify_keyboard,
     KCB_set_typematic_rate_delay, KCB_enable_scanning, KCB_disable_scanning, KCB_set_default_parameters,
     KCB_set_all_to_typematic_autorepeat, KCB_set_all_to_make_release, KCB_set_all_to_make_only,
     KCB_set_all_to_typematic_autorepeat_make_release, KCB_set_specific_to_typematic_autorepeat_only,
     KCB_set_specific_to_make_release, KCB_set_specific_to_make_only, KCB_resend_last_byte,
     KCB_reset_and_self_test}"

section \<open>Sending a byte\<close>

definition kb_failed :: "ps2_keyboard_error_code \<Rightarrow> ps2_keyboard_verified_response" where
  "kb_failed e = \<lparr>k_err = e, k_response = - 1\<rparr>"

definition print_controller_error :: "ps2_controller_error_code \<Rightarrow> (iolog, unit) state" where
  "print_controller_error c_err = kprintf ''The ps2_controller error: %d, |%s|\<newline>''
     [KI (ps2_err_value c_err), KS (PS2_OS_Error_to_string c_err)]"

text \<open>The loop \<open>while (response_count < max_response_repeat)\<close>, with the rounds left as the argument.\<close>

fun send_data_loop :: "hw \<Rightarrow> kps \<Rightarrow> u8 \<Rightarrow> nat \<Rightarrow> (iolog, ps2_keyboard_verified_response) state" where
  "send_data_loop hw k data 0 = ret (kb_failed PS2_KB_ERR_resend_too_much)"
| "send_data_loop hw k data (Suc n) = do {
     c_err \<leftarrow> send_command_or_data_to_ps2_port hw (active_port k) data;
     if c_err \<noteq> PS2_ERR_none then ret (kb_failed PS2_KB_ERR_could_not_send_command)
     else do {
       c_err \<leftarrow> wait_till_ready_for_response hw;
       if c_err \<noteq> PS2_ERR_none then do {
         print_controller_error c_err;
         ret (kb_failed PS2_KB_ERR_could_not_recieve_response)
       }
       else do {
         r \<leftarrow> ps2_recieve_raw_response hw;
         if r = KRB_resend then send_data_loop hw k data n
         else if r = KRB_command_acknowledged then ret \<lparr>k_err = PS2_KB_ERR_none, k_response = ucast r\<rparr>
         else ret \<lparr>k_err = PS2_KB_ERR_non_ack_response, k_response = ucast r\<rparr>
       }
     }
   }"

definition max_response_repeat :: nat where "max_response_repeat = 3"

definition send_data_to_ps2_keyboard :: "hw \<Rightarrow> kps \<Rightarrow> u8 \<Rightarrow> (iolog, ps2_keyboard_verified_response) state" where
  "send_data_to_ps2_keyboard hw k data = send_data_loop hw k data max_response_repeat"

definition send_command_to_ps2_keyboard :: "hw \<Rightarrow> kps \<Rightarrow> u8 \<Rightarrow> (iolog, ps2_keyboard_verified_response) state" where
  "send_command_to_ps2_keyboard hw k command =
     (if \<not> validate_keyboard_command command
      then ret \<lparr>k_err = PS2_KB_ERR_invalid_command, k_response = 0\<rparr>
      else send_data_to_ps2_keyboard hw k command)"

definition send_setter_subcommand_to_ps2_keyboard ::
    "hw \<Rightarrow> kps \<Rightarrow> u8 \<Rightarrow> (iolog, ps2_keyboard_verified_response) state" where
  "send_setter_subcommand_to_ps2_keyboard hw k subcommand_data = send_data_to_ps2_keyboard hw k subcommand_data"

definition send_getter_subcommand_to_ps2_keyboard ::
    "hw \<Rightarrow> kps \<Rightarrow> u8 \<Rightarrow> (iolog, ps2_keyboard_verified_response) state" where
  "send_getter_subcommand_to_ps2_keyboard hw k subcommand_data = do {
     v \<leftarrow> send_data_to_ps2_keyboard hw k subcommand_data;
     if k_err v \<noteq> PS2_KB_ERR_none then ret (kb_failed (k_err v))
     else do {
       c_err \<leftarrow> wait_till_ready_for_response hw;
       if c_err \<noteq> PS2_ERR_none then do {
         print_controller_error c_err;
         ret (kb_failed PS2_KB_ERR_could_not_recieve_response)
       }
       else do {
         r \<leftarrow> ps2_recieve_raw_response hw;
         ret \<lparr>k_err = PS2_KB_ERR_none, k_response = ucast r\<rparr>
       }
     }
   }"

section \<open>The keyboard commands\<close>

text \<open>The two shapes most commands have: a command, and a command followed by its data byte.\<close>

definition one_byte_command :: "hw \<Rightarrow> kps \<Rightarrow> u8 \<Rightarrow> (iolog, ps2_keyboard_error_code) state" where
  "one_byte_command hw k command = do {
     obtained \<leftarrow> send_command_to_ps2_keyboard hw k command;
     if k_err obtained \<noteq> PS2_KB_ERR_none then ret (k_err obtained) else ret PS2_KB_ERR_none
   }"

definition two_byte_command :: "hw \<Rightarrow> kps \<Rightarrow> u8 \<Rightarrow> u8 \<Rightarrow> (iolog, ps2_keyboard_error_code) state" where
  "two_byte_command hw k command data = do {
     obtained \<leftarrow> send_command_to_ps2_keyboard hw k command;
     if k_err obtained \<noteq> PS2_KB_ERR_none then ret (k_err obtained)
     else do {
       obtained \<leftarrow> send_setter_subcommand_to_ps2_keyboard hw k data;
       if k_err obtained \<noteq> PS2_KB_ERR_none then ret (k_err obtained) else ret PS2_KB_ERR_none
     }
   }"

definition set_leds :: "hw \<Rightarrow> kps \<Rightarrow> kcb_led_state \<Rightarrow> (iolog, ps2_keyboard_error_code) state" where
  "set_leds hw k led_state = two_byte_command hw k KCB_setLEDs (kcb_led_state_raw led_state)"

definition echo_keyboard :: "hw \<Rightarrow> kps \<Rightarrow> (iolog, ps2_keyboard_error_code) state" where
  "echo_keyboard hw k = do {
     obtained \<leftarrow> send_command_to_ps2_keyboard hw k KCB_echo;
     if k_err obtained \<noteq> PS2_KB_ERR_non_ack_response then ret (k_err obtained)
     else if k_response obtained \<noteq> ucast KRB_echo_response then ret PS2_KB_ERR_response_was_not_echo
     else do {
       kprintf ''The echo response: %h\<newline>'' [KU (k_response obtained)];
       ret PS2_KB_ERR_none
     }
   }"

text \<open>The scan code set is an enumeration; the only caller outside the range would abort.\<close>

definition set_scan_code_set :: "hw \<Rightarrow> u32 \<Rightarrow> kps \<Rightarrow> (iolog, (ps2_keyboard_error_code \<times> kps) exec) state" where
  "set_scan_code_set hw scan_code_set k =
     (if scan_code_set = 0 \<or> scan_code_set > 3 then do {
        kprintf ''can't set with scancode = %u\<newline>'' [KU scan_code_set];
        ret (Inl Abort)
      }
      else do {
        obtained \<leftarrow> send_command_to_ps2_keyboard hw k KCB_get_set_ScanCodeSet;
        if k_err obtained \<noteq> PS2_KB_ERR_none then do {
          kprintf ''Error sending the command to set scancode set!\<newline>'' [];
          ret (ok (k_err obtained, k))
        }
        else do {
          obtained \<leftarrow> send_setter_subcommand_to_ps2_keyboard hw k (ucast scan_code_set);
          if k_err obtained \<noteq> PS2_KB_ERR_none then do {
            kprintf ''Error sending the special scan code set\<newline>!'' [];
            ret (ok (k_err obtained, k))
          }
          else ret (ok (PS2_KB_ERR_none, k\<lparr>active_scancode_set := ucast scan_code_set\<rparr>))
        }
      })"

definition get_scan_code_set :: "hw \<Rightarrow> kps \<Rightarrow> (iolog, ps2_keyboard_verified_response) state" where
  "get_scan_code_set hw k = do {
     obtained \<leftarrow> send_command_to_ps2_keyboard hw k KCB_get_set_ScanCodeSet;
     if k_err obtained \<noteq> PS2_KB_ERR_none then ret (kb_failed (k_err obtained))
     else do {
       obtained \<leftarrow> send_getter_subcommand_to_ps2_keyboard hw k 0;
       if k_err obtained \<noteq> PS2_KB_ERR_none then ret (kb_failed (k_err obtained))
       else if k_response obtained = 0 \<or> k_response obtained > 3 then ret (kb_failed PS2_KB_ERR_invalid_scancode)
       else ret \<lparr>k_err = PS2_KB_ERR_none, k_response = k_response obtained\<rparr>
     }
   }"

definition set_typematic :: "hw \<Rightarrow> kps \<Rightarrow> kcb_typematic \<Rightarrow> (iolog, ps2_keyboard_error_code) state" where
  "set_typematic hw k rate_and_delay =
     two_byte_command hw k KCB_set_typematic_rate_delay (kcb_typematic_raw rate_and_delay)"

definition enable_scanning :: "hw \<Rightarrow> kps \<Rightarrow> (iolog, ps2_keyboard_error_code) state" where
  "enable_scanning hw k = one_byte_command hw k KCB_enable_scanning"

text \<open>The source sends the enabling command here too.\<close>

definition disable_scanning :: "hw \<Rightarrow> kps \<Rightarrow> (iolog, ps2_keyboard_error_code) state" where
  "disable_scanning hw k = one_byte_command hw k KCB_enable_scanning"

definition set_default_parameters :: "hw \<Rightarrow> kps \<Rightarrow> (iolog, ps2_keyboard_error_code) state" where
  "set_default_parameters hw k = one_byte_command hw k KCB_set_default_parameters"

definition set_all_keycode_to_make_release :: "hw \<Rightarrow> kps \<Rightarrow> (iolog, ps2_keyboard_error_code) state" where
  "set_all_keycode_to_make_release hw k = one_byte_command hw k KCB_set_all_to_make_release"

definition set_all_keycode_to_make_only :: "hw \<Rightarrow> kps \<Rightarrow> (iolog, ps2_keyboard_error_code exec) state" where
  "set_all_keycode_to_make_only hw k = do {
     v \<leftarrow> get_scan_code_set hw k;
     if k_response v \<noteq> 3 then ret (Inl Abort)
     else do { e \<leftarrow> one_byte_command hw k KCB_set_all_to_make_only; ret (ok e) }
   }"

definition set_all_keycode_to_typematic_autorepeat_make_release ::
    "hw \<Rightarrow> kps \<Rightarrow> (iolog, ps2_keyboard_error_code) state" where
  "set_all_keycode_to_typematic_autorepeat_make_release hw k =
     one_byte_command hw k KCB_set_all_to_typematic_autorepeat_make_release"

definition set_specific_key_to_typematic_autorepeat_only ::
    "hw \<Rightarrow> kps \<Rightarrow> u8 \<Rightarrow> (iolog, ps2_keyboard_error_code) state" where
  "set_specific_key_to_typematic_autorepeat_only hw k key_scancode =
     two_byte_command hw k KCB_set_specific_to_typematic_autorepeat_only key_scancode"

definition set_specific_key_to_make_release :: "hw \<Rightarrow> kps \<Rightarrow> u8 \<Rightarrow> (iolog, ps2_keyboard_error_code) state" where
  "set_specific_key_to_make_release hw k key_scancode =
     two_byte_command hw k KCB_set_specific_to_make_release key_scancode"

definition set_specific_key_to_make_only :: "hw \<Rightarrow> kps \<Rightarrow> u8 \<Rightarrow> (iolog, ps2_keyboard_error_code) state" where
  "set_specific_key_to_make_only hw k key_scancode =
     two_byte_command hw k KCB_set_specific_to_make_only key_scancode"

definition resend_last_byte :: "hw \<Rightarrow> kps \<Rightarrow> (iolog, ps2_keyboard_verified_response) state" where
  "resend_last_byte hw k = do {
     obtained \<leftarrow> send_command_to_ps2_keyboard hw k KCB_resend_last_byte;
     if k_err obtained \<noteq> PS2_KB_ERR_none then ret (kb_failed (k_err obtained))
     else ret \<lparr>k_err = PS2_KB_ERR_none, k_response = k_response obtained\<rparr>
   }"

definition reset_and_self_test :: "hw \<Rightarrow> kps \<Rightarrow> (iolog, ps2_keyboard_verified_response) state" where
  "reset_and_self_test hw k = do {
     obtained \<leftarrow> send_command_to_ps2_keyboard hw k KCB_reset_and_self_test;
     if k_err obtained \<noteq> PS2_KB_ERR_none then ret (kb_failed (k_err obtained))
     else do {
       c_err \<leftarrow> wait_till_ready_for_response hw;
       if c_err \<noteq> PS2_ERR_none then do {
         print_controller_error c_err;
         ret (kb_failed PS2_KB_ERR_could_not_recieve_response)
       }
       else do {
         r \<leftarrow> ps2_recieve_raw_response hw;
         if r \<noteq> KRB_self_test_passed then ret \<lparr>k_err = PS2_KB_ERR_self_test_failed, k_response = ucast r\<rparr>
         else ret \<lparr>k_err = PS2_KB_ERR_none, k_response = ucast r\<rparr>
       }
     }
   }"

section \<open>Switching the keyboard off and on\<close>

definition disable_keyboard :: "hw \<Rightarrow> kps \<Rightarrow> idt_state \<Rightarrow> (iolog, idt_state exec) state" where
  "disable_keyboard hw k s = do {
     kprintf ''Disabling keyboard\<newline>'' [];
     bindS (IRQ_set_mask hw (active_port k)) (\<lambda>_.
     bindS (ret (disable_keyboard_interrupts k s)) (\<lambda>s. do {
       disable_scanning hw k;
       ret (ok s)
     }))
   }"

definition enable_keyboard :: "hw \<Rightarrow> kps \<Rightarrow> idt_state \<Rightarrow> (iolog, idt_state exec) state" where
  "enable_keyboard hw k s = do {
     kprintf ''Enabling keyboard\<newline>'' [];
     enable_scanning hw k;
     bindS (ret (enable_keyboard_interrupts k s)) (\<lambda>s.
     bindS (IRQ_clear_mask hw (active_port k)) (\<lambda>_. ret (ok s)))
   }"

section \<open>Every command follows the handshake\<close>

context ps2_log_invariant
begin

lemma keeps_send_data_loop: "keeps I (send_data_loop hw k d n)"
  by (induction n) (auto simp: print_controller_error_def intro!: keeps_rules)

lemma keeps_send_data [keeps_rules]: "keeps I (send_data_to_ps2_keyboard hw k d)"
  by (simp add: send_data_to_ps2_keyboard_def keeps_send_data_loop)

lemma keeps_send_keyboard [keeps_rules]:
  "keeps I (send_command_to_ps2_keyboard hw k c)"
  "keeps I (send_setter_subcommand_to_ps2_keyboard hw k c)"
  "keeps I (send_getter_subcommand_to_ps2_keyboard hw k c)"
  "keeps I (one_byte_command hw k c)"
  "keeps I (two_byte_command hw k c d)"
  unfolding send_command_to_ps2_keyboard_def send_setter_subcommand_to_ps2_keyboard_def
    send_getter_subcommand_to_ps2_keyboard_def one_byte_command_def two_byte_command_def print_controller_error_def
  by (intro keeps_rules)+

lemma keeps_keyboard_commands [keeps_rules]:
  "keeps I (set_leds hw k l)" "keeps I (echo_keyboard hw k)" "keeps I (set_scan_code_set hw c k)"
  "keeps I (get_scan_code_set hw k)" "keeps I (set_typematic hw k t)" "keeps I (enable_scanning hw k)"
  "keeps I (disable_scanning hw k)" "keeps I (reset_and_self_test hw k)" "keeps I (resend_last_byte hw k)"
  "keeps I (set_default_parameters hw k)" "keeps I (set_all_keycode_to_make_only hw k)"
  unfolding set_leds_def echo_keyboard_def set_scan_code_set_def get_scan_code_set_def set_typematic_def
    enable_scanning_def disable_scanning_def reset_and_self_test_def resend_last_byte_def
    set_default_parameters_def set_all_keycode_to_make_only_def print_controller_error_def
  by (intro keeps_rules)+

end

text \<open>The interrupt controllers do not see the traffic of the keyboard commands.\<close>

interpretation chips: ps2_log_invariant "\<lambda>tr. chip PIC1 tr = c1 \<and> chip PIC2 tr = c2" for c1 c2
  by unfold_locales (simp_all add: pic_step_def pic_port_defs)

lemma chips_after:
  assumes "\<And>c1 c2. keeps (\<lambda>tr. chip PIC1 tr = c1 \<and> chip PIC2 tr = c2) m" and "run m tr = (x, tr')"
  shows "chip PIC1 tr' = chip PIC1 tr" and "chip PIC2 tr' = chip PIC2 tr"
  using keepsD [OF assms(1) _ assms(2), of "chip PIC1 tr" "chip PIC2 tr"] by auto

section \<open>What the answers of the keyboard mean\<close>

definition send_verdict :: "nat \<Rightarrow> nat \<Rightarrow> u8 list \<Rightarrow> ps2_keyboard_verified_response \<Rightarrow> bool" where
  "send_verdict rounds n bs r =
     (case k_err r of
        PS2_KB_ERR_none \<Rightarrow> n < rounds \<and> bs = [0xFA] \<and> k_response r = 0xFA
      | PS2_KB_ERR_non_ack_response \<Rightarrow> n < rounds \<and> (\<exists>b. bs = [b] \<and> b \<noteq> 0xFA \<and> b \<noteq> 0xFE \<and> k_response r = ucast b)
      | PS2_KB_ERR_could_not_send_command \<Rightarrow> n < rounds \<and> bs = [] \<and> k_response r = - 1
      | PS2_KB_ERR_could_not_recieve_response \<Rightarrow> n < rounds \<and> bs = [] \<and> k_response r = - 1
      | PS2_KB_ERR_resend_too_much \<Rightarrow> n = rounds \<and> bs = [] \<and> k_response r = - 1
      | _ \<Rightarrow> False)"

text \<open>One round of the loop, from what the two polls returned.\<close>

lemma run_send_data_round:
  assumes "run (send_command_or_data_to_ps2_port hw (active_port k) d) tr = (e1, tr1)"
    and "run (wait_till_ready_for_response hw) tr1 = (e2, tr2)"
  shows "run (send_data_loop hw k d (Suc n)) tr =
    (if e1 \<noteq> PS2_ERR_none then (kb_failed PS2_KB_ERR_could_not_send_command, tr1)
     else if e2 \<noteq> PS2_ERR_none
       then (kb_failed PS2_KB_ERR_could_not_recieve_response, snd (run (print_controller_error e2) tr2))
     else if hw tr2 0x60 = 0xFE then run (send_data_loop hw k d n) (In 0x60 0xFE # tr2)
     else if hw tr2 0x60 = 0xFA then (\<lparr>k_err = PS2_KB_ERR_none, k_response = 0xFA\<rparr>, In 0x60 0xFA # tr2)
     else (\<lparr>k_err = PS2_KB_ERR_non_ack_response, k_response = ucast (hw tr2 0x60)\<rparr>, In 0x60 (hw tr2 0x60) # tr2))"
  by (simp add: run_bind assms ps2_recieve_raw_response_def const_defs case_prod_beta)

lemma data_reads_print [simp]: "data_reads (snd (run (print_controller_error e) tr)) = data_reads tr"
  by (simp add: print_controller_error_def)

lemma send_verdict_simps:
  "send_verdict rounds n bs (kb_failed PS2_KB_ERR_could_not_send_command) \<longleftrightarrow> n < rounds \<and> bs = []"
  "send_verdict rounds n bs (kb_failed PS2_KB_ERR_could_not_recieve_response) \<longleftrightarrow> n < rounds \<and> bs = []"
  "send_verdict rounds n bs (kb_failed PS2_KB_ERR_resend_too_much) \<longleftrightarrow> n = rounds \<and> bs = []"
  "send_verdict rounds n [b] \<lparr>k_err = PS2_KB_ERR_none, k_response = 0xFA\<rparr> \<longleftrightarrow> n < rounds \<and> b = 0xFA"
  by (simp_all add: send_verdict_def kb_failed_def)

lemma send_verdict_Suc: "send_verdict rounds n bs r \<Longrightarrow> send_verdict (Suc rounds) (Suc n) bs r"
  by (simp add: send_verdict_def split: ps2_keyboard_error_code.splits)

lemma send_data_loop_verdict:
  "run (send_data_loop hw k d rounds) tr = (r, tr') \<Longrightarrow>
     \<exists>n bs. n \<le> rounds \<and> data_reads tr' = data_reads tr @ replicate n 0xFE @ bs \<and> send_verdict rounds n bs r"
proof (induction rounds arbitrary: tr)
  case 0
  then show ?case by (auto simp: send_verdict_simps)
next
  case (Suc rounds)
  obtain e1 tr1 where send: "run (send_command_or_data_to_ps2_port hw (active_port k) d) tr = (e1, tr1)" by (rule prod.exhaust)
  obtain e2 tr2 where wait: "run (wait_till_ready_for_response hw) tr1 = (e2, tr2)" by (rule prod.exhaust)
  note reads = run_send_port_reads [OF send] run_wait_out_reads [OF wait]
  note round = Suc.prems [unfolded run_send_data_round [OF send wait]]
  show ?case
  proof (cases "e1 = PS2_ERR_none \<and> e2 = PS2_ERR_none \<and> hw tr2 0x60 = 0xFE")
    case True
    then have "run (send_data_loop hw k d rounds) (In 0x60 0xFE # tr2) = (r, tr')" using round by simp
    from Suc.IH [OF this] obtain n bs where n: "n \<le> rounds"
      "data_reads tr' = (data_reads tr2 @ [0xFE]) @ replicate n 0xFE @ bs" "send_verdict rounds n bs r"
      by auto
    show ?thesis
      by (rule exI [of _ "Suc n"], rule exI [of _ bs]) (use n reads in \<open>simp add: send_verdict_Suc\<close>)
  next
    case False
    let ?bs = "if e1 = PS2_ERR_none \<and> e2 = PS2_ERR_none then [hw tr2 0x60] else []"
    have "data_reads tr' = data_reads tr @ ?bs" using round False reads by (auto split: if_splits)
    moreover have "send_verdict (Suc rounds) 0 ?bs r"
    proof (cases "e1 = PS2_ERR_none \<and> e2 = PS2_ERR_none \<and> hw tr2 0x60 \<noteq> 0xFA")
      case True
      then have "r = \<lparr>k_err = PS2_KB_ERR_non_ack_response, k_response = ucast (hw tr2 0x60)\<rparr>"
        using round False by simp
      then show ?thesis using True False by (simp add: send_verdict_def)
    next
      case other: False
      then show ?thesis using round False by (auto simp: send_verdict_simps split: if_splits)
    qed
    ultimately show ?thesis by (intro exI [of _ 0] exI [of _ ?bs]) simp
  qed
qed

section \<open>Properties\<close>

text \<open>
  Sending a byte to the keyboard always returns, on every hardware, after at most three attempts. Every
  answer before the last was a resend request; success means the last answer was the acknowledge byte,
  three resend requests are reported as such, any other answer is returned with its value, and a byte
  that could not be sent or an answer that never came is an error with response -1. From the start of
  the log on, the port traffic keeps to the handshake with the controller.
\<close>

theorem send_data_to_ps2_keyboard_retries:
  "\<exists>r tr' n bs. run (send_data_to_ps2_keyboard hw k d) tr = (r, tr') \<and> n \<le> 3 \<and>
     data_reads tr' = data_reads tr @ replicate n 0xFE @ bs \<and> send_verdict 3 n bs r \<and>
     disciplined (snd (run (send_data_to_ps2_keyboard hw k d) []))"
proof -
  obtain r tr' where run: "run (send_data_to_ps2_keyboard hw k d) tr = (r, tr')" by fastforce
  obtain n bs where "n \<le> 3" "data_reads tr' = data_reads tr @ replicate n 0xFE @ bs" "send_verdict 3 n bs r"
    using send_data_loop_verdict [OF run [unfolded send_data_to_ps2_keyboard_def]]
    unfolding max_response_repeat_def by blast
  moreover have "disciplined (snd (run (send_data_to_ps2_keyboard hw k d) []))"
    using handshake.keeps_send_data by (simp add: keeps_def)
  ultimately show ?thesis using run by blast
qed

lemma masked_chips: "chip PIC1 tr' = chip PIC1 tr \<Longrightarrow> chip PIC2 tr' = chip PIC2 tr \<Longrightarrow> masked tr' = masked tr"
  by (simp add: masked_def fun_eq_iff)

lemma disable_scanning_chips:
  assumes "run (disable_scanning hw k) tr = (e, tr')"
  shows "masked tr' = masked tr" and "pics_ready tr' = pics_ready tr"
proof -
  note ch = chips_after [OF chips.keeps_keyboard_commands(7) assms]
  show "masked tr' = masked tr" by (rule masked_chips [OF ch])
  show "pics_ready tr' = pics_ready tr" unfolding pics_ready_def ch ..
qed

lemma masked_print: "masked (Kprint f a # tr) = masked tr"
  by (rule masked_chips) (simp_all del: chip.simps)

text \<open>
  Switching off the only keyboard removes its gate from the interrupt table, but masks the interrupt line
  whose number is the port's: line 1 for port 1, which is that port's line, and for port 2 line 2, the
  cascade through which the second controller reports, while line 12, the line of port 2, stays as it
  was. And \<open>disable_scanning\<close> sends the keyboard what \<open>enable_scanning\<close> sends.
\<close>

theorem disable_keyboard_masks_port_number:
  assumes "pic_hw hw" and "pics_ready tr" and "idtr_limit s = 2047"
    and "port = 1 \<or> port = 2" and "k = set_single_keyboard_port port k0" and "j < 16"
  shows "\<exists>s' tr'. run (disable_keyboard hw k s) tr = (ok s', tr') \<and> masked tr' j = (masked tr j \<or> j = unat port) \<and>
      \<not> present (idt s' (active_interrupt_vector k)) \<and>
      active_irq k = (if port = 1 then 1 else 12) \<and>
      run (disable_scanning hw k) tr = run (enable_scanning hw k) tr"
proof -
  let ?i = "unat port"
  let ?tr = "Kprint ''Disabling keyboard\<newline>'' [] # tr"
  have i: "?i < 16" "of_nat ?i = port" using assms(4) by auto
  have port: "active_port k = port" by (simp add: assms(5) set_single_keyboard_port_def set_irq_and_vector_def)
  have ready: "pics_ready ?tr" using assms(2) by (simp add: pics_ready_def del: chip.simps)
  obtain tr1 where mask: "run (IRQ_set_mask hw port) ?tr = (ok (), tr1)"
    "masked tr1 j = (masked ?tr j \<or> j = ?i)"
    using IRQ_set_mask_effect [OF assms(1) ready i(1)] assms(6) unfolding i(2) mask_effect_def by blast
  obtain e tr2 where dis: "run (disable_scanning hw k) tr1 = (e, tr2)" by (rule prod.exhaust)
  let ?v = "active_interrupt_vector k"
  have "disable_keyboard_interrupts k s = ok (set_present False ?v s)"
    by (simp add: disable_keyboard_interrupts_def disable_idt_entry_def get_idt_entry_2047 [OF assms(3)])
  then have "run (disable_keyboard hw k s) tr = (ok (set_present False ?v s), tr2)"
    by (simp add: disable_keyboard_def run_bind run_bindS port mask(1) dis)
  moreover have "masked tr2 j = (masked tr j \<or> j = ?i)"
    unfolding disable_scanning_chips(1) [OF dis] mask(2) masked_print ..
  moreover have "active_irq k = (if port = 1 then 1 else 12)"
    by (simp add: assms(5) set_single_keyboard_port_def set_irq_and_vector_def const_defs)
  ultimately show ?thesis
    by (simp add: set_present_def disable_scanning_def enable_scanning_def)
qed

definition example_kps :: kps where
  "example_kps = \<lparr>initialized = False, number_of_keyboards = 0, active_port = 0, active_irq = 0,
     active_interrupt_vector = 0, active_scancode_set = 0\<rparr>"

theorem disable_keyboard_masks_port_number_witness:
  "\<exists>s' tr'. run (disable_keyboard pic_model_hw (set_single_keyboard_port 2 example_kps)
        (example_boot\<lparr>idtr_limit := 2047\<rparr>)) [] = (ok s', tr') \<and>
     masked tr' 12 = (masked [] 12 \<or> 12 = unat (2 :: u8)) \<and> \<not> masked [] 12 \<and>
     active_irq (set_single_keyboard_port 2 example_kps) = 12"
proof -
  have "pics_ready []" by (simp add: pics_ready_def pic_power_on_def)
  from disable_keyboard_masks_port_number [OF pic_model_hw_ok this, of "example_boot\<lparr>idtr_limit := 2047\<rparr>" 2
      "set_single_keyboard_port 2 example_kps" example_kps 12]
  show ?thesis by (auto simp: masked_def pic_power_on_def)
qed

text \<open>
  Selecting a scan code set: a set that is not 1, 2 or 3 aborts before anything is sent. For the others
  the call returns, and the driver's idea of the current set changes exactly when both bytes were
  acknowledged; then \<open>get_scan_code_set\<close> returns only 1, 2 or 3 with success.
\<close>

theorem set_scan_code_set_tracks:
  "(if c = 0 \<or> c > 3 then fst (run (set_scan_code_set hw c k) tr) = Inl Abort
    else \<exists>e k' tr'. run (set_scan_code_set hw c k) tr = (ok (e, k'), tr') \<and>
      k' = (if e = PS2_KB_ERR_none then k\<lparr>active_scancode_set := ucast c\<rparr> else k)) \<and>
   (case run (get_scan_code_set hw k) tr of (v, _) \<Rightarrow>
      if k_err v = PS2_KB_ERR_none then k_response v \<in> {1, 2, 3} else k_response v = - 1)"
proof -
  have small: "x \<noteq> 0 \<Longrightarrow> \<not> x > 3 \<Longrightarrow> x \<in> {1, 2, 3}" for x :: u32
    by (simp add: word_less_nat_alt word_unat_eq_iff not_less) linarith
  have get: "case run (get_scan_code_set hw k) tr of (v, _) \<Rightarrow>
      if k_err v = PS2_KB_ERR_none then k_response v \<in> {1, 2, 3} else k_response v = - 1"
    by (auto simp: get_scan_code_set_def run_bind kb_failed_def split: prod.splits) (use small in blast)
  have set: "\<exists>e k' tr'. run (set_scan_code_set hw c k) tr = (ok (e, k'), tr') \<and>
      k' = (if e = PS2_KB_ERR_none then k\<lparr>active_scancode_set := ucast c\<rparr> else k)" if "\<not> (c = 0 \<or> c > 3)"
    using that by (auto simp: set_scan_code_set_def run_bind split: prod.splits)
  have "fst (run (set_scan_code_set hw c k) tr) = Inl Abort" if "c = 0 \<or> c > 3"
    using that by (simp add: set_scan_code_set_def run_bind)
  then show ?thesis using get set by (simp del: de_Morgan_disj)
qed

end
