(* ===== verification/Keyboard_Handler.thy ===== *)
theory Keyboard_Handler
  imports Ps2_Keyboard Scancodes
begin

text \<open>
  The interrupt side of the PS/2 keyboard (\<open>drivers/ps2/keyboard/ps2_keyboard_handler.c\<close>,
  \<open>ps2_keyboard_key_functions.c\<close>): the byte-by-byte decoder of scan code set 1, the tables of pressed keys and
  of functions tied to keys, and the set-up of both.

  \<open>kbd\<close> holds the global and \<open>static\<close> variables. An index that comes from a byte or a port number is checked
  against the length of its C array: an access outside is \<open>Inl OutOfBounds\<close>. The handler's calls into the
  C++ part (\<open>keycode_handler\<close>, with the key it was given and the modifiers) and into the terminal are appended to
  \<open>calls\<close>, the interrupts acknowledged are counted in \<open>eois\<close>. The lock keys talk to the keyboard, so the
  operations are computations on the port log.
\<close>

section \<open>State\<close>

record KeyModifierState =
  left_shift :: bool
  right_shift :: bool
  left_ctrl :: bool
  right_ctrl :: bool
  left_meta :: bool
  right_meta :: bool
  menu_app :: bool
  alt :: bool
  altgr :: bool
  capslock :: bool
  scroll_lock :: bool

text \<open>What the C++ functions make a key code of.\<close>

datatype key = Plain u8 | Extended u8 | Print_screen | Pause

datatype terminal_call = Arrow_up | Arrow_down | Arrow_left | Arrow_right | Ctrl_r | Ctrl_f

datatype call = Keycode key KeyModifierState bool bool | Terminal terminal_call

datatype key_function =
    Nop | Pressed_caps_lock | Pressed_num_lock | Pressed_scroll_lock | Pressed_a
  | Pressed_up | Pressed_down | Pressed_left | Pressed_right | Pressed_r | Pressed_f

text \<open>The four \<open>static\<close> arrays of the decoder, per port number.\<close>

record sequence =
  previous_extended_signal :: bool
  four_long_sequence :: bool
  six_long_sequence :: bool
  current_sequence_length :: u8

record kbd =
  led_keys :: kcb_led_state
  is_key_pressed :: "u8 \<Rightarrow> bool"
  is_extended_key_pressed :: "u8 \<Rightarrow> bool"
  is_print_screen_pressed :: bool
  key_functions :: "u8 \<Rightarrow> key_function"
  is_key_tied_to_function :: "u8 \<Rightarrow> bool"
  extended_key_functions :: "u8 \<Rightarrow> key_function"
  is_extended_key_tied_to_function :: "u8 \<Rightarrow> bool"
  seqs :: "u8 \<Rightarrow> sequence"
  calls :: "call list"
  eois :: nat

definition SC_LEFT_SHIFT :: u8 where [const_defs]: "SC_LEFT_SHIFT = 0x2A"
definition SC_RIGHT_SHIFT :: u8 where [const_defs]: "SC_RIGHT_SHIFT = 0x36"
definition SC_LEFT_CTRL :: u8 where [const_defs]: "SC_LEFT_CTRL = 0x1D"
definition SC_LEFT_ALT :: u8 where [const_defs]: "SC_LEFT_ALT = 0x38"
definition SC_CAPSLOCK :: u8 where [const_defs]: "SC_CAPSLOCK = 0x3A"
definition SC_NUMLOCK :: u8 where [const_defs]: "SC_NUMLOCK = 0x45"
definition SC_SCROLLLOCK :: u8 where [const_defs]: "SC_SCROLLLOCK = 0x46"
definition SC_A :: u8 where [const_defs]: "SC_A = 0x1E"
definition SC_R :: u8 where [const_defs]: "SC_R = 0x13"
definition SC_F :: u8 where [const_defs]: "SC_F = 0x21"
definition SCE_RIGHT_CTRL :: u8 where [const_defs]: "SCE_RIGHT_CTRL = 0x1D"
definition SCE_RIGHT_ALT :: u8 where [const_defs]: "SCE_RIGHT_ALT = 0x38"
definition SCE_LEFT_META :: u8 where [const_defs]: "SCE_LEFT_META = 0x5B"
definition SCE_RIGHT_META :: u8 where [const_defs]: "SCE_RIGHT_META = 0x5C"
definition SCE_APPS :: u8 where [const_defs]: "SCE_APPS = 0x5D"
definition SCE_UP :: u8 where [const_defs]: "SCE_UP = 0x48"
definition SCE_DOWN :: u8 where [const_defs]: "SCE_DOWN = 0x50"
definition SCE_LEFT :: u8 where [const_defs]: "SCE_LEFT = 0x4B"
definition SCE_RIGHT :: u8 where [const_defs]: "SCE_RIGHT = 0x4D"

section \<open>Modifiers\<close>

definition is_shift_held :: "kbd \<Rightarrow> bool" where
  "is_shift_held s \<longleftrightarrow> is_key_pressed s SC_LEFT_SHIFT \<or> is_key_pressed s SC_RIGHT_SHIFT"

definition is_ctrl_held :: "kbd \<Rightarrow> bool" where
  "is_ctrl_held s \<longleftrightarrow> is_key_pressed s SC_LEFT_CTRL \<or> is_extended_key_pressed s SCE_RIGHT_CTRL"

definition is_alt_held :: "kbd \<Rightarrow> bool" where
  "is_alt_held s = is_key_pressed s SC_LEFT_ALT"

definition is_altgr_held :: "kbd \<Rightarrow> bool" where
  "is_altgr_held s = is_extended_key_pressed s SCE_RIGHT_ALT"

definition is_capslock_on :: "kbd \<Rightarrow> bool" where
  "is_capslock_on s = CapsLock (led_keys s)"

definition is_caps :: "kbd \<Rightarrow> bool" where
  "is_caps s \<longleftrightarrow> is_shift_held s \<or> is_capslock_on s"

definition get_current_mod_state :: "kbd \<Rightarrow> KeyModifierState" where
  "get_current_mod_state s =
     \<lparr>left_shift = is_key_pressed s SC_LEFT_SHIFT, right_shift = is_key_pressed s SC_RIGHT_SHIFT,
      left_ctrl = is_key_pressed s SC_LEFT_CTRL, right_ctrl = is_extended_key_pressed s SCE_RIGHT_CTRL,
      left_meta = is_extended_key_pressed s SCE_LEFT_META, right_meta = is_extended_key_pressed s SCE_RIGHT_META,
      menu_app = is_extended_key_pressed s SCE_APPS,
      alt = is_key_pressed s SC_LEFT_ALT, altgr = is_extended_key_pressed s SCE_RIGHT_ALT,
      capslock = is_key_pressed s SC_CAPSLOCK, scroll_lock = is_key_pressed s SC_SCROLLLOCK\<rparr>"

section \<open>Functions tied to keys\<close>

definition emit :: "call \<Rightarrow> kbd \<Rightarrow> kbd" where
  "emit c s = s\<lparr>calls := calls s @ [c]\<rparr>"

definition toggle_led :: "hw \<Rightarrow> kps \<Rightarrow> (kcb_led_state \<Rightarrow> kcb_led_state) \<Rightarrow> kbd \<Rightarrow> (iolog, kbd) state" where
  "toggle_led hw k f s = do {
     set_leds hw k (f (led_keys s));
     ret (s\<lparr>led_keys := f (led_keys s)\<rparr>)
   }"

fun call_key_function :: "hw \<Rightarrow> kps \<Rightarrow> key_function \<Rightarrow> kbd \<Rightarrow> (iolog, kbd) state" where
  "call_key_function hw k Nop s = ret s"
| "call_key_function hw k Pressed_a s = ret s"
| "call_key_function hw k Pressed_caps_lock s = toggle_led hw k (\<lambda>l. l\<lparr>CapsLock := \<not> CapsLock l\<rparr>) s"
| "call_key_function hw k Pressed_num_lock s = toggle_led hw k (\<lambda>l. l\<lparr>NumberLock := \<not> NumberLock l\<rparr>) s"
| "call_key_function hw k Pressed_scroll_lock s = toggle_led hw k (\<lambda>l. l\<lparr>ScrollLock := \<not> ScrollLock l\<rparr>) s"
| "call_key_function hw k Pressed_up s = ret (emit (Terminal Arrow_up) s)"
| "call_key_function hw k Pressed_down s = ret (emit (Terminal Arrow_down) s)"
| "call_key_function hw k Pressed_right s = ret (emit (Terminal Arrow_right) s)"
| "call_key_function hw k Pressed_left s = ret (emit (Terminal Arrow_left) s)"
| "call_key_function hw k Pressed_r s = ret (if is_ctrl_held s then emit (Terminal Ctrl_r) s else s)"
| "call_key_function hw k Pressed_f s = ret (if is_ctrl_held s then emit (Terminal Ctrl_f) s else s)"

definition set_key_function :: "u8 \<Rightarrow> key_function \<Rightarrow> kbd \<Rightarrow> kbd exec" where
  "set_key_function key func s =
     bindE (assertE (validate_scancode key)) (\<lambda>_.
       ok (s\<lparr>key_functions := (key_functions s)(key := func),
             is_key_tied_to_function := (is_key_tied_to_function s)(key := True)\<rparr>))"

definition set_extended_key_function :: "u8 \<Rightarrow> key_function \<Rightarrow> kbd \<Rightarrow> kbd exec" where
  "set_extended_key_function scancode func s =
     bindE (assertE (validate_extended_scancode scancode)) (\<lambda>_.
       ok (s\<lparr>extended_key_functions := (extended_key_functions s)(scancode := func),
             is_extended_key_tied_to_function := (is_extended_key_tied_to_function s)(scancode := True)\<rparr>))"

section \<open>Reporting keys\<close>

definition parse_scan_code :: "hw \<Rightarrow> kps \<Rightarrow> u8 \<Rightarrow> bool \<Rightarrow> kbd \<Rightarrow> (iolog, kbd exec) state" where
  "parse_scan_code hw k press_scancode pressed_not_released s =
     (if pressed_not_released then do {
        s \<leftarrow> (if is_key_tied_to_function s press_scancode
             then call_key_function hw k (key_functions s press_scancode) s else ret s);
        if \<not> press_scancode < SCANCODE_LEN then ret (Inl OutOfBounds)
        else do {
          let first_press = (\<not> is_key_pressed s press_scancode);
          let s = emit (Keycode (Plain press_scancode) (get_current_mod_state s) first_press True) s;
          ret (ok (s\<lparr>is_key_pressed := (is_key_pressed s)(press_scancode := True)\<rparr>))
        }
      }
      else if \<not> press_scancode < SCANCODE_LEN then ret (Inl OutOfBounds)
      else do {
        let s = s\<lparr>is_key_pressed := (is_key_pressed s)(press_scancode := False)\<rparr>;
        ret (ok (emit (Keycode (Plain press_scancode) (get_current_mod_state s) False False) s))
      })"

definition parse_extended_scan_code :: "hw \<Rightarrow> kps \<Rightarrow> u8 \<Rightarrow> bool \<Rightarrow> kbd \<Rightarrow> (iolog, kbd exec) state" where
  "parse_extended_scan_code hw k press_scancode pressed_not_released s =
     (if pressed_not_released then do {
        s \<leftarrow> (if is_extended_key_tied_to_function s press_scancode
             then call_key_function hw k (extended_key_functions s press_scancode) s else ret s);
        if \<not> press_scancode < EXTENED_SCANCODE_LEN then ret (Inl OutOfBounds)
        else do {
          let first_press = (\<not> is_extended_key_pressed s press_scancode);
          let s = emit (Keycode (Extended press_scancode) (get_current_mod_state s) first_press True) s;
          ret (ok (s\<lparr>is_extended_key_pressed := (is_extended_key_pressed s)(press_scancode := True)\<rparr>))
        }
      }
      else if \<not> press_scancode < EXTENED_SCANCODE_LEN then ret (Inl OutOfBounds)
      else do {
        let s = s\<lparr>is_extended_key_pressed := (is_extended_key_pressed s)(press_scancode := False)\<rparr>;
        ret (ok (emit (Keycode (Extended press_scancode) (get_current_mod_state s) False False) s))
      })"

definition parse_print_screen :: "bool \<Rightarrow> kbd \<Rightarrow> kbd" where
  "parse_print_screen pressed_not_released s =
     (if pressed_not_released
      then emit (Keycode Print_screen (get_current_mod_state s) (\<not> is_print_screen_pressed s) True) s
      else emit (Keycode Print_screen (get_current_mod_state s) False False) s)
       \<lparr>is_print_screen_pressed := pressed_not_released\<rparr>"

definition parse_pause_pressed :: "kbd \<Rightarrow> kbd" where
  "parse_pause_pressed s = emit (Keycode Pause (get_current_mod_state s) True True) s"

section \<open>The decoder of scan code set 1\<close>

definition print_screen_pressed_sequence :: "u8 list" where
  "print_screen_pressed_sequence = [0xE0, 0x2A, 0xE0, 0x37]"
definition print_screen_released_sequence :: "u8 list" where
  "print_screen_released_sequence = [0xE0, 0xB7, 0xE0, 0xAA]"
definition pause_pressed_sequence :: "u8 list" where
  "pause_pressed_sequence = [0xE1, 0x1D, 0x45, 0xE1, 0x9D, 0xC5]"

definition send_eoi :: "kbd \<Rightarrow> kbd" where
  "send_eoi s = s\<lparr>eois := eois s + 1\<rparr>"

definition set_seq :: "u8 \<Rightarrow> sequence \<Rightarrow> kbd \<Rightarrow> kbd" where
  "set_seq port q s = s\<lparr>seqs := (seqs s)(port := q)\<rparr>"

text \<open>Lines 187 to 229: inside a sequence of four bytes.\<close>

definition four_long_step :: "u8 \<Rightarrow> u8 \<Rightarrow> kbd \<Rightarrow> kbd exec" where
  "four_long_step scancode port s =
     (let q = (seqs s port)\<lparr>previous_extended_signal := False\<rparr>; i = current_sequence_length q in
      if \<not> i < 4 then Inl OutOfBounds
      else if scancode = print_screen_pressed_sequence ! unat i then
        (if i = 3 then ok (send_eoi (parse_print_screen True
             (set_seq port (q\<lparr>current_sequence_length := 0, four_long_sequence := False\<rparr>) s)))
         else ok (send_eoi (set_seq port (q\<lparr>current_sequence_length := i + 1\<rparr>) s)))
      else if scancode = print_screen_released_sequence ! unat i then
        (if i = 3 then ok (send_eoi (parse_print_screen False
             (set_seq port (q\<lparr>current_sequence_length := 0, four_long_sequence := False\<rparr>) s)))
         else ok (send_eoi (set_seq port (q\<lparr>current_sequence_length := i + 1\<rparr>) s)))
      else ok (send_eoi (set_seq port (q\<lparr>current_sequence_length := 0, four_long_sequence := False\<rparr>) s)))"

text \<open>Lines 265 to 289: a key of one byte, or the second byte of an extended key.\<close>

definition two_long_step :: "hw \<Rightarrow> kps \<Rightarrow> u8 \<Rightarrow> u8 \<Rightarrow> kbd \<Rightarrow> (iolog, kbd exec) state" where
  "two_long_step hw k scancode port s =
     bindS (if previous_extended_signal (seqs s port) then
              (if scancode \<ge> EXTENDED_SCANCODE_RELEASE_START
               then parse_extended_scan_code hw k (scancode - EXTENDED_SCANCODE_RELEASE_OFFSET) False s
               else parse_extended_scan_code hw k scancode True s)
            else
              (if scancode \<ge> SCANCODE_RELEASE_START
               then parse_scan_code hw k (scancode - SCANCODE_RELEASE_OFFSET) False s
               else parse_scan_code hw k scancode True s))
       (\<lambda>s. ret (ok (send_eoi (set_seq port
          ((seqs s port)\<lparr>previous_extended_signal := (scancode = 0xE0)\<rparr>) s))))"

text \<open>Lines 243 to 261: inside a sequence of six bytes; \<open>Inr None\<close> when the byte is not part of it.\<close>

definition six_long_step :: "u8 \<Rightarrow> u8 \<Rightarrow> kbd \<Rightarrow> kbd option exec" where
  "six_long_step scancode port s =
     (let q = (seqs s port)\<lparr>previous_extended_signal := False\<rparr>; i = current_sequence_length q in
      if \<not> i < 6 then Inl OutOfBounds
      else if scancode = pause_pressed_sequence ! unat i then
        (if i = 5 then ok (Some (send_eoi (parse_pause_pressed (set_seq port (q\<lparr>current_sequence_length := 0\<rparr>) s))))
         else ok (Some (send_eoi (set_seq port (q\<lparr>current_sequence_length := i + 1\<rparr>) s))))
      else ok None)"

definition keyboard_handler_scs1 :: "hw \<Rightarrow> kps \<Rightarrow> u8 \<Rightarrow> u8 \<Rightarrow> kbd \<Rightarrow> (iolog, kbd exec) state" where
  "keyboard_handler_scs1 hw k scancode port_number s =
     (if \<not> port_number < 2 then ret (Inl OutOfBounds)
      else let q = seqs s port_number; extended_signal = (scancode = 0xE0) in
      if extended_signal \<and> \<not> four_long_sequence q \<and> \<not> six_long_sequence q then
        ret (ok (send_eoi (set_seq port_number (q\<lparr>previous_extended_signal := extended_signal\<rparr>) s)))
      else if previous_extended_signal q \<and> \<not> four_long_sequence q \<and>
          (scancode = print_screen_pressed_sequence ! 1 \<or> scancode = print_screen_released_sequence ! 1) then
        ret (ok (send_eoi (set_seq port_number (q\<lparr>four_long_sequence := True, current_sequence_length := 2,
          previous_extended_signal := False\<rparr>) s)))
      else if four_long_sequence q then ret (four_long_step scancode port_number s)
      else if scancode = pause_pressed_sequence ! 0 then
        ret (ok (send_eoi (set_seq port_number (q\<lparr>six_long_sequence := True,
          current_sequence_length := current_sequence_length q + 1, previous_extended_signal := False\<rparr>) s)))
      else if six_long_sequence q then
        bindS (ret (six_long_step scancode port_number s)) (\<lambda>r. case r of
          Some s \<Rightarrow> ret (ok s)
        | None \<Rightarrow> two_long_step hw k scancode port_number
            (set_seq port_number (q\<lparr>previous_extended_signal := False\<rparr>) s))
      else two_long_step hw k scancode port_number s)"

definition keyboard_handler_scs2 :: "kbd \<Rightarrow> (iolog, kbd exec) state" where
  "keyboard_handler_scs2 s = do {
     kprintf ''[PANIC-WARNING] scan code 2 handling not supported!\<newline>'' [];
     ret (ok s)
   }"

definition keyboard_handler_scs3 :: "kbd \<Rightarrow> (iolog, kbd exec) state" where
  "keyboard_handler_scs3 s = do {
     kprintf ''[PANIC-WARNING] scan code 3 handling not supported!\<newline>'' [];
     ret (ok s)
   }"

definition keyboard_handler :: "hw \<Rightarrow> kps \<Rightarrow> u8 \<Rightarrow> u8 \<Rightarrow> kbd \<Rightarrow> (iolog, kbd exec) state" where
  "keyboard_handler hw k scancode port_number s =
     (if active_scancode_set k = 1 then keyboard_handler_scs1 hw k scancode port_number s
      else if active_scancode_set k = 2 then keyboard_handler_scs3 s
      else if active_scancode_set k = 3 then keyboard_handler_scs3 s
      else ret (Inl Abort))"

section \<open>Set-up\<close>

definition clear_functions :: "kbd \<Rightarrow> kbd" where
  "clear_functions s = s\<lparr>key_functions := (\<lambda>_. Nop), is_key_tied_to_function := (\<lambda>_. False),
     extended_key_functions := (\<lambda>_. Nop), is_extended_key_tied_to_function := (\<lambda>_. False)\<rparr>"

definition tie_keys :: "kbd \<Rightarrow> kbd exec" where
  "tie_keys s =
     bindE (set_key_function SC_CAPSLOCK Pressed_caps_lock s) (\<lambda>s.
     bindE (set_key_function SC_NUMLOCK Pressed_num_lock s) (\<lambda>s.
     bindE (set_key_function SC_SCROLLLOCK Pressed_scroll_lock s) (\<lambda>s.
     bindE (set_key_function SC_A Pressed_a s) (\<lambda>s.
     bindE (set_extended_key_function SCE_UP Pressed_up s) (\<lambda>s.
     bindE (set_extended_key_function SCE_DOWN Pressed_down s) (\<lambda>s.
     bindE (set_extended_key_function SCE_LEFT Pressed_left s) (\<lambda>s.
     bindE (set_extended_key_function SCE_RIGHT Pressed_right s) (\<lambda>s.
     bindE (set_key_function SC_R Pressed_r s) (\<lambda>s.
       set_key_function SC_F Pressed_f s)))))))))"

definition leds_off :: kcb_led_state where
  "leds_off = \<lparr>ScrollLock = False, NumberLock = False, CapsLock = False, led_reserved = 0\<rparr>"

definition setup_keyboard_extra :: "hw \<Rightarrow> kps \<Rightarrow> kbd \<Rightarrow> (iolog, kbd exec) state" where
  "setup_keyboard_extra hw k s =
     bindS (ret (tie_keys (clear_functions s))) (\<lambda>s. do {
       let s = s\<lparr>led_keys := leds_off\<rparr>;
       set_leds hw k (led_keys s);
       ret (ok s)
     })"

definition setup_keyboard ::
    "hw \<Rightarrow> kps \<Rightarrow> idt_state \<Rightarrow> kbd \<Rightarrow> (iolog, (ps2_keyboard_error_code \<times> kps \<times> idt_state \<times> kbd) exec) state" where
  "setup_keyboard hw k t s =
     bindS (ret (assertE (initialized k))) (\<lambda>_.
     bindS (disable_keyboard hw k t) (\<lambda>t.
     bindS (set_scan_code_set hw 1 k) (\<lambda>(e, k).
       if e \<noteq> PS2_KB_ERR_none then ret (ok (e, k, t, s))
       else bindS (setup_keyboard_extra hw k s) (\<lambda>s.
            bindS (enable_keyboard hw k t) (\<lambda>t. ret (ok (PS2_KB_ERR_none, k, t, s)))))))"

section \<open>What the byte stream means\<close>

text \<open>
  The messages a keyboard sends in scan code set 1, and the bytes of each. \<open>msg_effect\<close> is the abstract handler:
  it is told the key and reports it.
\<close>

datatype key_msg =
    Make u8 | Break u8 | Ext_make u8 | Ext_break u8 | Print_make | Print_break | Pause_make

fun encode :: "key_msg \<Rightarrow> u8 list" where
  "encode (Make sc) = [sc]"
| "encode (Break sc) = [sc + 0x80]"
| "encode (Ext_make sc) = [0xE0, sc]"
| "encode (Ext_break sc) = [0xE0, sc + 0x80]"
| "encode Print_make = [0xE0, 0x2A, 0xE0, 0x37]"
| "encode Print_break = [0xE0, 0xB7, 0xE0, 0xAA]"
| "encode Pause_make = [0xE1, 0x1D, 0x45, 0xE1, 0x9D, 0xC5]"

text \<open>The keys of the driver's own tables.\<close>

fun known :: "key_msg \<Rightarrow> bool" where
  "known (Make sc) = (sc \<in> set (press_codes SCANCODES))"
| "known (Break sc) = (sc \<in> set (press_codes SCANCODES))"
| "known (Ext_make sc) = (sc \<in> set (press_codes EXTENDED_SCANCODES))"
| "known (Ext_break sc) = (sc \<in> set (press_codes EXTENDED_SCANCODES))"
| "known _ = True"

fun msg_effect :: "hw \<Rightarrow> kps \<Rightarrow> key_msg \<Rightarrow> kbd \<Rightarrow> (iolog, kbd exec) state" where
  "msg_effect hw k (Make sc) s = parse_scan_code hw k sc True s"
| "msg_effect hw k (Break sc) s = parse_scan_code hw k sc False s"
| "msg_effect hw k (Ext_make sc) s = parse_extended_scan_code hw k sc True s"
| "msg_effect hw k (Ext_break sc) s = parse_extended_scan_code hw k sc False s"
| "msg_effect hw k Print_make s = ret (ok (parse_print_screen True s))"
| "msg_effect hw k Print_break s = ret (ok (parse_print_screen False s))"
| "msg_effect hw k Pause_make s = ret (ok (parse_pause_pressed s))"


text \<open>One interrupt per byte.\<close>

fun feed :: "hw \<Rightarrow> kps \<Rightarrow> u8 \<Rightarrow> u8 list \<Rightarrow> kbd \<Rightarrow> (iolog, kbd exec) state" where
  "feed hw k port [] s = ret (ok s)"
| "feed hw k port (b # bs) s = bindS (keyboard_handler hw k b port s) (feed hw k port bs)"

text \<open>Between messages the decoder rests, except that it never forgets having seen a Pause.\<close>

definition rest :: "bool \<Rightarrow> sequence" where
  "rest p = \<lparr>previous_extended_signal = False, four_long_sequence = False, six_long_sequence = p,
     current_sequence_length = 0\<rparr>"

fun prefixed :: "key_msg \<Rightarrow> bool" where
  "prefixed (Ext_make _) = True" | "prefixed (Ext_break _) = True"
| "prefixed Print_make = True" | "prefixed Print_break = True"
| "prefixed _ = False"


section \<open>Reporting is independent of decoding\<close>

definition touch :: "(u8 \<Rightarrow> sequence) \<Rightarrow> nat \<Rightarrow> kbd \<Rightarrow> kbd" where
  "touch f n s = s\<lparr>seqs := f, eois := n\<rparr>"

abbreviation touched :: "(u8 \<Rightarrow> sequence) \<Rightarrow> nat \<Rightarrow> kbd exec \<times> iolog \<Rightarrow> kbd exec \<times> iolog" where
  "touched f n \<equiv> map_prod (map_sum id (touch f n)) id"

lemma touch_simps [simp]:
  "touch f n (touch g m s) = touch f n s"
  "touch (seqs s) (eois s) s = s"
  "seqs (touch f n s) = f" "eois (touch f n s) = n"
  "is_key_pressed (touch f n s) = is_key_pressed s"
  "is_extended_key_pressed (touch f n s) = is_extended_key_pressed s"
  "is_key_tied_to_function (touch f n s) = is_key_tied_to_function s"
  "key_functions (touch f n s) = key_functions s"
  "is_extended_key_tied_to_function (touch f n s) = is_extended_key_tied_to_function s"
  "extended_key_functions (touch f n s) = extended_key_functions s"
  "led_keys (touch f n s) = led_keys s" "is_print_screen_pressed (touch f n s) = is_print_screen_pressed s"
  "get_current_mod_state (touch f n s) = get_current_mod_state s"
  "is_ctrl_held (touch f n s) = is_ctrl_held s"
  "emit c (touch f n s) = touch f n (emit c s)"
  by (simp_all add: touch_def get_current_mod_state_def is_ctrl_held_def emit_def)

lemma touched_touched: "touched f n (touched g m r) = touched f n r"
  by (cases r; cases "fst r") simp_all

lemma touch_eqs: "send_eoi s = touch (seqs s) (eois s + 1) s" "set_seq port q s = touch ((seqs s)(port := q)) (eois s) s"
  by (simp_all add: send_eoi_def set_seq_def touch_def)

lemma touch_update [simp]:
  "(touch f n s)\<lparr>is_key_pressed := kp\<rparr> = touch f n (s\<lparr>is_key_pressed := kp\<rparr>)"
  "(touch f n s)\<lparr>is_extended_key_pressed := ep\<rparr> = touch f n (s\<lparr>is_extended_key_pressed := ep\<rparr>)"
  "(touch f n s)\<lparr>is_print_screen_pressed := pp\<rparr> = touch f n (s\<lparr>is_print_screen_pressed := pp\<rparr>)"
  "(touch f n s)\<lparr>led_keys := l\<rparr> = touch f n (s\<lparr>led_keys := l\<rparr>)"
  by (simp_all add: touch_def)

lemma call_key_function_touch:
  "run (call_key_function hw k g (touch f n s)) tr = map_prod (touch f n) id (run (call_key_function hw k g s) tr)"
  by (cases g) (simp_all add: toggle_led_def run_bind split: prod.split)

lemma parse_touch:
  "run (parse_scan_code hw k sc b (touch f n s)) tr = touched f n (run (parse_scan_code hw k sc b s) tr)"
  "run (parse_extended_scan_code hw k sc b (touch f n s)) tr = touched f n (run (parse_extended_scan_code hw k sc b s) tr)"
  by (simp_all add: parse_scan_code_def parse_extended_scan_code_def run_bind call_key_function_touch Let_def
      split: prod.split)

lemma parse_special_touch:
  "parse_print_screen b (touch f n s) = touch f n (parse_print_screen b s)"
  "parse_pause_pressed (touch f n s) = touch f n (parse_pause_pressed s)"
  by (simp_all add: parse_print_screen_def parse_pause_pressed_def)


lemma parse_keeps:
  "run (parse_scan_code hw k sc b s) tr = touched (seqs s) (eois s) (run (parse_scan_code hw k sc b s) tr)"
  "run (parse_extended_scan_code hw k sc b s) tr =
     touched (seqs s) (eois s) (run (parse_extended_scan_code hw k sc b s) tr)"
  using parse_touch [of hw k sc b "seqs s" "eois s" s tr] by simp_all

lemma run_finish:
  assumes "run m tr = touched f n (run m tr)"
  shows "run (bindS m (\<lambda>s. ret (ok (send_eoi (set_seq port
      ((seqs s port)\<lparr>previous_extended_signal := e\<rparr>) s))))) tr =
    touched (f(port := (f port)\<lparr>previous_extended_signal := e\<rparr>)) (n + 1) (run m tr)"
proof -
  obtain x tr' where m: "run m tr = (x, tr')" by (rule prod.exhaust)
  show ?thesis
  proof (cases x)
    case (Inr s')
    then have "s' = touch f n s'" using assms m by simp
    then have "seqs s' = f" "eois s' = n" by (metis touch_simps(3,4))+
    then show ?thesis using m Inr by (simp add: run_bindS touch_eqs)
  qed (simp add: m run_bindS)
qed

text \<open>A byte on its own, and a byte after the extended prefix.\<close>

lemma run_two_long:
  assumes "\<not> previous_extended_signal (seqs s port)" and "sc \<noteq> 0xE0"
  shows "run (two_long_step hw k sc port s) tr =
    touched (seqs s) (eois s + 1)
      (run (parse_scan_code hw k (if sc \<ge> 0x81 then sc - 0x80 else sc) (\<not> sc \<ge> 0x81) s) tr)"
proof -
  have "(seqs s)(port := (seqs s port)\<lparr>previous_extended_signal := False\<rparr>) = seqs s"
    using assms(1) by (intro fun_upd_idem) simp
  then show ?thesis
    using assms run_finish [OF parse_keeps(1)]
    by (simp add: two_long_step_def SCANCODE_RELEASE_START_def SCANCODE_RELEASE_OFFSET_def)
qed

lemma run_two_long_extended:
  assumes "previous_extended_signal (seqs s port)" and "sc \<noteq> 0xE0"
  shows "run (two_long_step hw k sc port s) tr =
    touched ((seqs s)(port := (seqs s port)\<lparr>previous_extended_signal := False\<rparr>)) (eois s + 1)
      (run (parse_extended_scan_code hw k (if sc \<ge> 0x90 then sc - 0x80 else sc) (\<not> sc \<ge> 0x90) s) tr)"
  using assms run_finish [OF parse_keeps(2)]
  by (simp add: two_long_step_def EXTENDED_SCANCODE_RELEASE_START_def EXTENDED_SCANCODE_RELEASE_OFFSET_def)

lemmas seq_list_defs = print_screen_pressed_sequence_def print_screen_released_sequence_def pause_pressed_sequence_def

lemma known_bounds:
  "sc \<in> set (press_codes SCANCODES) \<Longrightarrow> 1 \<le> sc \<and> sc < 0x59"
  "sc \<in> set (press_codes EXTENDED_SCANCODES) \<Longrightarrow>
     0x10 \<le> sc \<and> sc < 0x6E \<and> sc \<noteq> 0x2A \<and> sc \<noteq> 0x37 \<and> sc \<noteq> 0x60 \<and> sc \<noteq> 0x61"
  using press_code_bounds by (auto simp: list_all_iff const_defs)

lemma release_byte:
  fixes sc c :: u8
  assumes "sc < 0x80" and "c < 0x80"
  shows "(c + 0x80 \<le> sc + 0x80) = (c \<le> sc)"
proof -
  have plus: "unat (d + 0x80) = unat d + 128" if "d < 0x80" for d :: u8
    using that by (simp add: unat_word_ariths word_less_nat_alt)
  show ?thesis by (simp add: word_le_nat_alt plus assms)
qed

lemma run_handler_plain:
  assumes "active_scancode_set k = 1" and "seqs s port = rest p" and "port < 2" and "b \<noteq> 0xE0" and "b \<noteq> 0xE1"
  shows "run (keyboard_handler hw k b port s) tr =
    touched (seqs s) (eois s + 1)
      (run (parse_scan_code hw k (if b \<ge> 0x81 then b - 0x80 else b) (\<not> b \<ge> 0x81) s) tr)"
proof -
  have same: "set_seq port ((rest p)\<lparr>previous_extended_signal := False\<rparr>) s = s"
  proof -
    have "(rest p)\<lparr>previous_extended_signal := False\<rparr> = seqs s port" using assms(2) by (simp add: rest_def)
    then show ?thesis by (simp add: set_seq_def)
  qed
  have "run (keyboard_handler hw k b port s) tr = run (two_long_step hw k b port s) tr"
    using assms same by (cases p) (simp_all add: keyboard_handler_def keyboard_handler_scs1_def six_long_step_def
        seq_list_defs rest_def run_bindS)
  then show ?thesis using run_two_long [of s port b] assms(2,4) by (simp add: rest_def)
qed

lemma run_handler_prefix:
  assumes "active_scancode_set k = 1" and "seqs s port = rest False" and "port < 2"
  shows "run (keyboard_handler hw k 0xE0 port s) tr =
    (ok (touch ((seqs s)(port := (rest False)\<lparr>previous_extended_signal := True\<rparr>)) (eois s + 1) s), tr)"
  using assms by (simp add: keyboard_handler_def keyboard_handler_scs1_def rest_def touch_eqs)

lemma run_handler_extended:
  assumes "active_scancode_set k = 1" and "seqs s port = (rest False)\<lparr>previous_extended_signal := True\<rparr>"
    and "port < 2" and "b \<noteq> 0xE0" and "b \<noteq> 0xE1" and "b \<noteq> 0x2A" and "b \<noteq> 0xB7"
  shows "run (keyboard_handler hw k b port s) tr =
    touched ((seqs s)(port := rest False)) (eois s + 1)
      (run (parse_extended_scan_code hw k (if b \<ge> 0x90 then b - 0x80 else b) (\<not> b \<ge> 0x90) s) tr)"
proof -
  have "run (keyboard_handler hw k b port s) tr = run (two_long_step hw k b port s) tr"
    using assms by (simp add: keyboard_handler_def keyboard_handler_scs1_def seq_list_defs rest_def)
  then show ?thesis using run_two_long_extended [of s port b] assms(2,4) by (simp add: rest_def)
qed

text \<open>A release byte is the press byte with its top bit set; it is none of the prefixes.\<close>

lemma plain_release:
  assumes "1 \<le> sc" and "sc < (0x59 :: u8)"
  shows "0x81 \<le> sc + 0x80" and "sc + 0x80 \<noteq> 0xE0" and "sc + 0x80 \<noteq> 0xE1"
    and "\<not> 0x81 \<le> sc" and "sc \<noteq> 0xE0" and "sc \<noteq> 0xE1"
proof -
  have small: "sc < 0x80" using assms(2) by (rule less_trans) simp
  show "0x81 \<le> sc + 0x80" using release_byte [OF small, of 1] assms(1) by simp
  have ne: "sc \<noteq> 0x60" "sc \<noteq> 0x61" using assms(2) by auto
  have "sc + 0x80 \<noteq> c + 0x80" if "sc \<noteq> c" for c using that by simp
  from this [OF ne(1)] this [OF ne(2)] show "sc + 0x80 \<noteq> 0xE0" "sc + 0x80 \<noteq> 0xE1" by simp_all
  show "\<not> 0x81 \<le> sc" using small by (auto simp: not_le intro: less_trans)
  show "sc \<noteq> 0xE0" "sc \<noteq> 0xE1" using assms(2) by auto
qed

lemma extended_release:
  assumes "0x10 \<le> sc" and "sc < (0x6E :: u8)" and "sc \<noteq> 0x60" and "sc \<noteq> 0x61" and "sc \<noteq> 0x37" and "sc \<noteq> 0x2A"
  shows "0x90 \<le> sc + 0x80" and "sc + 0x80 \<noteq> 0xE0" and "sc + 0x80 \<noteq> 0xE1" and "sc + 0x80 \<noteq> 0xB7"
    and "sc + 0x80 \<noteq> 0x2A" and "\<not> 0x90 \<le> sc" and "sc \<noteq> 0xE0" and "sc \<noteq> 0xE1" and "sc \<noteq> 0xB7"
proof -
  have small: "sc < 0x80" using assms(2) by (rule less_trans) simp
  show big: "0x90 \<le> sc + 0x80" using release_byte [OF small, of "0x10"] assms(1) by simp
  have "sc + 0x80 \<noteq> c + 0x80" if "sc \<noteq> c" for c using that by simp
  from this [OF assms(3)] this [OF assms(4)] this [OF assms(5)]
  show "sc + 0x80 \<noteq> 0xE0" "sc + 0x80 \<noteq> 0xE1" "sc + 0x80 \<noteq> 0xB7" by simp_all
  show "sc + 0x80 \<noteq> 0x2A"
  proof
    assume "sc + 0x80 = 0x2A"
    with big have "0x90 \<le> (0x2A :: u8)" by (simp only:)
    then show False by simp
  qed
  show "\<not> 0x90 \<le> sc" using small by (auto simp: not_le intro: less_trans)
  show "sc \<noteq> 0xE0" "sc \<noteq> 0xE1" "sc \<noteq> 0xB7" using assms(2) by auto
qed

lemma run_prefixed:
  assumes "active_scancode_set k = 1" and "seqs s port = rest False" and "port < 2"
    and "b \<noteq> 0xE0" and "b \<noteq> 0xE1" and "b \<noteq> 0x2A" and "b \<noteq> 0xB7"
  shows "run (feed hw k port [0xE0, b] s) tr = touched (seqs s) (eois s + 2)
      (run (parse_extended_scan_code hw k (if b \<ge> 0x90 then b - 0x80 else b) (\<not> b \<ge> 0x90) s) tr)"
proof -
  let ?q = "(seqs s)(port := (rest False)\<lparr>previous_extended_signal := True\<rparr>)"
  let ?s = "touch ?q (eois s + 1) s"
  let ?r = "run (parse_extended_scan_code hw k (if b \<ge> 0x90 then b - 0x80 else b) (\<not> b \<ge> 0x90) s) tr"
  have same: "?q(port := rest False) = seqs s" using assms(2) by (simp add: fun_upd_idem)
  have "run (keyboard_handler hw k b port ?s) tr =
      touched (?q(port := rest False)) (eois s + 2) (touched ?q (eois s + 1) ?r)"
    using run_handler_extended [of k ?s port b hw tr] assms unfolding parse_touch by simp
  also have "\<dots> = touched (seqs s) (eois s + 2) ?r"
    unfolding same by (rule touched_touched)
  finally have "run (keyboard_handler hw k b port ?s) tr = touched (seqs s) (eois s + 2) ?r" .
  then show ?thesis
    using run_handler_prefix [OF assms(1-3)] by (simp add: run_bindS split: prod.split sum.split)
qed

lemma feed_msg:
  assumes "active_scancode_set k = 1" and "seqs s port = rest p" and "port < 2" and "known m"
    and "\<not> p \<or> \<not> prefixed m"
  shows "run (feed hw k port (encode m) s) tr =
    touched ((seqs s)(port := rest (p \<or> m = Pause_make))) (eois s + length (encode m)) (run (msg_effect hw k m s) tr)"
proof (cases m)
  case (Make sc)
  have "1 \<le> sc" "sc < 0x59" using assms(4) known_bounds(1) [of sc] Make by simp_all
  note r = plain_release [OF this]
  have "(seqs s)(port := rest p) = seqs s" using assms(2) by (simp add: fun_upd_idem)
  then show ?thesis
    using run_handler_plain [OF assms(1-3) r(5,6)] r(4) Make
    by (simp add: run_bindS split: prod.split sum.split)
next
  case (Break sc)
  have "1 \<le> sc" "sc < 0x59" using assms(4) known_bounds(1) [of sc] Break by simp_all
  note r = plain_release [OF this]
  have "(seqs s)(port := rest p) = seqs s" using assms(2) by (simp add: fun_upd_idem)
  then show ?thesis
    using run_handler_plain [OF assms(1-3) r(2,3)] r(1) Break
    by (simp add: run_bindS split: prod.split sum.split)
next
  case (Ext_make sc)
  then have p: "\<not> p" using assms(5) by simp
  have "0x10 \<le> sc" "sc < 0x6E" "sc \<noteq> 0x60" "sc \<noteq> 0x61" "sc \<noteq> 0x37" "sc \<noteq> 0x2A"
    using assms(4) known_bounds(2) [of sc] Ext_make by simp_all
  note r = extended_release [OF this]
  have "(seqs s)(port := rest p) = seqs s" using assms(2) by (simp add: fun_upd_idem)
  then show ?thesis
    using run_prefixed [OF assms(1) _ assms(3) r(7,8) \<open>sc \<noteq> 0x2A\<close> r(9)] r(6) Ext_make p assms(2)
    by (simp del: feed.simps)
next
  case (Ext_break sc)
  then have p: "\<not> p" using assms(5) by simp
  have "0x10 \<le> sc" "sc < 0x6E" "sc \<noteq> 0x60" "sc \<noteq> 0x61" "sc \<noteq> 0x37" "sc \<noteq> 0x2A"
    using assms(4) known_bounds(2) [of sc] Ext_break by simp_all
  note r = extended_release [OF this]
  have "(seqs s)(port := rest p) = seqs s" using assms(2) by (simp add: fun_upd_idem)
  then show ?thesis
    using run_prefixed [OF assms(1) _ assms(3) r(2,3,5,4)] r(1) Ext_break p assms(2)
    by (simp del: feed.simps)
next
  case Pause_make
  then show ?thesis
    using assms by (simp add: run_bindS keyboard_handler_def keyboard_handler_scs1_def rest_def seq_list_defs
        six_long_step_def touch_eqs parse_special_touch)
qed (use assms in \<open>simp_all add: run_bindS keyboard_handler_def keyboard_handler_scs1_def rest_def seq_list_defs
        four_long_step_def touch_eqs parse_special_touch\<close>)

lemma feed_append: "feed hw k port (bs @ cs) s = bindS (feed hw k port bs s) (feed hw k port cs)"
proof (induction bs arbitrary: s)
  case (Cons b bs)
  have assoc: "bindS (bindS m f) g = bindS m (\<lambda>x. bindS (f x) g)" for m :: "(iolog, kbd exec) state" and f g
    by (rule state.expand, rule ext) (simp add: run_bindS split: prod.split sum.split)
  have "feed hw k port (bs @ cs) = (\<lambda>x. bindS (feed hw k port bs x) (feed hw k port cs))"
    by (rule ext) (rule Cons.IH)
  then show ?case by (simp add: assoc)
next
  case Nil
  show ?case by (rule state.expand, rule ext) (simp add: run_bindS)
qed







lemma prefix_after_pause:
  fixes s :: kbd
  assumes "active_scancode_set k = 1"
  shows "run (keyboard_handler hw k 0xE0 1 (touch ((seqs s)(1 := rest True)) n t)) tr = (Inl OutOfBounds, tr)"
  using assms by (simp add: keyboard_handler_def keyboard_handler_scs1_def rest_def seq_list_defs six_long_step_def
      run_bindS two_long_step_def set_seq_def parse_scan_code_def const_defs)

section \<open>Properties\<close>


definition example_kbd :: kbd where
  "example_kbd = \<lparr>led_keys = leds_off, is_key_pressed = (\<lambda>_. False), is_extended_key_pressed = (\<lambda>_. False),
     is_print_screen_pressed = False, key_functions = (\<lambda>_. Nop), is_key_tied_to_function = (\<lambda>_. False),
     extended_key_functions = (\<lambda>_. Nop), is_extended_key_tied_to_function = (\<lambda>_. False),
     seqs = (\<lambda>_. rest False), calls = [], eois = 0\<rparr>"


text \<open>
  After a Pause the decoder takes the next \<open>E0\<close> prefix for a release of scan code 0x60 and clears
  \<open>is_key_pressed[0x60]\<close>, past the end of that array of 0x59 entries. A keyboard on port 2 is never decoded: its
  port number is outside the decoder's arrays of two from the first byte on.
\<close>

theorem keyboard_handler_out_of_bounds:
  assumes "active_scancode_set k = 1" and "seqs s 1 = rest False"
  shows "fst (run (feed hw k 1 (encode Pause_make @ [0xE0]) s) tr) = Inl OutOfBounds \<and>
    fst (run (keyboard_handler hw k b 2 s) tr) = Inl OutOfBounds"
proof -
  have pause: "run (feed hw k 1 (encode Pause_make) s) tr =
      (ok (touch ((seqs s)(1 := rest True)) (eois s + length (encode Pause_make)) (parse_pause_pressed s)), tr)"
    using feed_msg [OF assms, of Pause_make hw tr] by (simp del: encode.simps)
  note prefix_after_pause [OF assms(1)]
  moreover have "run (keyboard_handler hw k b 2 s) tr = (Inl OutOfBounds, tr)"
    using assms(1) by (simp add: keyboard_handler_def keyboard_handler_scs1_def)
  ultimately show ?thesis
    using pause by (simp add: feed_append run_bindS del: encode.simps)
qed

theorem keyboard_handler_out_of_bounds_witness:
  "fst (run (feed pic_model_hw (quick_k_init example_kps) 1 (encode Pause_make @ [0xE0]) example_kbd) []) = Inl OutOfBounds \<and>
    fst (run (keyboard_handler pic_model_hw (quick_k_init example_kps) 0x1E 2 example_kbd) []) = Inl OutOfBounds"
  by (rule keyboard_handler_out_of_bounds) (simp_all add: quick_k_init_def example_kbd_def)

end
