(* ===== verification/Ps2_Boot.thy ===== *)
theory Ps2_Boot
  imports Ps2_Setup Ps2_Keyboard
begin

text \<open>
  \<open>drivers/ps2/ps2.c\<close>: what the kernel does with the outcome of the controller bring-up. It decides which device
  is on which port, tells the keyboard and mouse drivers, installs the interrupt gates, and programs the
  interrupt controllers. Here the components meet: \<open>setup_ps2_controller\<close>, the interrupt table, the keyboard
  driver's port state, the 8259 controllers. Of the mouse driver (C++) only the four functions called here are
  modelled (\<open>mouse/ps2_mouse.cpp\<close>); the pointer picture they reset is not.
\<close>

section \<open>State\<close>





text \<open>
  The send is not checked; the assertion on the answer assigns instead of comparing, so it always holds.
\<close>

definition quick_enable_mouse :: "hw \<Rightarrow> (iolog, unit exec) state" where
  "quick_enable_mouse hw = do {
     send_command_to_second_ps2_port hw 0xf4;
     e \<leftarrow> wait_till_ready_for_response hw;
     if e \<noteq> PS2_ERR_none then ret (Inl Abort)
     else do {
       res \<leftarrow> ps2_recieve_raw_response hw;
       ret (ok ())
     }
   }"

section \<open>Operations\<close>















section \<open>The interrupt controllers\<close>

text \<open>The vectors a remapped pair of controllers delivers, which mask writes leave alone.\<close>

definition pics_at :: "u8 \<Rightarrow> u8 \<Rightarrow> iolog \<Rightarrow> bool" where
  "pics_at a b tr \<longleftrightarrow> pics_ready tr \<and> vector_base (chip PIC1 tr) = a \<and> vector_base (chip PIC2 tr) = b"

lemma keeps_pics_at [keeps_rules]:
  "keeps (pics_at a b) (IRQ_set_mask hw l)" "keeps (pics_at a b) (IRQ_clear_mask hw l)"
  by (auto simp: keeps_def pics_at_def pics_ready_def IRQ_set_mask_def IRQ_clear_mask_def Let_def run_bind
      chip_mask_write split: sum.split simp del: chip.simps)








section \<open>What the set-up leaves behind\<close>












section \<open>Properties\<close>




text \<open>
  The mouse is enabled on the second port whatever port it is on: with a mouse on port 1 and a keyboard on
  port 2 the enable command goes, behind the prefix for the second port, to the keyboard; and any answer
  is accepted.
\<close>

lemma quick_enable_mouse_second_port:
  "run (quick_enable_mouse always_ready) tr =
     (ok (), In 0x60 1 # In 0x64 1 # Out 0x80 0 # Out 0x60 0xF4 # In 0x64 1 # Out 0x80 0 #
             Out 0x64 0xD4 # In 0x64 1 # Out 0x80 0 # tr)"
  by (simp add: quick_enable_mouse_def ready_runs ps2_recieve_raw_response_def)

end
