(* ===== verification/Vga_Terminal.thy ===== *)
theory Vga_Terminal
  imports Port_IO C_Strings_Correct
begin

text \<open>
  The text console (\<open>stdio/vga_terminal.c\<close>, \<open>stdio/vga_terminal.h\<close>): a scrollable buffer of 1000
  rows, the 25 rows of text memory that are visible, and the serial port every character is copied to.

  The record \<open>terminal\<close> is the global \<open>term\<close> together with what its pointer \<open>vga_buffer\<close> points to
  (the text memory at \<open>VGA_MMIO_BASE\<close>) and the log of port accesses. Rows and columns are the
  code's 32-bit unsigned integers, whose subtractions wrap; a cell is addressed by (row, column).
  Every array access carries its bounds check, and a write through a \<open>vga_buffer\<close> that was not set
  yet is undefined. The transmit loop of the serial port may spin for ever: its value is then
  \<open>None\<close>, and the operation stops with \<open>Hang\<close>.

  All printing goes through \<open>terminal_putchar\<close>. The section on \<open>emit\<close> reduces the writing functions
  to the sequence of characters they put, on which the later results are stated.
\<close>

section \<open>Data\<close>

type_synonym cell = "u32 \<times> u32"

definition VGA_MMIO_BASE :: addr where "VGA_MMIO_BASE = 0xB8000"
definition VGA_WIDTH :: u32 where "VGA_WIDTH = 80"
definition VGA_HEIGHT :: u32 where "VGA_HEIGHT = 25"
definition VGA_MEM_HEIGHT :: u32 where "VGA_MEM_HEIGHT = 1000"
definition COM1 :: port where "COM1 = 0x3F8"
definition VGA_COLOR_BLACK :: u8 where "VGA_COLOR_BLACK = 0"
definition VGA_COLOR_LIGHT_GREY :: u8 where "VGA_COLOR_LIGHT_GREY = 7"

lemmas vga_consts = VGA_MMIO_BASE_def VGA_WIDTH_def VGA_HEIGHT_def VGA_MEM_HEIGHT_def

record TerminalContext =
  current_write_row :: u32
  current_write_column :: u32
  scroll_row :: u32
  color :: u8
  vga_buffer :: addr
  big_scrollable_buffer :: "cell \<Rightarrow> u16"

record terminal = TerminalContext +
  text_memory :: "cell \<Rightarrow> u16"
  serial_log :: iolog

text \<open>The index pairs of a nested loop over \<open>h\<close> rows and \<open>w\<close> columns, in the order of the loop.\<close>

definition cells :: "u32 \<Rightarrow> u32 \<Rightarrow> cell list" where
  "cells h w = [(of_nat y, of_nat x). y \<leftarrow> [0..<unat h], x \<leftarrow> [0..<unat w]]"

section \<open>The buffers\<close>

definition vga_entry_color :: "u8 \<Rightarrow> u8 \<Rightarrow> u8" where
  "vga_entry_color fg bg = push_bit 4 bg OR fg"

definition vga_entry :: "u8 \<Rightarrow> u8 \<Rightarrow> u16" where
  "vga_entry uc col = push_bit 8 (ucast col) OR ucast uc"

text \<open>The positions are \<open>uint8_t\<close> parameters.\<close>

definition set_vga_element :: "u8 \<Rightarrow> u8 \<Rightarrow> u16 \<Rightarrow> terminal \<Rightarrow> terminal exec" where
  "set_vga_element pos_x pos_y c s =
     (if vga_buffer s \<noteq> VGA_MMIO_BASE then Inl Undefined
      else if ucast pos_y < VGA_HEIGHT \<and> ucast pos_x < VGA_WIDTH
      then ok (s\<lparr>text_memory := (text_memory s)((ucast pos_y, ucast pos_x) := c)\<rparr>)
      else Inl OutOfBounds)"

definition clear_visible_terminal :: "terminal \<Rightarrow> terminal exec" where
  "clear_visible_terminal = forE (\<lambda>(y, x) s.
     set_vga_element (ucast x) (ucast y) (ucast (vga_entry_color (chr CHR '' '') (color s))) s)
     (cells VGA_HEIGHT VGA_WIDTH)"

definition serial_init :: "terminal \<Rightarrow> terminal" where
  "serial_init s = s"

definition initialize_terminal :: "terminal \<Rightarrow> terminal exec" where
  "initialize_terminal s =
     (let s = serial_init s;
          s = s\<lparr>current_write_row := 0, current_write_column := 0,
                color := vga_entry_color VGA_COLOR_LIGHT_GREY VGA_COLOR_BLACK,
                vga_buffer := VGA_MMIO_BASE\<rparr>
      in bindE (clear_visible_terminal s) (\<lambda>s.
         forE (\<lambda>(y, x) s. ok (s\<lparr>big_scrollable_buffer :=
                 (big_scrollable_buffer s)((y, x) := vga_entry (chr CHR '' '') (color s))\<rparr>))
           (cells VGA_MEM_HEIGHT VGA_WIDTH) (s\<lparr>scroll_row := 0\<rparr>)))"

text \<open>\<open>term.big_scrollable_buffer[y][x]\<close>, read.\<close>

definition big_at :: "terminal \<Rightarrow> cell \<Rightarrow> u16 exec" where
  "big_at s k = (if fst k < VGA_MEM_HEIGHT \<and> snd k < VGA_WIDTH then ok (big_scrollable_buffer s k)
                 else Inl OutOfBounds)"

definition terminal_update_vga_mem :: "terminal \<Rightarrow> terminal exec" where
  "terminal_update_vga_mem = forE (\<lambda>(y, x) s.
     bindE (big_at s (y + scroll_row s, x)) (\<lambda>c. set_vga_element (ucast x) (ucast y) c s))
     (cells VGA_HEIGHT VGA_WIDTH)"

definition terminal_set_scroll :: "u32 \<Rightarrow> terminal \<Rightarrow> terminal exec" where
  "terminal_set_scroll row s =
     (let mx = VGA_MEM_HEIGHT - VGA_HEIGHT;
          row = (if row > mx then mx else row);
          row = (if row < 0 then 0 else row)
      in terminal_update_vga_mem (s\<lparr>scroll_row := row\<rparr>))"

text \<open>\<open>scroll_amount\<close> is an \<open>int\<close>; the sum is unsigned.\<close>

definition terminal_scroll_down :: "int \<Rightarrow> terminal \<Rightarrow> terminal exec" where
  "terminal_scroll_down scroll_amount s = terminal_set_scroll (scroll_row s + of_int scroll_amount) s"

definition terminal_scroll_up :: "int \<Rightarrow> terminal \<Rightarrow> terminal exec" where
  "terminal_scroll_up scroll_amount s =
     (if scroll_amount = - (2 ^ 31) then Inl Undefined else terminal_scroll_down (- scroll_amount) s)"

definition terminal_setcolor :: "u8 \<Rightarrow> terminal \<Rightarrow> terminal" where
  "terminal_setcolor col s = s\<lparr>color := col\<rparr>"

definition terminal_putentryat :: "u8 \<Rightarrow> u8 \<Rightarrow> u32 \<Rightarrow> u32 \<Rightarrow> terminal \<Rightarrow> terminal exec" where
  "terminal_putentryat c col pos_x pos_y s =
     (if pos_y < VGA_MEM_HEIGHT \<and> pos_x < VGA_WIDTH then
        let s = s\<lparr>big_scrollable_buffer := (big_scrollable_buffer s)((pos_y, pos_x) := vga_entry c col)\<rparr>
        in if pos_y - scroll_row s \<ge> VGA_HEIGHT then ok s
           else bindE (big_at s (pos_y - scroll_row s, pos_x)) (\<lambda>colored_c.
                  set_vga_element (ucast pos_x) (ucast (pos_y - scroll_row s)) colored_c s)
      else Inl OutOfBounds)"

section \<open>The cursor\<close>

definition terminal_increase_row :: "terminal \<Rightarrow> terminal exec" where
  "terminal_increase_row s =
     (let s = s\<lparr>current_write_row := current_write_row s + 1\<rparr>
      in bindE (if current_write_row s - scroll_row s > VGA_HEIGHT then terminal_scroll_down 1 s else ok s) (\<lambda>s.
         if current_write_row s \<ge> VGA_MEM_HEIGHT then
           bindE (terminal_set_scroll 0 (s\<lparr>current_write_row := 0, current_write_column := 0\<rparr>))
             clear_visible_terminal
         else ok s))"

definition terminal_arrow_left :: "terminal \<Rightarrow> terminal" where
  "terminal_arrow_left s = s"

definition terminal_arrow_right :: "terminal \<Rightarrow> terminal" where
  "terminal_arrow_right s = s"

definition terminal_arrow_up :: "terminal \<Rightarrow> terminal exec" where
  "terminal_arrow_up s =
     (let s = s\<lparr>current_write_row := current_write_row s - 1\<rparr>
      in if current_write_row s < scroll_row s
         then terminal_scroll_up 1 (s\<lparr>current_write_row := scroll_row s\<rparr>)
         else ok s)"

definition terminal_arrow_down :: "terminal \<Rightarrow> terminal exec" where
  "terminal_arrow_down s =
     (let s = s\<lparr>current_write_row := current_write_row s + 1\<rparr>
      in if current_write_row s > scroll_row s + VGA_HEIGHT
         then terminal_scroll_down 1 (s\<lparr>current_write_row := scroll_row s + VGA_HEIGHT\<rparr>)
         else ok s)"

definition terminal_ctrl_f :: "terminal \<Rightarrow> terminal exec" where
  "terminal_ctrl_f s =
     bindE (if scroll_row s + VGA_HEIGHT < VGA_MEM_HEIGHT then terminal_scroll_down 1 s else ok s) (\<lambda>s.
     ok (if current_write_row s < scroll_row s then s\<lparr>current_write_row := scroll_row s\<rparr> else s))"

definition terminal_ctrl_r :: "terminal \<Rightarrow> terminal exec" where
  "terminal_ctrl_r s =
     bindE (if scroll_row s > 0 then terminal_scroll_up 1 s else ok s) (\<lambda>s.
     ok (if current_write_row s > scroll_row s + VGA_HEIGHT
         then s\<lparr>current_write_row := scroll_row s + VGA_HEIGHT\<rparr> else s))"

section \<open>The serial port\<close>

text \<open>\<open>while (!(__inb(COM1 + 5) & 0x20));\<close>\<close>

partial_function (option) serial_poll :: "hw \<Rightarrow> iolog \<Rightarrow> iolog option" where
  "serial_poll hw tr =
     (if hw tr (COM1 + 5) AND 0x20 = 0
      then serial_poll hw (In (COM1 + 5) (hw tr (COM1 + 5)) # tr)
      else Some (In (COM1 + 5) (hw tr (COM1 + 5)) # tr))"

definition serial_write_char :: "hw \<Rightarrow> u8 \<Rightarrow> terminal \<Rightarrow> terminal exec" where
  "serial_write_char hw c s =
     bindE (hang_unless (serial_poll hw (serial_log s))) (\<lambda>tr. ok (s\<lparr>serial_log := Out COM1 c # tr\<rparr>))"

partial_function (option) serial_string_loop :: "hw \<Rightarrow> mem \<Rightarrow> addr \<Rightarrow> terminal \<Rightarrow> terminal exec option" where
  "serial_string_loop hw m p s =
     (if m p \<noteq> 0
      then (case serial_write_char hw (m p) s of
              Inl e \<Rightarrow> Some (Inl e)
            | Inr s \<Rightarrow> serial_string_loop hw m (p + 1) s)
      else Some (ok s))"

definition serial_write_string :: "hw \<Rightarrow> mem \<Rightarrow> addr \<Rightarrow> terminal \<Rightarrow> terminal exec" where
  "serial_write_string hw m p s = bindE (hang_unless (serial_string_loop hw m p s)) id"

section \<open>Writing characters\<close>

function terminal_putchar :: "hw \<Rightarrow> u8 \<Rightarrow> terminal \<Rightarrow> terminal exec" where
  "terminal_putchar hw c s =
     (if c = 0 then ok s
      else if c = 9 then
        let diff = ucast (VGA_WIDTH - current_write_column s) :: u8;
            spaceToAdd = (if 4 > diff then diff else 4)
        in forE (\<lambda>_. terminal_putchar hw (chr CHR '' '')) [0..<unat spaceToAdd] s
      else bindE (serial_write_char hw c s) (\<lambda>s.
        if c = 10 then terminal_increase_row (s\<lparr>current_write_column := 0\<rparr>)
        else bindE (terminal_putentryat c (color s) (current_write_column s) (current_write_row s) s) (\<lambda>s.
          let s = s\<lparr>current_write_column := current_write_column s + 1\<rparr>
          in if current_write_column s = VGA_WIDTH
             then terminal_increase_row (s\<lparr>current_write_column := 0\<rparr>)
             else ok s)))"
  by pat_completeness auto
termination
  by (relation "measure (\<lambda>(_, c, _). if c = 9 then 1 else 0)") simp_all

declare terminal_putchar.simps [simp del]

definition terminal_write :: "hw \<Rightarrow> mem \<Rightarrow> addr \<Rightarrow> u32 \<Rightarrow> terminal \<Rightarrow> terminal exec" where
  "terminal_write hw m data sz = forE (\<lambda>i. terminal_putchar hw (m (data + of_nat i))) [0..<unat sz]"

definition terminal_writestring :: "hw \<Rightarrow> mem \<Rightarrow> addr \<Rightarrow> terminal \<Rightarrow> terminal exec" where
  "terminal_writestring hw m data s = bindE (strlen m data) (\<lambda>len. terminal_write hw m data len s)"

text \<open>The character sequence a writing function puts.\<close>

definition emit :: "hw \<Rightarrow> u8 list \<Rightarrow> terminal \<Rightarrow> terminal exec" where
  "emit hw = forE (terminal_putchar hw)"

lemma emit_simps [simp]:
  "emit hw [] s = ok s"
  "emit hw (c # cs) s = bindE (terminal_putchar hw c s) (emit hw cs)"
  by (simp_all add: emit_def)

lemma emit_append: "emit hw (a @ b) s = bindE (emit hw a s) (emit hw b)"
  by (simp add: emit_def forE_append)

lemma emit_fun:
  "emit hw (c # cs) = (\<lambda>s. bindE (terminal_putchar hw c s) (emit hw cs))"
  "emit hw (a @ b) = (\<lambda>s. bindE (emit hw a s) (emit hw b))"
  by (simp_all add: emit_append fun_eq_iff)

lemma terminal_write_emit: "terminal_write hw m data sz = emit hw (fetch m data (unat sz))"
  by (simp add: terminal_write_def emit_def fetch_conv_map forE_map fun_eq_iff)

lemma terminal_writestring_emit: "cstr m p t \<Longrightarrow> terminal_writestring hw m p = emit hw t"
  by (simp add: terminal_writestring_def strlen_cstr terminal_write_emit fun_eq_iff cstr_def unat_of_nat)

section \<open>What the buffer operations do\<close>

lemma set_cells [simp]: "(y, x) \<in> set (cells h w) \<longleftrightarrow> y < h \<and> x < w"
proof
  assume "y < h \<and> x < w"
  then have "unat y \<in> {0..<unat h}" "unat x \<in> {0..<unat w}" by (simp_all add: word_less_nat_alt)
  then show "(y, x) \<in> set (cells h w)"
    unfolding cells_def by (auto intro!: bexI [of _ "unat y"] image_eqI [of _ _ "unat x"])
next
  assume "(y, x) \<in> set (cells h w)"
  then obtain i j where "i < unat h" "j < unat w" "y = of_nat i" "x = of_nat j"
    by (auto simp: cells_def)
  then show "y < h \<and> x < w"
    using unat_u32_less [of h] unat_u32_less [of w] by (simp add: word_less_nat_alt unat_of_nat)
qed

lemma ucast_small: "unat (x :: u32) < 256 \<Longrightarrow> ucast (ucast x :: u8) = x"
  by (rule unsigned_word_eqI [where 'a = nat])
     (simp add: unsigned_ucast_eq unsigned_take_bit_eq take_bit_nat_eq_self)

lemma set_vga_element_ok:
  "vga_buffer s = VGA_MMIO_BASE \<Longrightarrow> y < VGA_HEIGHT \<Longrightarrow> x < VGA_WIDTH \<Longrightarrow>
     set_vga_element (ucast x) (ucast y) c s = ok (s\<lparr>text_memory := (text_memory s)((y, x) := c)\<rparr>)"
proof -
  assume a: "vga_buffer s = VGA_MMIO_BASE" "y < VGA_HEIGHT" "x < VGA_WIDTH"
  then have "unat y < 256" "unat x < 256" by (simp_all add: vga_consts word_less_nat_alt)
  with a show ?thesis by (simp add: set_vga_element_def ucast_small)
qed

lemma fold_text_memory:
  "fold (\<lambda>k s. s\<lparr>text_memory := (text_memory s)(k := f k)\<rparr>) ks s =
     s\<lparr>text_memory := \<lambda>k. if k \<in> set ks then f k else text_memory s k\<rparr>"
  by (induction ks arbitrary: s) (auto simp: fun_eq_iff intro!: terminal.equality)

lemma fold_big_buffer:
  "fold (\<lambda>k s. s\<lparr>big_scrollable_buffer := (big_scrollable_buffer s)(k := f k)\<rparr>) ks s =
     s\<lparr>big_scrollable_buffer := \<lambda>k. if k \<in> set ks then f k else big_scrollable_buffer s k\<rparr>"
  by (induction ks arbitrary: s) (auto simp: fun_eq_iff intro!: terminal.equality)

text \<open>The visible cells filled from \<open>f\<close>.\<close>

definition fill_screen :: "(cell \<Rightarrow> u16) \<Rightarrow> terminal \<Rightarrow> terminal" where
  "fill_screen f s = s\<lparr>text_memory :=
     \<lambda>k. if fst k < VGA_HEIGHT \<and> snd k < VGA_WIDTH then f k else text_memory s k\<rparr>"

lemma fill_screen_sel [simp]:
  "current_write_row (fill_screen f s) = current_write_row s"
  "current_write_column (fill_screen f s) = current_write_column s"
  "scroll_row (fill_screen f s) = scroll_row s"
  "color (fill_screen f s) = color s"
  "vga_buffer (fill_screen f s) = vga_buffer s"
  "big_scrollable_buffer (fill_screen f s) = big_scrollable_buffer s"
  "serial_log (fill_screen f s) = serial_log s"
  "fst k < VGA_HEIGHT \<Longrightarrow> snd k < VGA_WIDTH \<Longrightarrow> text_memory (fill_screen f s) k = f k"
  by (simp_all add: fill_screen_def)

lemma fill_screen_loop:
  assumes "I s" and "\<And>y x s. y < VGA_HEIGHT \<Longrightarrow> x < VGA_WIDTH \<Longrightarrow> I s \<Longrightarrow>
      g (y, x) s = ok (s\<lparr>text_memory := (text_memory s)((y, x) := f (y, x))\<rparr>) \<and>
      I (s\<lparr>text_memory := (text_memory s)((y, x) := f (y, x))\<rparr>)"
  shows "forE g (cells VGA_HEIGHT VGA_WIDTH) s = ok (fill_screen f s)"
proof -
  have "k \<in> set (cells VGA_HEIGHT VGA_WIDTH) \<longleftrightarrow> fst k < VGA_HEIGHT \<and> snd k < VGA_WIDTH" for k
    by (cases k) simp
  moreover have "forE g (cells VGA_HEIGHT VGA_WIDTH) s =
      ok (fold (\<lambda>k s. s\<lparr>text_memory := (text_memory s)(k := f k)\<rparr>) (cells VGA_HEIGHT VGA_WIDTH) s)"
    using forE_fold [of I s "cells VGA_HEIGHT VGA_WIDTH" g] assms by fastforce
  ultimately show ?thesis by (simp add: fold_text_memory fill_screen_def)
qed

lemma clear_visible_terminal_ok:
  "vga_buffer s = VGA_MMIO_BASE \<Longrightarrow> clear_visible_terminal s =
     ok (fill_screen (\<lambda>_. ucast (vga_entry_color (chr CHR '' '') (color s))) s)"
  unfolding clear_visible_terminal_def
  by (rule fill_screen_loop [where I = "\<lambda>t. vga_buffer t = VGA_MMIO_BASE \<and> color t = color s"])
     (simp_all add: set_vga_element_ok)

text \<open>\<open>y + scroll_row\<close> stays within the buffer when the scroll position is in its range.\<close>

lemma scrolled_row:
  "y < VGA_HEIGHT \<Longrightarrow> r \<le> VGA_MEM_HEIGHT - VGA_HEIGHT \<Longrightarrow>
     y + r < VGA_MEM_HEIGHT \<and> unat (y + r) = unat y + unat r"
  by (auto simp: vga_consts word_less_nat_alt word_le_nat_alt unat_word_ariths)

definition window :: "terminal \<Rightarrow> cell \<Rightarrow> u16" where
  "window s k = big_scrollable_buffer s (fst k + scroll_row s, snd k)"

lemma terminal_update_vga_mem_ok:
  "vga_buffer s = VGA_MMIO_BASE \<Longrightarrow> scroll_row s \<le> VGA_MEM_HEIGHT - VGA_HEIGHT \<Longrightarrow>
     terminal_update_vga_mem s = ok (fill_screen (window s) s)"
  unfolding terminal_update_vga_mem_def
  by (rule fill_screen_loop [where I = "\<lambda>t. vga_buffer t = VGA_MMIO_BASE \<and> scroll_row t = scroll_row s \<and>
        big_scrollable_buffer t = big_scrollable_buffer s"])
     (simp_all add: set_vga_element_ok big_at_def scrolled_row window_def)

definition clamp_scroll :: "u32 \<Rightarrow> u32" where
  "clamp_scroll row = min row (VGA_MEM_HEIGHT - VGA_HEIGHT)"

lemma clamp_scroll_le [simp]: "clamp_scroll row \<le> VGA_MEM_HEIGHT - VGA_HEIGHT"
  by (simp add: clamp_scroll_def)

lemma terminal_set_scroll_ok:
  "vga_buffer s = VGA_MMIO_BASE \<Longrightarrow> terminal_set_scroll row s =
     (let s' = s\<lparr>scroll_row := clamp_scroll row\<rparr> in ok (fill_screen (window s') s'))"
proof -
  assume vga: "vga_buffer s = VGA_MMIO_BASE"
  have "terminal_set_scroll row s = terminal_update_vga_mem (s\<lparr>scroll_row := clamp_scroll row\<rparr>)"
    by (auto simp: terminal_set_scroll_def clamp_scroll_def Let_def min_def not_le)
  then show ?thesis
    using terminal_update_vga_mem_ok [of "s\<lparr>scroll_row := clamp_scroll row\<rparr>"] vga by (simp add: Let_def)
qed

lemma fill_big_buffer:
  "forE (\<lambda>(y, x) s. ok (s\<lparr>big_scrollable_buffer := (big_scrollable_buffer s)((y, x) := f (color s))\<rparr>))
      (cells h w) s =
   ok (s\<lparr>big_scrollable_buffer := \<lambda>k. if k \<in> set (cells h w) then f (color s) else big_scrollable_buffer s k\<rparr>)"
proof -
  have "forE (\<lambda>(y, x) s. ok (s\<lparr>big_scrollable_buffer := (big_scrollable_buffer s)((y, x) := f (color s))\<rparr>))
      (cells h w) s = 
      ok (fold (\<lambda>k t. t\<lparr>big_scrollable_buffer := (big_scrollable_buffer t)(k := f (color s))\<rparr>) (cells h w) s)"
    by (rule conjunct1, rule forE_fold [where I = "\<lambda>t. color t = color s"]) auto
  then show ?thesis by (simp add: fold_big_buffer)
qed

section \<open>The terminal invariant\<close>

text \<open>The ranges within which every buffer access of the writing functions is in bounds.\<close>

definition term_ok :: "terminal \<Rightarrow> bool" where
  "term_ok s \<longleftrightarrow> vga_buffer s = VGA_MMIO_BASE \<and> current_write_row s < VGA_MEM_HEIGHT \<and>
     current_write_column s < VGA_WIDTH \<and> scroll_row s \<le> VGA_MEM_HEIGHT - VGA_HEIGHT"

text \<open>The four writing steps as total functions on states that satisfy the invariant.\<close>

definition scrolled_to :: "u32 \<Rightarrow> terminal \<Rightarrow> terminal" where
  "scrolled_to row s = (let s' = s\<lparr>scroll_row := clamp_scroll row\<rparr> in fill_screen (window s') s')"

definition blanked :: "terminal \<Rightarrow> terminal" where
  "blanked s = fill_screen (\<lambda>_. ucast (vga_entry_color (chr CHR '' '') (color s))) s"

definition next_row :: "terminal \<Rightarrow> terminal" where
  "next_row s =
     (let s = s\<lparr>current_write_row := current_write_row s + 1\<rparr>;
          s = (if current_write_row s - scroll_row s > VGA_HEIGHT then scrolled_to (scroll_row s + 1) s else s)
      in if current_write_row s \<ge> VGA_MEM_HEIGHT
         then blanked (scrolled_to 0 (s\<lparr>current_write_row := 0, current_write_column := 0\<rparr>))
         else s)"

definition entry_put :: "u8 \<Rightarrow> u8 \<Rightarrow> cell \<Rightarrow> terminal \<Rightarrow> terminal" where
  "entry_put c col k s =
     (let s = s\<lparr>big_scrollable_buffer := (big_scrollable_buffer s)(k := vga_entry c col)\<rparr>;
          v = (fst k - scroll_row s, snd k)
      in if fst v \<ge> VGA_HEIGHT then s
         else s\<lparr>text_memory := (text_memory s)(v := big_scrollable_buffer s v)\<rparr>)"

lemma scrolled_to_sel [simp]:
  "current_write_row (scrolled_to row s) = current_write_row s"
  "current_write_column (scrolled_to row s) = current_write_column s"
  "scroll_row (scrolled_to row s) = clamp_scroll row"
  "color (scrolled_to row s) = color s"
  "vga_buffer (scrolled_to row s) = vga_buffer s"
  "big_scrollable_buffer (scrolled_to row s) = big_scrollable_buffer s"
  "serial_log (scrolled_to row s) = serial_log s"
  by (simp_all add: scrolled_to_def Let_def)

lemma blanked_sel [simp]:
  "current_write_row (blanked s) = current_write_row s"
  "current_write_column (blanked s) = current_write_column s"
  "scroll_row (blanked s) = scroll_row s"
  "color (blanked s) = color s"
  "vga_buffer (blanked s) = vga_buffer s"
  "big_scrollable_buffer (blanked s) = big_scrollable_buffer s"
  "serial_log (blanked s) = serial_log s"
  by (simp_all add: blanked_def)

lemma entry_put_sel [simp]:
  "current_write_row (entry_put c col k s) = current_write_row s"
  "current_write_column (entry_put c col k s) = current_write_column s"
  "scroll_row (entry_put c col k s) = scroll_row s"
  "color (entry_put c col k s) = color s"
  "vga_buffer (entry_put c col k s) = vga_buffer s"
  "serial_log (entry_put c col k s) = serial_log s"
  "big_scrollable_buffer (entry_put c col k s) = (big_scrollable_buffer s)(k := vga_entry c col)"
  by (simp_all add: entry_put_def Let_def)

lemma terminal_set_scroll_eq:
  "vga_buffer s = VGA_MMIO_BASE \<Longrightarrow> terminal_set_scroll row s = ok (scrolled_to row s)"
  by (simp add: terminal_set_scroll_ok scrolled_to_def Let_def)

lemma clear_visible_terminal_eq:
  "vga_buffer s = VGA_MMIO_BASE \<Longrightarrow> clear_visible_terminal s = ok (blanked s)"
  by (simp add: clear_visible_terminal_ok blanked_def)

lemma terminal_increase_row_eq:
  "vga_buffer s = VGA_MMIO_BASE \<Longrightarrow> terminal_increase_row s = ok (next_row s)"
  by (simp add: terminal_increase_row_def next_row_def terminal_scroll_down_def terminal_set_scroll_eq
      clear_visible_terminal_eq Let_def)

lemma terminal_putentryat_eq:
  "vga_buffer s = VGA_MMIO_BASE \<Longrightarrow> pos_y < VGA_MEM_HEIGHT \<Longrightarrow> pos_x < VGA_WIDTH \<Longrightarrow>
     terminal_putentryat c col pos_x pos_y s = ok (entry_put c col (pos_y, pos_x) s)"
proof -
  assume a: "vga_buffer s = VGA_MMIO_BASE" "pos_y < VGA_MEM_HEIGHT" "pos_x < VGA_WIDTH"
  have "r < VGA_HEIGHT \<Longrightarrow> r < VGA_MEM_HEIGHT" for r
    by (auto simp: vga_consts word_less_nat_alt)
  with a show ?thesis
    by (simp add: terminal_putentryat_def entry_put_def big_at_def set_vga_element_ok Let_def not_le)
qed

lemma next_row_sel [simp]:
  "vga_buffer (next_row s) = vga_buffer s"
  "color (next_row s) = color s"
  "serial_log (next_row s) = serial_log s"
  "big_scrollable_buffer (next_row s) = big_scrollable_buffer s"
  by (simp_all add: next_row_def Let_def)

lemma next_row_pos:
  "current_write_row (next_row s) =
     (if current_write_row s + 1 \<ge> VGA_MEM_HEIGHT then 0 else current_write_row s + 1)"
  "current_write_column (next_row s) =
     (if current_write_row s + 1 \<ge> VGA_MEM_HEIGHT then 0 else current_write_column s)"
  by (simp_all add: next_row_def Let_def)

lemma next_row_scroll:
  "scroll_row (next_row s) =
     (if current_write_row s + 1 \<ge> VGA_MEM_HEIGHT then 0
      else if current_write_row s + 1 - scroll_row s > VGA_HEIGHT then clamp_scroll (scroll_row s + 1)
      else scroll_row s)"
  by (simp add: next_row_def Let_def clamp_scroll_def)

lemma term_ok_next_row: "term_ok s \<Longrightarrow> term_ok (next_row s)"
  using clamp_scroll_le [of "scroll_row s + 1"]
  by (auto simp: term_ok_def next_row_pos next_row_scroll not_le vga_consts)

lemma term_ok_entry_put [simp]: "term_ok (entry_put c col k s) = term_ok s"
  by (simp add: term_ok_def)

lemma term_ok_updates [simp]:
  "term_ok (s\<lparr>serial_log := tr\<rparr>) = term_ok s"
  "term_ok s \<Longrightarrow> term_ok (s\<lparr>current_write_column := 0\<rparr>)"
  by (simp_all add: term_ok_def vga_consts)

lemma initialize_terminal_eq:
  "initialize_terminal s =
     (let s' = s\<lparr>current_write_row := 0, current_write_column := 0, color := 7, vga_buffer := VGA_MMIO_BASE\<rparr>
      in ok ((blanked s')\<lparr>scroll_row := 0, big_scrollable_buffer :=
           (\<lambda>k. if k \<in> set (cells VGA_MEM_HEIGHT VGA_WIDTH) then vga_entry (chr CHR '' '') 7
                else big_scrollable_buffer s k)\<rparr>))"
  unfolding initialize_terminal_def serial_init_def Let_def
  by (simp add: clear_visible_terminal_eq fill_big_buffer vga_entry_color_def VGA_COLOR_LIGHT_GREY_def
      VGA_COLOR_BLACK_def; intro terminal.equality; simp add: fun_eq_iff)

section \<open>The serial port drains\<close>

text \<open>The log after \<open>k\<close> reads of the line status register.\<close>

fun status_reads :: "hw \<Rightarrow> nat \<Rightarrow> iolog \<Rightarrow> iolog" where
  "status_reads hw 0 tr = tr"
| "status_reads hw (Suc k) tr = status_reads hw k (In (COM1 + 5) (hw tr (COM1 + 5)) # tr)"

text \<open>The transmitter of the serial port eventually reports that it is empty.\<close>

definition drains :: "hw \<Rightarrow> bool" where
  "drains hw \<longleftrightarrow> (\<forall>tr. \<exists>k. hw (status_reads hw k tr) (COM1 + 5) AND 0x20 \<noteq> 0)"

text \<open>The bytes sent to the serial port, oldest first.\<close>

fun sent :: "iolog \<Rightarrow> u8 list" where
  "sent [] = []"
| "sent (Out p v # tr) = (if p = COM1 then sent tr @ [v] else sent tr)"
| "sent (_ # tr) = sent tr"

lemma serial_poll_returns:
  "hw (status_reads hw k tr) (COM1 + 5) AND 0x20 \<noteq> 0 \<Longrightarrow>
     \<exists>tr'. serial_poll hw tr = Some tr' \<and> sent tr' = sent tr"
proof (induction k arbitrary: tr)
  case 0
  then show ?case by (subst serial_poll.simps) simp
next
  case (Suc k)
  show ?case
  proof (cases "hw tr (COM1 + 5) AND 0x20 = 0")
    case True
    then show ?thesis using Suc.IH [of "In (COM1 + 5) (hw tr (COM1 + 5)) # tr"] Suc.prems
      by (subst serial_poll.simps) simp
  next
    case False
    then show ?thesis by (subst serial_poll.simps) simp
  qed
qed

lemma serial_write_char_sends:
  assumes "drains hw"
  obtains tr where "serial_write_char hw c s = ok (s\<lparr>serial_log := tr\<rparr>)"
    and "sent tr = sent (serial_log s) @ [c]"
proof -
  obtain k where "hw (status_reads hw k (serial_log s)) (COM1 + 5) AND 0x20 \<noteq> 0"
    using assms unfolding drains_def by blast
  from serial_poll_returns [of hw k, OF this] obtain tr' where
    "serial_poll hw (serial_log s) = Some tr'" "sent tr' = sent (serial_log s)" by blast
  then show thesis by (intro that [of "Out COM1 c # tr'"]) (simp_all add: serial_write_char_def)
qed

section \<open>Writing keeps the invariant\<close>

text \<open>
  The reference for the serial copy: NULs are dropped, a tab becomes up to four spaces but never
  crosses the end of the line, a newline and the 80th character start a new line.
\<close>

fun echo :: "nat \<Rightarrow> u8 list \<Rightarrow> u8 list" where
  "echo col [] = []"
| "echo col (c # cs) =
     (if c = 0 then echo col cs
      else if c = 9 then replicate (min 4 (80 - col)) 32 @ echo ((col + min 4 (80 - col)) mod 80) cs
      else if c = 10 then c # echo 0 cs
      else c # echo ((col + 1) mod 80) cs)"

lemma column_advance:
  assumes "current_write_column s < VGA_WIDTH"
  shows "(current_write_column s + 1 = VGA_WIDTH) = (unat (current_write_column s) = 79)"
    and "unat (current_write_column s + 1) = unat (current_write_column s) + 1"
proof -
  show u: "unat (current_write_column s + 1) = unat (current_write_column s) + 1"
    using unat_add_one [OF assms] by simp
  then show "(current_write_column s + 1 = VGA_WIDTH) = (unat (current_write_column s) = 79)"
    by (auto simp: VGA_WIDTH_def word_unat_eq_iff)
qed

text \<open>One character that is neither NUL nor tab.\<close>

definition advance :: "terminal \<Rightarrow> terminal" where
  "advance s = (let s = s\<lparr>current_write_column := current_write_column s + 1\<rparr>
     in if current_write_column s = VGA_WIDTH then next_row (s\<lparr>current_write_column := 0\<rparr>) else s)"

lemma advance_ok:
  assumes "term_ok s"
  shows "term_ok (advance s)"
    and "unat (current_write_column (advance s)) = (unat (current_write_column s) + 1) mod 80"
    and "serial_log (advance s) = serial_log s" and "color (advance s) = color s"
    and "big_scrollable_buffer (advance s) = big_scrollable_buffer s"
proof -
  have col: "current_write_column s < VGA_WIDTH" using assms by (simp add: term_ok_def)
  note adv = column_advance [OF col]
  have below: "unat (current_write_column s) < 80" using col by (simp add: VGA_WIDTH_def word_less_nat_alt)
  have zero: "term_ok (s\<lparr>current_write_column := 0\<rparr>)" using assms by simp
  have last: "current_write_column (next_row (s\<lparr>current_write_column := 0\<rparr>)) = 0"
    by (simp add: next_row_pos)
  show "term_ok (advance s)"
    using term_ok_next_row [OF zero] assms adv below
    by (auto simp: advance_def term_ok_def Let_def word_less_nat_alt VGA_WIDTH_def)
  show "unat (current_write_column (advance s)) = (unat (current_write_column s) + 1) mod 80"
    using adv below last by (auto simp: advance_def Let_def)
qed (simp_all add: advance_def Let_def)

lemma putchar_plain:
  assumes "term_ok s" and "serial_write_char hw c s = ok (s\<lparr>serial_log := tr\<rparr>)" and "c \<notin> {0, 9, 10}"
  shows "terminal_putchar hw c s =
    ok (advance (entry_put c (color s) (current_write_row s, current_write_column s) (s\<lparr>serial_log := tr\<rparr>)))"
  using assms
  by (subst terminal_putchar.simps)
     (simp add: term_ok_def terminal_putentryat_eq terminal_increase_row_eq advance_def Let_def)

lemma putchar_newline:
  assumes "term_ok s" and "serial_write_char hw 10 s = ok (s\<lparr>serial_log := tr\<rparr>)"
  shows "terminal_putchar hw 10 s = ok (next_row (s\<lparr>serial_log := tr, current_write_column := 0\<rparr>))"
  using assms
  by (subst terminal_putchar.simps) (simp add: term_ok_def terminal_increase_row_eq)

lemma putchar_tab:
  assumes "term_ok s"
  shows "terminal_putchar hw 9 s =
    emit hw (replicate (min 4 (80 - unat (current_write_column s))) 32) s"
proof -
  let ?c = "current_write_column s"
  have below: "unat ?c < 80" using assms by (simp add: term_ok_def VGA_WIDTH_def word_less_nat_alt)
  then have "unat (VGA_WIDTH - ?c) = 80 - unat ?c"
    by (simp add: VGA_WIDTH_def unat_sub word_le_nat_alt)
  then have d: "unat (ucast (VGA_WIDTH - ?c) :: u8) = 80 - unat ?c"
    using below by (simp add: unsigned_ucast_eq unsigned_take_bit_eq take_bit_nat_eq_self)
  have "unat (if 4 > (ucast (VGA_WIDTH - ?c) :: u8) then ucast (VGA_WIDTH - ?c) else 4 :: u8) =
      min 4 (80 - unat ?c)"
    by (simp add: d word_less_nat_alt min_def)
  then show ?thesis
    by (subst terminal_putchar.simps) (simp add: Let_def forE_const emit_def)
qed

text \<open>What every character keeps, and what it sends.\<close>

definition wrote :: "terminal \<Rightarrow> u8 list \<Rightarrow> nat \<Rightarrow> terminal \<Rightarrow> bool" where
  "wrote s bytes col s' \<longleftrightarrow> term_ok s' \<and> sent (serial_log s') = sent (serial_log s) @ bytes \<and>
     unat (current_write_column s') = col \<and> color s' = color s"

lemma putchar_plain_wrote:
  assumes "drains hw" and "term_ok s" and "c \<notin> {0, 9, 10}"
  shows "\<exists>s'. terminal_putchar hw c s = ok s' \<and> wrote s [c] ((unat (current_write_column s) + 1) mod 80) s'"
proof -
  obtain tr where tr: "serial_write_char hw c s = ok (s\<lparr>serial_log := tr\<rparr>)"
      "sent tr = sent (serial_log s) @ [c]"
    using serial_write_char_sends [OF assms(1)] .
  let ?t = "entry_put c (color s) (current_write_row s, current_write_column s) (s\<lparr>serial_log := tr\<rparr>)"
  have "term_ok ?t" using assms(2) by simp
  from advance_ok [OF this] show ?thesis
    using tr(2) by (simp add: putchar_plain [OF assms(2) tr(1) assms(3)] wrote_def)
qed

lemma putchar_newline_wrote:
  assumes "drains hw" and "term_ok s"
  shows "\<exists>s'. terminal_putchar hw 10 s = ok s' \<and> wrote s [10] 0 s'"
proof -
  obtain tr where tr: "serial_write_char hw 10 s = ok (s\<lparr>serial_log := tr\<rparr>)"
      "sent tr = sent (serial_log s) @ [10]"
    using serial_write_char_sends [OF assms(1)] .
  have "term_ok (s\<lparr>serial_log := tr, current_write_column := 0\<rparr>)" using assms(2) by simp
  from term_ok_next_row [OF this] show ?thesis
    using tr(2) by (simp add: putchar_newline [OF assms(2) tr(1)] wrote_def next_row_pos)
qed

lemma emit_spaces_wrote:
  assumes "drains hw"
  shows "term_ok s \<Longrightarrow> unat (current_write_column s) + n \<le> 80 \<Longrightarrow>
    \<exists>s'. emit hw (replicate n 32) s = ok s' \<and>
      wrote s (replicate n 32) ((unat (current_write_column s) + n) mod 80) s'"
proof (induction n arbitrary: s)
  case 0
  then have "unat (current_write_column s) < 80" by (simp add: term_ok_def VGA_WIDTH_def word_less_nat_alt)
  then show ?case using 0 by (simp add: wrote_def)
next
  case (Suc n)
  obtain s1 where s1: "terminal_putchar hw 32 s = ok s1"
      "wrote s [32] ((unat (current_write_column s) + 1) mod 80) s1"
    using putchar_plain_wrote [OF assms Suc.prems(1), of 32] by auto
  show ?case
  proof (cases n)
    case 0
    then show ?thesis using s1 by simp
  next
    case (Suc m)
    then have c: "unat (current_write_column s1) = unat (current_write_column s) + 1"
      using s1(2) Suc.prems(2) by (simp add: wrote_def)
    have "term_ok s1" using s1(2) by (simp add: wrote_def)
    moreover have "unat (current_write_column s1) + n \<le> 80" using c Suc.prems(2) by simp
    ultimately obtain s2 where "emit hw (replicate n 32) s1 = ok s2"
        "wrote s1 (replicate n 32) ((unat (current_write_column s1) + n) mod 80) s2"
      using Suc.IH by blast
    then show ?thesis using s1 c by (simp add: wrote_def)
  qed
qed

lemma emit_wrote:
  assumes "drains hw"
  shows "term_ok s \<Longrightarrow> \<exists>s' col. emit hw cs s = ok s' \<and>
    wrote s (echo (unat (current_write_column s)) cs) col s'"
proof (induction cs arbitrary: s)
  case Nil
  then show ?case by (simp add: wrote_def)
next
  case (Cons c cs)
  let ?c = "unat (current_write_column s)"
  have below: "?c < 80" using Cons.prems by (simp add: term_ok_def VGA_WIDTH_def word_less_nat_alt)
  have "\<exists>s1 b n. terminal_putchar hw c s = ok s1 \<and> wrote s b n s1 \<and> echo ?c (c # cs) = b @ echo n cs"
  proof -
    consider "c = 0" | "c = 9" | "c = 10" | "c \<notin> {0, 9, 10}" by blast
    then show ?thesis
    proof cases
      case 1
      have "terminal_putchar hw 0 s = ok s" by (subst terminal_putchar.simps) simp
      then show ?thesis using 1 Cons.prems by (auto simp: wrote_def intro!: exI [of _ "[]"])
    next
      case 2
      then show ?thesis
        using emit_spaces_wrote [OF assms Cons.prems, of "min 4 (80 - ?c)"] below putchar_tab [OF Cons.prems]
        by fastforce
    next
      case 3
      then show ?thesis using putchar_newline_wrote [OF assms Cons.prems] by fastforce
    next
      case 4
      then show ?thesis using putchar_plain_wrote [OF assms Cons.prems 4] by fastforce
    qed
  qed
  then obtain s1 b n where s1: "terminal_putchar hw c s = ok s1" "wrote s b n s1"
      "echo ?c (c # cs) = b @ echo n cs" by blast
  then have "term_ok s1" "unat (current_write_column s1) = n" by (simp_all add: wrote_def)
  then obtain s2 col where "emit hw cs s1 = ok s2" "wrote s1 (echo n cs) col s2"
    using Cons.IH by blast
  then show ?case using s1 by (auto simp: wrote_def simp del: echo.simps)
qed

section \<open>The first screen\<close>

definition plain :: "u8 \<Rightarrow> bool" where
  "plain c \<longleftrightarrow> c \<notin> {0, 9, 10}"

text \<open>The linear position of a cell, and the state in which the next character goes to position \<open>n\<close>.\<close>

definition position :: "cell \<Rightarrow> nat" where
  "position k = 80 * unat (fst k) + unat (snd k)"

definition at_position :: "nat \<Rightarrow> terminal \<Rightarrow> bool" where
  "at_position n s \<longleftrightarrow> vga_buffer s = VGA_MMIO_BASE \<and> scroll_row s = 0 \<and> n \<le> 2000 \<and>
     unat (current_write_row s) = n div 80 \<and> unat (current_write_column s) = n mod 80"

lemma at_position_ok: "at_position n s \<Longrightarrow> term_ok s"
  by (auto simp: at_position_def term_ok_def vga_consts word_less_nat_alt)

lemma position_eq:
  "at_position n s \<Longrightarrow> snd k < VGA_WIDTH \<Longrightarrow>
     position k = n \<longleftrightarrow> k = (current_write_row s, current_write_column s)"
proof
  assume a: "at_position n s" "snd k < VGA_WIDTH" "position k = n"
  then have "unat (snd k) < 80" by (simp add: VGA_WIDTH_def word_less_nat_alt)
  then have "unat (fst k) = n div 80" "unat (snd k) = n mod 80"
    using a(3) by (auto simp: position_def)
  then show "k = (current_write_row s, current_write_column s)"
    using a(1) by (auto simp: at_position_def word_unat_eq_iff prod_eq_iff)
qed (simp add: at_position_def position_def)

lemma advance_first_screen:
  assumes "at_position n s" and "n < 2000"
  shows "at_position (Suc n) (advance s) \<and> text_memory (advance s) = text_memory s"
proof -
  have col: "current_write_column s < VGA_WIDTH"
    using at_position_ok [OF assms(1)] by (simp add: term_ok_def)
  have row: "unat (current_write_row s + 1) = unat (current_write_row s) + 1"
    by (rule trans [OF unat_add_one [of _ "1000"]]) (use assms in \<open>auto simp: at_position_def word_less_nat_alt\<close>)
  have stay: "\<not> current_write_row s + 1 \<ge> VGA_MEM_HEIGHT" "\<not> current_write_row s + 1 > VGA_HEIGHT"
    using row assms by (auto simp: at_position_def vga_consts word_le_nat_alt word_less_nat_alt)
  show ?thesis
  proof (cases "n mod 80 = 79")
    case True
    then have "Suc n div 80 = Suc (n div 80)" "Suc n mod 80 = 0" by (simp_all add: div_Suc mod_Suc)
    moreover have "current_write_column s + 1 = VGA_WIDTH"
      using True assms(1) column_advance(1) [OF col] by (simp add: at_position_def)
    ultimately show ?thesis
      using assms row stay by (simp add: advance_def next_row_def at_position_def Let_def)
  next
    case False
    then have "Suc n div 80 = n div 80" "Suc n mod 80 = Suc (n mod 80)" by (simp_all add: div_Suc mod_Suc)
    moreover have "current_write_column s + 1 \<noteq> VGA_WIDTH"
      using False assms(1) column_advance(1) [OF col] by (simp add: at_position_def)
    ultimately show ?thesis
      using assms column_advance(2) [OF col] by (simp add: advance_def at_position_def Let_def)
  qed
qed

lemma putchar_first_screen:
  assumes "drains hw" and "at_position n s" and "n < 2000" and "plain c"
  shows "\<exists>s'. terminal_putchar hw c s = ok s' \<and> at_position (Suc n) s' \<and> color s' = color s \<and>
    text_memory s' = (text_memory s)((current_write_row s, current_write_column s) := vga_entry c (color s))"
proof -
  have ok: "term_ok s" by (rule at_position_ok [OF assms(2)])
  obtain tr where tr: "serial_write_char hw c s = ok (s\<lparr>serial_log := tr\<rparr>)"
    using serial_write_char_sends [OF assms(1)] by metis
  let ?k = "(current_write_row s, current_write_column s)"
  let ?t = "entry_put c (color s) ?k (s\<lparr>serial_log := tr\<rparr>)"
  have "at_position n ?t" using assms(2) by (simp add: at_position_def)
  note adv = advance_first_screen [OF this assms(3)]
  have "current_write_row s < VGA_HEIGHT"
    using assms(2,3) by (auto simp: at_position_def VGA_HEIGHT_def word_less_nat_alt)
  then have "text_memory ?t = (text_memory s)(?k := vga_entry c (color s))"
    using assms(2) by (auto simp: entry_put_def Let_def at_position_def not_le)
  moreover have "term_ok ?t" using ok by simp
  ultimately show ?thesis
    using adv assms(4) advance_ok(4) [of ?t] by (simp add: putchar_plain [OF ok tr] plain_def)
qed

lemma emit_first_screen:
  assumes "drains hw"
  shows "at_position n s \<Longrightarrow> list_all plain t \<Longrightarrow> n + length t \<le> 2000 \<Longrightarrow>
    \<exists>s'. emit hw t s = ok s' \<and> at_position (n + length t) s' \<and>
      (\<forall>k. snd k < VGA_WIDTH \<longrightarrow> text_memory s' k =
        (if n \<le> position k \<and> position k < n + length t then vga_entry (t ! (position k - n)) (color s)
         else text_memory s k))"
proof (induction t arbitrary: n s)
  case (Cons c t)
  obtain s1 where s1: "terminal_putchar hw c s = ok s1" "at_position (Suc n) s1" "color s1 = color s"
      "text_memory s1 = (text_memory s)((current_write_row s, current_write_column s) := vga_entry c (color s))"
    using putchar_first_screen [OF assms Cons.prems(1)] Cons.prems by auto
  obtain s2 where s2: "emit hw t s1 = ok s2" "at_position (n + length (c # t)) s2"
      "\<forall>k. snd k < VGA_WIDTH \<longrightarrow> text_memory s2 k =
        (if Suc n \<le> position k \<and> position k < n + length (c # t) then vga_entry (t ! (position k - Suc n)) (color s)
         else text_memory s1 k)"
    using Cons.IH [OF s1(2)] Cons.prems s1(3) by auto
  have "text_memory s2 k =
      (if n \<le> position k \<and> position k < n + length (c # t)
       then vga_entry ((c # t) ! (position k - n)) (color s) else text_memory s k)"
    if "snd k < VGA_WIDTH" for k
    using s2(3) [rule_format, OF that] s1(4) position_eq [OF Cons.prems(1) that]
    by (auto simp: nth_Cons' Suc_diff_Suc)
  then show ?case using s1(1) s2(1,2) by auto
qed auto

lemma initialize_terminal_start:
  obtains s' where "initialize_terminal s = ok s'" and "at_position 0 s'" and "color s' = 7"
    and "\<And>k. fst k < VGA_HEIGHT \<Longrightarrow> snd k < VGA_WIDTH \<Longrightarrow> text_memory s' k = 0x70"
    and "serial_log s' = serial_log s"
proof -
  let ?s = "s\<lparr>current_write_row := 0, current_write_column := 0, color := 7, vga_buffer := VGA_MMIO_BASE\<rparr>"
  let ?t = "(blanked ?s)\<lparr>scroll_row := 0, big_scrollable_buffer :=
       (\<lambda>k. if k \<in> set (cells VGA_MEM_HEIGHT VGA_WIDTH) then vga_entry (chr CHR '' '') 7
            else big_scrollable_buffer s k)\<rparr>"
  have "initialize_terminal s = ok ?t" by (simp add: initialize_terminal_eq Let_def)
  moreover have "at_position 0 ?t" by (simp add: at_position_def)
  moreover have "text_memory ?t k = 0x70" if "fst k < VGA_HEIGHT" "snd k < VGA_WIDTH" for k
    using that by (simp add: blanked_def vga_entry_color_def)
  ultimately show thesis by (intro that [of ?t]) simp_all
qed

section \<open>Below the first screen\<close>

text \<open>
  When only the writing functions move the cursor, the row being written is at most one below the
  visible rows, and it is exactly there as soon as the view has scrolled.
\<close>

definition write_only :: "terminal \<Rightarrow> bool" where
  "write_only s \<longleftrightarrow> term_ok s \<and>
     (scroll_row s = 0 \<and> current_write_row s \<le> VGA_HEIGHT \<or> current_write_row s = scroll_row s + VGA_HEIGHT)"

lemma write_only_next_row:
  assumes "write_only s"
  shows "write_only (next_row s)"
proof -
  let ?r = "current_write_row s" and ?o = "scroll_row s"
  have bounds: "?r < 1000" "?o \<le> 975" using assms by (simp_all add: write_only_def term_ok_def vga_consts)
  show ?thesis
  proof (cases "?r + 1 \<ge> VGA_MEM_HEIGHT")
    case True
    then show ?thesis
      using term_ok_next_row [of s] assms by (simp add: write_only_def next_row_pos next_row_scroll)
  next
    case False
    consider "?o = 0" "?r < VGA_HEIGHT" | "?r = ?o + VGA_HEIGHT"
      using assms by (auto simp: write_only_def le_less)
    then show ?thesis
    proof cases
      case 1
      then have "?r + 1 \<le> VGA_HEIGHT" by (simp add: inc_le)
      then show ?thesis using 1 False term_ok_next_row [of s] assms
        by (auto simp: write_only_def next_row_pos next_row_scroll dest: leD)
    next
      case 2
      have "unat (?o + 26) = unat ?o + 26" using bounds by (simp add: unat_word_ariths word_le_nat_alt)
      then have "unat ?o < 975"
        using False 2 by (simp add: VGA_MEM_HEIGHT_def VGA_HEIGHT_def word_le_nat_alt add.assoc)
      then have "clamp_scroll (?o + 1) = ?o + 1"
        by (simp add: clamp_scroll_def vga_consts min_def word_le_nat_alt unat_word_ariths)
      then show ?thesis using 2 False term_ok_next_row [of s] assms
        by (simp add: write_only_def next_row_pos next_row_scroll VGA_HEIGHT_def)
    qed
  qed
qed

lemma write_only_updates [simp]:
  "write_only (s\<lparr>serial_log := tr\<rparr>) = write_only s"
  "write_only (entry_put c col k s) = write_only s"
  "write_only s \<Longrightarrow> write_only (s\<lparr>current_write_column := 0\<rparr>)"
  by (simp_all add: write_only_def)

lemma write_only_advance: "write_only s \<Longrightarrow> write_only (advance s)"
  using write_only_next_row [of "s\<lparr>current_write_column := 0\<rparr>"] advance_ok(1) [of s]
  by (auto simp: advance_def Let_def write_only_def split: if_splits)

lemma write_only_putchar_plain:
  assumes "drains hw" and "write_only s" and "c \<notin> {0, 9}"
  shows "\<exists>s'. terminal_putchar hw c s = ok s' \<and> write_only s'"
proof -
  have ok: "term_ok s" using assms(2) by (simp add: write_only_def)
  obtain tr where tr: "serial_write_char hw c s = ok (s\<lparr>serial_log := tr\<rparr>)"
    using serial_write_char_sends [OF assms(1)] by metis
  show ?thesis
  proof (cases "c = 10")
    case True
    have "write_only (s\<lparr>serial_log := tr, current_write_column := 0\<rparr>)" using assms(2) by simp
    then show ?thesis using putchar_newline [OF ok] tr True write_only_next_row by blast
  next
    case False
    have "write_only (entry_put c (color s) (current_write_row s, current_write_column s) (s\<lparr>serial_log := tr\<rparr>))"
      using assms(2) by simp
    then show ?thesis using putchar_plain [OF ok tr] False assms(3) write_only_advance by blast
  qed
qed

lemma write_only_spaces:
  assumes "drains hw"
  shows "write_only s \<Longrightarrow> \<exists>s'. emit hw (replicate n 32) s = ok s' \<and> write_only s'"
proof (induction n arbitrary: s)
  case (Suc n)
  obtain s1 where "terminal_putchar hw 32 s = ok s1" "write_only s1"
    using write_only_putchar_plain [OF assms Suc.prems, of 32] by auto
  then show ?case using Suc.IH by simp
qed simp

lemma write_only_emit:
  assumes "drains hw"
  shows "write_only s \<Longrightarrow> \<exists>s'. emit hw cs s = ok s' \<and> write_only s'"
proof (induction cs arbitrary: s)
  case (Cons c cs)
  have "term_ok s" using Cons.prems by (simp add: write_only_def)
  then have "\<exists>s'. terminal_putchar hw c s = ok s' \<and> write_only s'"
    using write_only_putchar_plain [OF assms Cons.prems, of c] write_only_spaces [OF assms Cons.prems]
      Cons.prems putchar_tab [of s hw]
    by (cases "c = 0"; cases "c = 9") (auto simp: terminal_putchar.simps [of hw 0])
  then show ?case using Cons.IH by auto
qed simp

lemma write_only_start: "at_position 0 s \<Longrightarrow> write_only s"
  using at_position_ok [of 0 s] by (simp add: write_only_def at_position_def unat_eq_0)

section \<open>Sequences of console operations\<close>

text \<open>The contract of an operation a console session may use: it returns and keeps the invariant.\<close>

locale console_command =
  fixes cmd :: "'i \<Rightarrow> terminal \<Rightarrow> terminal exec"
  assumes keeps_ok: "term_ok s \<Longrightarrow> \<exists>s'. cmd i s = ok s' \<and> term_ok s'"
begin

lemma session_ok: "term_ok s \<Longrightarrow> \<exists>s'. forE cmd is s = ok s' \<and> term_ok s'"
proof (induction "is" arbitrary: s)
  case (Cons i "is")
  then obtain s1 where "cmd i s = ok s1" "term_ok s1" using keeps_ok by blast
  then show ?case using Cons.IH by simp
qed simp

end

lemma term_ok_scrolled_to: "term_ok s \<Longrightarrow> term_ok (scrolled_to row s)"
  by (simp add: term_ok_def)

lemma term_ok_blanked: "term_ok s \<Longrightarrow> term_ok (blanked s)"
  by (simp add: term_ok_def)

interpretation scroll_command: console_command terminal_scroll_down
proof
  fix s i
  assume "term_ok s"
  then show "\<exists>s'. terminal_scroll_down i s = ok s' \<and> term_ok s'"
    using term_ok_scrolled_to by (simp add: terminal_scroll_down_def terminal_set_scroll_eq term_ok_def)
qed

interpretation clear_command: console_command "\<lambda>_. clear_visible_terminal"
  by unfold_locales (simp add: clear_visible_terminal_eq term_ok_def)

interpretation ctrl_f_command: console_command "\<lambda>_. terminal_ctrl_f"
proof
  fix s
  assume "term_ok s"
  moreover have "x \<le> 975 \<Longrightarrow> x < 1000" for x :: u32 by (simp add: word_le_nat_alt word_less_nat_alt)
  ultimately show "\<exists>s'. terminal_ctrl_f s = ok s' \<and> term_ok s'"
    using clamp_scroll_le [of "scroll_row s + 1"]
    by (simp add: terminal_ctrl_f_def terminal_scroll_down_def terminal_set_scroll_eq term_ok_def vga_consts)
qed

interpretation ctrl_r_command: console_command "\<lambda>_. terminal_ctrl_r"
proof
  fix s
  assume ok: "term_ok s"
  have below: "x \<le> 975 \<Longrightarrow> x + 25 < r \<Longrightarrow> r < 1000 \<Longrightarrow> x + 25 < 1000" for x r :: u32
    by (rule less_trans)
  show "\<exists>s'. terminal_ctrl_r s = ok s' \<and> term_ok s'"
    using ok clamp_scroll_le [of "scroll_row s - 1"]
    by (auto simp: terminal_ctrl_r_def terminal_scroll_up_def terminal_scroll_down_def terminal_set_scroll_eq
        term_ok_def vga_consts intro: below)
qed

interpretation char_command: console_command "\<lambda>c. if drains hw then terminal_putchar hw c else ok" for hw
proof
  fix s c
  assume "term_ok s"
  then show "\<exists>s'. (if drains hw then terminal_putchar hw c else ok) s = ok s' \<and> term_ok s'"
    using emit_wrote [of hw s "[c]"] by (auto simp: wrote_def bindE_Inr_iff)
qed

text \<open>What a user of the console can ask for, apart from the up and down arrows.\<close>

datatype console_op = Put u8 | Scroll_Down int | Ctrl_F | Ctrl_R | Set_Color u8 | Clear | Arrow_Left | Arrow_Right

fun perform :: "hw \<Rightarrow> console_op \<Rightarrow> terminal \<Rightarrow> terminal exec" where
  "perform hw (Put c) s = terminal_putchar hw c s"
| "perform hw (Scroll_Down n) s = terminal_scroll_down n s"
| "perform hw Ctrl_F s = terminal_ctrl_f s"
| "perform hw Ctrl_R s = terminal_ctrl_r s"
| "perform hw (Set_Color col) s = ok (terminal_setcolor col s)"
| "perform hw Clear s = clear_visible_terminal s"
| "perform hw Arrow_Left s = ok (terminal_arrow_left s)"
| "perform hw Arrow_Right s = ok (terminal_arrow_right s)"

interpretation any_command: console_command "\<lambda>q. if drains hw then perform hw q else ok" for hw
proof
  fix s q
  assume ok: "term_ok s"
  show "\<exists>s'. (if drains hw then perform hw q else ok) s = ok s' \<and> term_ok s'"
  proof (cases q)
    case (Put c)
    then show ?thesis using char_command.keeps_ok [OF ok, of hw c] by (auto split: if_splits)
  qed (use ok scroll_command.keeps_ok clear_command.keeps_ok ctrl_f_command.keeps_ok ctrl_r_command.keeps_ok
       in \<open>auto simp: terminal_setcolor_def terminal_arrow_left_def terminal_arrow_right_def term_ok_def\<close>)
qed

section \<open>Correctness\<close>

text \<open>
  (C20) Writing a string on a terminal that satisfies the invariant returns, whatever the string, as
  long as the serial transmitter eventually empties: no access leaves the scrollable buffer or the
  text memory, the invariant holds again, and the serial port has received exactly the string with
  its tabs expanded to the end of the line at most.
\<close>

theorem terminal_writestring_sends:
  assumes "drains hw" and "term_ok s" and "cstr m data t"
  shows "\<exists>s'. terminal_writestring hw m data s = ok s' \<and> term_ok s' \<and>
    sent (serial_log s') = sent (serial_log s) @ echo (unat (current_write_column s)) t"
  using emit_wrote [OF assms(1,2), of t] by (auto simp: terminal_writestring_emit [OF assms(3)] wrote_def)

definition slow_uart :: hw where
  "slow_uart tr p = (if length tr mod 3 = 2 then 0x60 else 0)"

definition power_on :: terminal where
  "power_on = \<lparr>current_write_row = 0, current_write_column = 0, scroll_row = 0, color = 0, vga_buffer = 0,
     big_scrollable_buffer = \<lambda>_. 0, text_memory = \<lambda>_. 0, serial_log = []\<rparr>"

lemma slow_uart_drains: "drains slow_uart"
  unfolding drains_def
proof
  fix tr :: iolog
  consider "length tr mod 3 = 0" | "length tr mod 3 = 1" | "length tr mod 3 = 2" by linarith
  then show "\<exists>k. slow_uart (status_reads slow_uart k tr) (COM1 + 5) AND 0x20 \<noteq> 0"
  proof cases
    case 1
    then have "Suc (Suc (length tr)) mod 3 = 2" by presburger
    then show ?thesis by (intro exI [of _ "Suc (Suc 0)"]) (simp add: slow_uart_def)
  next
    case 2
    then have "Suc (length tr) mod 3 = 2" by presburger
    then show ?thesis by (intro exI [of _ 1]) (simp add: slow_uart_def)
  next
    case 3
    then show ?thesis by (intro exI [of _ 0]) (simp add: slow_uart_def)
  qed
qed

theorem terminal_writestring_sends_witness:
  "\<exists>s'. terminal_writestring slow_uart ((\<lambda>_. 0)(0x100 := 0x61, 0x101 := 9, 0x102 := 10)) 0x100
       (power_on\<lparr>vga_buffer := VGA_MMIO_BASE\<rparr>) = ok s' \<and> term_ok s' \<and>
     sent (serial_log s') = [0x61, 32, 32, 32, 32, 10]"
proof -
  let ?m = "(\<lambda>_. 0)(0x100 := 0x61, 0x101 := 9, 0x102 := 10) :: mem"
  have c: "cstr ?m 0x100 [0x61, 9, 10]" by (simp add: cstr_def)
  have e: "echo 0 [0x61, 9, 10] = [0x61, 32, 32, 32, 32, 10]" by code_simp
  show ?thesis
    using terminal_writestring_sends [OF slow_uart_drains _ c, of "power_on\<lparr>vga_buffer := VGA_MMIO_BASE\<rparr>"]
    by (simp add: e term_ok_def power_on_def vga_consts del: echo.simps)
qed

text \<open>
  (C15) No sequence of console operations other than the up and down arrows, however long, makes an
  access out of bounds or leaves the ranges of the terminal's state: characters of any kind, scrolling
  by any amount, the two view keys, colour changes and clearing, in any order.
\<close>

theorem console_session_safe:
  assumes "drains hw" and "term_ok s"
  shows "\<exists>s'. forE (perform hw) ops s = ok s' \<and> term_ok s'"
  using any_command.session_ok [OF assms(2), of hw ops] assms(1) by simp

theorem console_session_safe_witness:
  "\<exists>s'. forE (perform slow_uart) (replicate 5000 (Put 10) @ [Ctrl_R, Scroll_Down (- 7), Put 9])
      (power_on\<lparr>vga_buffer := VGA_MMIO_BASE\<rparr>) = ok s' \<and> term_ok s'"
  by (rule console_session_safe [OF slow_uart_drains]) (simp add: term_ok_def power_on_def vga_consts)

text \<open>
  (C36) A text without control characters that fits the first screen, written to a terminal that was
  just initialised, is what the screen shows: character \<open>i\<close> in row \<open>i div 80\<close>, column \<open>i mod 80\<close>, light
  grey on black. Every other cell keeps what clearing the screen left there, which is not a space: the
  code combines the character and the colour with the function meant for two colours, so that the
  cells hold the letter p in black on black.
\<close>

theorem first_screen_shows_text:
  assumes "drains hw" and "cstr m data t" and "list_all plain t" and "length t \<le> 25 * 80"
  shows "\<exists>s1 s2. initialize_terminal s = ok s1 \<and> terminal_writestring hw m data s1 = ok s2 \<and>
    (\<forall>y x. y < VGA_HEIGHT \<longrightarrow> x < VGA_WIDTH \<longrightarrow> text_memory s2 (y, x) =
      (let i = 80 * unat y + unat x in if i < length t then vga_entry (t ! i) 7 else vga_entry 0x70 0))"
proof -
  obtain s1 where s1: "initialize_terminal s = ok s1" "at_position 0 s1" "color s1 = 7"
      "\<And>k. fst k < VGA_HEIGHT \<Longrightarrow> snd k < VGA_WIDTH \<Longrightarrow> text_memory s1 k = 0x70"
    using initialize_terminal_start by metis
  obtain s2 where "emit hw t s1 = ok s2"
      "\<forall>k. snd k < VGA_WIDTH \<longrightarrow> text_memory s2 k =
         (if position k < length t then vga_entry (t ! position k) 7 else text_memory s1 k)"
    using emit_first_screen [OF assms(1) s1(2) assms(3)] assms(4) s1(3) by auto
  then show ?thesis
    using s1(1,4) by (auto simp: terminal_writestring_emit [OF assms(2)] position_def Let_def vga_entry_def)
qed

theorem first_screen_shows_text_witness:
  "\<exists>s1 s2. initialize_terminal power_on = ok s1 \<and>
     terminal_writestring slow_uart ((\<lambda>_. 0)(0x100 := 0x61, 0x101 := 0x62)) 0x100 s1 = ok s2 \<and>
     text_memory s2 (0, 1) = 0x0762 \<and> text_memory s2 (7, 7) = 0x0070"
proof -
  have c: "cstr ((\<lambda>_. 0)(0x100 := 0x61, 0x101 := 0x62)) 0x100 [0x61, 0x62]" by (simp add: cstr_def)
  have p: "list_all plain [0x61, 0x62]" by (simp add: plain_def)
  obtain s1 s2 where "initialize_terminal power_on = ok s1"
      "terminal_writestring slow_uart ((\<lambda>_. 0)(0x100 := 0x61, 0x101 := 0x62)) 0x100 s1 = ok s2"
    and cell: "\<And>y x. y < VGA_HEIGHT \<Longrightarrow> x < VGA_WIDTH \<Longrightarrow> text_memory s2 (y, x) =
      (let i = 80 * unat y + unat x in if i < length [0x61, 0x62 :: u8] then vga_entry ([0x61, 0x62] ! i) 7 else vga_entry 0x70 0)"
    using first_screen_shows_text [OF slow_uart_drains c p, of power_on] by auto
  then show ?thesis using cell [of 0 1] cell [of 7 7] by (auto simp: vga_consts vga_entry_def)
qed

text \<open>
  Once 25 lines have been written, the line being typed is not on the screen: the scroll test
  lets the cursor reach one row below the visible ones. Whatever was printed before, a character put
  on such a line reaches the scrollable buffer and the serial port but changes no visible cell.
\<close>

theorem typed_line_hidden:
  assumes "drains hw" and "initialize_terminal s0 = ok s1" and "cstr m data t"
    and "terminal_writestring hw m data s1 = ok s" and "VGA_HEIGHT \<le> current_write_row s"
    and "current_write_column s + 1 < VGA_WIDTH" and "plain c"
  shows "\<exists>s'. terminal_putchar hw c s = ok s' \<and> text_memory s' = text_memory s \<and>
    big_scrollable_buffer s' (current_write_row s, current_write_column s) = vga_entry c (color s)"
proof -
  have "at_position 0 s1" using initialize_terminal_start [of s0] assms(2) by (metis sum.inject(2))
  then have wo: "write_only s"
    using write_only_emit [OF assms(1) write_only_start, of s1 t] assms(4)
    by (auto simp: terminal_writestring_emit [OF assms(3)])
  then have ok: "term_ok s" by (simp add: write_only_def)
  have hidden: "current_write_row s - scroll_row s \<ge> VGA_HEIGHT"
    using wo assms(5) by (auto simp: write_only_def)
  obtain tr where tr: "serial_write_char hw c s = ok (s\<lparr>serial_log := tr\<rparr>)"
    using serial_write_char_sends [OF assms(1)] by metis
  have "c \<notin> {0, 9, 10}" using assms(7) by (simp add: plain_def)
  then show ?thesis
    using putchar_plain [OF ok tr] hidden assms(6) by (auto simp: advance_def entry_put_def Let_def)
qed

lemma newline_first_screen:
  assumes "drains hw" and "at_position (80 * n) s" and "n < 25"
  shows "\<exists>s'. terminal_putchar hw 10 s = ok s' \<and> at_position (80 * Suc n) s'"
proof -
  obtain tr where tr: "serial_write_char hw 10 s = ok (s\<lparr>serial_log := tr\<rparr>)"
    using serial_write_char_sends [OF assms(1)] by metis
  have row: "unat (current_write_row s + 1) = Suc n"
    by (rule trans [OF unat_add_one [of _ "1000"]]) (use assms in \<open>auto simp: at_position_def word_less_nat_alt\<close>)
  have "\<not> VGA_MEM_HEIGHT \<le> current_write_row s + 1" "\<not> VGA_HEIGHT < current_write_row s + 1"
    using row assms(3) by (simp_all add: vga_consts word_le_nat_alt word_less_nat_alt)
  then have "at_position (80 * Suc n) (next_row (s\<lparr>serial_log := tr, current_write_column := 0\<rparr>))"
    using row assms(2,3) by (simp add: at_position_def next_row_def Let_def)
  then show ?thesis using putchar_newline [OF at_position_ok [OF assms(2)] tr] by blast
qed

lemma newlines_first_screen:
  assumes "drains hw"
  shows "at_position (80 * n) s \<Longrightarrow> n + k \<le> 25 \<Longrightarrow>
    \<exists>s'. emit hw (replicate k 10) s = ok s' \<and> at_position (80 * (n + k)) s'"
proof (induction k arbitrary: n s)
  case (Suc k)
  obtain s1 where "terminal_putchar hw 10 s = ok s1" "at_position (80 * Suc n) s1"
    using newline_first_screen [OF assms Suc.prems(1)] Suc.prems(2) by auto
  then show ?case using Suc.IH [of "Suc n" s1] Suc.prems(2) by simp
qed simp

theorem typed_line_hidden_witness:
  "\<exists>m s1 s s'. initialize_terminal power_on = ok s1 \<and> terminal_writestring slow_uart m 0x100 s1 = ok s \<and>
     terminal_putchar slow_uart 0x41 s = ok s' \<and> text_memory s' = text_memory s"
proof -
  obtain s1 where s1: "initialize_terminal power_on = ok s1" "at_position 0 s1"
    using initialize_terminal_start by metis
  let ?m = "store (\<lambda>_. 0) 0x100 (replicate 25 10 @ [0])"
  have c: "cstr ?m 0x100 (replicate 25 10)" by (rule cstr_store) auto
  obtain s where s: "emit slow_uart (replicate 25 10) s1 = ok s" "at_position 2000 s"
    using newlines_first_screen [OF slow_uart_drains, of 0 s1 25] s1(2) by auto
  then have w: "terminal_writestring slow_uart ?m 0x100 s1 = ok s"
    by (simp add: terminal_writestring_emit [OF c])
  have "unat (current_write_row s) = 25" "unat (current_write_column s) = 0"
    using s(2) by (simp_all add: at_position_def)
  then have "VGA_HEIGHT \<le> current_write_row s" "current_write_column s + 1 < VGA_WIDTH"
    by (simp_all add: vga_consts word_le_nat_alt unat_eq_0)
  then show ?thesis
    using typed_line_hidden [OF slow_uart_drains s1(1) c w, of "0x41"] s1(1) w by (auto simp: plain_def)
qed

text \<open>
  A visible cell of a scrolled terminal is refreshed from the wrong row: writing at row \<open>pos_y\<close>
  with the view scrolled down shows what the buffer holds in row \<open>pos_y - scroll_row\<close>, not the
  character just written.
\<close>

theorem putentryat_shows_other_row:
  assumes "term_ok s" and "scroll_row s \<noteq> 0" and "pos_y - scroll_row s < VGA_HEIGHT"
    and "pos_y < VGA_MEM_HEIGHT" and "pos_x < VGA_WIDTH"
  shows "\<exists>s'. terminal_putentryat c col pos_x pos_y s = ok s' \<and>
    big_scrollable_buffer s' (pos_y, pos_x) = vga_entry c col \<and>
    text_memory s' (pos_y - scroll_row s, pos_x) = big_scrollable_buffer s (pos_y - scroll_row s, pos_x)"
proof -
  have "vga_buffer s = VGA_MMIO_BASE" using assms(1) by (simp add: term_ok_def)
  moreover have "pos_y - scroll_row s \<noteq> pos_y" "\<not> VGA_HEIGHT \<le> pos_y - scroll_row s"
    using assms(2,3) by (simp_all add: not_le)
  ultimately show ?thesis
    using assms(4,5) by (simp add: terminal_putentryat_eq entry_put_def Let_def)
qed

theorem putentryat_shows_other_row_witness:
  "\<exists>s'. terminal_putentryat 0x41 7 0 30 (power_on\<lparr>vga_buffer := VGA_MMIO_BASE, scroll_row := 10\<rparr>) = ok s' \<and>
     text_memory s' (20, 0) = 0"
  using putentryat_shows_other_row [of "power_on\<lparr>vga_buffer := VGA_MMIO_BASE, scroll_row := 10\<rparr>" 30 0 "0x41" 7]
  by (auto simp: term_ok_def power_on_def vga_consts)

text \<open>
  The up arrow on row 0 wraps the row to 4294967295: the guard compares it with the scroll
  position, which it exceeds. The next character is then written outside the buffer.
\<close>

theorem arrow_up_then_putchar:
  assumes "drains hw" and "term_ok s" and "current_write_row s = 0" and "plain c"
  shows "\<exists>s'. terminal_arrow_up s = ok s' \<and> current_write_row s' = - 1 \<and>
    terminal_putchar hw c s' = Inl OutOfBounds"
proof -
  have up: "terminal_arrow_up s = ok (s\<lparr>current_write_row := - 1\<rparr>)"
    using assms(2,3) by (auto simp: terminal_arrow_up_def Let_def term_ok_def)
  obtain tr where "serial_write_char hw c (s\<lparr>current_write_row := - 1\<rparr>) =
      ok (s\<lparr>current_write_row := - 1, serial_log := tr\<rparr>)"
    using serial_write_char_sends [OF assms(1)] by metis
  then have "terminal_putchar hw c (s\<lparr>current_write_row := - 1\<rparr>) = Inl OutOfBounds"
    using assms(4) by (subst terminal_putchar.simps) (simp add: plain_def terminal_putentryat_def VGA_MEM_HEIGHT_def)
  with up show ?thesis by simp
qed

theorem arrow_up_then_putchar_witness:
  "\<exists>s'. terminal_arrow_up (power_on\<lparr>vga_buffer := VGA_MMIO_BASE\<rparr>) = ok s' \<and>
     terminal_putchar slow_uart 0x41 s' = Inl OutOfBounds"
  using arrow_up_then_putchar [OF slow_uart_drains, of "power_on\<lparr>vga_buffer := VGA_MMIO_BASE\<rparr>" "0x41"]
  by (auto simp: term_ok_def power_on_def vga_consts plain_def)

end
