(* ===== verification/Terminal_Print.thy ===== *)
theory Terminal_Print
  imports Vga_Terminal
begin

text \<open>
  Printing numbers on the console: the helpers at the end of \<open>stdio/vga_terminal.c\<close> and the formatted
  printing of \<open>stdio/bit_hex_string.c\<close>.

  The helpers convert into a local array and write it. A local array is given by the address \<open>buf\<close>
  the stack frame puts it at and by the memory \<open>m\<close> found there; each store through an index of the
  source is checked against the declared size, as is the text a conversion routine leaves. Addresses
  and previous contents are arbitrary in all results. String literals are arrays of their own.
\<close>

section \<open>Local arrays and literals\<close>

text \<open>\<open>buf[i] = v\<close> on an array of \<open>n\<close> bytes, and a text of \<open>len\<close> characters and a NUL in one.\<close>

definition array_set :: "nat \<Rightarrow> addr \<Rightarrow> u32 \<Rightarrow> u8 \<Rightarrow> mem \<Rightarrow> mem exec" where
  "array_set n buf i v m = (if unat i < n then ok (m(buf + i := v)) else Inl OutOfBounds)"

definition fits :: "nat \<Rightarrow> u32 \<times> mem \<Rightarrow> (u32 \<times> mem) exec" where
  "fits n r = (if unat (fst r) < n then ok r else Inl OutOfBounds)"

definition put_literal :: "hw \<Rightarrow> string \<Rightarrow> terminal \<Rightarrow> terminal exec" where
  "put_literal hw t = terminal_writestring hw (store (\<lambda>_. 0) 0 (str t @ [0])) 0"

section \<open>The helpers of the terminal\<close>

text \<open>\<open>res_buff[len] = '\n'; res_buff[len + 1] = '\0'; terminal_writestring(res_buff);\<close>\<close>

definition print_line :: "hw \<Rightarrow> nat \<Rightarrow> addr \<Rightarrow> u32 \<times> mem \<Rightarrow> terminal \<Rightarrow> terminal exec" where
  "print_line hw n res_buff r s =
     bindE (fits n r) (\<lambda>(len, m).
     bindE (array_set n res_buff len 10 m) (\<lambda>m.
     bindE (array_set n res_buff (len + 1) 0 m) (\<lambda>m.
     terminal_writestring hw m res_buff s)))"

text \<open>\<open>res_buff[len] = '\0'; terminal_writestring(res_buff);\<close>\<close>

definition print_text :: "hw \<Rightarrow> nat \<Rightarrow> addr \<Rightarrow> u32 \<times> mem \<Rightarrow> terminal \<Rightarrow> terminal exec" where
  "print_text hw n res_buff r s =
     bindE (fits n r) (\<lambda>(len, m).
     bindE (array_set n res_buff len 0 m) (\<lambda>m.
     terminal_writestring hw m res_buff s))"

definition print_int_var :: "hw \<Rightarrow> addr \<Rightarrow> mem \<Rightarrow> int \<Rightarrow> terminal \<Rightarrow> terminal exec" where
  "print_int_var hw res_buff m var s = bindE (itoa var res_buff m) (\<lambda>r. print_line hw 12 res_buff r s)"

definition print_int_var_no_newline :: "hw \<Rightarrow> addr \<Rightarrow> mem \<Rightarrow> int \<Rightarrow> terminal \<Rightarrow> terminal exec" where
  "print_int_var_no_newline hw res_buff m var s =
     bindE (itoa var res_buff m) (\<lambda>r. print_text hw 12 res_buff r s)"

definition print_hex_var :: "hw \<Rightarrow> addr \<Rightarrow> mem \<Rightarrow> u32 \<Rightarrow> terminal \<Rightarrow> terminal exec" where
  "print_hex_var hw res_buff m var = print_line hw 12 res_buff (uint_to_hex var res_buff True m)"

definition print_hex_var_no_newline :: "hw \<Rightarrow> addr \<Rightarrow> mem \<Rightarrow> u32 \<Rightarrow> terminal \<Rightarrow> terminal exec" where
  "print_hex_var_no_newline hw res_buff m var = print_text hw 12 res_buff (uint_to_hex var res_buff True m)"

definition print_hex_ptr :: "hw \<Rightarrow> addr \<Rightarrow> mem \<Rightarrow> addr \<Rightarrow> terminal \<Rightarrow> terminal exec" where
  "print_hex_ptr hw res_buff m ptr = print_line hw 12 res_buff (ptr_to_hex ptr res_buff True m)"

definition print_uint_var :: "hw \<Rightarrow> addr \<Rightarrow> mem \<Rightarrow> u32 \<Rightarrow> terminal \<Rightarrow> terminal exec" where
  "print_uint_var hw res_buff m var = print_line hw 12 res_buff (uitoa var res_buff m)"

definition print_uint_var_no_newline :: "hw \<Rightarrow> addr \<Rightarrow> mem \<Rightarrow> u32 \<Rightarrow> terminal \<Rightarrow> terminal exec" where
  "print_uint_var_no_newline hw res_buff m var = print_text hw 20 res_buff (uitoa var res_buff m)"

definition terminal_write_uint :: "hw \<Rightarrow> addr \<Rightarrow> mem \<Rightarrow> addr \<Rightarrow> u32 \<Rightarrow> terminal \<Rightarrow> terminal exec" where
  "terminal_write_uint hw res_buff m p val s =
     bindE (terminal_writestring hw m p s) (print_uint_var hw res_buff m val)"

definition terminal_write_uint_no_newline :: "hw \<Rightarrow> addr \<Rightarrow> mem \<Rightarrow> addr \<Rightarrow> u32 \<Rightarrow> terminal \<Rightarrow> terminal exec" where
  "terminal_write_uint_no_newline hw res_buff m p val s =
     bindE (terminal_writestring hw m p s) (print_uint_var_no_newline hw res_buff m val)"

definition terminal_write_hex :: "hw \<Rightarrow> addr \<Rightarrow> mem \<Rightarrow> addr \<Rightarrow> u32 \<Rightarrow> terminal \<Rightarrow> terminal exec" where
  "terminal_write_hex hw res_buff m p val s =
     bindE (terminal_writestring hw m p s) (print_hex_var hw res_buff m val)"

definition terminal_write_ptr :: "hw \<Rightarrow> addr \<Rightarrow> mem \<Rightarrow> addr \<Rightarrow> addr \<Rightarrow> terminal \<Rightarrow> terminal exec" where
  "terminal_write_ptr hw res_buff m p val s =
     bindE (terminal_writestring hw m p s) (print_hex_ptr hw res_buff m val)"

text \<open>An array of \<open>uint16_t\<close>, one line per element; \<open>arr i\<close> is element \<open>i\<close>.\<close>

definition terminal_write_uint16_array_newlines ::
    "hw \<Rightarrow> addr \<Rightarrow> mem \<Rightarrow> (nat \<Rightarrow> u16) \<Rightarrow> addr \<Rightarrow> u32 \<Rightarrow> terminal \<Rightarrow> terminal exec" where
  "terminal_write_uint16_array_newlines hw res_buff m arr array_name n = forE (\<lambda>i s.
     bindE (terminal_writestring hw m array_name s) (\<lambda>s.
     bindE (put_literal hw ''['' s) (\<lambda>s. bindE (print_uint_var_no_newline hw res_buff m (of_nat i) s) (\<lambda>s.
     bindE (put_literal hw ''] = '' s) (\<lambda>s. print_uint_var hw res_buff m (ucast (arr i)) s))))) [0..<unat n]"

section \<open>Binary and hexadecimal\<close>

definition getSpacelessBitString :: "u32 \<Rightarrow> addr \<Rightarrow> mem \<Rightarrow> mem" where
  "getSpacelessBitString a output m =
     fold (\<lambda>bitIndex m. m(output + of_nat (31 - bitIndex) := chr CHR ''0'' + ucast (drop_bit bitIndex a AND 1)))
       [0..<32] (m(output + 32 := 0))"

definition addSpacesEvery4bits :: "addr \<Rightarrow> addr \<Rightarrow> mem \<Rightarrow> mem" where
  "addSpacesEvery4bits spacelessBits output m =
     (let (bitIndex, m) = fold (\<lambda>printIndex (bitIndex, m).
            if (printIndex + 1) mod 5 = 0 then (bitIndex, m(output + of_nat printIndex := chr CHR '' ''))
            else (bitIndex + 1, m(output + of_nat printIndex := m (spacelessBits + of_nat bitIndex))))
          [0..<39] (0 :: nat, m)
      in m(output + 39 := 0))"

text \<open>The frame of the binary printers: 33 bytes for the digits, then 40 for the spaced text.\<close>

definition spaced_bits :: "addr \<Rightarrow> mem \<Rightarrow> u32 \<Rightarrow> mem" where
  "spaced_bits buf m v = addSpacesEvery4bits buf (buf + 33) (getSpacelessBitString v buf m)"

definition printBinary :: "hw \<Rightarrow> addr \<Rightarrow> mem \<Rightarrow> u32 \<Rightarrow> addr \<Rightarrow> terminal \<Rightarrow> terminal exec" where
  "printBinary hw buf m binaryNumber variableName s =
     (let m' = spaced_bits buf m binaryNumber
      in bindE (terminal_writestring hw m variableName s) (\<lambda>s.
         bindE (put_literal hw '' = '' s) (\<lambda>s.
         bindE (terminal_writestring hw m' (buf + 33) s) (\<lambda>s.
         bindE (put_literal hw '' | '' s) (\<lambda>s.
         bindE (print_hex_var hw buf m binaryNumber s) (put_literal hw ''\<newline>''))))))"

function binary_size_loop :: "u32 \<Rightarrow> nat \<Rightarrow> nat" where
  "binary_size_loop n bits = (if n > 0 then binary_size_loop (drop_bit 1 n) (bits + 1) else bits)"
  by pat_completeness auto
termination
proof (relation "measure (\<lambda>(n, _). unat n)")
  fix n :: u32 and bits :: nat
  assume "n > 0"
  then show "((drop_bit 1 n, bits + 1), (n, bits)) \<in> measure (\<lambda>(n, _). unat n)"
    by (simp add: drop_bit_eq_div unat_div word_less_nat_alt)
qed simp

declare binary_size_loop.simps [simp del]

definition binary_size :: "u32 \<Rightarrow> u8" where
  "binary_size n = (if n = 0 then 1 else of_nat (binary_size_loop n 0))"

definition hexSize :: "u32 \<Rightarrow> u8" where
  "hexSize n = (if binary_size n mod 4 \<noteq> 0 then binary_size n div 4 + 1 else binary_size n div 4)"

definition max_u8 :: "u8 \<Rightarrow> u8 \<Rightarrow> u8" where
  "max_u8 a b = (if a > b then a else b)"

definition max16i :: "int \<Rightarrow> int \<Rightarrow> int" where
  "max16i a b = (if a > b then a else b)"

text \<open>Conversion to \<open>int16_t\<close>.\<close>

definition int16 :: "int \<Rightarrow> int" where
  "int16 v = signed_take_bit 15 v"

definition print_binary_var_no_newline :: "hw \<Rightarrow> addr \<Rightarrow> mem \<Rightarrow> u32 \<Rightarrow> u32 \<Rightarrow> terminal \<Rightarrow> terminal exec" where
  "print_binary_var_no_newline hw buf m binaryNumber numberOfBits =
     (let m = spaced_bits buf m binaryNumber;
          bitSize = binary_size binaryNumber;
          numberOfBits = ucast (max_u8 bitSize (ucast numberOfBits)) :: u32;
          first_index = (if numberOfBits \<ge> 32 then 0
             else let first_index = ucast (39 - (numberOfBits + numberOfBits div 4)) :: u8
                  in if numberOfBits mod 4 = 0 then first_index + 1 else first_index)
      in terminal_writestring hw m (buf + 33 + ucast first_index))"

definition printBinarySize :: "hw \<Rightarrow> addr \<Rightarrow> mem \<Rightarrow> u32 \<Rightarrow> addr \<Rightarrow> u32 \<Rightarrow> terminal \<Rightarrow> terminal exec" where
  "printBinarySize hw buf m binaryNumber variableName numberOfBits s =
     (let m' = spaced_bits buf m binaryNumber;
          first_index = (if numberOfBits \<ge> 32 then 0 else ucast (39 - (numberOfBits + numberOfBits div 4))) :: u8
      in bindE (terminal_writestring hw m variableName s) (\<lambda>s.
         bindE (put_literal hw '' = '' s) (\<lambda>s.
         bindE (terminal_writestring hw m' (buf + 33 + ucast first_index) s) (\<lambda>s.
         bindE (put_literal hw '' | '' s) (print_hex_var hw buf m binaryNumber)))))"

text \<open>
  Leading zeros and digits are put one by one, with a space wherever a multiple of four digits is
  still to come. A failed \<open>assert\<close> prints and halts for ever.
\<close>

definition print_hex_f :: "hw \<Rightarrow> addr \<Rightarrow> mem \<Rightarrow> u32 \<Rightarrow> u8 \<Rightarrow> terminal \<Rightarrow> terminal exec" where
  "print_hex_f hw output_array m hex_number numberOfHex s =
     bindE (assertE (numberOfHex \<le> 16)) (\<lambda>_.
     let hex_size = hexSize hex_number;
         n = max_u8 hex_size numberOfHex
     in bindE (fits (unat n + 1) (uint_to_hex hex_number output_array False m)) (\<lambda>(len, m).
        bindE (assertE (ucast hex_size = len)) (\<lambda>_.
        bindE (put_literal hw ''0x'' s) (\<lambda>s.
        let zeros = (if ucast n < len then 0 else ucast (ucast n - len)) :: u8
        in bindE (forE (\<lambda>i s. bindE (terminal_putchar hw (chr CHR ''0'') s) (\<lambda>s.
                 let left = n - (of_nat i + 1)
                 in if left mod 4 = 0 then terminal_putchar hw (chr CHR '' '') s else ok s))
               [0..<unat zeros] s) (\<lambda>s.
           forE (\<lambda>i s. bindE (terminal_putchar hw (m (output_array + of_nat i)) s) (\<lambda>s.
                 let j = n - of_nat i - zeros
                 in if (uint j - 1) mod 4 = 0 \<and> of_nat i \<noteq> len - 1 then terminal_putchar hw (chr CHR '' '') s else ok s))
               [0..<unat len] s)))))"

text \<open>\<open>more_pad\<close> spaces.\<close>

definition put_pad :: "hw \<Rightarrow> u8 \<Rightarrow> terminal \<Rightarrow> terminal exec" where
  "put_pad hw more_pad = forE (\<lambda>_. terminal_putchar hw (chr CHR '' '')) [0..<unat more_pad]"

definition print_uint_f :: "hw \<Rightarrow> addr \<Rightarrow> mem \<Rightarrow> u32 \<Rightarrow> u8 \<Rightarrow> terminal \<Rightarrow> terminal exec" where
  "print_uint_f hw res_buff m number padsize s =
     bindE (assertE (padsize \<le> 16)) (\<lambda>_.
     bindE (fits 20 (uitoa number res_buff m)) (\<lambda>(len, m).
     bindE (array_set 20 res_buff len 0 m) (\<lambda>m.
     let more_pad = of_int (max16i 0 (int16 (int16 (uint padsize) - int16 (uint len)))) :: u8
     in bindE (put_pad hw more_pad s) (terminal_writestring hw m res_buff))))"

definition print_int_f :: "hw \<Rightarrow> addr \<Rightarrow> mem \<Rightarrow> int \<Rightarrow> u8 \<Rightarrow> terminal \<Rightarrow> terminal exec" where
  "print_int_f hw res_buff m number padsize s =
     bindE (assertE (padsize \<le> 16)) (\<lambda>_.
     bindE (itoa number res_buff m) (\<lambda>r.
     bindE (fits 20 r) (\<lambda>(len, m).
     bindE (array_set 20 res_buff len 0 m) (\<lambda>m.
     if number < 0 then
       bindE (terminal_putchar hw (chr CHR ''-'') s) (\<lambda>s.
       let more_pad = of_int (max16i 0 (int16 (int16 (uint padsize) - int16 (uint (len + 1))))) :: u8
       in bindE (put_pad hw more_pad s) (terminal_writestring hw m (res_buff + 1)))
     else
       let more_pad = of_int (max16i 0 (int16 (uint (ucast padsize - len :: u32)))) :: u8
       in bindE (put_pad hw more_pad s) (terminal_writestring hw m res_buff)))))"

section \<open>What the helpers put\<close>

lemma unat_of_nat_u32: "n < 2 ^ 32 \<Longrightarrow> unat (of_nat n :: u32) = n"
  by (simp add: unat_of_nat)

lemma put_literal_emit:
  "0 \<notin> set (str t) \<Longrightarrow> length t < 2 ^ 32 \<Longrightarrow> put_literal hw t = emit hw (str t)"
  unfolding put_literal_def by (rule terminal_writestring_emit [OF cstr_store]) simp_all

lemma store_snoc: "(store m p xs)(p + of_nat (length xs) := y) = store m p (xs @ [y])"
  by (simp add: store_append)

lemma print_text_emit:
  assumes "0 \<notin> set t" and "length t < n" and "n \<le> 2 ^ 31"
  shows "print_text hw n buf (of_nat (length t), store m buf (t @ [0])) = emit hw t"
proof
  fix s
  have "unat (of_nat (length t) :: u32) = length t" using assms by (intro unat_of_nat_u32) simp
  moreover have "(store m buf (t @ [0]))(buf + of_nat (length t) := 0) = store m buf (t @ [0])"
    using store_update [of "length t" "t @ [0]" m buf 0] assms by simp
  moreover have "cstr (store m buf (t @ [0])) buf t" using assms by (intro cstr_store) simp_all
  ultimately show "print_text hw n buf (of_nat (length t), store m buf (t @ [0])) s = emit hw t s"
    using assms(2) by (simp add: print_text_def fits_def array_set_def terminal_writestring_emit)
qed

lemma print_line_stores:
  assumes "length t < 2 ^ 31"
  shows "((store m buf (t @ [0]))(buf + of_nat (length t) := 10))(buf + (of_nat (length t) + 1) := 0) =
    store m buf ((t @ [10]) @ [0])"
proof -
  have "(store m buf (t @ [0]))(buf + of_nat (length t) := 10) = store m buf (t @ [10])"
    using store_update [of "length t" "t @ [0]" m buf 10] assms by (simp add: list_update_append)
  then show ?thesis using store_snoc [of m buf "t @ [10]" 0] by (simp add: add.commute)
qed

lemma print_line_emit:
  assumes "0 \<notin> set t" and "length t < n" and "n \<le> 2 ^ 31"
  shows "print_line hw n buf (of_nat (length t), store m buf (t @ [0])) s =
    (if length t + 1 < n then emit hw (t @ [10]) s else Inl OutOfBounds)"
proof -
  have "unat (of_nat (length t) :: u32) = length t" using assms by (intro unat_of_nat_u32) simp
  moreover have "unat (of_nat (length t) + 1 :: u32) = length t + 1"
    using unat_of_nat_u32 [of "length t + 1"] assms by (simp add: add.commute)
  moreover have "cstr (store m buf ((t @ [10]) @ [0])) buf (t @ [10])" using assms by (intro cstr_store) simp_all
  ultimately show ?thesis
    using assms(2,3) by (simp add: print_line_def fits_def array_set_def print_line_stores terminal_writestring_emit
      del: append_assoc)
qed

lemma dec_nonzero: "0 \<notin> set (dec n)"
  using dec_digits is_digit_nonzero by blast

lemma signed_dec_props:
  assumes "- (2 ^ 31) < v" and "v < 2 ^ 31"
  shows "0 \<notin> set (signed_dec v)" and "length (signed_dec v) \<le> 11"
proof -
  show "0 \<notin> set (signed_dec v)" using dec_nonzero by (simp add: signed_dec_def)
  have "nat \<bar>v\<bar> < 10 ^ Suc 9" using assms by simp
  from length_dec_bound [OF this] show "length (signed_dec v) \<le> 11" by (auto simp: signed_dec_def)
qed

lemma print_uint_var_emit: "print_uint_var hw buf m v = emit hw (dec (unat v) @ [10])"
  using print_line_emit [OF dec_nonzero, of "unat v" 12] length_dec_u32 [of v]
  by (simp add: print_uint_var_def uitoa_store fun_eq_iff)

lemma print_uint_var_no_newline_emit: "print_uint_var_no_newline hw buf m v = emit hw (dec (unat v))"
  using print_text_emit [OF dec_nonzero, of "unat v" 20] length_dec_u32 [of v]
  by (simp add: print_uint_var_no_newline_def uitoa_store)

lemma print_hex_var_emit: "print_hex_var hw buf m v = emit hw (hex_text True v @ [10])"
  using print_line_emit [OF hex_text_props(2), of True v 12] hex_text_props(3) [of True v]
  by (simp add: print_hex_var_def uint_to_hex_store fun_eq_iff)

lemma print_hex_ptr_eq: "print_hex_ptr = print_hex_var"
  by (simp add: print_hex_ptr_def print_hex_var_def ptr_to_hex_same fun_eq_iff)

text \<open>A number takes 11 characters exactly from minus one thousand million down.\<close>

lemma length_dec_ten: "10 ^ 9 \<le> n \<Longrightarrow> n < 10 ^ 10 \<Longrightarrow> length (dec n) = 10"
proof -
  have step: "10 ^ k \<le> j \<Longrightarrow> j < 10 ^ Suc k \<Longrightarrow> length (dec j) = Suc k" for j k
  proof (induction k arbitrary: j)
    case 0
    then show ?case by (subst dec.simps) simp
  next
    case (Suc k)
    have "10 ^ k \<le> j div 10" "j div 10 < 10 ^ Suc k"
      using Suc.prems by (simp_all add: less_eq_div_iff_mult_less_eq less_mult_imp_div_less mult.commute)
    moreover have "10 \<le> j" by (rule order_trans [OF _ Suc.prems(1)]) simp
    ultimately show ?case using Suc.IH [of "j div 10"] by (subst dec.simps) simp
  qed
  assume "10 ^ 9 \<le> n" "n < 10 ^ 10"
  then show ?thesis using step [of 9 n] by simp
qed

lemma length_signed_dec:
  assumes "- (2 ^ 31) < v" and "v < 2 ^ 31"
  shows "length (signed_dec v) < 11 \<longleftrightarrow> - (10 ^ 9) < v"
proof (cases "v \<le> - (10 ^ 9)")
  case True
  then have "10 ^ 9 \<le> nat (- v)" "nat (- v) < 10 ^ 10" using assms by simp_all
  from length_dec_ten [OF this] True show ?thesis by (simp add: signed_dec_def)
next
  case False
  have "length (dec (nat (- v))) \<le> Suc 8" if "v < 0" using that False by (intro length_dec_bound) simp
  moreover have "length (dec (nat v)) \<le> Suc 9" if "v \<ge> 0" using that assms by (intro length_dec_bound) simp
  ultimately show ?thesis using False by (auto simp: signed_dec_def)
qed

section \<open>Grouped digits\<close>

text \<open>The reference layout: a space wherever a positive multiple of four digits is still to come.\<close>

fun grouped :: "u8 list \<Rightarrow> u8 list" where
  "grouped [] = []"
| "grouped (c # cs) = c # (if cs \<noteq> [] \<and> length cs mod 4 = 0 then 32 # grouped cs else grouped cs)"

lemma filter_grouped: "32 \<notin> set cs \<Longrightarrow> filter (\<lambda>c. c \<noteq> 32) (grouped cs) = cs"
  by (induction cs) auto

lemma set_grouped: "set (grouped cs) \<subseteq> insert 32 (set cs)"
  by (induction cs) auto

subsection \<open>Binary\<close>

definition bit_char :: "u32 \<Rightarrow> nat \<Rightarrow> u8" where
  "bit_char v i = (if bit v i then 0x31 else 0x30)"

definition bit_text :: "nat \<Rightarrow> u32 \<Rightarrow> u8 list" where
  "bit_text n v = map (bit_char v) (rev [0..<n])"

lemma bit_char_digit: "chr CHR ''0'' + ucast (drop_bit i v AND 1) = bit_char v i"
proof -
  have "drop_bit i v AND 1 = of_bool (bit v i)"
    by (simp add: and_one_eq bit_iff_odd_drop_bit odd_iff_mod_2_eq_one flip: mod_2_eq_odd)
  then show ?thesis by (simp add: bit_char_def)
qed

lemma bit_text_32: "bit_text 32 v = map (\<lambda>j. bit_char v (31 - j)) [0..<32]"
  by (rule nth_equalityI) (simp_all add: bit_text_def rev_nth)

text \<open>Filling the first \<open>n\<close> places of an array downwards.\<close>

lemma fold_store_down:
  "length xs \<le> 2 ^ 31 \<Longrightarrow> n \<le> length xs \<Longrightarrow> k \<le> n \<Longrightarrow>
     fold (\<lambda>i m. m(p + of_nat (n - 1 - i) := f i)) [0..<k] (store m p xs) =
     store m p (map (\<lambda>j. if n - k \<le> j \<and> j < n then f (n - 1 - j) else xs ! j) [0..<length xs])"
proof (induction k)
  case 0
  have "map (\<lambda>j. if n \<le> j \<and> j < n then f (n - 1 - j) else xs ! j) [0..<length xs] = xs"
    by (rule nth_equalityI) auto
  then show ?case by simp
next
  case (Suc k)
  let ?ys = "map (\<lambda>j. if n - k \<le> j \<and> j < n then f (n - 1 - j) else xs ! j) [0..<length xs]"
  have "(store m p ?ys)(p + of_nat (n - 1 - k) := f k) = store m p (?ys[n - 1 - k := f k])"
    using store_update [of "n - 1 - k" ?ys m p "f k"] Suc.prems by simp
  moreover have "?ys[n - 1 - k := f k] =
      map (\<lambda>j. if n - Suc k \<le> j \<and> j < n then f (n - 1 - j) else xs ! j) [0..<length xs]"
    using Suc.prems by (intro nth_equalityI) (auto simp: nth_list_update)
  moreover have "k \<le> n" using Suc.prems(3) by simp
  ultimately show ?case
    by (simp only: upt_Suc_append le0 fold_append comp_apply fold_simps Suc.IH [OF Suc.prems(1,2)])
qed

lemma store_fetch: "n \<le> 2 ^ 32 \<Longrightarrow> store m p (fetch m p n) = m"
  by (auto simp: store_apply nth_fetch offset_def fun_eq_iff)

lemma fold_fill_down:
  assumes "length ys = n" and "n + length zs \<le> 2 ^ 31"
  shows "fold (\<lambda>i m. m(p + of_nat (n - 1 - i) := f i)) [0..<n] (store m p (ys @ zs)) =
    store m p (map (\<lambda>j. f (n - 1 - j)) [0..<n] @ zs)"
proof -
  have "map (\<lambda>j. if n - n \<le> j \<and> j < n then f (n - 1 - j) else (ys @ zs) ! j) [0..<length (ys @ zs)] =
      map (\<lambda>j. f (n - 1 - j)) [0..<n] @ zs"
    by (rule nth_equalityI) (auto simp: nth_append assms(1))
  then show ?thesis using fold_store_down [of "ys @ zs" n n] assms by simp
qed

lemma getSpacelessBitString_store:
  "getSpacelessBitString v buf m = store m buf (bit_text 32 v @ [0])"
proof -
  have start: "m(buf + 32 := 0) = store m buf (fetch m buf 32 @ [0])"
    using store_snoc [of m buf "fetch m buf 32" 0] by (simp add: store_fetch)
  have "32 - 1 - i = (31 :: nat) - i" for i by simp
  then show ?thesis
    using fold_fill_down [of "fetch m buf 32" 32 "[0]" buf "bit_char v" m]
    by (simp only: getSpacelessBitString_def bit_char_digit start bit_text_32) simp
qed

lemma grouped_32: "grouped (map g [0..<32]) =
    map (\<lambda>j. if Suc j mod 5 = 0 then 32 else g (j - j div 5)) [0..<39]"
  by (simp add: upt_rec)

lemma length_grouped: "length (grouped cs) = length cs + (length cs - 1) div 4"
proof (induction cs)
  case (Cons c cs)
  show ?case
  proof (cases cs)
    case (Cons d ds)
    then have "length cs div 4 = (length cs - 1) div 4 + of_bool (length cs mod 4 = 0)"
      by (cases "length cs") (auto simp: div_Suc)
    then show ?thesis using Cons.IH Cons by auto
  qed simp
qed simp

lemma grouped_suffix: "\<exists>p. grouped (a @ b) = p @ grouped b"
proof (induction a)
  case (Cons c a)
  then obtain p where "grouped (a @ b) = p @ grouped b" by blast
  then show ?case by (auto intro: exI [of _ "c # 32 # p"] exI [of _ "c # p"])
qed simp

lemma drop_grouped:
  assumes "n \<le> length cs"
  shows "drop (length (grouped cs) - length (grouped (drop n cs))) (grouped cs) = grouped (drop n cs)"
proof -
  obtain p where "grouped (take n cs @ drop n cs) = p @ grouped (drop n cs)" using grouped_suffix by blast
  then show ?thesis by simp
qed

text \<open>The two arrays of the frame do not overlap.\<close>

lemma store_beside:
  "i < 33 \<Longrightarrow> length ys \<le> 40 \<Longrightarrow> store m (buf + 33) ys (buf + of_nat i) = m (buf + of_nat i)"
proof (rule store_outside)
  assume i: "i < 33" and ys: "length ys \<le> 40"
  then show "length ys \<le> 2 ^ 32" by simp
  have "2 ^ 32 - (33 - i) < 2 ^ 32" using i by simp
  note u = unat_of_nat_u32 [OF this]
  have "of_nat i - (33 :: u32) = of_nat (2 ^ 32 - (33 - i))" using i by (simp add: of_nat_diff)
  then have "unat (of_nat i - 33 :: u32) = 2 ^ 32 - (33 - i)" by (simp only: u)
  then show "length ys \<le> offset (buf + 33) (buf + of_nat i)"
    using ys by (simp add: offset_def)
qed

lemma spaced_loop:
  assumes "\<And>i. i < 32 \<Longrightarrow> m (buf + of_nat i) = x i"
  shows "k \<le> 39 \<Longrightarrow>
    fold (\<lambda>printIndex (bitIndex, m).
        if (printIndex + 1) mod 5 = 0 then (bitIndex, m(buf + 33 + of_nat printIndex := chr CHR '' ''))
        else (bitIndex + 1, m(buf + 33 + of_nat printIndex := m (buf + of_nat bitIndex))))
      [0..<k] (0 :: nat, m) =
    (k - k div 5, store m (buf + 33) (map (\<lambda>j. if Suc j mod 5 = 0 then 32 else x (j - j div 5)) [0..<k]))"
proof (induction k)
  case (Suc k)
  let ?sp = "map (\<lambda>j. if Suc j mod 5 = 0 then 32 else x (j - j div 5)) [0..<k]"
  have snoc: "(store m (buf + 33) ?sp)(buf + 33 + of_nat k := c) = store m (buf + 33) (?sp @ [c])" for c
    using store_snoc [of m "buf + 33" ?sp c] by simp
  have cell: "store m (buf + 33) ?sp (buf + of_nat i) = x i" if "i < 32" for i
    using that assms store_beside [of i ?sp] Suc.prems by simp
  have "k - k div 5 < 32" if "Suc k mod 5 \<noteq> 0"
  proof -
    have "k mod 5 < 5" "k mod 5 \<noteq> 4" using that by (simp_all add: mod_Suc split: if_splits)
    moreover have "5 * (k div 5) + k mod 5 = k" by simp
    ultimately show ?thesis using Suc.prems by linarith
  qed
  note read = cell [OF this]
  have step: "Suc k - Suc k div 5 = (if Suc k mod 5 = 0 then k - k div 5 else k - k div 5 + 1)"
    by (simp add: div_Suc mod_Suc Suc_diff_le)
  show ?case
    using Suc by (simp add: snoc read step del: of_nat_diff)
qed simp

lemma addSpacesEvery4bits_store:
  assumes "\<And>i. i < 32 \<Longrightarrow> m (buf + of_nat i) = x i"
  shows "addSpacesEvery4bits buf (buf + 33) m = store m (buf + 33) (grouped (map x [0..<32]) @ [0])"
proof -
  have "addSpacesEvery4bits buf (buf + 33) m = (store m (buf + 33) (grouped (map x [0..<32])))(buf + 33 + 39 := 0)"
    unfolding addSpacesEvery4bits_def
    by (subst spaced_loop [where x = x, OF assms]) (simp_all add: grouped_32 Let_def del: upt_rec_numeral)
  then show ?thesis
    using store_snoc [of m "buf + 33" "grouped (map x [0..<32])" 0] by (simp add: length_grouped del: upt_rec_numeral)
qed

lemma cstr_drop: "cstr m p s \<Longrightarrow> n \<le> length s \<Longrightarrow> cstr m (p + of_nat n) (drop n s)"
proof (induction n arbitrary: p s)
  case (Suc n)
  then obtain c t where "s = c # t" by (cases s) auto
  then show ?case using Suc.IH [of "p + 1" t] Suc.prems cstr_Cons [of m p c t] by (simp add: add.assoc)
qed simp

lemma bit_text_nonzero: "0 \<notin> set (bit_text n v)" "32 \<notin> set (bit_text n v)"
  by (auto simp: bit_text_def bit_char_def split: if_splits)

lemma spaced_bits_cstr:
  assumes "k \<le> 39"
  shows "cstr (spaced_bits buf m v) (buf + 33 + of_nat k) (drop k (grouped (bit_text 32 v)))"
proof -
  let ?t = "grouped (bit_text 32 v)"
  let ?m = "store m buf (bit_text 32 v @ [0])"
  have "?m (buf + of_nat i) = bit_char v (31 - i)" if "i < 32" for i
    using that by (simp add: store_apply offset_of_nat nth_append bit_text_def rev_nth)
  then have "spaced_bits buf m v = store ?m (buf + 33) (?t @ [0])"
    unfolding spaced_bits_def getSpacelessBitString_store
    by (subst addSpacesEvery4bits_store [where x = "\<lambda>i. bit_char v (31 - i)"]) (simp_all only: bit_text_32)
  moreover have "length ?t = 39" by (simp add: length_grouped bit_text_def)
  moreover have "0 \<notin> set ?t" using set_grouped [of "bit_text 32 v"] bit_text_nonzero(1) by fastforce
  ultimately show ?thesis using assms cstr_store [of ?t ?m "buf + 33"] by (intro cstr_drop) simp_all
qed

lemma first_index_value:
  "\<forall>k\<in>set [1..<32]. ucast (let first_index = ucast (39 - (of_nat k + of_nat k div 4) :: u32) :: u8
      in if (of_nat k :: u32) mod 4 = 0 then first_index + 1 else first_index) =
    (of_nat (39 - (k + (k - 1) div 4)) :: u32)"
  by code_simp

lemma drop_bit_text: "n \<le> 32 \<Longrightarrow> drop (32 - n) (bit_text 32 v) = bit_text n v"
  by (rule nth_equalityI) (simp_all add: bit_text_def rev_nth)

lemma drop_spaced: "1 \<le> n \<Longrightarrow> n \<le> 32 \<Longrightarrow>
    drop (39 - (n + (n - 1) div 4)) (grouped (bit_text 32 v)) = grouped (bit_text n v)"
  using drop_grouped [of "32 - n" "bit_text 32 v"] drop_bit_text [of n v]
  by (simp add: length_grouped bit_text_def)

fun bit_length :: "nat \<Rightarrow> nat" where
  "bit_length n = (if n = 0 then 0 else Suc (bit_length (n div 2)))"

declare bit_length.simps [simp del]

lemma bit_length_0 [simp]: "bit_length 0 = 0" by (simp add: bit_length.simps)

lemma bit_length_bounds: "n < 2 ^ bit_length n" "n \<noteq> 0 \<Longrightarrow> 2 ^ (bit_length n - 1) \<le> n"
proof (induction n rule: bit_length.induct)
  case (1 n)
  { case 1
    show ?case using "1.IH"(1) by (cases "n = 0") (simp_all add: bit_length.simps [of n])
  next
    case 2
    show ?case
    proof (cases "n div 2 = 0")
      case True
      then show ?thesis using 2 by (simp add: bit_length.simps [of n])
    next
      case False
      then have "bit_length (n div 2) \<noteq> 0" by (subst bit_length.simps) simp
      then obtain b where "bit_length (n div 2) = Suc b" by (metis not0_implies_Suc)
      then show ?thesis using "1.IH"(2) False 2 by (simp add: bit_length.simps [of n])
    qed
  }
qed

lemma binary_size_loop_eq: "binary_size_loop n b = b + bit_length (unat n)"
proof (induction n b rule: binary_size_loop.induct)
  case (1 n b)
  then show ?case
    by (subst binary_size_loop.simps, subst bit_length.simps)
       (simp add: word_gt_0 unat_eq_0 drop_bit_eq_div unat_div)
qed

lemma bit_length_u32: "bit_length (unat (v :: u32)) \<le> 32"
proof (cases "unat v = 0")
  case False
  have "(2 :: nat) ^ (bit_length (unat v) - 1) < 2 ^ 32"
    by (rule le_less_trans [OF bit_length_bounds(2) [OF False] unat_u32_less])
  then have "bit_length (unat v) - 1 < 32" by (rule power_less_imp_less_exp [rotated]) simp
  then show ?thesis by simp
qed simp

definition digits_needed :: "u32 \<Rightarrow> nat" where
  "digits_needed v = max 1 (bit_length (unat v))"

lemma unat_binary_size: "unat (binary_size v) = digits_needed v"
proof -
  have "v \<noteq> 0 \<Longrightarrow> bit_length (unat v) \<noteq> 0" by (subst bit_length.simps) (simp add: unat_eq_0)
  then show ?thesis
    using bit_length_u32 [of v]
    by (auto simp: binary_size_def digits_needed_def binary_size_loop_eq unat_of_nat)
qed

definition bit_value :: "u8 list \<Rightarrow> nat" where
  "bit_value = foldl (\<lambda>n c. 2 * n + (unat c - 48)) 0"

lemma bit_text_value: "bit_value (bit_text n v) = unat v mod 2 ^ n"
proof (induction n arbitrary: v)
  case 0
  then show ?case by (simp add: bit_text_def bit_value_def)
next
  case (Suc n)
  have "[0..<Suc n] = 0 # map Suc [0..<n]" by (simp add: map_Suc_upt upt_conv_Cons del: upt_Suc)
  moreover have "bit_char v (Suc i) = bit_char (drop_bit 1 v) i" for i
    by (simp add: bit_char_def bit_drop_bit_eq)
  ultimately have "bit_text (Suc n) v = bit_text n (drop_bit 1 v) @ [bit_char v 0]"
    by (simp add: bit_text_def rev_map del: upt_Suc)
  moreover have "bit v 0 = odd (unat v)"
    using bit_unsigned_iff [where 'a = nat, of v 0] by (simp only: bit_0) simp
  then have "unat (bit_char v 0) - 48 = unat v mod 2"
    by (simp add: bit_char_def mod2_eq_if)
  ultimately show ?case
    using Suc [of "drop_bit 1 v"]
    by (simp add: bit_value_def drop_bit_eq_div unat_div mod_mult2_eq)
qed

text \<open>How many digits are shown: all that are needed, at least as many as asked for, at most 32.\<close>

definition digits_shown :: "u32 \<Rightarrow> nat \<Rightarrow> nat" where
  "digits_shown v n = min 32 (max (digits_needed v) n)"

lemma bits_shown_value: "bit_value (bit_text (digits_shown v n) v) = unat v"
proof -
  have "bit_length (unat v) \<le> digits_shown v n"
    using bit_length_u32 [of v] by (simp add: digits_shown_def digits_needed_def)
  then have "unat v < 2 ^ digits_shown v n"
    by (rule less_le_trans [OF bit_length_bounds(1) power_increasing]) simp
  then show ?thesis by (simp add: bit_text_value)
qed

lemma print_binary_emit:
  "print_binary_var_no_newline hw buf m v n = emit hw (grouped (bit_text (digits_shown v (unat n mod 256)) v))"
proof -
  let ?b = "max_u8 (binary_size v) (ucast n)"
  define N where "N = max (digits_needed v) (unat n mod 256)"
  have b: "unat ?b = N"
    by (simp add: N_def max_u8_def unat_binary_size word_less_nat_alt max_def unsigned_ucast_eq unsigned_take_bit_eq
        take_bit_eq_mod)
  have N1: "1 \<le> N" by (simp add: N_def digits_needed_def)
  have "ucast ?b = (of_nat (unat ?b) :: u32)" by simp
  note w = this [unfolded b]
  show ?thesis
  proof (cases "N < 32")
    case True
    then have "N \<in> set [1..<32]" using N1 by simp
    from first_index_value [rule_format, OF this] True w
    have "print_binary_var_no_newline hw buf m v n =
        terminal_writestring hw (spaced_bits buf m v) (buf + 33 + of_nat (39 - (N + (N - 1) div 4)))"
      by (simp add: print_binary_var_no_newline_def Let_def word_le_nat_alt unat_of_nat del: of_nat_diff)
    also have "\<dots> = emit hw (drop (39 - (N + (N - 1) div 4)) (grouped (bit_text 32 v)))"
      by (rule terminal_writestring_emit [OF spaced_bits_cstr]) simp
    finally show ?thesis using drop_spaced [OF N1] True by (simp add: digits_shown_def N_def)
  next
    case False
    then have "unat (of_nat N :: u32) = N"
      by (intro unat_of_nat_u32) (use bit_length_u32 [of v] in \<open>simp add: N_def digits_needed_def\<close>)
    then have "print_binary_var_no_newline hw buf m v n = terminal_writestring hw (spaced_bits buf m v) (buf + 33 + of_nat 0)"
      using False w by (simp add: print_binary_var_no_newline_def Let_def word_le_nat_alt)
    moreover have "digits_shown v (unat n mod 256) = 32"
      using False by (auto simp: digits_shown_def N_def)
    ultimately show ?thesis using terminal_writestring_emit [OF spaced_bits_cstr [of 0]] by simp
  qed
qed

subsection \<open>Hexadecimal\<close>

lemma hex_char_value_bound: "k < 16 \<Longrightarrow> hex_char_value (hex_digits up ! k) < 16"
  by (simp add: hex_digits_nth)

lemma hex_value_bounds:
  "(\<And>c. c \<in> set s \<Longrightarrow> hex_char_value c < 16) \<Longrightarrow> hex_value s < 16 ^ length s"
proof (induction s rule: rev_induct)
  case (snoc c s)
  then have "hex_value s < 16 ^ length s" "hex_char_value c < 16" by simp_all
  then have "16 * hex_value s + hex_char_value c < 16 * 16 ^ length s" by linarith
  then show ?case by simp
qed (simp add: hex_value_def)

lemma hex_value_leading:
  "s \<noteq> [] \<Longrightarrow> hex_char_value (hd s) \<noteq> 0 \<Longrightarrow> 16 ^ (length s - 1) \<le> hex_value s"
proof (induction s rule: rev_induct)
  case (snoc c s)
  show ?case
  proof (cases s)
    case Nil
    then show ?thesis using snoc.prems by (simp add: hex_value_def)
  next
    case (Cons d t)
    then have "16 ^ (length s - 1) \<le> hex_value s" using snoc by simp
    moreover have "hex_value (s @ [c]) \<ge> 16 * hex_value s" by simp
    ultimately show ?thesis using Cons by (simp del: hex_value_snoc)
  qed
qed simp

lemma nibbles_digit: "c \<in> set (nibbles up n v) \<Longrightarrow> \<exists>k<16. c = hex_digits up ! k"
  by (induction n arbitrary: v) (use unat_nibble(2) in auto)

lemma hex_text_digit: "c \<in> set (hex_text up v) \<Longrightarrow> \<exists>k<16. c = hex_digits up ! k"
proof (cases "v = 0")
  case True
  assume "c \<in> set (hex_text up v)"
  then have "c = hex_digits up ! 0" using True by (simp add: hex_text_def hex_digits_def)
  then show ?thesis by (intro exI [of _ 0]) simp
next
  case False
  assume "c \<in> set (hex_text up v)"
  then have "c \<in> set (nibbles up 8 v)" using False by (auto simp: hex_text_def dest: set_dropWhileD)
  then show ?thesis by (rule nibbles_digit)
qed

lemma hex_text_no_space: "32 \<notin> set (hex_text up v)"
proof
  assume "32 \<in> set (hex_text up v)"
  then obtain k where "k < 16" "32 = hex_digits up ! k" using hex_text_digit by blast
  moreover have "\<forall>k\<in>set [0..<16]. hex_digits True ! k \<noteq> 32" "\<forall>k\<in>set [0..<16]. hex_digits False ! k \<noteq> 32"
    by code_simp+
  ultimately show False by (cases up) auto
qed

lemma length_hex_text: "length (hex_text up v) = (digits_needed v + 3) div 4"
proof (cases "v = 0")
  case True
  then show ?thesis by (simp add: hex_text_def digits_needed_def)
next
  case False
  let ?t = "hex_text up v" and ?b = "bit_length (unat v)"
  have t: "?t \<noteq> []" "hd ?t \<noteq> 0x30" using hex_text_props(4,5) False by auto
  obtain k where k: "k < 16" "hd ?t = hex_digits up ! k"
    using hex_text_digit [of "hd ?t" up v] t(1) by (metis hd_in_set)
  then have lead: "hex_char_value (hd ?t) \<noteq> 0" using t(2) hex_digits_nth(1,3) [OF k(1), of up] by auto
  have all: "hex_char_value c < 16" if "c \<in> set ?t" for c
    using hex_text_digit [OF that] hex_char_value_bound by blast
  have lo: "(2 :: nat) ^ (4 * (length ?t - 1)) \<le> unat v"
    using hex_value_leading [OF t(1) lead] hex_text_props(1) [of up v] by (simp add: power_mult)
  have hi: "unat v < 2 ^ (4 * length ?t)"
    using hex_value_bounds [of ?t, OF all] hex_text_props(1) [of up v] by (simp add: power_mult)
  have nz: "unat v \<noteq> 0" using False by (simp add: unat_eq_0)
  have "4 * (length ?t - 1) < ?b"
    using le_less_trans [OF lo bit_length_bounds(1)] by (rule power_less_imp_less_exp [rotated]) simp
  moreover have "?b - 1 < 4 * length ?t"
    using le_less_trans [OF bit_length_bounds(2) [OF nz] hi] by (rule power_less_imp_less_exp [rotated]) simp
  ultimately show ?thesis using t(1) by (cases ?t) (simp_all add: digits_needed_def)
qed

lemma unat_hexSize: "unat (hexSize v) = length (hex_text up v)"
proof -
  have d: "digits_needed v \<le> 32" using bit_length_u32 [of v] by (simp add: digits_needed_def)
  have "unat (binary_size v div 4 + 1) = digits_needed v div 4 + 1"
    using d by (simp add: unat_word_ariths unat_div unat_binary_size)
  moreover have "Suc (d div 4) = (d + 3) div 4" if "0 < d mod 4" for d :: nat using that by presburger
  moreover have "d div 4 = (d + 3) div 4" if "d mod 4 = 0" for d :: nat using that by presburger
  ultimately show ?thesis
    by (auto simp: hexSize_def length_hex_text word_unat_eq_iff unat_mod unat_div unat_binary_size)
qed

text \<open>The two loops put a digit string with its separating spaces.\<close>

lemma emit_grouped_prefix:
  "(\<And>i. i < length a \<Longrightarrow> f i = (\<lambda>s. bindE (terminal_putchar hw (a ! i) s)
        (if (length a + length b - Suc i) mod 4 = 0 \<and> i + 1 < length a + length b then terminal_putchar hw 32 else ok))) \<Longrightarrow>
     bindE (forE f [0..<length a] s) (emit hw (grouped b)) = emit hw (grouped (a @ b)) s"
proof (induction a arbitrary: f s)
  case (Cons c a)
  have "[0..<length (c # a)] = 0 # map Suc [0..<length a]" by (simp add: map_Suc_upt upt_conv_Cons del: upt_Suc)
  moreover have "forE f (map Suc [0..<length a]) = forE (\<lambda>i. f (Suc i)) [0..<length a]"
    by (rule ext) (rule forE_map)
  ultimately have "forE f [0..<length (c # a)] s = bindE (f 0 s) (forE (\<lambda>i. f (Suc i)) [0..<length a])"
    by (simp del: upt_Suc)
  moreover have "bindE (forE (\<lambda>i. f (Suc i)) [0..<length a] t) (emit hw (grouped b)) = emit hw (grouped (a @ b)) t" for t
    by (rule Cons.IH) (use Cons.prems in auto)
  moreover have "f 0 = (\<lambda>s. bindE (terminal_putchar hw c s)
      (if length (a @ b) mod 4 = 0 \<and> a @ b \<noteq> [] then terminal_putchar hw 32 else ok))"
    using Cons.prems [of 0] by auto
  ultimately show ?case by (auto simp: bindE_assoc bindE_def split: sum.split)
qed simp

lemma word_mod_4: "(w :: u8) mod 4 = 0 \<longleftrightarrow> unat w mod 4 = 0"
  by (simp add: word_unat_eq_iff unat_mod)

lemma word_of_unat: "unat (w :: u8) = k \<Longrightarrow> w = of_nat k"
  by auto

lemma emit_digits_loop:
  assumes "length t = l" and "unat n = z + l" and "unat zeros = z" and "z + l \<le> 16" and "t \<noteq> []"
    and "\<And>i. i < l \<Longrightarrow> m (buf + of_nat i) = t ! i"
  shows "forE (\<lambda>i s. bindE (terminal_putchar hw (m (buf + of_nat i)) s) (\<lambda>s.
                 let j = n - of_nat i - zeros :: u8
                 in if (uint j - 1) mod 4 = 0 \<and> of_nat i \<noteq> (of_nat l - 1 :: u32) then terminal_putchar hw 32 s else ok s))
               [0..<l] s = emit hw (grouped t) s"
proof -
  have j: "(uint (n - of_nat i - zeros) - 1) mod 4 = 0 \<and> of_nat i \<noteq> (of_nat l - 1 :: u32) \<longleftrightarrow>
      (l - Suc i) mod 4 = 0 \<and> i + 1 < l" if "i < l" for i
  proof -
    have "n = of_nat (z + l)" "zeros = of_nat z" using assms(2,3) by (blast intro: word_of_unat)+
    then have "n - of_nat i - zeros = of_nat (l - i)" using that by (simp add: of_nat_diff)
    then have "uint (n - of_nat i - zeros) = int (l - i)"
      using assms(4) by (simp add: uint_nat unat_of_nat del: of_nat_diff)
    moreover have "(int (l - i) - 1) mod 4 = 0 \<longleftrightarrow> (l - Suc i) mod 4 = 0"
    proof -
      have "int (l - i) - 1 = int (l - Suc i)" using that by simp
      then show ?thesis by presburger
    qed
    moreover have "of_nat i \<noteq> (of_nat l - 1 :: u32) \<longleftrightarrow> i + 1 < l"
    proof -
      have "(of_nat l - 1 :: u32) = of_nat (l - 1)" using that by (simp add: of_nat_diff)
      then show ?thesis using that assms(4) of_nat_addr_eq [of i "l - 1"] by (auto simp del: of_nat_diff)
    qed
    ultimately show ?thesis by simp
  qed
  have "bindE (forE (\<lambda>i s. bindE (terminal_putchar hw (m (buf + of_nat i)) s) (\<lambda>s.
                 let j = n - of_nat i - zeros :: u8
                 in if (uint j - 1) mod 4 = 0 \<and> of_nat i \<noteq> (of_nat l - 1 :: u32) then terminal_putchar hw 32 s else ok s))
               [0..<length t] s) (emit hw (grouped [])) = emit hw (grouped (t @ [])) s"
    by (rule emit_grouped_prefix) (use assms(1,6) j in \<open>simp add: fun_eq_iff Let_def if_distribR\<close>)
  then show ?thesis by (simp add: assms(1) bindE_def split: sum.splits)
qed

lemma emit_zeros_loop:
  assumes "unat n = z + length t" and "z + length t \<le> 16" and "t \<noteq> []"
  shows "bindE (forE (\<lambda>i s. bindE (terminal_putchar hw 0x30 s) (\<lambda>s.
                 let left = n - (of_nat i + 1) :: u8
                 in if left mod 4 = 0 then terminal_putchar hw 32 s else ok s))
               [0..<z] s) (emit hw (grouped t)) = emit hw (grouped (replicate z 0x30 @ t)) s"
proof -
  have left: "(n - (of_nat i + 1)) mod 4 = 0 \<longleftrightarrow> (z + length t - Suc i) mod 4 = 0" if "i < z" for i
  proof -
    have "n = of_nat (z + length t)" using assms(1) by (rule word_of_unat)
    then have "n - (of_nat i + 1) = of_nat (z + length t - Suc i)" using that by (simp add: of_nat_diff)
    then have "unat (n - (of_nat i + 1)) = z + length t - Suc i"
      using assms(2) by (simp add: unat_of_nat del: of_nat_diff)
    then show ?thesis by (simp only: word_mod_4)
  qed
  have more: "Suc i < z + length t" if "i < z" for i using that assms(3) by (cases t) auto
  have "bindE (forE (\<lambda>i s. bindE (terminal_putchar hw 0x30 s) (\<lambda>s.
                 let left = n - (of_nat i + 1) :: u8
                 in if left mod 4 = 0 then terminal_putchar hw 32 s else ok s))
               [0..<length (replicate z (0x30 :: u8))] s) (emit hw (grouped t)) = emit hw (grouped (replicate z 0x30 @ t)) s"
    by (rule emit_grouped_prefix) (use left more in \<open>simp add: fun_eq_iff Let_def if_distribR\<close>)
  then show ?thesis by simp
qed


lemma unat_ucast_u8: "unat (ucast (x :: u8) :: u32) = unat x"
  using unsigned_less [of x, where 'a = nat] by (simp add: unsigned_ucast_eq take_bit_nat_eq_self)

lemma print_hex_f_emit:
  "print_hex_f hw buf m v pad s =
    (if pad \<le> 16 then emit hw (str ''0x'' @ grouped (replicate (unat pad - length (hex_text False v)) 0x30 @ hex_text False v)) s
     else Inl Abort)"
proof -
  let ?t = "hex_text False v" and ?n = "max_u8 (hexSize v) pad"
  let ?m = "store m buf (?t @ [0])" and ?z = "unat pad - length ?t"
  have l: "length ?t \<le> 8" "?t \<noteq> []" by (rule hex_text_props)+
  have u: "unat (of_nat (length ?t) :: u32) = length ?t" using l by (intro unat_of_nat_u32) simp
  have h: "ucast (hexSize v) = (of_nat (length ?t) :: u32)"
  proof -
    have "ucast (hexSize v) = (of_nat (unat (hexSize v)) :: u32)" by simp
    then show ?thesis by (simp only: unat_hexSize [of v False])
  qed
  have n: "unat ?n = ?z + length ?t"
    by (simp add: max_u8_def word_less_nat_alt unat_hexSize [of v False])
  have un: "unat (ucast ?n :: u32) = ?z + length ?t" by (simp only: unat_ucast_u8 n)
  show ?thesis
  proof (cases "pad \<le> 16")
    case True
    then have "unat pad \<le> 16" by (simp add: word_le_nat_alt)
    then have le: "?z + length ?t \<le> 16" using l by simp
    have nz: "\<not> ucast ?n < (of_nat (length ?t) :: u32)" by (simp add: word_less_nat_alt un u)
    have "unat (ucast ?n - of_nat (length ?t) :: u32) = ?z"
      by (simp add: unat_sub word_le_nat_alt un u)
    then have z: "unat (ucast (ucast ?n - of_nat (length ?t) :: u32) :: u8) = ?z"
      using le by (simp add: unsigned_ucast_eq unsigned_take_bit_eq take_bit_nat_eq_self)
    have cell: "?m (buf + of_nat i) = ?t ! i" if "i < length ?t" for i
      using that l by (simp add: store_apply nth_append)
    note digits = ext [OF emit_digits_loop [where hw = hw, OF refl n z le l(2) cell]]
    note zeros = emit_zeros_loop [where hw = hw, OF n le l(2)]
    have space: "chr CHR '' '' = 32" "chr CHR ''0'' = 0x30" by simp_all
    have lit: "put_literal hw ''0x'' s = emit hw (str ''0x'') s" by (simp add: put_literal_emit)
    have "fits (unat ?n + 1) (uint_to_hex v buf False m) = ok (of_nat (length ?t), ?m)"
      by (simp add: fits_def uint_to_hex_store u n)
    then have "print_hex_f hw buf m v pad s =
        bindE (put_literal hw ''0x'' s) (emit hw (grouped (replicate ?z 0x30 @ ?t)))"
      using True unfolding print_hex_f_def space Let_def
      by (simp add: h nz z u digits [unfolded Let_def] zeros [unfolded Let_def] del: emit_simps)
    then show ?thesis using True by (simp add: lit bindE_assoc emit_fun)
  next
    case False
    then show ?thesis by (simp add: print_hex_f_def)
  qed
qed


subsection \<open>Padded decimals\<close>

lemma put_pad_emit: "put_pad hw p = emit hw (replicate (unat p) 32)"
  by (simp add: put_pad_def emit_def forE_const fun_eq_iff)

lemma int16_id: "- 32768 \<le> v \<Longrightarrow> v < 32768 \<Longrightarrow> int16 v = v"
  unfolding int16_def by (rule signed_take_bit_int_eq_self) simp_all

lemma max16i_diff: "max16i 0 (int a - int k) = int (a - k)"
  by (auto simp: max16i_def)

lemma unat_max16i:
  assumes "unat (w :: u8) \<le> 16"
  shows "unat (of_int (max16i 0 (int (unat w) - int k)) :: u8) = unat w - k"
proof -
  have "unat w - k < 256" using assms by linarith
  then have "unat (of_nat (unat w - k) :: u8) = unat w - k" by (simp add: unat_of_nat del: of_nat_diff)
  then show ?thesis unfolding max16i_diff of_int_of_nat_eq .
qed

lemma unat_pad:
  assumes "k < 32000" and "(w :: u8) \<le> 16"
  shows "unat (of_int (max16i 0 (int16 (int16 (uint w) - int16 (int k)))) :: u8) = unat w - k"
    and "unat (of_int (max16i 0 (int16 (uint (ucast w - of_nat k :: u32)))) :: u8) = unat w - k"
proof -
  have w: "unat w \<le> 16" using assms(2) by (simp add: word_le_nat_alt)
  have uw: "uint w = int (unat w)" by simp
  have small: "int16 (int (unat w)) = int (unat w)" "int16 (int k) = int k"
      "int16 (int (unat w) - int k) = int (unat w) - int k"
    by (rule int16_id; use w assms(1) in linarith)+
  show "unat (of_int (max16i 0 (int16 (int16 (uint w) - int16 (int k)))) :: u8) = unat w - k"
    unfolding uw small by (rule unat_max16i [OF w])
  have "int (unat (ucast w :: u32)) = int (unat w)" by (simp only: unat_ucast_u8)
  moreover have "int (unat (of_nat k :: u32)) = int k" using assms(1) by (subst unat_of_nat_u32) simp_all
  ultimately have "uint (ucast w - of_nat k :: u32) = take_bit 32 (int (unat w) - int k)"
    by (simp add: uint_word_ariths take_bit_eq_mod)
  then have "int16 (uint (ucast w - of_nat k :: u32)) = int16 (int (unat w) - int k)"
    by (simp add: int16_def signed_take_bit_take_bit)
  then show "unat (of_int (max16i 0 (int16 (uint (ucast w - of_nat k :: u32)))) :: u8) = unat w - k"
    unfolding small by (simp only: unat_max16i [OF w])
qed

lemma print_uint_f_emit:
  "print_uint_f hw buf m v pad s =
    (if pad \<le> 16 then emit hw (replicate (unat pad - length (dec (unat v))) 32 @ dec (unat v)) s else Inl Abort)"
proof (cases "pad \<le> 16")
  case True
  let ?t = "dec (unat v)"
  have l: "length ?t \<le> 10" by (rule length_dec_u32)
  have u: "unat (of_nat (length ?t) :: u32) = length ?t" using l by (intro unat_of_nat_u32) simp
  have i: "uint (of_nat (length ?t) :: u32) = int (length ?t)" using u by (simp add: uint_nat)
  have "(store m buf (?t @ [0]))(buf + of_nat (length ?t) := 0) = store m buf (?t @ [0])"
    using store_update [of "length ?t" "?t @ [0]" m buf 0] l by simp
  moreover have "terminal_writestring hw (store m buf (?t @ [0])) buf = emit hw ?t"
    using l dec_nonzero by (intro terminal_writestring_emit cstr_store) simp_all
  ultimately show ?thesis
    using True l u unat_pad(1) [of "length ?t" pad]
    by (simp add: print_uint_f_def uitoa_store fits_def array_set_def i put_pad_emit emit_append)
qed (simp add: print_uint_f_def)

lemma print_int_f_emit:
  assumes "- (2 ^ 31) < v" and "v < 2 ^ 31"
  shows "print_int_f hw buf m v pad s =
    (if \<not> pad \<le> 16 then Inl Abort
     else if v < 0 then emit hw (0x2D # replicate (unat pad - (length (dec (nat (- v))) + 2)) 32 @ dec (nat (- v))) s
     else emit hw (replicate (unat pad - length (dec (nat v))) 32 @ dec (nat v)) s)"
proof (cases "pad \<le> 16")
  case True
  let ?t = "signed_dec v"
  have w: "unat pad \<le> 16" using True by (simp add: word_le_nat_alt)
  note p = signed_dec_props [OF assms]
  have u: "unat (of_nat (length ?t) :: u32) = length ?t" using p by (intro unat_of_nat_u32) simp
  have u1: "unat (of_nat (length ?t) + 1 :: u32) = length ?t + 1"
    using unat_of_nat_u32 [of "length ?t + 1"] p by (simp add: add.commute)
  have i: "uint (of_nat (length ?t) + 1 :: u32) = int (length ?t + 1)" using u1 by (simp add: uint_nat)
  have st: "(store m buf (?t @ [0]))(buf + of_nat (length ?t) := 0) = store m buf (?t @ [0])"
    using store_update [of "length ?t" "?t @ [0]" m buf 0] p by simp
  have c: "cstr (store m buf (?t @ [0])) buf ?t" using p by (intro cstr_store) simp_all
  show ?thesis
  proof (cases "v < 0")
    case neg: True
    then have t: "?t = 0x2D # dec (nat (- v))" by (simp add: signed_dec_def)
    then have "cstr (store m buf (?t @ [0])) (buf + 1) (dec (nat (- v)))"
      using cstr_Cons c by metis
    note e = terminal_writestring_emit [OF this]
    show ?thesis
      using True neg p u st unat_pad(1) [of "length ?t + 1" pad]
      by (simp add: print_int_f_def itoa_store [OF assms] fits_def array_set_def i put_pad_emit emit_fun e)
         (simp add: t)
  next
    case pos: False
    then have t: "?t = dec (nat v)" by (simp add: signed_dec_def)
    note e = terminal_writestring_emit [OF c]
    show ?thesis
      using True pos p u st unat_pad(2) [of "length ?t" pad]
      by (simp add: print_int_f_def itoa_store [OF assms] fits_def array_set_def put_pad_emit emit_fun e)
         (simp add: t)
  qed
qed (simp add: print_int_f_def)

section \<open>Correctness\<close>

lemma hex_value_zeros: "hex_value (replicate z 0x30 @ t) = hex_value t"
proof -
  have "hex_char_value 0x30 = 0" by (simp add: hex_char_value_def is_digit_def)
  then show ?thesis by (induction z) (simp_all add: hex_value_def)
qed

text \<open>
  \<open>print_int_var\<close> prints the decimal representation and a newline for every integer above minus one
  thousand million. From there down the representation takes eleven characters, and the terminating
  NUL that follows the newline is stored one byte past the end of the twelve-byte buffer.
\<close>

theorem print_int_var_range:
  assumes "- (2 ^ 31) < v" and "v < 2 ^ 31"
  shows "print_int_var hw buf m v s =
    (if - 1000000000 < v then emit hw (signed_dec v @ [10]) s else Inl OutOfBounds)"
  using signed_dec_props [OF assms] length_signed_dec [OF assms] print_line_emit [of "signed_dec v" 12]
  by (simp add: print_int_var_def itoa_store [OF assms])

theorem print_int_var_range_witness:
  "print_int_var slow_uart 0x7000 (\<lambda>_. 0xCC) (- 1000000000) power_on = Inl OutOfBounds \<and>
   print_int_var slow_uart 0x7000 (\<lambda>_. 0xCC) (- 42) power_on = emit slow_uart [0x2D, 0x34, 0x32, 10] power_on"
proof -
  have "signed_dec (- 42) = [0x2D, 0x34, 0x32]" by code_simp
  then show ?thesis
    using print_int_var_range [of "- 1000000000" slow_uart "0x7000" "\<lambda>_. 0xCC" power_on]
      print_int_var_range [of "- 42" slow_uart "0x7000" "\<lambda>_. 0xCC" power_on] by simp
qed

text \<open>
  \<open>print_hex_f\<close> prints \<open>0x\<close> and the number in hexadecimal with at least the digits asked for, in
  groups of four counted from the right; a request for more than 16 aborts. Its assertion that the
  computed digit count equals the length of the converted text never fails, and the variable-length
  array it allots always has room for the text.
\<close>

theorem print_hex_f_shows:
  "\<exists>t. print_hex_f hw buf m v pad s = (if pad \<le> 16 then emit hw (str ''0x'' @ grouped t) s else Inl Abort) \<and>
     hex_value t = unat v \<and> length t = max (unat pad) (length (hex_text False v)) \<and>
     filter (\<lambda>c. c \<noteq> 32) (grouped t) = t"
proof -
  let ?t = "replicate (unat pad - length (hex_text False v)) 0x30 @ hex_text False v"
  have "filter (\<lambda>c. c \<noteq> 32) (grouped ?t) = ?t"
    using hex_text_no_space by (intro filter_grouped) simp
  then show ?thesis
    using hex_text_props(1) [of False v] print_hex_f_emit [of hw buf m v pad s]
    by (intro exI [of _ ?t]) (simp add: hex_value_zeros)
qed

text \<open>
  \<open>print_binary_var_no_newline\<close> prints the number in binary, as many digits as it needs and at least as
  many as asked for up to 32, in groups of four counted from the right; reading the digits back gives
  the number.
\<close>

theorem print_binary_shows:
  "\<exists>t. print_binary_var_no_newline hw buf m v n = emit hw (grouped t) \<and> bit_value t = unat v \<and>
     length t = min 32 (max (digits_needed v) (unat n mod 256)) \<and> filter (\<lambda>c. c \<noteq> 32) (grouped t) = t"
  using print_binary_emit [of hw buf m v n] bits_shown_value [of v "unat n mod 256"]
    filter_grouped [OF bit_text_nonzero(2)]
  by (intro exI [of _ "bit_text (digits_shown v (unat n mod 256)) v"]) (simp add: bit_text_def digits_shown_def)

text \<open>
  Padded decimals: an unsigned number is right-aligned in the field asked for. A negative number is
  one column short of it: its sign goes in front of the padding and is subtracted from it although the
  length of the text counts the sign already.
\<close>

theorem padded_decimal_widths:
  assumes "pad \<le> 16" and "- (2 ^ 31) < i" and "i < 0"
  shows "\<exists>t t'. print_uint_f hw buf m v pad s = emit hw t s \<and> length t = max (unat pad) (length (dec (unat v))) \<and>
    dropWhile (\<lambda>c. c = 32) t = dec (unat v) \<and>
    print_int_f hw buf m i pad s = emit hw (0x2D # t') s \<and> dropWhile (\<lambda>c. c = 32) t' = dec (nat (- i)) \<and>
    length (0x2D # t') = max (unat pad - 1) (length (signed_dec i))"
proof -
  have start: "dropWhile (\<lambda>c. c = 32) (replicate k 32 @ dec n) = dec n" for k n
  proof -
    have "hd (dec n) \<noteq> 32" using dec_digits [of "hd (dec n)" n] by (auto simp: is_digit_def)
    then show ?thesis by (cases "dec n") (simp_all add: dropWhile_append)
  qed
  let ?t = "replicate (unat pad - length (dec (unat v))) 32 @ dec (unat v)"
  let ?t' = "replicate (unat pad - (length (dec (nat (- i))) + 2)) 32 @ dec (nat (- i))"
  have "length (0x2D # ?t') = max (unat pad - 1) (length (signed_dec i))"
    using assms(3) by (auto simp: signed_dec_def max_def)
  moreover have "print_int_f hw buf m i pad s = emit hw (0x2D # ?t') s"
    using print_int_f_emit [of i hw buf m pad s] assms by simp
  ultimately show ?thesis
    using assms(1) start print_uint_f_emit [of hw buf m v pad s]
    by (intro exI [of _ ?t] exI [of _ ?t']) simp
qed

theorem padded_decimal_widths_witness:
  "\<exists>t'. print_int_f slow_uart 0x7000 (\<lambda>_. 0xCC) (- 5) 5 power_on = emit slow_uart (0x2D # t') power_on \<and> length (0x2D # t') = 4"
proof -
  have "signed_dec (- 5) = [0x2D, 0x35]" by code_simp
  then show ?thesis
    using padded_decimal_widths [of 5 "- 5" slow_uart "0x7000" "\<lambda>_. 0xCC" 0 power_on] by auto
qed

end
