(* ===== verification/Kprintf.thy ===== *)
theory Kprintf
  imports Terminal_Print Reentrant_Lock
begin

text \<open>
  Formatted printing (\<open>stdio/stdio.c\<close>, \<open>stdio/stdio.h\<close>): the parser of format strings, the printer of one
  field, and \<open>vkprintf\<close> with the lock and the interrupt flag it takes and gives back.

  Format strings and string arguments lie in the memory \<open>m\<close>; \<open>lc\<close> is where the stack frame of
  \<open>get_single_format_properties\<close> has its array \<open>len_char\<close>, and \<open>buf\<close> where the printers have theirs.
  Members of a structure that the code leaves unset are \<open>None\<close>, and using one is undefined. The variable
  arguments are the 32-bit words on the stack. Floating-point output is the parameter \<open>pf\<close>, which gets
  the two words of the argument and the precision.
\<close>

section \<open>Data\<close>

datatype PRINTF_FMT_OPTION = FMT_OPTION_NONE | FMT_OPTION_NOT_IMPLEMENTED | FMT_OPTION_COULD_NOT_CONVERT
  | FMT_OPTION_PAD | FMT_OPTION_PRECISION | FMT_OPTION_STRLEN

datatype PRINTF_TYPE = PRINTF_TAG_INVALID | PRINTF_TAG_CHAR | PRINTF_TAG_STRING | PRINTF_TAG_INT
  | PRINTF_TAG_UINT32_T | PRINTF_TAG_FLOAT | PRINTF_TAG_HEX | PRINTF_TAG_BINARY

record PRINTF_FIELD_PROPERTIES =
  field_type :: PRINTF_TYPE
  option :: PRINTF_FMT_OPTION
  option_num :: "u8 option"
  len :: "u8 option"
  pos :: u16

text \<open>The console as \<open>kprintf\<close> sees it: the terminal, the lock word, the processor's flags.\<close>

record console =
  tty :: terminal
  kprintf_lock :: u32
  eflags :: u32

text \<open>Reading a structure member that may be unset.\<close>

definition use :: "'a option \<Rightarrow> 'a exec" where
  "use v = (case v of None \<Rightarrow> Inl Undefined | Some x \<Rightarrow> ok x)"

section \<open>Classifying characters\<close>

definition is_alpha :: "u8 \<Rightarrow> bool" where
  "is_alpha c \<longleftrightarrow> chr CHR ''A'' \<le> c \<and> c \<le> chr CHR ''Z'' \<or> chr CHR ''a'' \<le> c \<and> c \<le> chr CHR ''z''"

definition is_alnum :: "u8 \<Rightarrow> bool" where
  "is_alnum c \<longleftrightarrow> is_alpha c \<or> is_digit c"

definition char_to_fmt_option :: "u8 \<Rightarrow> PRINTF_FMT_OPTION" where
  "char_to_fmt_option c =
     (if c = chr CHR '':'' then FMT_OPTION_PAD
      else if c = chr CHR ''.'' then FMT_OPTION_PRECISION
      else if c = chr CHR '';'' then FMT_OPTION_STRLEN
      else FMT_OPTION_NONE)"

definition char_to_printf_tag :: "u8 \<Rightarrow> PRINTF_TYPE" where
  "char_to_printf_tag c =
     (if c = chr CHR ''c'' then PRINTF_TAG_CHAR
      else if c = chr CHR ''s'' then PRINTF_TAG_STRING
      else if c = chr CHR ''d'' then PRINTF_TAG_INT
      else if c = chr CHR ''u'' then PRINTF_TAG_UINT32_T
      else if c = chr CHR ''f'' then PRINTF_TAG_FLOAT
      else if c = chr CHR ''h'' then PRINTF_TAG_HEX
      else if c = chr CHR ''b'' then PRINTF_TAG_BINARY
      else PRINTF_TAG_INVALID)"

fun printf_fmt_option_to_str :: "PRINTF_FMT_OPTION \<Rightarrow> string" where
  "printf_fmt_option_to_str FMT_OPTION_NONE = ''FMT_OPTION_NONE''"
| "printf_fmt_option_to_str FMT_OPTION_NOT_IMPLEMENTED = ''FMT_OPTION_NOT_IMPLEMENTED''"
| "printf_fmt_option_to_str FMT_OPTION_COULD_NOT_CONVERT = ''FMT_OPTION_COULD_NOT_CONVERT''"
| "printf_fmt_option_to_str FMT_OPTION_PAD = ''FMT_OPTION_PAD''"
| "printf_fmt_option_to_str FMT_OPTION_PRECISION = ''FMT_OPTION_PRECISION''"
| "printf_fmt_option_to_str FMT_OPTION_STRLEN = ''FMT_DEFAULT''"

fun printf_type_to_str :: "PRINTF_TYPE \<Rightarrow> string" where
  "printf_type_to_str PRINTF_TAG_CHAR = ''PRINTF_TAG_CHAR''"
| "printf_type_to_str PRINTF_TAG_STRING = ''PRINTF_TAG_STRING''"
| "printf_type_to_str PRINTF_TAG_INT = ''PRINTF_TAG_INT''"
| "printf_type_to_str PRINTF_TAG_UINT32_T = ''PRINTF_TAG_UINT32_T''"
| "printf_type_to_str PRINTF_TAG_FLOAT = ''PRINTF_TAG_FLOAT''"
| "printf_type_to_str PRINTF_TAG_HEX = ''PRINTF_TAG_HEX''"
| "printf_type_to_str PRINTF_TAG_BINARY = ''PRINTF_TAG_BINARY''"
| "printf_type_to_str PRINTF_TAG_INVALID = ''PRINTF_TAG_INVALID''"

partial_function (option) count_loop :: "mem \<Rightarrow> addr \<Rightarrow> u8 \<Rightarrow> u8 \<Rightarrow> u8 option" where
  "count_loop m p delimiter count =
     (if m p \<noteq> 0 then count_loop m (p + 1) delimiter (if m p = delimiter then count + 1 else count)
      else Some count)"

definition count_char :: "mem \<Rightarrow> addr \<Rightarrow> u8 \<Rightarrow> u8 exec" where
  "count_char m p delimiter = hang_unless (count_loop m p delimiter 0)"

section \<open>Parsing the format\<close>

text \<open>
  \<open>while (is_digit(*p)) { len_char[len - 3] = *p; p++; len++; }\<close> with \<open>i = len - 3\<close>: the array has eight
  bytes.
\<close>

function option_digits :: "mem \<Rightarrow> addr \<Rightarrow> nat \<Rightarrow> u8 list \<Rightarrow> (nat \<times> u8 list) exec" where
  "option_digits m p i len_char =
     (if is_digit (m p) then
        (if i < 8 then option_digits m (p + 1) (i + 1) (len_char[i := m p]) else Inl OutOfBounds)
      else ok (i, len_char))"
  by pat_completeness auto
termination
  by (relation "measure (\<lambda>(_, _, i, _). 8 - i)") auto

declare option_digits.simps [simp del]

definition get_single_format_properties :: "addr \<Rightarrow> mem \<Rightarrow> addr \<Rightarrow> PRINTF_FIELD_PROPERTIES exec" where
  "get_single_format_properties lc m fmt =
     (let fmt_type = m (fmt + 1);
          ty = char_to_printf_tag fmt_type;
          opt = char_to_fmt_option (m (fmt + 2))
      in if opt = FMT_OPTION_NONE
         then ok \<lparr>field_type = ty, option = opt, option_num = Some 0, len = Some 2, pos = 0\<rparr>
         else if \<not> is_digit (m (fmt + 3))
         then ok \<lparr>field_type = ty, option = FMT_OPTION_NOT_IMPLEMENTED, option_num = None, len = None, pos = 0\<rparr>
         else bindE (option_digits m (fmt + 3) 0 (replicate 8 0)) (\<lambda>(i, len_char).
              if i < 8 then
                bindE (string_to_uint (store m lc (len_char[i := 0])) lc) (\<lambda>len32.
                ok \<lparr>field_type = ty,
                    option = (if len32 = - 1 then FMT_OPTION_COULD_NOT_CONVERT else opt),
                    option_num = Some (ucast (len32 AND 0xFF)), len = Some (of_nat (i + 3)), pos = 0\<rparr>)
              else Inl OutOfBounds))"

text \<open>The array of field descriptions is filled in order: it is a list that grows.\<close>

partial_function (option) types_loop ::
    "addr \<Rightarrow> mem \<Rightarrow> addr \<Rightarrow> u8 \<Rightarrow> u16 \<Rightarrow> PRINTF_FIELD_PROPERTIES list \<Rightarrow> PRINTF_FIELD_PROPERTIES list exec option" where
  "types_loop lc m fmt percent_count off props =
     (if m (fmt + ucast off) = 0 then Some (ok props)
      else if m (fmt + ucast off) = chr CHR ''%'' then
        (if percent_count = of_nat (length props) then Some (Inl Abort)
         else (case get_single_format_properties lc m (fmt + ucast off) of
                 Inl e \<Rightarrow> Some (Inl e)
               | Inr p \<Rightarrow> types_loop lc m fmt percent_count (off + 1) (props @ [p\<lparr>pos := off\<rparr>])))
      else types_loop lc m fmt percent_count (off + 1) props)"

definition set_types_and_pos :: "addr \<Rightarrow> mem \<Rightarrow> addr \<Rightarrow> u8 \<Rightarrow> PRINTF_FIELD_PROPERTIES list exec" where
  "set_types_and_pos lc m fmt percent_count = bindE (hang_unless (types_loop lc m fmt percent_count 0 [])) id"

definition print_info :: "hw \<Rightarrow> addr \<Rightarrow> mem \<Rightarrow> PRINTF_FIELD_PROPERTIES \<Rightarrow> terminal \<Rightarrow> terminal exec" where
  "print_info hw buf m properties s =
     bindE (put_literal hw ''Type = '' s) (\<lambda>s.
     bindE (put_literal hw (printf_type_to_str (field_type properties)) s) (\<lambda>s.
     bindE (put_literal hw ''\<newline>'' s) (\<lambda>s.
     bindE (put_literal hw ''Option = '' s) (\<lambda>s.
     bindE (put_literal hw (printf_fmt_option_to_str (option properties)) s) (\<lambda>s.
     bindE (put_literal hw ''\<newline>'' s) (\<lambda>s.
     bindE (put_literal hw ''Option num = '' s) (\<lambda>s.
     bindE (use (option_num properties)) (\<lambda>n. bindE (print_uint_var hw buf m (ucast n) s) (\<lambda>s.
     bindE (put_literal hw ''len = '' s) (\<lambda>s.
     bindE (use (len properties)) (\<lambda>n. bindE (print_uint_var hw buf m (ucast n) s) (\<lambda>s.
     bindE (put_literal hw ''pos = '' s) (\<lambda>s. print_uint_var hw buf m (ucast (pos properties)) s)))))))))))))"

section \<open>Printing\<close>

definition terminal_write_offsets :: "hw \<Rightarrow> mem \<Rightarrow> addr \<Rightarrow> u16 \<Rightarrow> u16 \<Rightarrow> terminal \<Rightarrow> terminal exec" where
  "terminal_write_offsets hw m p start end s =
     (if end \<le> start then ok s
      else forE (\<lambda>i. terminal_putchar hw (m (p + of_nat i))) [unat start..<unat end] s)"

definition next_arg :: "u32 list \<Rightarrow> (u32 \<times> u32 list) exec" where
  "next_arg args = (case args of [] \<Rightarrow> Inl Undefined | a # args \<Rightarrow> ok (a, args))"

definition pad_of :: "PRINTF_FIELD_PROPERTIES \<Rightarrow> u8 exec" where
  "pad_of info = (if option info = FMT_OPTION_PAD then use (option_num info) else ok 0)"

type_synonym float_printer = "u32 \<Rightarrow> u32 \<Rightarrow> u8 option \<Rightarrow> terminal \<Rightarrow> terminal exec"

text \<open>The \<open>switch\<close> of the printing loop; \<open>strlen_option\<close> tells \<open>vkprintf\<close>, which knows \<open>%s;n\<close>, from \<open>kprintf_argc\<close>.\<close>

definition print_field ::
    "bool \<Rightarrow> hw \<Rightarrow> float_printer \<Rightarrow> addr \<Rightarrow> mem \<Rightarrow> PRINTF_FIELD_PROPERTIES \<Rightarrow> u32 list \<Rightarrow> terminal \<Rightarrow> (u32 list \<times> terminal) exec" where
  "print_field strlen_option hw pf buf m info args s =
     (let with_arg = (\<lambda>f. bindE (next_arg args) (\<lambda>(v, args). bindE (f v s) (\<lambda>s. ok (args, s))))
      in case field_type info of
        PRINTF_TAG_CHAR \<Rightarrow> with_arg (\<lambda>v. terminal_putchar hw (ucast v))
      | PRINTF_TAG_STRING \<Rightarrow> with_arg (\<lambda>v s.
          if strlen_option \<and> option info = FMT_OPTION_STRLEN
          then bindE (use (option_num info)) (\<lambda>n. terminal_write hw m v (ucast n) s)
          else terminal_writestring hw m v s)
      | PRINTF_TAG_INT \<Rightarrow> with_arg (\<lambda>v s. bindE (pad_of info) (\<lambda>n. print_int_f hw buf m (sint v) n s))
      | PRINTF_TAG_UINT32_T \<Rightarrow> with_arg (\<lambda>v s. bindE (pad_of info) (\<lambda>n. print_uint_f hw buf m v n s))
      | PRINTF_TAG_FLOAT \<Rightarrow>
          bindE (next_arg args) (\<lambda>(lo, args). bindE (next_arg args) (\<lambda>(hi, args).
          bindE (if option info = FMT_OPTION_PRECISION
                 then bindE (use (option_num info)) (\<lambda>n. pf lo hi (Some n) s)
                 else pf lo hi None s) (\<lambda>s. ok (args, s))))
      | PRINTF_TAG_HEX \<Rightarrow> with_arg (\<lambda>v s. bindE (pad_of info) (\<lambda>n. print_hex_f hw buf m v n s))
      | PRINTF_TAG_BINARY \<Rightarrow> with_arg (\<lambda>v s.
          bindE (pad_of info) (\<lambda>n. print_binary_var_no_newline hw buf m v (ucast n) s))
      | PRINTF_TAG_INVALID \<Rightarrow> ok (args, s))"

text \<open>\<open>start_and_ends[i]\<close>, its \<open>end\<close> already increased for the call of \<open>terminal_write_offsets\<close>.\<close>

definition text_start :: "PRINTF_FIELD_PROPERTIES list \<Rightarrow> nat \<Rightarrow> u16 exec" where
  "text_start infos i =
     (if i = 0 then ok 0
      else bindE (use (len (infos ! (i - 1)))) (\<lambda>l. ok (pos (infos ! (i - 1)) + ucast l)))"

definition text_end :: "PRINTF_FIELD_PROPERTIES list \<Rightarrow> u16 \<Rightarrow> nat \<Rightarrow> u16" where
  "text_end infos format_len i = (if i < length infos then pos (infos ! i) - 1 else format_len - 1) + 1"

definition print_between ::
    "hw \<Rightarrow> mem \<Rightarrow> addr \<Rightarrow> PRINTF_FIELD_PROPERTIES list \<Rightarrow> u16 \<Rightarrow> nat \<Rightarrow> terminal \<Rightarrow> terminal exec" where
  "print_between hw m fmt infos format_len i s =
     bindE (text_start infos i) (\<lambda>start. terminal_write_offsets hw m fmt start (text_end infos format_len i) s)"

definition print_fields ::
    "bool \<Rightarrow> hw \<Rightarrow> float_printer \<Rightarrow> addr \<Rightarrow> mem \<Rightarrow> addr \<Rightarrow> PRINTF_FIELD_PROPERTIES list \<Rightarrow> u16 \<Rightarrow> u32 list \<Rightarrow> terminal \<Rightarrow> terminal exec" where
  "print_fields strlen_option hw pf buf m fmt infos format_len args s =
     bindE (forE (\<lambda>i (args, s).
              bindE (print_field strlen_option hw pf buf m (infos ! i) args s) (\<lambda>(args, s).
              bindE (print_between hw m fmt infos format_len (i + 1) s) (\<lambda>s. ok (args, s))))
            [0..<length infos] (args, s)) (\<lambda>(args, s). ok s)"

text \<open>From counting the fields to the last character of the format.\<close>

definition print_format ::
    "bool \<Rightarrow> hw \<Rightarrow> float_printer \<Rightarrow> addr \<Rightarrow> addr \<Rightarrow> mem \<Rightarrow> addr \<Rightarrow> u8 \<Rightarrow> u32 list \<Rightarrow> terminal \<Rightarrow> terminal exec" where
  "print_format strlen_option hw pf lc buf m fmt n args s =
     (if n = 0 then terminal_writestring hw m fmt s
      else bindE (set_types_and_pos lc m fmt n) (\<lambda>infos.
           if length infos \<noteq> unat n then Inl Undefined
           else bindE (strlen m fmt) (\<lambda>l.
                let format_len = ucast l :: u16
                in bindE (print_between hw m fmt infos format_len 0 s)
                     (print_fields strlen_option hw pf buf m fmt infos format_len args))))"

section \<open>The lock around it\<close>

text \<open>
  Taking the lock on a core that no other core disturbs: the fast path for the owner, then
  \<open>reentrant_trylock\<close>; when that refuses, the code spins until the word changes. The interleaved runs
  are the step relation of the lock itself.
\<close>

definition reentrant_lock_alone :: "core \<Rightarrow> u32 \<Rightarrow> u32 exec" where
  "reentrant_lock_alone c w =
     (case (if owned_by (cpu_id c) w then fast_desired w else None) of
        Some d \<Rightarrow> ok d
      | None \<Rightarrow> (case trylock_desired (cpu_id c) w of Some d \<Rightarrow> ok d | None \<Rightarrow> Inl Hang))"

definition reentrant_unlock_alone :: "core \<Rightarrow> u32 \<Rightarrow> u32" where
  "reentrant_unlock_alone c w = (case unlock_desired (cpu_id c) w of Some d \<Rightarrow> d | None \<Rightarrow> w)"

definition irq_save :: "console \<Rightarrow> u32 \<times> console" where
  "irq_save s = (eflags s, s\<lparr>eflags := eflags s AND NOT 0x200\<rparr>)"

definition irq_restore :: "u32 \<Rightarrow> console \<Rightarrow> console" where
  "irq_restore flags s = s\<lparr>eflags := flags\<rparr>"

definition vkprintf ::
    "core \<Rightarrow> hw \<Rightarrow> float_printer \<Rightarrow> addr \<Rightarrow> addr \<Rightarrow> mem \<Rightarrow> addr \<Rightarrow> u32 list \<Rightarrow> console \<Rightarrow> console exec" where
  "vkprintf c hw pf lc buf m fmt args s =
     (let (flags, s) = irq_save s
      in bindE (reentrant_lock_alone c (kprintf_lock s)) (\<lambda>w. let s = s\<lparr>kprintf_lock := w\<rparr> in
         bindE (count_char m fmt (chr CHR ''%'')) (\<lambda>n.
         bindE (print_format True hw pf lc buf m fmt n args (tty s)) (\<lambda>t.
         let s = s\<lparr>tty := t\<rparr>; s = s\<lparr>kprintf_lock := reentrant_unlock_alone c (kprintf_lock s)\<rparr>
         in ok (irq_restore flags s)))))"

definition kprintf2 ::
    "core \<Rightarrow> hw \<Rightarrow> float_printer \<Rightarrow> addr \<Rightarrow> addr \<Rightarrow> mem \<Rightarrow> addr \<Rightarrow> u32 list \<Rightarrow> console \<Rightarrow> console exec" where
  "kprintf2 = vkprintf"

text \<open>What the macro \<open>kprintf\<close> expands to: \<open>argc\<close> counts the format too.\<close>

definition kprintf2_argc_check ::
    "core \<Rightarrow> hw \<Rightarrow> float_printer \<Rightarrow> addr \<Rightarrow> addr \<Rightarrow> mem \<Rightarrow> u32 \<Rightarrow> addr \<Rightarrow> u32 list \<Rightarrow> console \<Rightarrow> console exec" where
  "kprintf2_argc_check c hw pf lc buf m argc fmt args s =
     bindE (count_char m fmt (chr CHR ''%'')) (\<lambda>n.
     bindE (assertE (ucast n = argc - 1)) (\<lambda>_. vkprintf c hw pf lc buf m fmt args s))"

text \<open>The older variant: the argument count is checked under the lock, and \<open>%s;n\<close> is not known.\<close>

definition kprintf_argc ::
    "core \<Rightarrow> hw \<Rightarrow> float_printer \<Rightarrow> addr \<Rightarrow> addr \<Rightarrow> mem \<Rightarrow> u32 \<Rightarrow> addr \<Rightarrow> u32 list \<Rightarrow> console \<Rightarrow> console exec" where
  "kprintf_argc c hw pf lc buf m argc fmt args s =
     (let (flags, s) = irq_save s
      in bindE (reentrant_lock_alone c (kprintf_lock s)) (\<lambda>w. let s = s\<lparr>kprintf_lock := w\<rparr>; n = ucast (argc - 1) :: u8 in
         bindE (count_char m fmt (chr CHR ''%'')) (\<lambda>len_check.
         if n \<noteq> len_check then Inl Abort
         else bindE (print_format False hw pf lc buf m fmt n args (tty s)) (\<lambda>t.
         let s = s\<lparr>tty := t\<rparr>; s = s\<lparr>kprintf_lock := reentrant_unlock_alone c (kprintf_lock s)\<rparr>
         in ok (irq_restore flags s)))))"

section \<open>Formats as trees\<close>

text \<open>
  The reference syntax: a field is a type letter with, possibly, an option letter and decimal digits; a
  format is a text followed by fields with the text after each.
\<close>

datatype fmt_field = Field u8 "(u8 \<times> u8 list) option"

type_synonym fmt_fields = "(fmt_field \<times> u8 list) list"

fun field_chars :: "fmt_field \<Rightarrow> u8 list" where
  "field_chars (Field c None) = [0x25, c]"
| "field_chars (Field c (Some (opt, ds))) = 0x25 # c # opt # ds"

fun fields_chars :: "fmt_fields \<Rightarrow> u8 list" where
  "fields_chars [] = []"
| "fields_chars ((f, t) # fs) = field_chars f @ t @ fields_chars fs"

definition clean :: "u8 list \<Rightarrow> bool" where
  "clean t \<longleftrightarrow> 0 \<notin> set t \<and> 0x25 \<notin> set t"

text \<open>The text after a field must not continue it.\<close>

fun wf_field :: "fmt_field \<times> u8 list \<Rightarrow> bool" where
  "wf_field (Field c None, t) \<longleftrightarrow> clean (c # t) \<and> (t \<noteq> [] \<longrightarrow> char_to_fmt_option (hd t) = FMT_OPTION_NONE)"
| "wf_field (Field c (Some (opt, ds)), t) \<longleftrightarrow> clean (c # t) \<and> char_to_fmt_option opt \<noteq> FMT_OPTION_NONE \<and>
     ds \<noteq> [] \<and> length ds \<le> 7 \<and> list_all is_digit ds \<and> (t \<noteq> [] \<longrightarrow> \<not> is_digit (hd t))"

definition wf_format :: "u8 list \<Rightarrow> fmt_fields \<Rightarrow> bool" where
  "wf_format t0 fs \<longleftrightarrow> clean t0 \<and> list_all wf_field fs \<and> length fs < 256 \<and>
     length (t0 @ fields_chars fs) < 65536"

fun info_of :: "fmt_field \<Rightarrow> PRINTF_FIELD_PROPERTIES" where
  "info_of (Field c None) =
     \<lparr>field_type = char_to_printf_tag c, option = FMT_OPTION_NONE, option_num = Some 0, len = Some 2, pos = 0\<rparr>"
| "info_of (Field c (Some (opt, ds))) =
     \<lparr>field_type = char_to_printf_tag c, option = char_to_fmt_option opt,
      option_num = Some (of_nat (dec_value ds)), len = Some (of_nat (length ds + 3)), pos = 0\<rparr>"

fun infos_at :: "nat \<Rightarrow> fmt_fields \<Rightarrow> PRINTF_FIELD_PROPERTIES list" where
  "infos_at k [] = []"
| "infos_at k ((f, t) # fs) =
     (info_of f)\<lparr>pos := of_nat k\<rparr> # infos_at (k + length (field_chars f) + length t) fs"

subsection \<open>Reading one field\<close>

lemma fmt_option_chars [simp]:
  "char_to_fmt_option 0 = FMT_OPTION_NONE" "char_to_fmt_option 0x25 = FMT_OPTION_NONE"
  "\<not> is_digit 0" "\<not> is_digit 0x25" "is_digit c \<Longrightarrow> c \<noteq> 0" "is_digit c \<Longrightarrow> c \<noteq> 0x25"
  "char_to_fmt_option c \<noteq> FMT_OPTION_NONE \<Longrightarrow> c \<noteq> 0 \<and> c \<noteq> 0x25"
  by (auto simp: char_to_fmt_option_def is_digit_def)

lemma option_digits_read:
  "list_all is_digit ds \<Longrightarrow> (\<And>j. j < length ds \<Longrightarrow> m (p + of_nat j) = ds ! j) \<Longrightarrow>
     \<not> is_digit (m (p + of_nat (length ds))) \<Longrightarrow> i + length ds \<le> 8 \<Longrightarrow> length L = 8 \<Longrightarrow>
     option_digits m p i L = ok (i + length ds, take i L @ ds @ drop (i + length ds) L)"
proof (induction ds arbitrary: p i L)
  case Nil
  then show ?case by (subst option_digits.simps) simp
next
  case (Cons d ds)
  have d: "m p = d" "is_digit d" using Cons.prems(1) Cons.prems(2) [of 0] by simp_all
  have "option_digits m (p + 1) (i + 1) (L[i := d]) =
      ok (i + 1 + length ds, take (i + 1) (L[i := d]) @ ds @ drop (i + 1 + length ds) (L[i := d]))"
  proof (rule Cons.IH)
    show "m (p + 1 + of_nat j) = ds ! j" if "j < length ds" for j
      using that Cons.prems(2) [of "Suc j"] by (simp add: add.assoc)
    show "\<not> is_digit (m (p + 1 + of_nat (length ds)))"
      using Cons.prems(3) by (simp add: add.assoc)
  qed (use Cons.prems in simp_all)
  moreover have "take (i + 1) (L[i := d]) = take i L @ [d]"
    using Cons.prems(4,5) by (simp add: take_Suc_conv_app_nth)
  ultimately show ?case using d Cons.prems(4) by (subst option_digits.simps) simp
qed

lemma dec_value_bound: "list_all is_digit ds \<Longrightarrow> dec_value ds < 10 ^ length ds"
proof (induction ds rule: rev_induct)
  case (snoc d ds)
  have "unat d - 48 \<le> 9" using snoc.prems by (auto simp: is_digit_def word_le_nat_alt)
  then have "10 * dec_value ds + (unat d - 48) < 10 * 10 ^ length ds" using snoc by simp
  then show ?case by simp
qed (simp add: dec_value_def)

lemma len_char_value:
  assumes "list_all is_digit ds" and "length ds \<le> 7" and "m (lc - 1) = 0"
  shows "string_to_uint (store m lc (ds @ replicate (8 - length ds) 0)) lc = ok (of_nat (dec_value ds))"
proof (rule string_to_uint_value)
  let ?M = "store m lc (ds @ replicate (8 - length ds) 0)"
  obtain k where k: "8 - length ds = Suc k" using assms(2) by (cases "8 - length ds") simp_all
  have "fetch ?M lc (length ds) = ds"
    using assms(2) by (intro nth_equalityI) (simp_all add: nth_fetch store_apply nth_append)
  moreover have "?M (lc + of_nat (length ds)) = 0"
    using assms(2) k by (simp add: store_apply nth_append)
  moreover have "0 \<notin> set ds" using assms(1) by (auto simp: list_all_iff)
  ultimately show "cstr ?M lc ds" using assms(2) by (simp add: cstr_def)
  show "?M (lc - 1) = 0"
    using store_outside [of "ds @ replicate (8 - length ds) 0" lc "lc - 1" m] assms(2,3) offset_below [of lc] by simp
qed (use assms in \<open>auto simp: list_all_iff\<close>)


lemma ucast_of_nat:
  "ucast (of_nat n :: u32) = (of_nat n :: u16)"
  "ucast (take_bit 8 (of_nat n) :: u32) = (of_nat n :: u8)"
proof -
  show "ucast (of_nat n :: u32) = (of_nat n :: u16)"
    by (simp add: unsigned_of_nat word_of_nat_eq_iff take_bit_take_bit)
  have "take_bit 8 (of_nat n) = (of_nat (take_bit 8 n) :: u32)"
    by (simp only: of_nat_take_bit)
  then show "ucast (take_bit 8 (of_nat n) :: u32) = (of_nat n :: u8)"
    by (simp only: unsigned_of_nat word_of_nat_eq_iff take_bit_take_bit) simp
qed

lemma cstr_prefix: "cstr m p (a @ b) \<Longrightarrow> cstr m (p + of_nat (length a)) b"
  using cstr_drop [of m p "a @ b" "length a"] by simp

lemma length_field_chars: "wf_field (f, t) \<Longrightarrow> length (field_chars f) \<le> 10"
  by (cases "(f, t)" rule: wf_field.cases) simp_all

text \<open>The character after a field, where the text and the next field decide it.\<close>

lemma char_after:
  assumes "cstr m p (t @ fields_chars fs)"
  shows "m p = (if t \<noteq> [] then hd t else if fs \<noteq> [] then 0x25 else 0)"
proof (cases t)
  case Nil
  show ?thesis
  proof (cases fs)
    case Nil
    then show ?thesis using assms \<open>t = []\<close> cstr_Nil by simp
  next
    case (Cons ft fs')
    obtain f t' where "ft = (f, t')" by (cases ft)
    moreover have "\<exists>cs. field_chars f = 0x25 # cs" by (cases f rule: field_chars.cases) auto
    ultimately show ?thesis using assms Cons \<open>t = []\<close> cstr_Cons by auto
  qed
next
  case (Cons c t')
  then show ?thesis using assms cstr_Cons by simp
qed

lemma get_single_format_field:
  assumes "cstr m p (field_chars f @ t @ fields_chars fs)" and "wf_field (f, t)" and "m (lc - 1) = 0"
  shows "get_single_format_properties lc m p = ok (info_of f)"
proof (cases f rule: field_chars.cases)
  case (1 c)
  have "cstr m (p + 2) (t @ fields_chars fs)"
    using cstr_prefix [OF assms(1)] 1 by simp
  note after = char_after [OF this]
  have "m (p + 1) = c" using cstr_nth [OF assms(1), of 1] 1 by simp
  then show ?thesis
    using after assms(2) 1 by (auto simp: get_single_format_properties_def Let_def)
next
  case (2 c opt ds)
  have wf: "char_to_fmt_option opt \<noteq> FMT_OPTION_NONE" "ds \<noteq> []" "length ds \<le> 7" "list_all is_digit ds"
      "t \<noteq> [] \<longrightarrow> \<not> is_digit (hd t)"
    using assms(2) 2 by simp_all
  have nth: "m (p + of_nat i) = (field_chars f @ t @ fields_chars fs) ! i" if "i < length (field_chars f)" for i
    using cstr_nth [OF assms(1)] that by simp
  have one: "m (p + 1) = c" "m (p + 2) = opt"
    using nth [of 1] nth [of 2] 2 by simp_all
  have d: "m (p + 3 + of_nat j) = ds ! j" if "j < length ds" for j
    using nth [of "j + 3"] that 2 by (simp add: nth_append ac_simps)
  have "p + of_nat (length (field_chars f)) = p + 3 + of_nat (length ds)" using 2 by simp
  then have "cstr m (p + 3 + of_nat (length ds)) (t @ fields_chars fs)"
    using cstr_prefix [OF assms(1)] by metis
  note after = char_after [OF this]
  have stop: "\<not> is_digit (m (p + 3 + of_nat (length ds)))" by (subst after) (use wf(5) in auto)
  have "option_digits m (p + 3) 0 (replicate 8 0) = ok (length ds, ds @ replicate (8 - length ds) 0)"
    using option_digits_read [OF wf(4), of m "p + 3" 0 "replicate 8 0"] d stop wf(3) by simp
  moreover have "(ds @ replicate (8 - length ds) 0)[length ds := 0] = ds @ replicate (8 - length ds) 0"
    using wf(3) by (cases "8 - length ds") (simp_all add: list_update_append)
  moreover have "is_digit (m (p + 3))" using d [of 0] wf(2,4) by (cases ds) simp_all
  moreover have "dec_value ds < 10 ^ 7"
    by (rule less_le_trans [OF dec_value_bound [OF wf(4)] power_increasing]) (use wf(3) in simp_all)
  then have v: "unat (of_nat (dec_value ds) :: u32) = dec_value ds" by (intro unat_of_nat_u32) simp
  then have "(of_nat (dec_value ds) :: u32) \<noteq> - 1"
    using \<open>dec_value ds < 10 ^ 7\<close>
    by (auto simp: word_unat_eq_iff unsigned_minus_1_eq_mask mask_eq_exp_minus_1)
  moreover have "ucast (of_nat (dec_value ds) AND 0xFF :: u32) = (of_nat (dec_value ds) :: u8)"
  proof -
    have "(0xFF :: u32) = mask 8" by (simp add: mask_eq_exp_minus_1)
    then have "(of_nat (dec_value ds) AND 0xFF :: u32) = take_bit 8 (of_nat (dec_value ds))"
      by (simp only: take_bit_eq_mask)
    then show ?thesis
      by (simp only: ucast_of_nat(2))
  qed
  ultimately show ?thesis
    using one wf(1,3) len_char_value [where m = m, OF wf(4,3) assms(3)] 2
    by (simp add: get_single_format_properties_def Let_def)
qed


subsection \<open>Reading the whole format\<close>

lemma count_loop_cstr: "cstr m p s \<Longrightarrow> count_loop m p d k = Some (k + of_nat (count_list s d))"
proof (induction s arbitrary: p k)
  case Nil
  then show ?case using cstr_Nil by (subst count_loop.simps) simp
next
  case (Cons c s)
  note h = cstr_Cons [OF Cons.prems]
  then show ?case using Cons.IH [of "p + 1"] by (subst count_loop.simps) simp
qed

lemma count_clean: "clean t \<Longrightarrow> count_list t 0x25 = 0"
  by (simp add: clean_def count_list_0_iff)

lemma count_fields: "list_all wf_field fs \<Longrightarrow> count_list (fields_chars fs) 0x25 = length fs"
proof (induction fs)
  case (Cons ft fs)
  obtain f t where ft: "ft = (f, t)" by (cases ft)
  have "count_list (field_chars f) 0x25 = 1 \<and> clean t"
  proof (cases "(f, t)" rule: wf_field.cases)
    case (1 c t)
    then show ?thesis using Cons.prems ft by (simp add: clean_def)
  next
    case (2 c opt ds t)
    then have "0x25 \<notin> set ds" "opt \<noteq> 0x25" using Cons.prems ft by (auto simp: list_all_iff)
    then show ?thesis using 2 Cons.prems ft by (simp add: clean_def count_list_0_iff)
  qed
  then show ?case using Cons ft by (simp add: count_clean)
qed simp

lemma ucast_offset: "k < 65536 \<Longrightarrow> ucast (of_nat k :: u16) = (of_nat k :: u32)"
  by (rule unsigned_word_eqI [where 'a = nat])
     (simp add: unsigned_ucast_eq unsigned_take_bit_eq unat_of_nat take_bit_nat_eq_self)

lemma types_loop_skip:
  "clean xs \<Longrightarrow> cstr m fmt (pre @ xs @ rest) \<Longrightarrow> length pre + length xs < 65536 \<Longrightarrow>
     types_loop lc m fmt n (of_nat (length pre)) ps = types_loop lc m fmt n (of_nat (length pre + length xs)) ps"
proof (induction xs arbitrary: pre)
  case (Cons x xs)
  have x: "m (fmt + of_nat (length pre)) = x"
    using cstr_nth [OF Cons.prems(2), of "length pre"] by simp
  have "types_loop lc m fmt n (of_nat (length pre)) ps = types_loop lc m fmt n (of_nat (length (pre @ [x]))) ps"
    using x Cons.prems(1,3) by (subst types_loop.simps) (simp add: ucast_offset clean_def add.commute)
  also have "\<dots> = types_loop lc m fmt n (of_nat (length (pre @ [x]) + length xs)) ps"
    by (rule Cons.IH) (use Cons.prems in \<open>simp_all add: clean_def\<close>)
  finally show ?case by simp
qed simp

lemma field_tail_clean: "wf_field (f, t) \<Longrightarrow> \<exists>cs. field_chars f = 0x25 # cs \<and> clean (cs @ t)"
  by (cases "(f, t)" rule: wf_field.cases) (auto simp: clean_def list_all_iff)

lemma unat_of_nat_u8: "k < 256 \<Longrightarrow> unat (of_nat k :: u8) = k"
  by (simp add: unat_of_nat)

lemma types_loop_fields:
  assumes "m (lc - 1) = 0"
  shows "list_all wf_field fs \<Longrightarrow> cstr m fmt (pre @ fields_chars fs) \<Longrightarrow>
    length (pre @ fields_chars fs) < 65536 \<Longrightarrow> length ps + length fs < 256 \<Longrightarrow>
    types_loop lc m fmt (of_nat (length ps + length fs)) (of_nat (length pre)) ps =
      Some (ok (ps @ infos_at (length pre) fs))"
proof (induction fs arbitrary: pre ps)
  case Nil
  then have "m (fmt + of_nat (length pre)) = 0" using cstr_end [of m fmt pre] by simp
  then show ?case using Nil.prems(3) by (subst types_loop.simps) (simp add: ucast_offset)
next
  case (Cons ft fs)
  obtain f t where ft: "ft = (f, t)" by (cases ft)
  have wf: "wf_field (f, t)" "list_all wf_field fs" using Cons.prems(1) ft by simp_all
  obtain cs where cs: "field_chars f = 0x25 # cs" "clean (cs @ t)" using field_tail_clean [OF wf(1)] by blast
  let ?o = "length pre" and ?info = "(info_of f)\<lparr>pos := of_nat (length pre)\<rparr>"
  have s: "cstr m fmt (pre @ field_chars f @ t @ fields_chars fs)" using Cons.prems(2) ft by simp
  have at: "m (fmt + of_nat ?o) = 0x25" using cstr_nth [OF s, of ?o] cs(1) by (simp add: nth_append)
  have get: "get_single_format_properties lc m (fmt + of_nat ?o) = ok (info_of f)"
    by (rule get_single_format_field [OF cstr_prefix [OF s] wf(1) assms])
  have "(of_nat (length ps + length (ft # fs)) :: u8) \<noteq> of_nat (length ps)"
    using Cons.prems(4) unat_of_nat_u8 [of "length ps"] unat_of_nat_u8 [of "length ps + length (ft # fs)"]
    by (metis add_cancel_left_right add_lessD1 length_0_conv list.distinct(1))
  then have "types_loop lc m fmt (of_nat (length ps + length (ft # fs))) (of_nat ?o) ps =
      types_loop lc m fmt (of_nat (length ps + length (ft # fs))) (of_nat ?o + 1) (ps @ [?info])"
    using at get Cons.prems(3) by (subst types_loop.simps) (simp add: ucast_offset)
  also have "\<dots> = types_loop lc m fmt (of_nat (length (ps @ [?info]) + length fs))
      (of_nat (length (pre @ [0x25]))) (ps @ [?info])"
    by (simp add: add.commute)
  also have "\<dots> = types_loop lc m fmt (of_nat (length (ps @ [?info]) + length fs))
      (of_nat (length (pre @ [0x25]) + length (cs @ t))) (ps @ [?info])"
    by (rule types_loop_skip [OF cs(2)]) (use s cs(1) Cons.prems(3) ft in simp_all)
  also have "\<dots> = types_loop lc m fmt (of_nat (length (ps @ [?info]) + length fs))
      (of_nat (length (pre @ field_chars f @ t))) (ps @ [?info])"
    using cs(1) by simp
  also have "\<dots> = Some (ok ((ps @ [?info]) @ infos_at (length (pre @ field_chars f @ t)) fs))"
    by (rule Cons.IH [OF wf(2)]) (use s Cons.prems(3,4) ft in simp_all)
  finally show ?case using ft by (simp add: add.assoc)
qed

lemma set_types_and_pos_fields:
  assumes "m (lc - 1) = 0" and "wf_format t0 fs" and "cstr m fmt (t0 @ fields_chars fs)"
  shows "set_types_and_pos lc m fmt (of_nat (length fs)) = ok (infos_at (length t0) fs)"
proof -
  have wf: "clean t0" "list_all wf_field fs" "length fs < 256" "length (t0 @ fields_chars fs) < 65536"
    using assms(2) by (simp_all add: wf_format_def)
  have "types_loop lc m fmt (of_nat (length fs)) (of_nat (length ([] :: u8 list))) [] =
      types_loop lc m fmt (of_nat (length fs)) (of_nat (length ([] :: u8 list) + length t0)) []"
    by (rule types_loop_skip [OF wf(1)]) (use assms(3) wf(4) in simp_all)
  also have "\<dots> = Some (ok (infos_at (length t0) fs))"
    using types_loop_fields [OF assms(1) wf(2) assms(3) wf(4), of "[]"] wf(3) by simp
  finally show ?thesis by (simp add: set_types_and_pos_def)
qed

section \<open>Printing the fields\<close>

lemma terminal_write_offsets_emit:
  assumes "a \<le> b" and "b < 65536"
  shows "terminal_write_offsets hw m p (of_nat a) (of_nat b) = emit hw (map (\<lambda>i. m (p + of_nat i)) [a..<b])"
proof -
  have "unat (of_nat a :: u16) = a" "unat (of_nat b :: u16) = b" using assms by (simp_all add: unat_of_nat)
  then show ?thesis
    using assms(1) by (auto simp: terminal_write_offsets_def emit_def forE_map word_le_nat_alt fun_eq_iff)
qed





lemma length_infos_at [simp]: "length (infos_at k fs) = length fs"
  by (induction k fs rule: infos_at.induct) simp_all

lemma infos_at_nth:
  "k < length fs \<Longrightarrow> infos_at n fs ! k = (info_of (fst (fs ! k)))\<lparr>pos := of_nat (n + length (fields_chars (take k fs)))\<rparr>"
proof (induction fs arbitrary: n k)
  case (Cons ft fs)
  then show ?case by (cases ft; cases k) (simp_all add: ac_simps)
qed simp











lemma count_char_fields:
  assumes "wf_format t0 fs" and "cstr m fmt (t0 @ fields_chars fs)"
  shows "count_char m fmt (chr CHR ''%'') = ok (of_nat (length fs))"
  using count_loop_cstr [OF assms(2), of "0x25" 0] assms(1)
  by (simp add: count_char_def wf_format_def count_clean count_fields)

lemma ucast_count: "n < 256 \<Longrightarrow> ucast (of_nat n :: u8) = (of_nat n :: u32)"
proof -
  assume "n < 256"
  then have "unat (ucast (of_nat n :: u8) :: u32) = unat (of_nat n :: u32)"
    by (simp only: unat_ucast_u8 unat_of_nat_u8 unat_of_nat_u32) (simp add: unat_of_nat)
  then show ?thesis by (rule unsigned_word_eqI)
qed

section \<open>The text of a field\<close>

fun pad_field :: "fmt_field \<Rightarrow> u8" where
  "pad_field (Field c (Some (opt, ds))) = (if opt = chr CHR '':'' then of_nat (dec_value ds) else 0)"
| "pad_field (Field c None) = 0"

fun strlen_field :: "fmt_field \<Rightarrow> u8 option" where
  "strlen_field (Field c (Some (opt, ds))) = (if opt = chr CHR '';'' then Some (of_nat (dec_value ds)) else None)"
| "strlen_field (Field c None) = None"

fun type_field :: "fmt_field \<Rightarrow> PRINTF_TYPE" where
  "type_field (Field c _) = char_to_printf_tag c"



lemma info_of_field:
  "field_type (info_of f) = type_field f"
  "pad_of (info_of f) = ok (pad_field f)"
  "option (info_of f) = FMT_OPTION_STRLEN \<longleftrightarrow> strlen_field f \<noteq> None"
  "strlen_field f = Some n \<Longrightarrow> option_num (info_of f) = Some n"
  by (cases f rule: info_of.cases; auto simp: pad_of_def use_def char_to_fmt_option_def split: if_splits)+







section \<open>The lock is given back\<close>

lemma lock_alone:
  assumes "valid_lock a" and "abstract_acquire c a = Some a'"
  shows "reentrant_lock_alone c (encode a) = ok (encode a')"
    and "reentrant_unlock_alone c (encode a') = encode a"
proof -
  have won: "trylock_desired (cpu_id c) (encode a) = Some (encode a')"
    using trylock_abstract [OF assms(1)] assms(2) by simp
  show "reentrant_lock_alone c (encode a) = ok (encode a')"
  proof (cases "if owned_by (cpu_id c) (encode a) then fast_desired (encode a) else None")
    case None
    then show ?thesis using won by (simp add: reentrant_lock_alone_def)
  next
    case (Some d)
    then have "owned_by (cpu_id c) (encode a)" "fast_desired (encode a) = Some d" by (simp_all split: if_splits)
    then have "d = encode a'" using fast_abstract [OF assms(1)] assms(2) by force
    then show ?thesis using Some by (simp add: reentrant_lock_alone_def)
  qed
  have "abstract_release c a' = Some a"
    using assms by (cases a) (auto split: if_splits)
  then show "reentrant_unlock_alone c (encode a') = encode a"
    using unlock_abstract [OF valid_acquire [OF assms]] by (simp add: reentrant_unlock_alone_def)
qed


section \<open>Correctness\<close>


text \<open>The format \<open>x=%u:4\n\<close> with 42 shows \<open>x=  42\n\<close>.\<close>

definition sample_fields :: fmt_fields where
  "sample_fields = [(Field 0x75 (Some (0x3A, [0x34])), [10])]"

definition sample_memory :: mem where
  "sample_memory = store (\<lambda>_. 0) 0x100 (([0x78, 0x3D] @ fields_chars sample_fields) @ [0])"

definition sample_console :: console where
  "sample_console = \<lparr>tty = power_on\<lparr>vga_buffer := VGA_MMIO_BASE\<rparr>, kprintf_lock = 0, eflags = 0x202\<rparr>"


lemma get_single_format_no_digits:
  assumes "cstr m p (0x25 # c # opt # rest)" and "char_to_fmt_option opt \<noteq> FMT_OPTION_NONE"
    and "rest \<noteq> [] \<longrightarrow> \<not> is_digit (hd rest)"
  shows "get_single_format_properties lc m p =
    ok \<lparr>field_type = char_to_printf_tag c, option = FMT_OPTION_NOT_IMPLEMENTED, option_num = None, len = None, pos = 0\<rparr>"
proof -
  have "cstr m (p + 3) rest" using cstr_prefix [of m p "[0x25, c, opt]" rest] assms(1) by simp
  then have "m (p + 3) = (if rest \<noteq> [] then hd rest else 0)"
    using cstr_Nil cstr_Cons by (cases rest) auto
  then have "\<not> is_digit (m (p + 3))" using assms(3) by auto
  moreover have "m (p + 1) = c" "m (p + 2) = opt"
    using cstr_nth [OF assms(1), of 1] cstr_nth [OF assms(1), of 2] by simp_all
  ultimately show ?thesis
    using assms(2) by (simp add: get_single_format_properties_def Let_def)
qed

text \<open>What the parser makes of a format whose only field, \<open>%u\<close>, has an option letter without digits.\<close>

abbreviation no_digits_info :: "nat \<Rightarrow> PRINTF_FIELD_PROPERTIES" where
  "no_digits_info k \<equiv> \<lparr>field_type = PRINTF_TAG_UINT32_T, option = FMT_OPTION_NOT_IMPLEMENTED, option_num = None,
      len = None, pos = of_nat k\<rparr>"

lemma set_types_no_digits:
  assumes "cstr m fmt (t0 @ 0x25 # 0x75 # opt # rest)" and "clean t0" and "clean rest"
    and "char_to_fmt_option opt \<noteq> FMT_OPTION_NONE" and "rest \<noteq> [] \<longrightarrow> \<not> is_digit (hd rest)"
    and "length t0 + length rest < 65000"
  shows "set_types_and_pos lc m fmt 1 = ok [no_digits_info (length t0)]"
proof -
  have opt: "opt \<noteq> 0" "opt \<noteq> 0x25" using assms(4) by auto
  have total: "length (t0 @ 0x25 # 0x75 # opt # rest) < 65536" using assms(6) by simp
  have "types_loop lc m fmt 1 (of_nat (length ([] :: u8 list))) [] =
      types_loop lc m fmt 1 (of_nat (length ([] :: u8 list) + length t0)) []"
    by (rule types_loop_skip [OF assms(2)]) (use assms(1,6) in simp_all)
  also have "\<dots> = types_loop lc m fmt 1 (of_nat (length (t0 @ [0x25]))) [no_digits_info (length t0)]"
  proof -
    have "m (fmt + of_nat (length t0)) = 0x25" using cstr_nth [OF assms(1), of "length t0"] by simp
    moreover have "get_single_format_properties lc m (fmt + of_nat (length t0)) =
        ok \<lparr>field_type = PRINTF_TAG_UINT32_T, option = FMT_OPTION_NOT_IMPLEMENTED, option_num = None, len = None, pos = 0\<rparr>"
      using get_single_format_no_digits [OF cstr_prefix [OF assms(1)] assms(4,5)] by (simp add: char_to_printf_tag_def)
    moreover have next_off: "(of_nat (length (t0 @ [0x25 :: u8])) :: u16) = of_nat (length t0) + 1"
      by (simp add: add.commute)
    ultimately show ?thesis
      unfolding next_off using assms(6) by (subst types_loop.simps) (simp add: ucast_offset)
  qed
  also have "\<dots> = types_loop lc m fmt 1 (of_nat (length (t0 @ [0x25]) + length (0x75 # opt # rest))) [no_digits_info (length t0)]"
    by (rule types_loop_skip [where rest = "[]"]) (use assms(1,3,6) opt in \<open>simp_all add: clean_def\<close>)
  also have "\<dots> = Some (ok [no_digits_info (length t0)])"
  proof -
    have "m (fmt + of_nat (length (t0 @ 0x25 # 0x75 # opt # rest))) = 0" by (rule cstr_end [OF assms(1)])
    then show ?thesis
      using ucast_offset [OF total] by (subst types_loop.simps) simp
  qed
  finally show ?thesis by (simp add: set_types_and_pos_def)
qed

text \<open>
  An option letter after a field needs digits: a format such as \<open>%u:\<close> followed by a space or the end of the
  line, which the kernel's own messages use, leaves the length of the field unset. \<open>kprintf\<close> prints the
  number and then uses the unset length as the place where the text goes on.
\<close>

theorem kprintf_option_without_digits:
  assumes "cstr m fmt (t0 @ 0x25 # 0x75 # opt # rest)" and "clean t0" and "clean rest"
    and "char_to_fmt_option opt \<noteq> FMT_OPTION_NONE" and "rest \<noteq> [] \<longrightarrow> \<not> is_digit (hd rest)"
    and "length t0 + length rest < 65000" and "drains hw" and "term_ok (tty s)"
    and "valid_lock a" and "kprintf_lock s = encode a" and "abstract_acquire c a = Some a'"
  shows "kprintf2_argc_check c hw pf lc buf m 2 fmt [v] s = Inl Undefined"
proof -
  let ?info = "no_digits_info (length t0)"
  have opt: "opt \<noteq> 0" "opt \<noteq> 0x25" using assms(4) by auto
  have count: "count_char m fmt (chr CHR ''%'') = ok 1"
    using count_loop_cstr [OF assms(1), of "0x25" 0] assms(2,3) opt(2)
    by (simp add: count_char_def count_clean)
  note infos = set_types_no_digits [OF assms(1-6), of lc]
  have first: "print_between hw m fmt [?info] l 0 = emit hw t0" for l
  proof -
    have "map (\<lambda>i. m (fmt + of_nat i)) [0..<length t0] = t0"
      using cstr_nth [OF assms(1)] by (intro nth_equalityI) (simp_all add: nth_append)
    then show ?thesis
      using terminal_write_offsets_emit [of 0 "length t0" hw m fmt] assms(6)
      by (simp add: print_between_def text_start_def text_end_def fun_eq_iff)
  qed
  obtain t1 where t1: "emit hw t0 (tty s) = ok t1" "term_ok t1"
    using emit_wrote [OF assms(7,8)] by (auto simp: wrote_def)
  obtain t2 where t2: "emit hw (dec (unat v)) t1 = ok t2"
    using emit_wrote [OF assms(7) t1(2)] by (auto simp: wrote_def)
  have "print_field True hw pf buf m ?info [v] t1 = ok ([], t2)"
    using t2 by (simp add: print_field_def next_arg_def pad_of_def print_uint_f_emit)
  then have "print_format True hw pf lc buf m fmt 1 [v] (tty s) = Inl Undefined"
    using infos first t1(1) strlen_cstr [OF assms(1)]
    by (simp add: print_format_def print_fields_def print_between_def text_start_def use_def Let_def)
  then show ?thesis
    using count lock_alone [OF assms(9,11)] assms(10)
    by (simp add: kprintf2_argc_check_def vkprintf_def irq_save_def Let_def)
qed

theorem kprintf_option_without_digits_witness:
  "kprintf2_argc_check 0 slow_uart (\<lambda>_ _ _. ok) 0x9000 0x8000
     (store (\<lambda>_. 0) 0x100 (([0x69] @ 0x25 # 0x75 # 0x3A # [10]) @ [0])) 2 0x100 [7] sample_console = Inl Undefined"
proof -
  have c: "cstr (store (\<lambda>_. 0) 0x100 (([0x69] @ 0x25 # 0x75 # 0x3A # [10]) @ [0])) 0x100 ([0x69] @ 0x25 # 0x75 # 0x3A # [10])"
    by (rule cstr_store) simp_all
  have o: "term_ok (tty sample_console)" by (simp add: sample_console_def term_ok_def power_on_def vga_consts)
  have l: "kprintf_lock sample_console = encode Free" by (simp add: sample_console_def)
  show ?thesis
    by (rule kprintf_option_without_digits [OF c _ _ _ _ _ slow_uart_drains o _ l, of 0 "Held 0 1"])
       (simp_all add: clean_def char_to_fmt_option_def is_digit_def)
qed

lemma option_digits_overflow:
  "list_all is_digit ds \<Longrightarrow> (\<And>j. j < length ds \<Longrightarrow> m (p + of_nat j) = ds ! j) \<Longrightarrow> i \<le> 8 \<Longrightarrow>
     9 \<le> i + length ds \<Longrightarrow> option_digits m p i L = Inl OutOfBounds"
proof (induction ds arbitrary: p i L)
  case (Cons d ds)
  have d: "m p = d" "is_digit d" using Cons.prems(1) Cons.prems(2) [of 0] by simp_all
  show ?case
  proof (cases "i < 8")
    case True
    have "option_digits m (p + 1) (i + 1) (L[i := d]) = Inl OutOfBounds"
    proof (rule Cons.IH)
      show "m (p + 1 + of_nat j) = ds ! j" if "j < length ds" for j
        using that Cons.prems(2) [of "Suc j"] by (simp add: add.assoc)
    qed (use Cons.prems True in simp_all)
    then show ?thesis using d True by (subst option_digits.simps) simp
  next
    case False
    then show ?thesis using d by (subst option_digits.simps) simp
  qed
qed simp

text \<open>
  An option with eight digits or more overruns the parser's buffer of eight bytes: the ninth digit, or the
  NUL after the eighth, is stored behind it.
\<close>

theorem option_digits_overrun:
  assumes "cstr m p (0x25 # c # opt # ds @ rest)" and "char_to_fmt_option opt \<noteq> FMT_OPTION_NONE"
    and "list_all is_digit ds" and "8 \<le> length ds" and "rest \<noteq> [] \<longrightarrow> \<not> is_digit (hd rest)"
  shows "get_single_format_properties lc m p = Inl OutOfBounds"
proof -
  have tail: "cstr m (p + 3) (ds @ rest)" using cstr_prefix [of m p "[0x25, c, opt]" "ds @ rest"] assms(1) by simp
  have ds: "m (p + 3 + of_nat j) = ds ! j" if "j < length ds" for j
    using cstr_nth [OF tail, of j] that by (simp add: nth_append)
  have "cstr m (p + 3 + of_nat (length ds)) rest" by (rule cstr_prefix [OF tail])
  then have "m (p + 3 + of_nat (length ds)) = (if rest \<noteq> [] then hd rest else 0)"
    using cstr_Nil cstr_Cons by (cases rest) auto
  then have stop: "\<not> is_digit (m (p + 3 + of_nat (length ds)))" using assms(5) by auto
  have "is_digit (m (p + 3))" using ds [of 0] assms(3,4) by (cases ds) simp_all
  moreover have "m (p + 1) = c" "m (p + 2) = opt"
    using cstr_nth [OF assms(1), of 1] cstr_nth [OF assms(1), of 2] by simp_all
  moreover have "case option_digits m (p + 3) 0 (replicate 8 0) of Inl e \<Rightarrow> e = OutOfBounds | Inr (i, l) \<Rightarrow> \<not> i < 8"
  proof (cases "length ds = 8")
    case True
    then show ?thesis using option_digits_read [OF assms(3) ds stop, of 0 "replicate 8 0"] by simp
  next
    case False
    then show ?thesis using option_digits_overflow [OF assms(3) ds, of 0 "replicate 8 0"] assms(4) by simp
  qed
  ultimately show ?thesis
    using assms(2) by (auto simp: get_single_format_properties_def Let_def bindE_def split: sum.splits)
qed

theorem option_digits_overrun_witness:
  "get_single_format_properties 0x9000 (store (\<lambda>_. 0) 0x100 ((0x25 # 0x68 # 0x3A # replicate 8 0x31 @ []) @ [0])) 0x100 =
     Inl OutOfBounds"
  by (rule option_digits_overrun [OF cstr_store]) (simp_all add: char_to_fmt_option_def is_digit_def list_all_iff)

lemma print_field_old:
  "option info \<noteq> FMT_OPTION_STRLEN \<Longrightarrow> print_field False hw pf buf m info = print_field True hw pf buf m info"
  by (intro ext, cases "field_type info") (simp_all add: print_field_def)

lemma print_fields_old:
  assumes "\<And>i. i < length infos \<Longrightarrow> option (infos ! i) \<noteq> FMT_OPTION_STRLEN"
  shows "print_fields False hw pf buf m fmt infos l args s = print_fields True hw pf buf m fmt infos l args s"
  unfolding print_fields_def
  by (rule arg_cong [where f = "\<lambda>r. bindE r (\<lambda>(args, s). ok s)"], rule forE_cong)
     (use assms in \<open>auto simp: print_field_old\<close>)

text \<open>
  The older \<open>kprintf_argc\<close> and the \<open>kprintf\<close> in use agree on every well-formed format without the string-length
  option, whatever the arguments, the lock and the terminal are.
\<close>

theorem kprintf_argc_agrees:
  assumes "wf_format t0 fs" and "cstr m fmt (t0 @ fields_chars fs)" and "m (lc - 1) = 0"
    and "list_all (\<lambda>(f, t). strlen_field f = None) fs"
  shows "kprintf_argc c hw pf lc buf m (of_nat (length fs) + 1) fmt args s =
    kprintf2_argc_check c hw pf lc buf m (of_nat (length fs) + 1) fmt args s"
proof -
  note count = count_char_fields [OF assms(1,2)]
  have n: "length fs < 256" using assms(1) by (simp add: wf_format_def)
  note argc = ucast_count [OF n]
  have low: "ucast (of_nat (length fs) :: u32) = (of_nat (length fs) :: u8)"
    by (simp add: unsigned_of_nat word_of_nat_eq_iff take_bit_take_bit)
  have "option (infos_at (length t0) fs ! i) \<noteq> FMT_OPTION_STRLEN" if "i < length fs" for i
    using assms(4) that info_of_field(3) [of "fst (fs ! i)"] by (auto simp: infos_at_nth list_all_length)
  then have "print_format False hw pf lc buf m fmt (of_nat (length fs)) args t =
      print_format True hw pf lc buf m fmt (of_nat (length fs)) args t" for t
    using set_types_and_pos_fields [OF assms(3,1,2)] print_fields_old [of "infos_at (length t0) fs"]
    by (auto simp: print_format_def Let_def bindE_def split: sum.split)
  then show ?thesis
    using count argc low
    by (simp add: kprintf_argc_def kprintf2_argc_check_def vkprintf_def irq_save_def Let_def)
qed

theorem kprintf_argc_agrees_witness:
  "kprintf_argc 0 slow_uart (\<lambda>_ _ _. ok) 0x9000 0x8000 sample_memory 2 0x100 [42] sample_console =
   kprintf2_argc_check 0 slow_uart (\<lambda>_ _ _. ok) 0x9000 0x8000 sample_memory 2 0x100 [42] sample_console"
proof -
  have wf: "wf_format [0x78, 0x3D] sample_fields"
    by (simp add: wf_format_def sample_fields_def clean_def is_digit_def char_to_fmt_option_def)
  have c: "cstr sample_memory 0x100 ([0x78, 0x3D] @ fields_chars sample_fields)"
    unfolding sample_memory_def by (rule cstr_store) (simp_all add: sample_fields_def)
  have b: "sample_memory (0x9000 - 1) = 0" by (simp add: sample_memory_def sample_fields_def)
  show ?thesis
    using kprintf_argc_agrees [OF wf c b, of 0 slow_uart "\<lambda>_ _ _. ok" "0x8000" "[42]" sample_console]
    by (simp add: sample_fields_def)
qed

end
