(* ===== verification/Multicore_Gdt.thy ===== *)
theory Multicore_Gdt
  imports Gdt Port_IO
begin

text \<open>
  The descriptor table of the multicore kernel (\<open>cpu/gdt/multicore_gdt.cpp\<close>, \<open>cpu/gdt/multicore_gdt.hpp\<close>,
  \<open>cpu/multicore/core_count.h\<close>): the table the boot loader left is copied into \<open>new_gdt\<close>, and two segments per
  core are added, one for the contents of \<open>fs\<close> (a byte) and one for those of \<open>gs\<close> (a word).

  The state is the new table, the limit in \<open>gdtr\<close>, the selectors in \<open>fs\<close> and \<open>gs\<close>, and the log. Before
  \<open>init_new_gdt\<close> the table register refers to the old table, which is a parameter.
\<close>

section \<open>Data\<close>

definition MAX_CORE_COUNT :: nat where [const_defs]: "MAX_CORE_COUNT = 12"
definition NEW_GDT_ENTRY_COUNT :: nat where [const_defs]: "NEW_GDT_ENTRY_COUNT = 4 + MAX_CORE_COUNT * 2"

record gdt_state =
  new_gdt :: "segment_descriptor list"
  gdtr_limit :: u16
  fs_selector :: u16
  gs_selector :: u16
  gdt_log :: iolog

datatype fs_or_gs = FS | GS

fun fs_or_gs_value :: "fs_or_gs \<Rightarrow> u16" where
  "fs_or_gs_value FS = 0"
| "fs_or_gs_value GS = 1"

text \<open>\<open>all_fs_and_gs\<close> at the address \<open>base\<close>: a byte and, aligned to four, a word per core.\<close>

definition fs_address :: "u32 \<Rightarrow> nat \<Rightarrow> u32" where
  "fs_address base i = base + 8 * of_nat i"

definition gs_address :: "u32 \<Rightarrow> nat \<Rightarrow> u32" where
  "gs_address base i = base + 8 * of_nat i + 4"

definition sizeof_FS_CONTENT :: u32 where [const_defs]: "sizeof_FS_CONTENT = 1"
definition sizeof_GS_CONTENT :: u32 where [const_defs]: "sizeof_GS_CONTENT = 4"

section \<open>Operations\<close>

definition entry_count :: "u16 \<Rightarrow> u16" where
  "entry_count limit = of_nat ((unat limit + 1) div 8)"

definition init_new_gdt :: "u32 \<Rightarrow> segment_descriptor list \<Rightarrow> u16 \<Rightarrow> gdt_state \<Rightarrow> gdt_state exec" where
  "init_new_gdt new_gdt_address old_gdt32 old_limit s =
     (let entries_to_copy = unat (entry_count old_limit)
      in if entries_to_copy > NEW_GDT_ENTRY_COUNT then Inl Abort
         else let limit = of_int (int entries_to_copy * 8 - 1) :: u16
              in ok (s\<lparr>new_gdt := take entries_to_copy old_gdt32 @ drop entries_to_copy (new_gdt s),
                       gdtr_limit := limit,
                       gdt_log := Kprint ''new_gdtr = (%h, %u)\<newline>'' [KU new_gdt_address, KU (ucast limit)] # gdt_log s\<rparr>))"

definition add_gdt_entry :: "segment_descriptor \<Rightarrow> gdt_state \<Rightarrow> gdt_state exec" where
  "add_gdt_entry entry s =
     (let current_entries = unat (entry_count (gdtr_limit s));
          limit = gdtr_limit s + 8
      in if current_entries \<ge> NEW_GDT_ENTRY_COUNT then Inl Abort
         else if \<not> current_entries < length (new_gdt s) then Inl OutOfBounds
         else ok (s\<lparr>new_gdt := (new_gdt s)[current_entries := entry], gdtr_limit := limit,
                   gdt_log := Kprint ''Added GDT entry at index %u, new limit = %u\<newline>''
                     [KU (of_nat current_entries), KU (ucast limit)] # gdt_log s\<rparr>))"

definition data_segment :: "u32 \<Rightarrow> u32 \<Rightarrow> segment_descriptor" where
  "data_segment base_address sz =
     set_segment_descriptor_limit (set_segment_descriptor_base
       \<lparr>limit_low = 0, base_low = 0, base_middle = 0, seg_type = 0b0011, s_bit = True, dpl = 0, p_bit = True,
        limit_high = 0, avl_bit = False, l_bit = False, db_bit = True, g_bit = False, base_high = 0\<rparr> base_address)
       (sz - 1)"

definition add_fs_or_gs :: "u32 \<Rightarrow> u32 \<Rightarrow> gdt_state \<Rightarrow> gdt_state exec" where
  "add_fs_or_gs base_address sz s = add_gdt_entry (data_segment base_address sz) s"

definition add_core_entries :: "u32 \<Rightarrow> nat \<Rightarrow> gdt_state \<Rightarrow> gdt_state exec" where
  "add_core_entries base i s =
     bindE (add_fs_or_gs (fs_address base i) sizeof_FS_CONTENT s) (\<lambda>s.
       add_fs_or_gs (gs_address base i) sizeof_GS_CONTENT s)"

definition add_multicore_gdt_entry :: "u32 \<Rightarrow> gdt_state \<Rightarrow> gdt_state exec" where
  "add_multicore_gdt_entry base s = forE (add_core_entries base) [0..<MAX_CORE_COUNT] s"

definition init_multicore_gdt :: "u32 \<Rightarrow> u32 \<Rightarrow> u32 \<Rightarrow> segment_descriptor list \<Rightarrow> u16 \<Rightarrow> gdt_state \<Rightarrow> gdt_state exec" where
  "init_multicore_gdt base new_gdt_address new_gdt_end old_gdt32 old_limit s =
     (let s = s\<lparr>gdt_log := Kprint ''new gdt end = %h\<newline>'' [KU new_gdt_end] # Kprint ''new gdt = %h\<newline>'' [KU new_gdt_address] # gdt_log s\<rparr>
      in bindE (init_new_gdt new_gdt_address old_gdt32 old_limit s) (add_multicore_gdt_entry base))"

text \<open>The index of thirteen bits above the privilege level and the table bit, which are 0.\<close>

definition selector_of_index :: "u16 \<Rightarrow> u16" where
  "selector_of_index i = push_bit 3 (take_bit 13 i)"

definition set_fs_or_segment_selector :: "u8 \<Rightarrow> fs_or_gs \<Rightarrow> gdt_state \<Rightarrow> gdt_state" where
  "set_fs_or_segment_selector core_id segment_selector s =
     (let seg = selector_of_index (4 + ucast core_id * 2 + fs_or_gs_value segment_selector)
      in case segment_selector of FS \<Rightarrow> s\<lparr>gs_selector := seg\<rparr> | GS \<Rightarrow> s\<lparr>fs_selector := seg\<rparr>)"

section \<open>The table after the set-up\<close>

text \<open>The descriptors of the cores in the order in which they are added.\<close>

definition core_segments :: "u32 \<Rightarrow> nat \<Rightarrow> segment_descriptor list" where
  "core_segments base i = [data_segment (fs_address base i) 1, data_segment (gs_address base i) 4]"

lemma length_core_segments [simp]: "length (core_segments base i) = 2"
  by (simp add: core_segments_def)

definition holds_entries :: "segment_descriptor list \<Rightarrow> gdt_state \<Rightarrow> bool" where
  "holds_entries ds s \<longleftrightarrow> length (new_gdt s) = NEW_GDT_ENTRY_COUNT \<and> length ds \<le> NEW_GDT_ENTRY_COUNT \<and>
     take (length ds) (new_gdt s) = ds \<and> unat (gdtr_limit s) + 1 = 8 * length ds"

lemma entry_count_holds: "holds_entries ds s \<Longrightarrow> unat (entry_count (gdtr_limit s)) = length ds"
  by (simp add: holds_entries_def entry_count_def const_defs unat_of_nat)

lemma add_gdt_entry_holds:
  assumes "holds_entries ds s"
  shows "if length ds < NEW_GDT_ENTRY_COUNT
    then \<exists>s'. add_gdt_entry d s = ok s' \<and> holds_entries (ds @ [d]) s'
    else add_gdt_entry d s = Inl Abort"
proof (cases "length ds < NEW_GDT_ENTRY_COUNT")
  case True
  note h = assms [unfolded holds_entries_def]
  have "unat (gdtr_limit s + 8) + 1 = 8 * length (ds @ [d])"
    using h True by (simp add: unat_word_ariths const_defs)
  moreover have "take (Suc (length ds)) ((new_gdt s)[length ds := d]) = ds @ [d]"
    using h True by (simp add: take_Suc_conv_app_nth)
  ultimately show ?thesis
    using True h entry_count_holds [OF assms] by (simp add: add_gdt_entry_def Let_def holds_entries_def)
next
  case False
  then show ?thesis using entry_count_holds [OF assms] by (simp add: add_gdt_entry_def Let_def)
qed

lemma forE_add_cores:
  assumes "holds_entries ds s"
  shows "if length ds + 2 * length is \<le> NEW_GDT_ENTRY_COUNT
    then \<exists>s'. forE (add_core_entries base) is s = ok s' \<and> holds_entries (ds @ concat (map (core_segments base) is)) s'
    else forE (add_core_entries base) is s = Inl Abort"
  using assms
proof (induction "is" arbitrary: ds s)
  case Nil
  then show ?case by (simp add: holds_entries_def)
next
  case (Cons i js)
  let ?d = "data_segment (fs_address base i) 1" and ?e = "data_segment (gs_address base i) 4"
  have one: "add_core_entries base i s = bindE (add_gdt_entry ?d s) (add_gdt_entry ?e)"
    by (simp add: add_core_entries_def add_fs_or_gs_def const_defs)
  have le: "length ds \<le> NEW_GDT_ENTRY_COUNT" using Cons.prems by (simp add: holds_entries_def)
  consider "length ds = NEW_GDT_ENTRY_COUNT" | "length ds + 1 = NEW_GDT_ENTRY_COUNT" | "length ds + 1 < NEW_GDT_ENTRY_COUNT"
    using le by linarith
  then show ?case
  proof cases
    case 1
    then show ?thesis using add_gdt_entry_holds [OF Cons.prems, of ?d] one by simp
  next
    case 2
    then obtain s1 where "add_gdt_entry ?d s = ok s1" "holds_entries (ds @ [?d]) s1"
      using add_gdt_entry_holds [OF Cons.prems, of ?d] by auto
    then show ?thesis using add_gdt_entry_holds [of "ds @ [?d]" s1 ?e] one 2 by simp
  next
    case 3
    then obtain s1 where s1: "add_gdt_entry ?d s = ok s1" "holds_entries (ds @ [?d]) s1"
      using add_gdt_entry_holds [OF Cons.prems, of ?d] by auto
    then obtain s2 where "add_gdt_entry ?e s1 = ok s2" "holds_entries (ds @ core_segments base i) s2"
      using add_gdt_entry_holds [OF s1(2), of ?e] 3 by (auto simp: core_segments_def)
    then show ?thesis using Cons.IH [of "ds @ core_segments base i" s2] one s1(1) by (auto split: if_splits)
  qed
qed

text \<open>A segment whose limit admits an access of \<open>n\<close> bytes at an offset (granularity of bytes).\<close>

definition admits :: "segment_descriptor \<Rightarrow> nat \<Rightarrow> nat \<Rightarrow> bool" where
  "admits d off n \<longleftrightarrow> \<not> g_bit d \<and> off + n - 1 \<le> unat (get_segment_descriptor_limit d)"

lemma data_segment_base: "get_segment_descriptor_base (data_segment b n) = b"
proof (rule bit_word_eqI)
  fix i
  assume "i < LENGTH(32)"
  then consider "i < 16" | "16 \<le> i" "i < 24" | "24 \<le> i" "i < 32" by fastforce
  then show "bit (get_segment_descriptor_base (data_segment b n)) i = bit b i"
    by cases (auto simp: data_segment_def get_segment_descriptor_base_def set_segment_descriptor_base_def
       set_segment_descriptor_limit_def bit_simps)
qed

lemma small_limit:
  "get_segment_descriptor_limit (data_segment b 1) = 0" "get_segment_descriptor_limit (data_segment b 4) = 3"
  by (simp_all add: data_segment_def get_segment_descriptor_limit_def set_segment_descriptor_limit_def)

lemma set_up_table:
  assumes "length old = unat (entry_count old_limit)" and "unat old_limit + 1 = 8 * length old"
    and "length (new_gdt s) = NEW_GDT_ENTRY_COUNT"
  shows "if length old \<le> 4
    then \<exists>s'. init_multicore_gdt base a e old old_limit s = ok s' \<and>
      holds_entries (old @ concat (map (core_segments base) [0..<MAX_CORE_COUNT])) s'
    else init_multicore_gdt base a e old old_limit s = Inl Abort"
proof (cases "length old \<le> NEW_GDT_ENTRY_COUNT")
  case False
  then show ?thesis using assms(1) by (simp add: init_multicore_gdt_def init_new_gdt_def Let_def const_defs)
next
  case True
  let ?n = "length old"
  have n: "1 \<le> ?n" using assms(2) by simp
  let ?s = "s\<lparr>gdt_log := Kprint ''new gdt end = %h\<newline>'' [KU e] # Kprint ''new gdt = %h\<newline>'' [KU a] # gdt_log s\<rparr>"
  have l: "of_int (int ?n * 8 - 1) = old_limit"
  proof -
    have "int ?n * 8 - 1 = int (unat old_limit)" using assms(2) by linarith
    then show ?thesis by simp
  qed
  obtain s1 where s1: "init_new_gdt a old old_limit ?s = ok s1" "holds_entries old s1"
    using True assms l by (auto simp: init_new_gdt_def Let_def holds_entries_def)
  show ?thesis
    using forE_add_cores [OF s1(2), of "[0..<MAX_CORE_COUNT]" base] s1(1)
    by (simp add: init_multicore_gdt_def add_multicore_gdt_entry_def Let_def NEW_GDT_ENTRY_COUNT_def)
qed

lemma length_segments [simp]: "length (concat (map (core_segments base) [0..<n])) = 2 * n"
  by (induction n) simp_all

lemma nth_core_segments:
  "i < n \<Longrightarrow> concat (map (core_segments base) [0..<n]) ! (2 * i) = data_segment (fs_address base i) 1 \<and>
     concat (map (core_segments base) [0..<n]) ! (2 * i + 1) = data_segment (gs_address base i) 4"
proof (induction n)
  case (Suc n)
  have "core_segments base n ! 0 = data_segment (fs_address base n) 1" "core_segments base n ! 1 = data_segment (gs_address base n) 4"
    by (simp_all add: core_segments_def)
  then show ?case using Suc by (cases "i = n") (simp_all add: nth_append del: concat_map_singleton)
qed simp

lemma selector_of_nat: "n < 2 ^ 13 \<Longrightarrow> selector_of_index (of_nat n) = of_nat (8 * n)"
proof -
  assume n: "n < 2 ^ 13"
  then have "take_bit 13 (of_nat n :: u16) = of_nat n"
    by (intro unsigned_word_eqI [where 'a = nat]) (simp add: unsigned_take_bit_eq unat_of_nat take_bit_nat_eq_self)
  then show ?thesis by (simp add: selector_of_index_def push_bit_eq_mult)
qed

lemma core_selectors:
  assumes "core < MAX_CORE_COUNT"
  shows "gs_selector (set_fs_or_segment_selector (of_nat core) GS (set_fs_or_segment_selector (of_nat core) FS s)) =
      of_nat (8 * (4 + 2 * core))"
    "fs_selector (set_fs_or_segment_selector (of_nat core) GS (set_fs_or_segment_selector (of_nat core) FS s)) =
      of_nat (8 * (5 + 2 * core))"
proof -
  have c: "ucast (of_nat core :: u8) = (of_nat core :: u16)"
    using assms by (intro unsigned_word_eqI [where 'a = nat])
      (simp add: unsigned_ucast_eq unat_of_nat take_bit_nat_eq_self const_defs)
  have "4 + of_nat core * 2 = (of_nat (4 + 2 * core) :: u16)" "4 + of_nat core * 2 + 1 = (of_nat (5 + 2 * core) :: u16)"
    by simp_all
  then show "gs_selector (set_fs_or_segment_selector (of_nat core) GS (set_fs_or_segment_selector (of_nat core) FS s)) =
      of_nat (8 * (4 + 2 * core))"
    "fs_selector (set_fs_or_segment_selector (of_nat core) GS (set_fs_or_segment_selector (of_nat core) FS s)) =
      of_nat (8 * (5 + 2 * core))"
    using assms selector_of_nat [of "4 + 2 * core"] selector_of_nat [of "5 + 2 * core"]
    by (simp_all add: set_fs_or_segment_selector_def Let_def c const_defs del: of_nat_add of_nat_mult)
qed

text \<open>
  (C26) Setting up the table from one with four entries, as the boot loader leaves it, gives every core \<open>c\<close> its two segments
  at the indices \<open>4 + 2c\<close> and \<open>5 + 2c\<close>, which is where the selectors that are loaded point, and keeps the
  four entries. The segment meant for \<open>fs\<close> starts at the core's byte and is one byte long, so that the 32-bit
  accesses to \<open>fs:0\<close> exceed it; that for \<open>gs\<close> admits them. \<open>set_fs_or_segment_selector\<close> loads the two the wrong
  way round, which puts the longer one into \<open>fs\<close>. From a longer table the set-up aborts for lack of room.
\<close>

theorem init_multicore_gdt_segments:
  assumes "length old = unat (entry_count old_limit)" and "unat old_limit + 1 = 8 * length old"
    and "length (new_gdt s) = NEW_GDT_ENTRY_COUNT" and "4 \<le> length old"
  shows "if length old = 4
    then \<exists>s'. init_multicore_gdt base a e old old_limit s = ok s' \<and> take 4 (new_gdt s') = old \<and>
      (\<forall>core < MAX_CORE_COUNT. let t = set_fs_or_segment_selector (of_nat core) GS (set_fs_or_segment_selector (of_nat core) FS s');
           fs = new_gdt s' ! (4 + 2 * core); gs = new_gdt s' ! (5 + 2 * core)
         in get_segment_descriptor_base fs = fs_address base core \<and> \<not> admits fs 0 4 \<and>
            get_segment_descriptor_base gs = gs_address base core \<and> admits gs 0 4 \<and>
            gs_selector t = of_nat (8 * (4 + 2 * core)) \<and> fs_selector t = of_nat (8 * (5 + 2 * core)))
    else init_multicore_gdt base a e old old_limit s = Inl Abort"
proof (cases "length old = 4")
  case False
  then show ?thesis using set_up_table [OF assms(1-3), of base a e] assms(4) by simp
next
  case True
  then obtain s' where s': "init_multicore_gdt base a e old old_limit s = ok s'"
    "holds_entries (old @ concat (map (core_segments base) [0..<MAX_CORE_COUNT])) s'"
    using set_up_table [OF assms(1-3), of base a e] by auto
  let ?cs = "concat (map (core_segments base) [0..<MAX_CORE_COUNT])"
  have "length (old @ ?cs) = length (new_gdt s')" using s'(2) True by (simp add: holds_entries_def const_defs)
  then have t: "new_gdt s' = old @ ?cs" using s'(2) by (metis holds_entries_def take_all_iff order_refl)
  have seg: "new_gdt s' ! (4 + 2 * core) = data_segment (fs_address base core) 1"
    "new_gdt s' ! (5 + 2 * core) = data_segment (gs_address base core) 4" if "core < MAX_CORE_COUNT" for core
    using nth_core_segments [OF that, of base] True by (simp_all add: t nth_append)
  have g: "\<not> g_bit (data_segment b n)" for b n
    by (simp add: data_segment_def set_segment_descriptor_base_def set_segment_descriptor_limit_def)
  have "take 4 (new_gdt s') = old" using True t by simp
  then show ?thesis
    using True s'(1) by (auto simp: Let_def seg data_segment_base admits_def small_limit g core_selectors)
qed

theorem init_multicore_gdt_segments_witness:
  "\<exists>s'. init_multicore_gdt 0x8000 0x7000 0x70E0 (replicate 4 (data_segment 0 0)) 31
       \<lparr>new_gdt = replicate 28 (data_segment 0 0), gdtr_limit = 31, fs_selector = 0, gs_selector = 0, gdt_log = []\<rparr> = ok s' \<and>
     \<not> admits (new_gdt s' ! 6) 0 4 \<and> get_segment_descriptor_base (new_gdt s' ! 7) = 0x800C"
proof -
  let ?s = "\<lparr>new_gdt = replicate 28 (data_segment 0 0), gdtr_limit = 31, fs_selector = 0, gs_selector = 0, gdt_log = []\<rparr>"
  let ?old = "replicate 4 (data_segment 0 0)"
  have "length ?old = unat (entry_count 31)" "unat (31 :: u16) + 1 = 8 * length ?old"
    "length (new_gdt ?s) = NEW_GDT_ENTRY_COUNT" "4 \<le> length ?old"
    by (simp_all add: entry_count_def const_defs)
  from init_multicore_gdt_segments [OF this, of "0x8000" "0x7000" "0x70E0"] obtain s' where s':
    "init_multicore_gdt 0x8000 0x7000 0x70E0 ?old 31 ?s = ok s'"
    "\<forall>core < MAX_CORE_COUNT. let t = set_fs_or_segment_selector (of_nat core) GS (set_fs_or_segment_selector (of_nat core) FS s');
           fs = new_gdt s' ! (4 + 2 * core); gs = new_gdt s' ! (5 + 2 * core)
         in get_segment_descriptor_base fs = fs_address 0x8000 core \<and> \<not> admits fs 0 4 \<and>
            get_segment_descriptor_base gs = gs_address 0x8000 core \<and> admits gs 0 4 \<and>
            gs_selector t = of_nat (8 * (4 + 2 * core)) \<and> fs_selector t = of_nat (8 * (5 + 2 * core))"
    by auto
  have "\<not> admits (new_gdt s' ! 6) 0 4 \<and> get_segment_descriptor_base (new_gdt s' ! 7) = gs_address 0x8000 1"
    using s'(2) [rule_format, of 1] by (simp add: Let_def const_defs)
  then show ?thesis using s'(1) by (simp add: gs_address_def)
qed

end
