(* ===== verification/Lapic.thy ===== *)
theory Lapic
  imports Mmio Multicore_Gdt
begin

text \<open>
  The local APIC (\<open>cpu/apic/apic_internals.hpp\<close>, \<open>cpu/apic/apic.hpp\<close>, \<open>cpu/apic/apic.cpp\<close>, \<open>start_timer\<close> of
  \<open>cpu/apic/apic_timers.cpp\<close>): its registers in memory, the machine-specific register that holds its base address,
  the initialisation, interprocessor interrupts and the waking of a core.

  The bit-field structures are records with the 32-bit value the compiler lays them out as. The model-specific
  register is a pair of words that the operations take and return. Volatile variables that other cores or
  interrupt handlers change are read like device registers: the environment decides what each read yields.
\<close>

section \<open>Registers\<close>

definition lapic_address :: addr where [const_defs]: "lapic_address = 0xFEE00000"

datatype lapic_registers_offset = lapic_id | lapic_version | task_priority | arbitration_priority | process_priority
  | end_of_interrupt | remote_read | logical_destination | destination_format | spurious_interrupt_vector
  | in_service nat | trigger_mode nat | interrupt_request nat | error_status | lvt_cmci | command_low | command_high
  | lvt_timer | lvt_thermal_sensor | lvt_performance_monitoring_counters | lvt_lint0 | lvt_lint1 | lvt_error
  | initial_count | current_count | divide_configuration_register

fun offset_value :: "lapic_registers_offset \<Rightarrow> u32" where
  "offset_value lapic_id = 0x20" | "offset_value lapic_version = 0x30" | "offset_value task_priority = 0x80"
| "offset_value arbitration_priority = 0x90" | "offset_value process_priority = 0xA0"
| "offset_value end_of_interrupt = 0xB0" | "offset_value remote_read = 0xC0"
| "offset_value logical_destination = 0xD0" | "offset_value destination_format = 0xE0"
| "offset_value spurious_interrupt_vector = 0xF0" | "offset_value (in_service i) = 0x100 + 0x10 * of_nat i"
| "offset_value (trigger_mode i) = 0x180 + 0x10 * of_nat i"
| "offset_value (interrupt_request i) = 0x200 + 0x10 * of_nat i" | "offset_value error_status = 0x280"
| "offset_value lvt_cmci = 0x2F0" | "offset_value command_low = 0x300" | "offset_value command_high = 0x310"
| "offset_value lvt_timer = 0x320" | "offset_value lvt_thermal_sensor = 0x330"
| "offset_value lvt_performance_monitoring_counters = 0x340" | "offset_value lvt_lint0 = 0x350"
| "offset_value lvt_lint1 = 0x360" | "offset_value lvt_error = 0x370" | "offset_value initial_count = 0x380"
| "offset_value current_count = 0x390" | "offset_value divide_configuration_register = 0x3E0"

definition lapic_register :: "lapic_registers_offset \<Rightarrow> addr" where
  "lapic_register r = lapic_address + offset_value r"

section \<open>The structures\<close>

record apic_msr_eax =
  msr_reserved0 :: u8
  is_bootstrap_processor :: bool
  msr_reserved1 :: bool
  x2apic :: bool
  apic_enable :: bool
  base_low_page_idx :: "20 word"

definition msr_eax_of :: "u32 \<Rightarrow> apic_msr_eax" where
  "msr_eax_of raw = \<lparr>msr_reserved0 = ucast raw, is_bootstrap_processor = bit raw 8, msr_reserved1 = bit raw 9,
     x2apic = bit raw 10, apic_enable = bit raw 11, base_low_page_idx = ucast (drop_bit 12 raw)\<rparr>"

definition msr_eax_raw :: "apic_msr_eax \<Rightarrow> u32" where
  "msr_eax_raw e = ucast (msr_reserved0 e) OR push_bit 8 (of_bool (is_bootstrap_processor e)) OR
     push_bit 9 (of_bool (msr_reserved1 e)) OR push_bit 10 (of_bool (x2apic e)) OR
     push_bit 11 (of_bool (apic_enable e)) OR push_bit 12 (ucast (base_low_page_idx e))"

record interrupt_command_low_register =
  vector_number :: u8
  delivery_mode :: "3 word"
  destination_mode :: bool
  delivery_status_pending_ro :: bool
  level :: bool
  icr_trigger_mode :: bool
  remote_read_status :: "2 word"
  destination_type :: "2 word"

definition default_command :: "u8 \<Rightarrow> interrupt_command_low_register" where
  "default_command v = \<lparr>vector_number = v, delivery_mode = 0, destination_mode = False, delivery_status_pending_ro = False,
     level = True, icr_trigger_mode = False, remote_read_status = 0, destination_type = 0\<rparr>"

definition command_low_raw :: "interrupt_command_low_register \<Rightarrow> u32" where
  "command_low_raw c = ucast (vector_number c) OR push_bit 8 (ucast (delivery_mode c)) OR
     push_bit 11 (of_bool (destination_mode c)) OR push_bit 12 (of_bool (delivery_status_pending_ro c)) OR
     push_bit 14 (of_bool (level c)) OR push_bit 15 (of_bool (icr_trigger_mode c)) OR
     push_bit 16 (ucast (remote_read_status c)) OR push_bit 18 (ucast (destination_type c))"

definition delivery_init :: "3 word" where [const_defs]: "delivery_init = 0b101"
definition delivery_start_up :: "3 word" where [const_defs]: "delivery_start_up = 0b110"

text \<open>\<open>local_apic_id_of_target\<close> has four bits.\<close>

definition command_high_raw :: "u8 \<Rightarrow> u32" where
  "command_high_raw target = push_bit 24 (ucast (ucast target :: 4 word))"

record spurious_interrupt_vector_register =
  siv_vector :: u8
  siv_apic_enable :: bool
  siv_reserved1 :: "3 word"
  eoi_suppress :: bool
  siv_reserved2 :: "19 word"

definition siv_of :: "u32 \<Rightarrow> spurious_interrupt_vector_register" where
  "siv_of raw = \<lparr>siv_vector = ucast raw, siv_apic_enable = bit raw 8, siv_reserved1 = ucast (drop_bit 9 raw),
     eoi_suppress = bit raw 12, siv_reserved2 = ucast (drop_bit 13 raw)\<rparr>"

definition siv_raw :: "spurious_interrupt_vector_register \<Rightarrow> u32" where
  "siv_raw r = ucast (siv_vector r) OR push_bit 8 (of_bool (siv_apic_enable r)) OR push_bit 9 (ucast (siv_reserved1 r)) OR
     push_bit 12 (of_bool (eoi_suppress r)) OR push_bit 13 (ucast (siv_reserved2 r))"

definition SPURIOUS_VECTOR :: u8 where [const_defs]: "SPURIOUS_VECTOR = 56"

text \<open>The local vector table entries: all other fields have their default 0.\<close>

definition lvt_lint_raw :: "u8 \<Rightarrow> bool \<Rightarrow> u32" where
  "lvt_lint_raw v masked = ucast v OR push_bit 16 (of_bool masked)"

definition lvt_timer_raw :: "u8 \<Rightarrow> bool \<Rightarrow> 2 word \<Rightarrow> u32" where
  "lvt_timer_raw v masked mode = ucast v OR push_bit 16 (of_bool masked) OR push_bit 17 (ucast mode)"

definition tsc_deadline :: "2 word" where [const_defs]: "tsc_deadline = 0b10"

section \<open>The base address\<close>

type_synonym msr = "u32 \<times> u32"

definition get_base_address :: "msr \<Rightarrow> u32 exec" where
  "get_base_address r = bindE (assertE (\<not> x2apic (msr_eax_of (fst r)))) (\<lambda>_.
     ok (push_bit 12 (ucast (base_low_page_idx (msr_eax_of (fst r))))))"

text \<open>\<open>page_mask = ((four_kb << 1) - 1)\<close>.\<close>

definition set_base_address :: "u32 \<Rightarrow> msr \<Rightarrow> msr exec" where
  "set_base_address base_address r =
     (let four_kb = push_bit 12 1; page_mask = push_bit 1 four_kb - 1; eax = msr_eax_of (fst r)
      in bindE (assertE (base_address AND page_mask = 0)) (\<lambda>_.
         bindE (assertE (\<not> x2apic eax)) (\<lambda>_.
           ok (msr_eax_raw (eax\<lparr>base_low_page_idx := ucast (drop_bit 12 base_address)\<rparr>), snd r))))"

definition init_apic :: "msr \<Rightarrow> msr exec" where
  "init_apic r =
     (let eax = (msr_eax_of (fst r))\<lparr>apic_enable := True\<rparr>
      in bindE (assertE (is_bootstrap_processor eax)) (\<lambda>_. ok (msr_eax_raw eax, snd r)))"

section \<open>Initialisation, core number, end of interrupt, timer\<close>

definition init_lapic :: "mhw \<Rightarrow> u8 \<Rightarrow> (mlog, unit) state" where
  "init_lapic hw core_id = do {
     raw \<leftarrow> mmio_read hw (lapic_register spurious_interrupt_vector);
     mmio_write (lapic_register spurious_interrupt_vector)
       (siv_raw ((siv_of raw)\<lparr>siv_vector := SPURIOUS_VECTOR, siv_apic_enable := True, eoi_suppress := False\<rparr>));
     (if core_id \<noteq> 0 then mmio_write (lapic_register lvt_lint0) (lvt_lint_raw 0 True) else ret ());
     mmio_write (lapic_register task_priority) 0
   }"

definition get_core_id :: "mhw \<Rightarrow> (mlog, u8) state" where
  "get_core_id hw = do {
     raw \<leftarrow> mmio_read hw (lapic_register lapic_id);
     ret (ucast (drop_bit 24 raw))
   }"

definition lapic_send_eoi :: "(mlog, unit) state" where
  "lapic_send_eoi = mmio_write (lapic_register end_of_interrupt) 0"

definition start_timer :: "bool \<Rightarrow> bool \<Rightarrow> u8 \<Rightarrow> u32 \<Rightarrow> 4 word \<Rightarrow> 2 word \<Rightarrow> bool \<Rightarrow> (mlog, unit exec) state" where
  "start_timer debug support_tsc_deadline vec count dcr mode masked =
     (if debug \<and> (mode > tsc_deadline \<or> \<not> support_tsc_deadline \<and> mode = tsc_deadline) then ret (Inl Abort)
      else do {
        mmio_write (lapic_register divide_configuration_register) (ucast dcr);
        mmio_write (lapic_register lvt_timer) (lvt_timer_raw vec masked mode);
        mmio_write (lapic_register initial_count) count;
        ret (ok ())
      })"

section \<open>Interprocessor interrupts\<close>

datatype apic_error = error_none | boot_core_timeout | bad_time | timeout_sending_ipi

definition TIMEOUT_IPI_PENDING :: nat where [const_defs]: "TIMEOUT_IPI_PENDING = 1000000"

definition lapic_send_command :: "interrupt_command_low_register \<Rightarrow> u8 \<Rightarrow> (mlog, unit) state" where
  "lapic_send_command low target = do {
     mmio_write (lapic_register command_high) (command_high_raw target);
     mmio_write (lapic_register command_low) (command_low_raw low)
   }"

text \<open>The loop that reads the command register until the interrupt is accepted, at most so many times.\<close>

fun wait_accepted :: "mhw \<Rightarrow> nat \<Rightarrow> (mlog, bool) state" where
  "wait_accepted hw 0 = ret False"
| "wait_accepted hw (Suc n) = do {
     raw \<leftarrow> mmio_read hw (lapic_register command_low);
     if \<not> bit raw 12 then ret True else wait_accepted hw n
   }"

definition accepted_or_timeout :: "mhw \<Rightarrow> (mlog, apic_error exec) state" where
  "accepted_or_timeout hw = do {
     accepted \<leftarrow> wait_accepted hw TIMEOUT_IPI_PENDING;
     ret (ok (if accepted then error_none else timeout_sending_ipi))
   }"

definition init_assert :: interrupt_command_low_register where
  "init_assert = (default_command 0)\<lparr>delivery_mode := delivery_init\<rparr>"

definition init_deassert :: interrupt_command_low_register where
  "init_deassert = (default_command 0)\<lparr>delivery_mode := delivery_init, level := False, icr_trigger_mode := True\<rparr>"

definition send_init :: "mhw \<Rightarrow> u8 \<Rightarrow> (mlog, apic_error exec) state" where
  "send_init hw core_id =
     (if \<not> core_id \<le> 0xF then ret (Inl Abort)
      else do {
        lapic_send_command init_assert core_id;
        bindS (accepted_or_timeout hw) (\<lambda>err.
          if err \<noteq> error_none then ret (ok err)
          else do {
            pit_wait_ms 10;
            lapic_send_command init_deassert core_id;
            accepted_or_timeout hw
          })
      })"

definition start_up_at :: "u32 \<Rightarrow> interrupt_command_low_register" where
  "start_up_at cb = (default_command (ucast (cb div 0x1000)))\<lparr>delivery_mode := delivery_start_up\<rparr>"

definition send_sipi :: "mhw \<Rightarrow> u8 \<Rightarrow> u32 \<Rightarrow> (mlog, apic_error exec) state" where
  "send_sipi hw core_id cb = do {
     mprintf ''Core bootstrap location: %h\<newline>'' [KU cb];
     if \<not> core_id \<le> 0xF \<or> \<not> cb < 0xFF * 0x1000 \<or> cb AND 0xFFF \<noteq> 0 then ret (Inl Abort)
     else do {
       lapic_send_command (start_up_at cb) core_id;
       accepted_or_timeout hw
     }
   }"

text \<open>
  \<open>last_interrupt_received\<close> is indexed by receiver and sender. The receiver's number is only checked
  in debug builds, and only against 15.
\<close>

type_synonym received = "nat \<Rightarrow> nat \<Rightarrow> u8"

definition send_ipi :: "bool \<Rightarrow> mhw \<Rightarrow> u8 \<Rightarrow> u8 \<Rightarrow> u8 \<Rightarrow> received \<Rightarrow> (mlog, (apic_error \<times> received) exec) state" where
  "send_ipi debug hw this_core_id core_id int_vector lir =
     (if debug \<and> \<not> core_id \<le> 0xF then ret (Inl Abort)
      else if \<not> unat core_id < MAX_CORE_COUNT \<or> \<not> unat this_core_id < MAX_CORE_COUNT then ret (Inl OutOfBounds)
      else do {
        spin_lock True;
        spin_lock False;
        lapic_send_command (default_command int_vector) core_id;
        accepted \<leftarrow> wait_accepted hw TIMEOUT_IPI_PENDING;
        let lir' = lir(unat core_id := (lir (unat core_id))(unat this_core_id := int_vector));
        if accepted then ret (ok (error_none, lir'))
        else do {
          mprintf ''Timed out waiting for sending ipi\<newline>'' [];
          ret (ok (timeout_sending_ipi, lir'))
        }
      })"

section \<open>The base address register\<close>

lemma msr_eax_roundtrip: "msr_eax_raw (msr_eax_of raw) = raw"
proof (rule bit_word_eqI)
  fix n
  assume n: "n < LENGTH(32)"
  consider "n < 8" | "n = 8" | "n = 9" | "n = 10" | "n = 11" | "12 \<le> n" by linarith
  then show "bit (msr_eax_raw (msr_eax_of raw)) n = bit raw n"
    by cases (use n in \<open>auto simp: msr_eax_raw_def msr_eax_of_def bit_simps\<close>)
qed

lemma msr_eax_of_raw: "msr_eax_of (msr_eax_raw e) = e"
proof (rule apic_msr_eax.equality)
  show "msr_reserved0 (msr_eax_of (msr_eax_raw e)) = msr_reserved0 e"
    by (rule bit_word_eqI) (auto simp: msr_eax_raw_def msr_eax_of_def bit_simps)
  show "base_low_page_idx (msr_eax_of (msr_eax_raw e)) = base_low_page_idx e"
    by (rule bit_word_eqI) (auto simp: msr_eax_raw_def msr_eax_of_def bit_simps dest: bit_imp_le_length)
qed (auto simp: msr_eax_raw_def msr_eax_of_def bit_simps dest: bit_imp_le_length)

lemma page_idx_shift:
  assumes "base AND 0x1FFF = 0"
  shows "push_bit 12 (ucast (ucast (drop_bit 12 base) :: 20 word)) = (base :: u32)"
proof (rule bit_word_eqI)
  fix n
  assume n: "n < LENGTH(32)"
  have zero: "base AND mask 13 = 0" using assms by (simp add: mask_eq_exp_minus_1)
  have low: "\<not> bit base n" if "n < 13"
  proof
    assume "bit base n"
    then have "bit (base AND mask 13) n" using that n by (simp add: bit_simps)
    then show False by (simp add: zero)
  qed
  show "bit (push_bit 12 (ucast (ucast (drop_bit 12 base) :: 20 word)) :: u32) n = bit base n"
    using n low by (cases "n < 12") (auto simp: bit_simps)
qed

text \<open>
  \<open>set_base_address\<close> and \<open>get_base_address\<close>. With the x2APIC off, setting a base address that is a multiple of 8 KB and
  reading it back gives that address, and changes nothing else of the register: its other half, the flag of the bootstrap
  processor and the enable bit. A base address that is a multiple of 4 KB - all that the page index of the register
  and the message of the assertion ask for - but not of 8 KB is refused: the mask has one bit too many.
\<close>

theorem set_base_address_sets:
  assumes "\<not> x2apic (msr_eax_of (fst r))" and "base AND 0xFFF = 0"
  shows "if bit base 12 then set_base_address base r = Inl Abort
    else \<exists>r'. set_base_address base r = ok r' \<and> get_base_address r' = ok base \<and> snd r' = snd r \<and>
      (msr_eax_of (fst r'))\<lparr>base_low_page_idx := base_low_page_idx (msr_eax_of (fst r))\<rparr> = msr_eax_of (fst r)"
proof -
  have mask: "(push_bit 1 (push_bit 12 1) - 1 :: u32) = 0x1FFF" by simp
  have split: "base AND 0x1FFF = (base AND 0xFFF) OR (base AND 0x1000)"
    by (simp flip: bit.conj_disj_distrib)
  show ?thesis
  proof (cases "bit base 12")
    case True
    then have "bit (base AND 0x1FFF) 12" by (simp add: bit_simps)
    then have "base AND 0x1FFF \<noteq> 0" by (metis bit_0_eq bot_apply bot_bool_def)
    then show ?thesis using True by (simp add: set_base_address_def Let_def)
  next
    case False
    have exp: "0x1000 = (2 ^ 12 :: u32)" by simp
    have "(base AND 0x1000) = 0"
      unfolding exp by (rule bit_word_eqI) (simp only: bit_and_iff bit_exp_iff, use False in auto)
    then have base: "base AND 0x1FFF = 0" using split assms(2) by simp
    then show ?thesis using False assms(1) page_idx_shift [OF base]
      by (simp add: set_base_address_def get_base_address_def Let_def msr_eax_of_raw)
  qed
qed

theorem set_base_address_sets_witness:
  "set_base_address 0xFEE01000 (0x900, 0) = Inl Abort \<and>
   (\<exists>r'. set_base_address 0xFEE00000 (0x900, 0) = ok r' \<and> get_base_address r' = ok 0xFEE00000)"
  using set_base_address_sets [of "(0x900, 0)" "0xFEE01000"] set_base_address_sets [of "(0x900, 0)" "0xFEE00000"]
  by (auto simp: msr_eax_of_def)

section \<open>Interprocessor interrupts\<close>

text \<open>The log after so many reads of the command register.\<close>

primrec polled :: "mhw \<Rightarrow> nat \<Rightarrow> mlog \<Rightarrow> mlog" where
  "polled hw 0 tr = tr"
| "polled hw (Suc n) tr =
     polled hw n (MRead (lapic_register command_low) (hw tr (lapic_register command_low)) # tr)"

definition idle_after :: "mhw \<Rightarrow> nat \<Rightarrow> mlog \<Rightarrow> bool" where
  "idle_after hw n tr \<longleftrightarrow> \<not> bit (hw (polled hw n tr) (lapic_register command_low)) 12"

definition accepts :: "mhw \<Rightarrow> mlog \<Rightarrow> bool" where
  "accepts hw tr \<longleftrightarrow> (\<exists>n < TIMEOUT_IPI_PENDING. idle_after hw n tr)"

lemma writes_polled [simp]: "writes (polled hw n tr) = writes tr"
  by (induction n arbitrary: tr) simp_all

lemma wait_accepted_run:
  "\<exists>k \<le> n. run (wait_accepted hw n) tr = ((\<exists>i < n. idle_after hw i tr), polled hw k tr)"
proof (induction n arbitrary: tr)
  case (Suc n)
  let ?v = "hw tr (lapic_register command_low)"
  let ?tr = "MRead (lapic_register command_low) ?v # tr"
  have after: "idle_after hw (Suc i) tr = idle_after hw i ?tr" for i by (simp add: idle_after_def)
  have now: "idle_after hw 0 tr \<longleftrightarrow> \<not> bit ?v 12" by (simp add: idle_after_def)
  have ex: "(\<exists>i < Suc n. idle_after hw i tr) \<longleftrightarrow> \<not> bit ?v 12 \<or> (\<exists>i < n. idle_after hw i ?tr)"
    by (auto simp: less_Suc_eq_0_disj after now)
  obtain k where "k \<le> n" "run (wait_accepted hw n) ?tr = ((\<exists>i < n. idle_after hw i ?tr), polled hw k ?tr)"
    using Suc.IH by blast
  then show ?case unfolding ex
    by (cases "bit ?v 12") (auto simp: run_bind intro: exI [of _ "Suc k"] exI [of _ "Suc 0"])
qed simp

lemma ipi_wait_run:
  "\<exists>k. run (wait_accepted hw TIMEOUT_IPI_PENDING) tr = (accepts hw tr, polled hw k tr)"
  using wait_accepted_run [of TIMEOUT_IPI_PENDING hw tr] by (auto simp: accepts_def)

abbreviation icr_writes :: "interrupt_command_low_register \<Rightarrow> u8 \<Rightarrow> (addr \<times> u32) list" where
  "icr_writes low target \<equiv>
     [(lapic_register command_high, command_high_raw target), (lapic_register command_low, command_low_raw low)]"

lemma run_send_command:
  "run (lapic_send_command low target) tr =
     ((), MWrite (lapic_register command_low) (command_low_raw low) #
          MWrite (lapic_register command_high) (command_high_raw target) # tr)"
  by (simp add: lapic_send_command_def run_bind)

lemma command_high_target: "target \<le> 15 \<Longrightarrow> drop_bit 24 (command_high_raw target) = ucast target"
proof -
  assume "target \<le> 15"
  then have "unat target < 2 ^ 4" by (simp add: word_le_nat_alt)
  then have "take_bit 4 (unat target) = unat target" "take_bit 32 (unat target) = unat target"
    by (simp_all add: take_bit_nat_eq_self)
  then have "unat (ucast (ucast target :: 4 word) :: u32) = unat (ucast target :: u32)"
    by (simp only: unsigned_ucast_eq unsigned_take_bit_eq) simp
  then have "ucast (ucast target :: 4 word) = (ucast target :: u32)" by (rule unsigned_word_eqI)
  moreover have "drop_bit 24 (push_bit 24 (ucast (ucast target :: 4 word) :: u32)) = ucast (ucast target :: 4 word)"
    by (rule bit_word_eqI) (auto simp: bit_simps dest: bit_imp_le_length)
  ultimately show ?thesis by (simp add: command_high_raw_def)
qed

text \<open>
  (C25) \<open>send_ipi\<close> between two cores of the table. Exactly two registers of the local APIC are written, first the
  upper half of the command register with the target's number in bits 24 to 31, then the lower half with the vector,
  which sends it; the table of received interrupts gets the vector at receiver and sender and nothing else changes in it. The
  result says whether one of the next million reads of the command register showed the interrupt accepted.
\<close>

theorem send_ipi_sends:
  assumes "core_id < 12" and "this_core_id < 12"
  shows "\<exists>tr1 tr2. run (send_ipi debug hw this_core_id core_id vec lir) tr =
      (ok (if accepts hw tr1 then error_none else timeout_sending_ipi,
           \<lambda>i j. if i = unat core_id \<and> j = unat this_core_id then vec else lir i j), tr2) \<and>
    writes tr2 = writes tr @ icr_writes (default_command vec) core_id \<and> writes tr1 = writes tr2 \<and>
    drop_bit 24 (command_high_raw core_id) = ucast core_id \<and> command_low_raw (default_command vec) = ucast vec OR 0x4000"
proof -
  let ?tr = "snd (run (lapic_send_command (default_command vec) core_id) (MLock False # MLock True # tr))"
  obtain k where k: "run (wait_accepted hw TIMEOUT_IPI_PENDING) ?tr = (accepts hw ?tr, polled hw k ?tr)"
    using ipi_wait_run by blast
  have small: "core_id \<le> 15" "unat core_id < MAX_CORE_COUNT" "unat this_core_id < MAX_CORE_COUNT"
    using assms by (simp_all add: word_le_nat_alt word_less_nat_alt MAX_CORE_COUNT_def)
  have upd: "lir(unat core_id := (lir (unat core_id))(unat this_core_id := vec)) =
      (\<lambda>i j. if i = unat core_id \<and> j = unat this_core_id then vec else lir i j)" by (auto simp: fun_eq_iff)
  have w: "writes ?tr = writes tr @ icr_writes (default_command vec) core_id" by (simp add: run_send_command)
  have run: "run (send_ipi debug hw this_core_id core_id vec lir) tr =
      (ok (if accepts hw ?tr then error_none else timeout_sending_ipi,
           \<lambda>i j. if i = unat core_id \<and> j = unat this_core_id then vec else lir i j),
       if accepts hw ?tr then polled hw k ?tr
       else MPrint ''Timed out waiting for sending ipi\<newline>'' [] # polled hw k ?tr)"
    using small k by (simp add: send_ipi_def run_bind run_send_command upd Let_def)
  show ?thesis
  proof (rule exI [of _ ?tr], rule exI, intro conjI, rule run)
    show "command_low_raw (default_command vec) = ucast vec OR 0x4000"
      by (simp add: command_low_raw_def default_command_def)
  qed (simp_all add: w command_high_target [OF small(1)])
qed

theorem send_ipi_sends_witness:
  "\<exists>tr2 e. run (send_ipi True (\<lambda>_ _. 0) 0 3 49 (\<lambda>_ _. 255)) [] = (ok (e, \<lambda>i j. if i = 3 \<and> j = 0 then 49 else 255), tr2) \<and>
    writes tr2 = [(0xFEE00310, 0x03000000), (0xFEE00300, 0x4031)]"
proof -
  have "lapic_register command_high = 0xFEE00310" "lapic_register command_low = 0xFEE00300"
    "command_high_raw 3 = 0x03000000" "command_low_raw (default_command 49) = 0x4031"
    by (simp_all add: lapic_register_def lapic_address_def command_high_raw_def command_low_raw_def default_command_def)
  then show ?thesis using send_ipi_sends [of 3 0 True "\<lambda>_ _. 0" 49 "\<lambda>_ _. 255" "[]"] by auto
qed

end
