(* ===== verification/Single_Float.thy ===== *)
theory Single_Float
  imports Prelude Complex_Main "HOL-Library.Log_Nat"
begin

text \<open>
  Single-precision arithmetic (C \<open>float\<close>): a value is a rational number, every operation is the exact one followed
  by rounding to 24 significant bits, to nearest, ties to even. Exponents are unbounded: the kernel's values
  (seconds and their fractions) are far from the underflow and overflow thresholds.

  \<open>round_single_error\<close> is the relative error bound the proofs use; it also covers a compiler that keeps
  intermediate results in wider registers.
\<close>

type_synonym single = rat

definition round_half_even :: "rat \<Rightarrow> int" where
  "round_half_even x =
     (let f = \<lfloor>x\<rfloor>; d = x - of_int f in if d < 1 / 2 \<or> d = 1 / 2 \<and> even f then f else f + 1)"

text \<open>The exponent that scales a positive number to 24 bits before the point.\<close>

definition single_exponent :: "rat \<Rightarrow> int" where
  "single_exponent x =
     (let (n, d) = quotient_of x; e = bitlen n - bitlen d - 24
      in if x * 2 powi (- e) < 2 ^ 24 then e else e + 1)"

definition round_single :: "rat \<Rightarrow> single" where
  "round_single x =
     (if x = 0 then 0
      else let e = single_exponent \<bar>x\<bar>
           in sgn x * of_int (round_half_even (\<bar>x\<bar> * 2 powi (- e))) * 2 powi e)"

definition fdiv :: "single \<Rightarrow> single \<Rightarrow> single" where "fdiv x y = round_single (x / y)"
definition fmul :: "single \<Rightarrow> single \<Rightarrow> single" where "fmul x y = round_single (x * y)"
definition fsub :: "single \<Rightarrow> single \<Rightarrow> single" where "fsub x y = round_single (x - y)"

text \<open>\<open>static_cast<uint32_t>\<close>: truncation; a value whose integral part does not fit has no defined result.\<close>

definition single_to_u32 :: "single \<Rightarrow> u32 exec" where
  "single_to_u32 x =
     (if x \<le> - 1 \<or> 2 ^ 32 \<le> x then Inl Undefined else if x < 0 then ok 0 else ok (of_int \<lfloor>x\<rfloor>))"

definition single_of_u32 :: "u32 \<Rightarrow> single" where
  "single_of_u32 n = round_single (of_nat (unat n))"

section \<open>The rounding error\<close>

lemma round_half_even_near: "\<bar>of_int (round_half_even x) - x\<bar> \<le> 1 / 2"
proof -
  have "of_int \<lfloor>x\<rfloor> \<le> x" "x < of_int \<lfloor>x\<rfloor> + 1" by linarith+
  then show ?thesis by (auto simp: round_half_even_def Let_def abs_le_iff)
qed

lemma powi_split: "(2 :: rat) powi (int a - int b) = 2 ^ a / 2 ^ b"
  by (simp add: power_int_diff)

lemma powi_minus_mult [simp]: "(2 :: rat) powi (- e) * 2 powi e = 1"
  by (simp add: power_int_minus)

lemma scaled_lower:
  fixes x :: rat
  assumes "0 < x" and q: "quotient_of x = (n, d)"
  shows "2 ^ 23 \<le> x * 2 powi (- (bitlen n - bitlen d - 24))"
proof -
  have d: "0 < d" by (rule quotient_of_denom_pos [OF q])
  have x: "x = of_int n / of_int d" by (rule quotient_of_div [OF q])
  have n: "0 < n" using assms(1) d by (simp add: x zero_less_divide_iff)
  have bn: "bitlen n > 0" "bitlen d > 0" using n d bitlen_eq_zero_iff [of n] bitlen_eq_zero_iff [of d] bitlen_nonneg [of n] bitlen_nonneg [of d]
    by linarith+
  define a b where "a = nat (bitlen n - 1)" and "b = nat (bitlen d)"
  have e: "bitlen n = int a + 1" "bitlen d = int b" using bn by (simp_all add: a_def b_def)
  have "2 ^ a \<le> n" "d < 2 ^ b" using bitlen_bounds [OF n] bitlen_bounds [OF d] by (simp_all add: a_def b_def)
  then have "(2 :: rat) ^ a \<le> of_int n" "of_int d \<le> (2 :: rat) ^ b"
    by (metis of_int_le_iff of_int_numeral of_int_power, metis less_imp_le of_int_le_iff of_int_numeral of_int_power)
  then have "2 ^ a / 2 ^ b \<le> x" unfolding x using d n by (intro frac_le) simp_all
  moreover have "(2 :: rat) powi (- (bitlen n - bitlen d - 24)) = 2 ^ 23 * (2 ^ b / 2 ^ a)"
  proof -
    have "- (bitlen n - bitlen d - 24) = int (23 + b) - int a" by (simp add: e)
    then have "(2 :: rat) powi (- (bitlen n - bitlen d - 24)) = 2 ^ (23 + b) / 2 ^ a" by (simp only: powi_split)
    then show ?thesis by (simp add: power_add)
  qed
  moreover have "2 ^ 23 \<le> x * (2 ^ 23 * (2 ^ b / 2 ^ a))" if "2 ^ a / 2 ^ b \<le> x"
    using that by (simp add: field_simps)
  ultimately show ?thesis by metis
qed

lemma single_exponent_lower:
  assumes "0 < x"
  shows "2 ^ 23 \<le> x * 2 powi (- single_exponent x)"
proof -
  obtain n d where q: "quotient_of x = (n, d)" by (cases "quotient_of x")
  let ?e = "bitlen n - bitlen d - 24"
  show ?thesis
  proof (cases "x * 2 powi (- ?e) < 2 ^ 24")
    case True
    then show ?thesis using scaled_lower [OF assms q] by (simp add: single_exponent_def q Let_def)
  next
    case False
    define u :: rat where "u = 2 powi (- ?e)"
    have "(2 :: rat) powi (- (?e + 1)) = u / 2"
      unfolding u_def by (simp add: power_int_diff power_int_minus power_int_add field_simps)
    moreover have "\<not> x * u < 2 ^ 24" using False unfolding u_def .
    ultimately have "2 ^ 23 \<le> x * 2 powi (- (?e + 1))" by (simp only: times_divide_eq_right) simp
    then show ?thesis using False by (simp only: single_exponent_def q Let_def prod.case if_False)
  qed
qed

lemma round_single_error: "\<bar>round_single x - x\<bar> \<le> \<bar>x\<bar> / 2 ^ 24"
proof (cases "x = 0")
  case False
  define e where "e = single_exponent \<bar>x\<bar>"
  define y where "y = \<bar>x\<bar> * 2 powi (- e)"
  define r :: rat where "r = of_int (round_half_even y)"
  have y: "2 ^ 23 \<le> y" using single_exponent_lower [of "\<bar>x\<bar>"] False by (simp add: y_def e_def)
  have x: "\<bar>x\<bar> = y * 2 powi e" by (simp add: y_def mult.assoc)
  have "round_single x - x = sgn x * ((r - y) * 2 powi e)"
    using False x by (simp add: round_single_def Let_def r_def y_def e_def algebra_simps)
      (metis abs_mult_sgn mult.commute)
  then have "\<bar>round_single x - x\<bar> = \<bar>r - y\<bar> * 2 powi e"
    using False by (simp add: abs_mult)
  also have "\<dots> \<le> (y / 2 ^ 24) * 2 powi e"
    using round_half_even_near [of y] y by (intro mult_right_mono) (simp_all add: r_def)
  finally show ?thesis by (simp add: x)
qed (simp add: round_single_def)

lemma round_single_upper: "0 \<le> x \<Longrightarrow> round_single x \<le> x * (1 + 1 / 2 ^ 24)"
  using round_single_error [of x] unfolding abs_le_iff by (simp add: algebra_simps)

lemma round_single_0 [simp]: "round_single 0 = 0"
  by (simp add: round_single_def)

lemma round_single_nonneg: "0 \<le> x \<Longrightarrow> 0 \<le> round_single x"
  using round_single_error [of x] unfolding abs_le_iff by simp

end
