(* ===== verification/Pit.thy ===== *)
theory Pit
  imports Port_IO Memory Single_Float
begin

text \<open>
  The programmable interval timer (\<open>timers/pit/pit.cpp\<close>, \<open>pit_internals.hpp\<close>, \<open>pit_interrupt_handler.cpp\<close>): the
  command byte, the count sent to channel 0, the splitting of a time into cycles, the blocking wait, the timeout that
  writes to a variable of the caller when it ends, and the interrupt handler.

  The globals of the three files are the record \<open>pit\<close>; its memory holds the variables of the callers, its log the port
  accesses, newest first, and its flag says whether the processor takes interrupts. Seconds are single-precision numbers.
\<close>

section \<open>The registers\<close>

datatype Bit_0 = binary16 | four_digits_bcd
datatype Bit_1_3 = single_shot | hardware_one_shot | rate_generator | square_wave_generator | software_strobe
  | hardware_strobe | rate_generator_2 | square_wave_generator_2
datatype Bit_4_5 = latch_count_get_value_cmd | low_byte_only | high_byte_only | low_then_high_byte
datatype Bit_6_7 = channel_0 | channel_1 | channel_2 | read_back_command

fun bit_0 :: "Bit_0 \<Rightarrow> u8" where
  "bit_0 binary16 = 0" | "bit_0 four_digits_bcd = 1"

fun bit_1_3 :: "Bit_1_3 \<Rightarrow> u8" where
  "bit_1_3 single_shot = 0" | "bit_1_3 hardware_one_shot = 1" | "bit_1_3 rate_generator = 2"
| "bit_1_3 square_wave_generator = 3" | "bit_1_3 software_strobe = 4" | "bit_1_3 hardware_strobe = 5"
| "bit_1_3 rate_generator_2 = 6" | "bit_1_3 square_wave_generator_2 = 7"

fun bit_4_5 :: "Bit_4_5 \<Rightarrow> u8" where
  "bit_4_5 latch_count_get_value_cmd = 0" | "bit_4_5 low_byte_only = 1" | "bit_4_5 high_byte_only = 2"
| "bit_4_5 low_then_high_byte = 3"

fun bit_6_7 :: "Bit_6_7 \<Rightarrow> u8" where
  "bit_6_7 channel_0 = 0" | "bit_6_7 channel_1 = 1" | "bit_6_7 channel_2 = 2" | "bit_6_7 read_back_command = 3"

record mode_command_register =
  bcd_binary_mode :: Bit_0
  operating_mode :: Bit_1_3
  access_mode :: Bit_4_5
  channel :: Bit_6_7

definition mcr_raw :: "mode_command_register \<Rightarrow> u8" where
  "mcr_raw c = bit_0 (bcd_binary_mode c) OR push_bit 1 (bit_1_3 (operating_mode c)) OR
     push_bit 4 (bit_4_5 (access_mode c)) OR push_bit 6 (bit_6_7 (channel c))"

definition channel_0_data_port :: port where [const_defs]: "channel_0_data_port = 0x40"
definition mode_or_command_register :: port where [const_defs]: "mode_or_command_register = 0x43"
definition MAX_FREQ_DIVIDER :: u16 where [const_defs]: "MAX_FREQ_DIVIDER = 65535"
definition PIT_FREQ_HZ :: u32 where [const_defs]: "PIT_FREQ_HZ = 1193182"
definition PIT_MAX_MSG :: nat where [const_defs]: "PIT_MAX_MSG = 32"

definition max_single_wait :: single where
  "max_single_wait = fdiv (single_of_u32 (ucast MAX_FREQ_DIVIDER + 1)) (single_of_u32 PIT_FREQ_HZ)"

section \<open>State\<close>

datatype pit_mode = mode_wait | mode_game

record pit =
  interrupts :: bool
  interrupt_handled :: bool
  is_new_timeout :: bool
  write_index :: u8
  msg_address :: "addr list"
  msg_value :: "u32 list"
  g_pit_mode :: pit_mode
  quick_pit :: bool
  memory :: mem
  ports :: iolog
  eois :: nat
  wakeups :: nat

definition pit_boot :: "mem \<Rightarrow> pit" where
  "pit_boot m = \<lparr>interrupts = False, interrupt_handled = False, is_new_timeout = False, write_index = 0,
     msg_address = replicate PIT_MAX_MSG 0, msg_value = replicate PIT_MAX_MSG 0, g_pit_mode = mode_wait,
     quick_pit = False, memory = m, ports = [], eois = 0, wakeups = 0\<rparr>"

definition pit_out :: "port \<Rightarrow> u8 \<Rightarrow> pit \<Rightarrow> pit" where
  "pit_out p b s = s\<lparr>ports := snd (run (outb p b) (ports s))\<rparr>"

section \<open>Sending a count\<close>

definition send_byte_to_pit :: "u8 \<Rightarrow> pit \<Rightarrow> pit" where
  "send_byte_to_pit b = pit_out channel_0_data_port b"

definition set_operation_mode :: "mode_command_register \<Rightarrow> pit \<Rightarrow> pit" where
  "set_operation_mode c = pit_out mode_or_command_register (mcr_raw c)"

definition read_pit_count :: "hw \<Rightarrow> pit \<Rightarrow> u16 \<times> pit" where
  "read_pit_count hw s =
     (let s = s\<lparr>interrupts := False\<rparr>;
          s = set_operation_mode \<lparr>bcd_binary_mode = binary16, operating_mode = single_shot,
                access_mode = latch_count_get_value_cmd, channel = channel_0\<rparr> s;
          (low, tr) = run (inb hw channel_0_data_port) (ports s);
          (high, tr) = run (inb hw channel_0_data_port) tr
      in (ucast low OR push_bit 8 (ucast high), s\<lparr>ports := tr\<rparr>))"

definition set_pit_count :: "u16 \<Rightarrow> pit \<Rightarrow> pit" where
  "set_pit_count count s =
     (let s = s\<lparr>interrupts := False\<rparr>;
          s = send_byte_to_pit (ucast (count AND 0xFF)) s
      in send_byte_to_pit (ucast (drop_bit 8 (count AND 0xFF00))) s)"

text \<open>\<open>send_wait_count_command\<close> and \<open>start_loop_wait\<close> differ in the operating mode. The count is checked in debug builds only.\<close>

definition send_count :: "bool \<Rightarrow> Bit_1_3 \<Rightarrow> u32 \<Rightarrow> pit \<Rightarrow> pit exec" where
  "send_count debug mode count s =
     (if debug \<and> \<not> count \<le> ucast MAX_FREQ_DIVIDER + 1 then Inl Abort
      else let count = (if count = ucast MAX_FREQ_DIVIDER + 1 then 0 else count);
               s = set_operation_mode \<lparr>bcd_binary_mode = binary16, operating_mode = mode,
                     access_mode = low_then_high_byte, channel = channel_0\<rparr> s
           in ok (set_pit_count (ucast count) s))"

definition send_wait_count_command :: "bool \<Rightarrow> u32 \<Rightarrow> pit \<Rightarrow> pit exec" where
  "send_wait_count_command debug = send_count debug single_shot"

definition start_loop_wait :: "bool \<Rightarrow> u32 \<Rightarrow> pit \<Rightarrow> pit exec" where
  "start_loop_wait debug = send_count debug rate_generator"

section \<open>Splitting a time\<close>

record pit_wait_split =
  full_cycles :: u32
  reminder_pit_count :: u32

definition compute_pit_wait :: "single \<Rightarrow> single \<Rightarrow> u32 \<Rightarrow> pit_wait_split exec" where
  "compute_pit_wait seconds single_wait max_freq_div =
     bindE (single_to_u32 (fdiv seconds single_wait)) (\<lambda>full.
       let remainder_seconds = fsub seconds (fmul (single_of_u32 full) single_wait)
       in bindE (single_to_u32 (fmul remainder_seconds (single_of_u32 (max_freq_div + 1)))) (\<lambda>remainder_pit_count.
            ok \<lparr>full_cycles = full, reminder_pit_count = remainder_pit_count\<rparr>))"

definition split_of :: "single \<Rightarrow> pit_wait_split exec" where
  "split_of seconds = compute_pit_wait seconds max_single_wait (ucast MAX_FREQ_DIVIDER)"

section \<open>The interrupt handler\<close>

definition set_mode :: "pit_mode \<Rightarrow> pit \<Rightarrow> pit" where
  "set_mode m s = s\<lparr>g_pit_mode := m\<rparr>"

definition set_quick_path_mode :: "bool \<Rightarrow> pit \<Rightarrow> pit" where
  "set_quick_path_mode b s = s\<lparr>quick_pit := b\<rparr>"

definition get_quick_path_mode :: "pit \<Rightarrow> bool" where
  "get_quick_path_mode s = quick_pit s"

definition game_loop :: "pit \<Rightarrow> pit" where
  "game_loop s = s\<lparr>ports := snd (run (kprintf ''Game loop\<newline>'' []) (ports s))\<rparr>"

definition pit_interrupt_handler :: "pit \<Rightarrow> pit exec" where
  "pit_interrupt_handler s =
     (let s = (case g_pit_mode s of mode_wait \<Rightarrow> s | mode_game \<Rightarrow> game_loop s);
          s = (if write_index s \<noteq> 0 \<and> is_new_timeout s then s\<lparr>write_index := write_index s - 1\<rparr> else s);
          i = unat (write_index s)
      in if \<not> i < PIT_MAX_MSG then Inl OutOfBounds
         else let s = (if msg_address s ! i \<noteq> 0
                       then s\<lparr>memory := store (memory s) (msg_address s ! i) (bytes32 (msg_value s ! i)),
                              is_new_timeout := False\<rparr>
                       else s)
              in ok (s\<lparr>interrupt_handled := True, eois := eois s + 1\<rparr>))"

section \<open>Waiting\<close>

text \<open>
  Each turn of the loop enables interrupts and halts; the environment says whether the interrupt
  that ends the halt is the timer's. \<open>None\<close>: the timer's interrupt never comes.
\<close>

definition halted_until :: "(pit \<Rightarrow> bool) \<Rightarrow> pit \<Rightarrow> pit exec" where
  "halted_until is_pit s =
     (let s = s\<lparr>interrupts := True, wakeups := wakeups s + 1\<rparr>
      in if is_pit s then pit_interrupt_handler s else ok s)"

partial_function (option) halting :: "(pit \<Rightarrow> bool) \<Rightarrow> pit \<Rightarrow> pit exec option" where
  "halting is_pit s =
     (case halted_until is_pit s of
        Inl e \<Rightarrow> Some (Inl e)
      | Inr s' \<Rightarrow> if interrupt_handled s' then Some (Inr s') else halting is_pit s')"

definition wait_till_pit_interrupt :: "(pit \<Rightarrow> bool) \<Rightarrow> pit \<Rightarrow> pit exec option" where
  "wait_till_pit_interrupt is_pit s = halting is_pit (s\<lparr>interrupt_handled := False\<rparr>)"

definition bindL :: "('e + 'a) option \<Rightarrow> ('a \<Rightarrow> ('e + 'b) option) \<Rightarrow> ('e + 'b) option" where
  "bindL m f = (case m of None \<Rightarrow> None | Some (Inl e) \<Rightarrow> Some (Inl e) | Some (Inr x) \<Rightarrow> f x)"

definition wait_pit_count :: "bool \<Rightarrow> (pit \<Rightarrow> bool) \<Rightarrow> u32 \<Rightarrow> pit \<Rightarrow> pit exec option" where
  "wait_pit_count debug is_pit count s =
     bindL (Some (send_wait_count_command debug count s)) (wait_till_pit_interrupt is_pit)"

fun wait_cycles :: "(pit \<Rightarrow> bool) \<Rightarrow> nat \<Rightarrow> pit \<Rightarrow> pit exec option" where
  "wait_cycles is_pit 0 s = Some (ok s)"
| "wait_cycles is_pit (Suc n) s = bindL (wait_till_pit_interrupt is_pit s) (wait_cycles is_pit n)"

definition pit_wait :: "bool \<Rightarrow> (pit \<Rightarrow> bool) \<Rightarrow> single \<Rightarrow> pit \<Rightarrow> (int \<times> pit) exec option" where
  "pit_wait debug is_pit seconds s =
     (if seconds \<le> 0 then Some (ok (1, s))
      else bindL (Some (split_of seconds)) (\<lambda>sp.
           bindL (Some (if full_cycles sp > 0 then start_loop_wait debug (ucast MAX_FREQ_DIVIDER + 1) s else ok s)) (\<lambda>s.
           bindL (wait_cycles is_pit (unat (full_cycles sp)) s) (\<lambda>s.
           bindL (wait_pit_count debug is_pit (reminder_pit_count sp) s) (\<lambda>s. Some (ok (0, s)))))))"

definition short_timeout_async :: "bool \<Rightarrow> single \<Rightarrow> addr \<Rightarrow> bool \<Rightarrow> pit \<Rightarrow> (int \<times> pit) exec" where
  "short_timeout_async debug seconds finished new_timeout s =
     (if seconds \<le> 0 then ok (1, s)
      else bindE (split_of seconds) (\<lambda>sp.
           if full_cycles sp > 0 then ok (2, s)
           else bindE
             (if new_timeout then
                bindE (assertE (unat (write_index s) < PIT_MAX_MSG)) (\<lambda>_.
                  let i = unat (write_index s)
                  in ok (s\<lparr>memory := store (memory s) finished (bytes32 0),
                           msg_address := (msg_address s)[i := finished], msg_value := (msg_value s)[i := 1],
                           is_new_timeout := True, write_index := write_index s + 1\<rparr>))
              else ok s) (\<lambda>s.
           bindE (send_wait_count_command debug (reminder_pit_count sp) s) (\<lambda>s. ok (0, s)))))"

section \<open>What is programmed into the device\<close>

text \<open>
  Channel 0 of the 8254 as far as the code uses it: the mode byte selects the mode and how the count is
  written; with low byte then high byte, the second byte completes the count, and 0 stands for 65536.
\<close>

record timer_chip =
  chip_mode :: nat
  chip_access :: nat
  chip_low :: "u8 option"
  chip_count :: "nat option"

definition timer_power_on :: timer_chip where
  "timer_power_on = \<lparr>chip_mode = 0, chip_access = 0, chip_low = None, chip_count = None\<rparr>"

definition timer_write :: "port \<Rightarrow> u8 \<Rightarrow> timer_chip \<Rightarrow> timer_chip" where
  "timer_write p b d =
     (if p = mode_or_command_register then
        (if drop_bit 6 b = 0
         then d\<lparr>chip_mode := unat (take_bit 3 (drop_bit 1 b)), chip_access := unat (take_bit 2 (drop_bit 4 b)),
                chip_low := None, chip_count := None\<rparr>
         else d)
      else if p = channel_0_data_port \<and> chip_access d = 3 then
        (case chip_low d of
           None \<Rightarrow> d\<lparr>chip_low := Some b\<rparr>
         | Some l \<Rightarrow> let n = unat b * 256 + unat l
                     in d\<lparr>chip_low := None, chip_count := Some (if n = 0 then 65536 else n)\<rparr>)
      else d)"

fun timer_chip_of :: "iolog \<Rightarrow> timer_chip" where
  "timer_chip_of [] = timer_power_on"
| "timer_chip_of (Out p b # tr) = timer_write p b (timer_chip_of tr)"
| "timer_chip_of (_ # tr) = timer_chip_of tr"

lemma bytes_of_count: "unat (ucast (drop_bit 8 (c AND 0xFF00)) :: u8) * 256 + unat (ucast (c AND 0xFF) :: u8) = unat (c :: u16)"
proof -
  have c: "c AND 0xFF = take_bit 8 c" by (simp add: take_bit_eq_mask mask_eq_exp_minus_1)
  have low: "unat (ucast (c AND 0xFF) :: u8) = unat c mod 256"
    unfolding c unsigned_ucast_eq unsigned_take_bit_eq by (simp add: take_bit_eq_mod)
  have high: "drop_bit 8 (c AND 0xFF00) = drop_bit 8 c"
  proof -
    have m: "0xFF00 = (push_bit 8 (mask 8) :: u16)" by (simp add: mask_eq_exp_minus_1)
    show ?thesis unfolding m by (rule bit_word_eqI) (auto simp: bit_simps dest: bit_imp_le_length)
  qed
  have c16: "unat c < 65536" "take_bit 16 (unat c) = unat c"
    using unsigned_less [where w = c and 'a = nat] by (simp_all add: take_bit_nat_eq_self)
  then have "unat (ucast (drop_bit 8 c) :: u8) = unat c div 256"
    unfolding unsigned_ucast_eq unsigned_drop_bit_eq by (simp add: take_bit_nat_eq_self drop_bit_eq_div)
  then show ?thesis unfolding high low by simp
qed

lemma timer_write_mode:
  "drop_bit 6 b = 0 \<Longrightarrow> timer_write mode_or_command_register b d =
     d\<lparr>chip_mode := unat (take_bit 3 (drop_bit 1 b)), chip_access := unat (take_bit 2 (drop_bit 4 b)),
       chip_low := None, chip_count := None\<rparr>"
  by (simp add: timer_write_def)

lemma timer_write_count:
  "chip_access d = 3 \<Longrightarrow> chip_low d = None \<Longrightarrow>
     timer_write channel_0_data_port hi (timer_write channel_0_data_port lo d) =
     d\<lparr>chip_low := None, chip_count := Some (if unat hi * 256 + unat lo = 0 then 65536 else unat hi * 256 + unat lo)\<rparr>"
  by (simp add: timer_write_def const_defs Let_def)

definition count_mode :: "Bit_1_3 \<Rightarrow> mode_command_register" where
  "count_mode m = \<lparr>bcd_binary_mode = binary16, operating_mode = m, access_mode = low_then_high_byte, channel = channel_0\<rparr>"

lemma count_mode_bits:
  "drop_bit 6 (mcr_raw (count_mode m)) = 0" "take_bit 3 (drop_bit 1 (mcr_raw (count_mode m))) = bit_1_3 m"
  "take_bit 2 (drop_bit 4 (mcr_raw (count_mode m))) = 3"
  by (cases m; simp add: mcr_raw_def count_mode_def)+

lemma send_count_programs:
  assumes "debug \<longrightarrow> count \<le> 65536"
  shows "\<exists>tr. send_count debug m count s = ok (s\<lparr>interrupts := False, ports := tr\<rparr>) \<and>
    chip_mode (timer_chip_of tr) = unat (bit_1_3 m) \<and>
    chip_count (timer_chip_of tr) = Some (if unat count mod 65536 = 0 then 65536 else unat count mod 65536)"
proof -
  let ?w = "ucast (if count = 65536 then 0 else count) :: u16"
  define hi lo :: u8 where "hi = ucast (drop_bit 8 (?w AND 0xFF00))" and "lo = ucast (?w AND 0xFF)"
  let ?tr = "Out channel_0_data_port hi # Out channel_0_data_port lo #
    Out mode_or_command_register (mcr_raw (count_mode m)) # ports s"
  have w: "unat hi * 256 + unat lo = unat count mod 65536"
    unfolding bytes_of_count hi_def lo_def by (simp add: unsigned_ucast_eq take_bit_eq_mod)
  have "send_count debug m count s = ok (s\<lparr>interrupts := False, ports := ?tr\<rparr>)"
    using assms by (simp add: send_count_def Let_def set_pit_count_def set_operation_mode_def send_byte_to_pit_def
      pit_out_def count_mode_def [symmetric] hi_def lo_def MAX_FREQ_DIVIDER_def)
  moreover have "timer_chip_of ?tr = (timer_chip_of (ports s))\<lparr>chip_mode := unat (bit_1_3 m), chip_access := 3,
      chip_low := None, chip_count := Some (if unat count mod 65536 = 0 then 65536 else unat count mod 65536)\<rparr>"
    unfolding timer_chip_of.simps timer_write_mode [OF count_mode_bits(1)] count_mode_bits(2,3)
    by (subst timer_write_count, simp, simp) (simp only: w timer_chip.update_convs, simp)
  ultimately show ?thesis by (intro exI [of _ ?tr]) simp
qed

section \<open>How long a wait is\<close>

lemma round_single_lower: "0 \<le> x \<Longrightarrow> x * (1 - 1 / 2 ^ 24) \<le> round_single x"
  using round_single_error [of x] unfolding abs_le_iff by (simp add: algebra_simps)

lemma single_of_u32_bounds:
  "of_nat (unat n) * (1 - 1 / 2 ^ 24) \<le> single_of_u32 n" "single_of_u32 n \<le> of_nat (unat n) * (1 + 1 / 2 ^ 24)"
  unfolding single_of_u32_def by (rule round_single_lower round_single_upper, rule of_nat_0_le_iff)+

lemma max_single_wait_bounds: "54925 / 1000000 \<le> max_single_wait" "max_single_wait \<le> 54926 / 1000000"
proof -
  define a b where "a = single_of_u32 (ucast MAX_FREQ_DIVIDER + 1)" and "b = single_of_u32 PIT_FREQ_HZ"
  have a: "65536 * (1 - 1 / 2 ^ 24) \<le> a" "a \<le> 65536 * (1 + 1 / 2 ^ 24)"
    using single_of_u32_bounds [of "ucast MAX_FREQ_DIVIDER + 1"] by (simp_all add: a_def MAX_FREQ_DIVIDER_def)
  have b: "1193182 * (1 - 1 / 2 ^ 24) \<le> b" "b \<le> 1193182 * (1 + 1 / 2 ^ 24)"
    using single_of_u32_bounds [of PIT_FREQ_HZ] by (simp_all add: b_def PIT_FREQ_HZ_def)
  have "0 < b" using b by simp
  then have q: "5492520 / 100000000 \<le> a / b" "a / b \<le> 5492550 / 100000000"
    using a b by (simp_all add: pos_le_divide_eq pos_divide_le_eq)
  have m: "max_single_wait = round_single (a / b)" by (simp add: max_single_wait_def fdiv_def a_def b_def)
  show "54925 / 1000000 \<le> max_single_wait" "max_single_wait \<le> 54926 / 1000000"
    using round_single_lower [of "a / b"] round_single_upper [of "a / b"] q unfolding m by simp_all
qed

text \<open>A time shorter than one cycle is not split; its count is the time in units of 1/65536 s, rounded down.\<close>

lemma single_to_u32_bounds:
  assumes "0 \<le> x" and "x < 2 ^ 32"
  shows "\<exists>n. single_to_u32 x = ok n \<and> rat_of_nat (unat n) \<le> x \<and> x < rat_of_nat (unat n) + 1"
proof -
  have f: "0 \<le> \<lfloor>x\<rfloor>" "\<lfloor>x\<rfloor> < 2 ^ 32" using assms by (simp_all add: floor_less_iff)
  have "unat (of_int \<lfloor>x\<rfloor> :: u32) = nat \<lfloor>x\<rfloor>"
    using f by (simp add: unat_eq_nat_uint word_uint_eq_iff take_bit_int_eq_self unsigned_of_int nat_eq_iff)
  then have "rat_of_nat (unat (of_int \<lfloor>x\<rfloor> :: u32)) = of_int \<lfloor>x\<rfloor>" using f(1) by simp
  moreover have "single_to_u32 x = ok (of_int \<lfloor>x\<rfloor>)" using assms by (simp add: single_to_u32_def)
  ultimately show ?thesis using floor_correct [of x] by (intro exI [of _ "of_int \<lfloor>x\<rfloor>"]) simp
qed

lemma split_short:
  assumes "0 < seconds" and "seconds \<le> 54 / 1000"
  shows "\<exists>n. split_of seconds = ok \<lparr>full_cycles = 0, reminder_pit_count = n\<rparr> \<and>
    rat_of_nat (unat n) \<le> seconds * 65536 * (1 + 1 / 2 ^ 22) \<and>
    seconds * 65536 * (1 - 1 / 2 ^ 22) < rat_of_nat (unat n) + 1"
proof -
  let ?m = max_single_wait
  have m: "0 < ?m" "54925 / 1000000 \<le> ?m" using max_single_wait_bounds by simp_all
  have q: "0 \<le> seconds / ?m" "seconds / ?m \<le> 9999 / 10000"
    using assms m by (simp_all add: pos_divide_le_eq)
  have f: "0 \<le> fdiv seconds ?m" "fdiv seconds ?m < 1"
    using round_single_upper [OF q(1)] q(2) round_single_nonneg [OF q(1)] by (simp_all add: fdiv_def)
  then have "\<lfloor>fdiv seconds ?m\<rfloor> = 0" by (simp add: floor_eq_iff)
  then have full: "single_to_u32 (fdiv seconds ?m) = ok 0" using f by (simp add: single_to_u32_def)
  define r where "r = fsub seconds (fmul (single_of_u32 0) ?m)"
  have "r = round_single seconds" by (simp add: r_def fsub_def fmul_def single_of_u32_def)
  then have r: "seconds * (1 - 1 / 2 ^ 24) \<le> r" "r \<le> seconds * (1 + 1 / 2 ^ 24)"
    using assms(1) round_single_lower [of seconds] round_single_upper [of seconds] by simp_all
  define c where "c = single_of_u32 (ucast MAX_FREQ_DIVIDER + 1)"
  have c: "65536 * (1 - 1 / 2 ^ 24) \<le> c" "c \<le> 65536 * (1 + 1 / 2 ^ 24)"
    using single_of_u32_bounds [of "ucast MAX_FREQ_DIVIDER + 1"] by (simp_all add: c_def MAX_FREQ_DIVIDER_def)
  have pos: "0 \<le> r" "0 \<le> c" using r(1) assms(1) c(1) by (simp_all add: order_trans [rotated])
  have rc: "seconds * (1 - 1 / 2 ^ 24) * (65536 * (1 - 1 / 2 ^ 24)) \<le> r * c"
    "r * c \<le> seconds * (1 + 1 / 2 ^ 24) * (65536 * (1 + 1 / 2 ^ 24))"
    by (rule mult_mono; use r c pos assms(1) in simp)+
  have x: "seconds * 65536 * (1 - 1 / 2 ^ 22) \<le> fmul r c" "fmul r c \<le> seconds * 65536 * (1 + 1 / 2 ^ 22)" "0 \<le> fmul r c"
    using round_single_lower [of "r * c"] round_single_upper [of "r * c"] round_single_nonneg [of "r * c"] rc pos assms(1)
    by (simp_all add: fmul_def)
  moreover have "fmul r c < 2 ^ 32" using x(2) assms(2) by simp
  ultimately obtain n where n: "single_to_u32 (fmul r c) = ok n" "rat_of_nat (unat n) \<le> fmul r c"
    "fmul r c < rat_of_nat (unat n) + 1" using single_to_u32_bounds by blast
  then show ?thesis using x full by (intro exI [of _ n]) (simp add: split_of_def compute_pit_wait_def Let_def r_def c_def)
qed

text \<open>
  (C23) A wait is about eighteen times too short. For a positive time of at most 54 ms, \<open>short_timeout_async\<close> with an
  existing message programs channel 0 for one interrupt after a number of ticks, of which 1193182 make a second; that
  number is less than an eighteenth of the ticks the time has, because the remaining seconds are multiplied with 65536
  (\<open>max_freq_div + 1\<close>) instead of the timer's frequency. It returns 0 and leaves interrupts off. (Times under 1/65536 s
  are excluded: their count is 0, which the chip takes as 65536.)
\<close>

theorem short_timeout_too_short:
  assumes "1 / 65000 \<le> seconds" and "seconds \<le> 54 / 1000"
  shows "\<exists>tr n. short_timeout_async debug seconds finished False s = ok (0, s\<lparr>interrupts := False, ports := tr\<rparr>) \<and>
    chip_mode (timer_chip_of tr) = 0 \<and> chip_count (timer_chip_of tr) = Some n \<and>
    18 * rat_of_nat n < seconds * 1193182"
proof -
  obtain c where c: "split_of seconds = ok \<lparr>full_cycles = 0, reminder_pit_count = c\<rparr>"
    "rat_of_nat (unat c) \<le> seconds * 65536 * (1 + 1 / 2 ^ 22)"
    "seconds * 65536 * (1 - 1 / 2 ^ 22) < rat_of_nat (unat c) + 1"
    using split_short [of seconds] assms by auto
  have "rat_of_nat 0 < rat_of_nat (unat c)" "rat_of_nat (unat c) < rat_of_nat 65536"
    using c(2,3) assms by simp_all
  then have u: "0 < unat c" "unat c < 65536" unfolding of_nat_less_iff .
  then have "c \<le> 65536" by (simp add: word_le_nat_alt)
  then obtain tr where tr: "send_count debug single_shot c s = ok (s\<lparr>interrupts := False, ports := tr\<rparr>)"
    "chip_mode (timer_chip_of tr) = 0" "chip_count (timer_chip_of tr) = Some (unat c)"
    using send_count_programs [of debug c single_shot s] u by auto
  moreover have "18 * rat_of_nat (unat c) < seconds * 1193182" using c(2) assms by simp
  ultimately show ?thesis using assms c(1)
    by (intro exI [of _ tr] exI [of _ "unat c"]) (simp add: short_timeout_async_def send_wait_count_command_def)
qed

theorem short_timeout_too_short_witness:
  "\<exists>tr n. short_timeout_async True (1 / 100) 0x5000 False (pit_boot (\<lambda>_. 0)) =
      ok (0, (pit_boot (\<lambda>_. 0))\<lparr>interrupts := False, ports := tr\<rparr>) \<and>
    chip_count (timer_chip_of tr) = Some n \<and> n < 663"
proof -
  have "n < 663" if "18 * rat_of_nat n < 1 / 100 * 1193182" for n
  proof -
    have "rat_of_nat n < rat_of_nat 663" using that by simp
    then show ?thesis unfolding of_nat_less_iff .
  qed
  then show ?thesis using short_timeout_too_short [of "1 / 100" True "0x5000" "pit_boot (\<lambda>_. 0)"] by auto
qed

section \<open>The message slots\<close>

text \<open>
  The handler indexes the 32 slots with \<open>pit_write_index\<close>, which \<open>short_timeout_async\<close> may leave at 32: but then the
  new-timeout flag is set and the handler steps back first.
\<close>

definition pit_wf :: "pit \<Rightarrow> bool" where
  "pit_wf s \<longleftrightarrow> length (msg_address s) = PIT_MAX_MSG \<and> length (msg_value s) = PIT_MAX_MSG \<and>
     (unat (write_index s) < PIT_MAX_MSG \<or> unat (write_index s) = PIT_MAX_MSG \<and> is_new_timeout s)"

lemma pit_boot_wf [simp]: "pit_wf (pit_boot m)"
  by (simp add: pit_wf_def pit_boot_def PIT_MAX_MSG_def)

lemma send_count_frame:
  "send_count debug m count s = ok s' \<Longrightarrow> \<exists>tr. s' = s\<lparr>interrupts := False, ports := tr\<rparr>"
  by (intro exI [of _ "ports s'"])
    (auto simp: send_count_def set_pit_count_def set_operation_mode_def send_byte_to_pit_def pit_out_def Let_def
      split: if_splits)

lemma pit_handler_ok:
  assumes "pit_wf s"
  shows "\<exists>s'. pit_interrupt_handler s = ok s' \<and> pit_wf s' \<and> interrupt_handled s' \<and> wakeups s' = wakeups s \<and>
    interrupts s' = interrupts s"
proof -
  let ?s = "case g_pit_mode s of mode_wait \<Rightarrow> s | mode_game \<Rightarrow> game_loop s"
  have wf: "pit_wf ?s" "wakeups ?s = wakeups s" "interrupts ?s = interrupts s"
    using assms by (simp_all add: game_loop_def pit_wf_def split: pit_mode.split)
  have less: "unat (write_index ?s - 1) < PIT_MAX_MSG" if "write_index ?s \<noteq> 0"
    using that wf(1) by (auto simp: pit_wf_def PIT_MAX_MSG_def unat_minus_one)
  have "write_index ?s \<noteq> 0" if "unat (write_index ?s) = PIT_MAX_MSG"
    using that by (auto simp: PIT_MAX_MSG_def)
  then show ?thesis
    using wf less unfolding pit_interrupt_handler_def Let_def by (auto simp: pit_wf_def)
qed

lemma short_timeout_wf:
  assumes "pit_wf s" and "short_timeout_async debug seconds finished new_timeout s = ok (r, s')"
  shows "pit_wf s'"
  using assms
  by (auto simp: short_timeout_async_def send_wait_count_command_def bindE_Inr_iff assertE_def pit_wf_def Let_def
      unat_word_ariths PIT_MAX_MSG_def split: if_splits dest!: send_count_frame)

inductive pit_step :: "pit \<Rightarrow> pit \<Rightarrow> bool" where
  step_timeout: "short_timeout_async debug seconds finished new_timeout s = ok (r, s') \<Longrightarrow> pit_step s s'"
| step_interrupt: "pit_interrupt_handler s = ok s' \<Longrightarrow> pit_step s s'"
| step_count: "send_count debug m count s = ok s' \<Longrightarrow> pit_step s s'"
| step_sti: "pit_step s (s\<lparr>interrupts := True\<rparr>)"
| step_arm: "pit_step s (s\<lparr>interrupt_handled := False\<rparr>)"
| step_mode: "pit_step s (set_mode mode s)"
| step_quick: "pit_step s (set_quick_path_mode q s)"
| step_memory: "pit_step s (s\<lparr>memory := m\<rparr>)"

interpretation timer: system_invariant "\<lambda>s. \<exists>m. s = pit_boot m" pit_step pit_wf
proof
  fix s s'
  assume "pit_step s s'" and "pit_wf s"
  then show "pit_wf s'"
  proof cases
    case step_interrupt
    then show ?thesis using pit_handler_ok [OF \<open>pit_wf s\<close>] by auto
  next
    case step_timeout
    then show ?thesis by (rule short_timeout_wf [OF \<open>pit_wf s\<close>])
  qed (use \<open>pit_wf s\<close> in \<open>auto dest!: send_count_frame
      simp: pit_wf_def set_mode_def set_quick_path_mode_def\<close>)
qed auto

text \<open>
  (C22) In every state the timer's code can get into from boot - by timeouts of any kind, the interrupt handler, counts sent,
  and other code writing to memory - the handler's access to the message slots is in bounds: it runs to its end, reports that the
  interrupt is handled and leaves a state of the same kind.
\<close>

theorem pit_handler_in_bounds:
  assumes "reach (\<lambda>s. \<exists>m. s = pit_boot m) pit_step s"
  shows "\<exists>s'. pit_interrupt_handler s = ok s' \<and> interrupt_handled s' \<and> eois s' = eois s + 1"
proof -
  have "pit_wf s" by (rule timer.reach_inv [OF assms])
  then show ?thesis using pit_handler_ok [of s]
    by (auto simp: pit_interrupt_handler_def Let_def game_loop_def split: if_splits pit_mode.splits)
qed

theorem pit_handler_in_bounds_witness:
  "\<exists>s'. pit_interrupt_handler (set_mode mode_game (pit_boot (\<lambda>_. 0))) = ok s' \<and> interrupt_handled s' \<and> eois s' = 1"
proof -
  have "reach (\<lambda>s. \<exists>m. s = pit_boot m) pit_step (set_mode mode_game (pit_boot (\<lambda>_. 0)))"
    by (rule reach_step, rule reach_init, blast, rule step_mode)
  from pit_handler_in_bounds [OF this] show ?thesis by (simp add: set_mode_def pit_boot_def)
qed

section \<open>Timeouts\<close>

lemma short_timeout_new:
  assumes "0 < seconds" and "seconds \<le> 54 / 1000" and "unat (write_index s) < PIT_MAX_MSG"
  shows "\<exists>tr. short_timeout_async debug seconds finished True s = ok (0,
    s\<lparr>memory := store (memory s) finished (bytes32 0), msg_address := (msg_address s)[unat (write_index s) := finished],
      msg_value := (msg_value s)[unat (write_index s) := 1], is_new_timeout := True, write_index := write_index s + 1,
      interrupts := False, ports := tr\<rparr>)"
proof -
  obtain c where c: "split_of seconds = ok \<lparr>full_cycles = 0, reminder_pit_count = c\<rparr>"
    "rat_of_nat (unat c) \<le> seconds * 65536 * (1 + 1 / 2 ^ 22)" using split_short assms(1,2) by blast
  have "rat_of_nat (unat c) < rat_of_nat 65536" using c(2) assms(1,2) by simp
  then have "c \<le> 65536" unfolding of_nat_less_iff by (simp add: word_le_nat_alt)
  then obtain tr where "send_count debug single_shot c s' = ok (s'\<lparr>interrupts := False, ports := tr s'\<rparr>)" for s'
    using send_count_programs [of debug c single_shot] by metis
  then show ?thesis using assms c(1)
    by (simp add: short_timeout_async_def send_wait_count_command_def Let_def assertE_def) blast
qed

fun take_interrupts :: "nat \<Rightarrow> pit \<Rightarrow> pit exec" where
  "take_interrupts 0 s = ok s"
| "take_interrupts (Suc n) s = bindE (pit_interrupt_handler s) (take_interrupts n)"

text \<open>The slot the handler reports to once no new timeout is pending.\<close>

definition reports_to :: "addr \<Rightarrow> pit \<Rightarrow> bool" where
  "reports_to a s \<longleftrightarrow> unat (write_index s) < PIT_MAX_MSG \<and> \<not> is_new_timeout s \<and>
     msg_address s ! unat (write_index s) = a \<and> msg_value s ! unat (write_index s) = 1"

lemma store_idem: "length bs \<le> 2 ^ 32 \<Longrightarrow> store (store m a bs) a bs = store m a bs"
  by (rule ext) (simp add: store_apply)

definition slot_index :: "pit \<Rightarrow> u8" where
  "slot_index s = (if write_index s \<noteq> 0 \<and> is_new_timeout s then write_index s - 1 else write_index s)"

lemma handler_writes:
  assumes "i = unat (slot_index s)" and "i < PIT_MAX_MSG" and "msg_address s ! i \<noteq> 0"
  shows "\<exists>s'. pit_interrupt_handler s = ok s' \<and> write_index s' = slot_index s \<and> \<not> is_new_timeout s' \<and>
    msg_address s' = msg_address s \<and> msg_value s' = msg_value s \<and>
    memory s' = store (memory s) (msg_address s ! i) (bytes32 (msg_value s ! i))"
  using assms(2,3) unfolding assms(1) pit_interrupt_handler_def Let_def
  by (cases "g_pit_mode s"; cases "write_index s \<noteq> 0 \<and> is_new_timeout s") (auto simp: slot_index_def game_loop_def)

lemma handler_reports:
  assumes "reports_to a s" and "a \<noteq> 0"
  shows "\<exists>s'. pit_interrupt_handler s = ok s' \<and> reports_to a s' \<and> memory s' = store (memory s) a (bytes32 1)"
  using handler_writes [of "unat (write_index s)" s] assms by (auto simp: reports_to_def slot_index_def)

lemma handlers_report:
  assumes "reports_to a s" and "a \<noteq> 0"
  shows "\<exists>s'. take_interrupts n s = ok s' \<and> reports_to a s' \<and>
    memory s' = (if n = 0 then memory s else store (memory s) a (bytes32 1))"
  using assms(1)
proof (induction n arbitrary: s)
  case (Suc n)
  obtain s1 where s1: "pit_interrupt_handler s = ok s1" "reports_to a s1" "memory s1 = store (memory s) a (bytes32 1)"
    using handler_reports [OF Suc.prems assms(2)] by blast
  then show ?case using Suc.IH [OF s1(2)] by (auto simp: store_idem)
qed auto

text \<open>
  (C40) Of two pending timeouts the older one is never reported. If two timeouts with a variable of their own each are
  started one after the other and the timer's interrupt then comes any number of times (at least once), the second
  variable reads 1 and the first one still reads 0: the first interrupt clears the flag of the new timeout, and from then on the
  handler writes to the same slot again and again.
\<close>

theorem older_timeout_lost:
  assumes "0 < seconds" and "seconds \<le> 54 / 1000" and "pit_wf s" and "unat (write_index s) < 31"
    and "first \<noteq> 0" and "second \<noteq> 0" and "apart (first, bytes32 0) (second, bytes32 0)"
  shows "\<exists>s1 s2 s3. short_timeout_async debug seconds first True s = ok (0, s1) \<and>
    short_timeout_async debug seconds second True s1 = ok (0, s2) \<and> take_interrupts (Suc n) s2 = ok s3 \<and>
    read32 (memory s3) second = 1 \<and> read32 (memory s3) first = 0"
proof -
  let ?i = "unat (write_index s)"
  have i1: "unat (write_index s + 1) = Suc ?i" using assms(4) by (simp add: unat_word_ariths)
  obtain s1 where s1: "short_timeout_async debug seconds first True s = ok (0, s1)"
    "write_index s1 = write_index s + 1" "memory s1 = store (memory s) first (bytes32 0)" "pit_wf s1"
    using short_timeout_new [OF assms(1,2), where s = s] assms(4) short_timeout_wf [OF assms(3)]
    by (fastforce simp: PIT_MAX_MSG_def)
  obtain s2 where s2: "short_timeout_async debug seconds second True s1 = ok (0, s2)"
    "write_index s2 = write_index s + 2" "memory s2 = store (memory s1) second (bytes32 0)" "is_new_timeout s2"
    "msg_address s2 = (msg_address s1)[Suc ?i := second]" "msg_value s2 = (msg_value s1)[Suc ?i := 1]"
    using short_timeout_new [OF assms(1,2), where s = s1] assms(4) s1 i1 by (fastforce simp: PIT_MAX_MSG_def)
  have "unat (write_index s + 2) = Suc (Suc ?i)" using assms(4) by (simp add: unat_word_ariths)
  then have nz: "write_index s2 \<noteq> 0" "write_index s2 - 1 = write_index s + 1" using s2(2) by auto
  have slot: "msg_address s2 ! Suc ?i = second" "msg_value s2 ! Suc ?i = 1"
    using s2 s1(4) assms(4) by (simp_all add: pit_wf_def PIT_MAX_MSG_def)
  have "\<exists>s'. pit_interrupt_handler s2 = ok s' \<and> reports_to second s' \<and> memory s' = store (memory s2) second (bytes32 1)"
    using handler_writes [of "Suc ?i" s2] nz s2(4) slot assms(4,6) i1
    by (auto simp: reports_to_def slot_index_def PIT_MAX_MSG_def)
  then obtain s' where s': "pit_interrupt_handler s2 = ok s'" "reports_to second s'"
    "memory s' = store (memory s2) second (bytes32 1)" by blast
  obtain s3 where s3: "take_interrupts n s' = ok s3" "memory s3 = store (memory s2) second (bytes32 1)"
    using handlers_report [OF s'(2) assms(6), of n] s'(3) by (auto simp: store_idem)
  have "fetch (memory s3) second 4 = bytes32 1"
    using fetch_store [of "bytes32 1"] by (simp add: s3(2))
  moreover have "fetch (memory s3) first 4 = bytes32 0"
    using assms(7) fetch_store [of "bytes32 0" "memory s" first]
    by (simp add: s3(2) s2(3) s1(3) apart_def fetch_store_apart)
  ultimately show ?thesis using s1(1) s2(1) s'(1) s3(1) by (auto simp: read32_fetch)
qed

theorem older_timeout_lost_witness:
  "\<exists>s1 s2 s3. short_timeout_async True (1 / 100) 0x5000 True (pit_boot (\<lambda>_. 0)) = ok (0, s1) \<and>
    short_timeout_async True (1 / 100) 0x6000 True s1 = ok (0, s2) \<and> take_interrupts 7 s2 = ok s3 \<and>
    read32 (memory s3) 0x6000 = 1 \<and> read32 (memory s3) 0x5000 = 0"
  using older_timeout_lost [where seconds = "1 / 100" and s = "pit_boot (\<lambda>_. 0)" and first = "0x5000"
      and second = "0x6000" and debug = True and n = 6]
  by (simp add: apart_def offset_def pit_boot_def) (simp add: pit_boot_def [symmetric] numeral_eq_Suc)

section \<open>Waiting ends\<close>

text \<open>The timer's interrupt comes again and again: after every number of interrupts there is one more that is the timer's.\<close>

definition timer_alive :: "(pit \<Rightarrow> bool) \<Rightarrow> bool" where
  "timer_alive is_pit \<longleftrightarrow> (\<forall>n. \<exists>k > n. \<forall>s. wakeups s = k \<longrightarrow> is_pit s)"

lemma halting_returns:
  assumes "\<And>s. wakeups s = k \<Longrightarrow> is_pit s" and "wakeups s < k" and "pit_wf s"
  shows "\<exists>s'. halting is_pit s = Some (ok s') \<and> pit_wf s' \<and> interrupt_handled s' \<and> interrupts s'"
  using assms(2,3)
proof (induction "k - wakeups s" arbitrary: s rule: less_induct)
  case less
  let ?s = "s\<lparr>interrupts := True, wakeups := wakeups s + 1\<rparr>"
  have wf: "pit_wf ?s" using less.prems(2) by (simp add: pit_wf_def)
  show ?case
  proof (cases "is_pit ?s")
    case True
    then show ?thesis using pit_handler_ok [OF wf] by (subst halting.simps) (auto simp: halted_until_def Let_def)
  next
    case False
    then have "wakeups s + 1 \<noteq> k" using assms(1) [of ?s] by auto
    then have "\<exists>s'. halting is_pit ?s = Some (ok s') \<and> pit_wf s' \<and> interrupt_handled s' \<and> interrupts s'"
      using less.prems wf by (intro less.hyps) auto
    then show ?thesis using False wf by (subst halting.simps) (auto simp: halted_until_def Let_def)
  qed
qed

lemma wait_till_returns:
  assumes "timer_alive is_pit" and "pit_wf s"
  shows "\<exists>s'. wait_till_pit_interrupt is_pit s = Some (ok s') \<and> pit_wf s' \<and> interrupt_handled s' \<and> interrupts s'"
proof -
  obtain k where "k > wakeups s" "\<And>s. wakeups s = k \<Longrightarrow> is_pit s" using assms(1) unfolding timer_alive_def by blast
  then show ?thesis unfolding wait_till_pit_interrupt_def
    by (intro halting_returns [where k = k]) (use assms(2) in \<open>simp_all add: pit_wf_def\<close>)
qed

lemma wait_cycles_return:
  assumes "timer_alive is_pit" and "pit_wf s"
  shows "\<exists>s'. wait_cycles is_pit n s = Some (ok s') \<and> pit_wf s'"
  using assms(2)
proof (induction n arbitrary: s)
  case (Suc n)
  then show ?case using wait_till_returns [OF assms(1) Suc.prems] by (auto simp: bindL_def)
qed simp

lemma send_count_wf:
  assumes "pit_wf s"
  shows "\<exists>s'. send_count False m count s = ok s' \<and> pit_wf s'"
  using send_count_programs [of False count m s] assms by (auto simp: pit_wf_def)

text \<open>
  (C39) \<open>pit::wait\<close> returns. In a build without the debug check, from a well-formed state, for every number of seconds whose
  split has a meaning, as long as the timer's interrupt keeps coming, however many other interrupts wake the processor in between:
  the call comes back, with 0 for a positive time and interrupts on, and with 1 and nothing done otherwise.
\<close>

theorem pit_wait_returns:
  assumes "timer_alive is_pit" and "pit_wf s" and "split_of seconds = ok sp"
  shows "\<exists>r s'. pit_wait False is_pit seconds s = Some (ok (r, s')) \<and> pit_wf s' \<and>
    (if seconds \<le> 0 then r = 1 \<and> s' = s else r = 0 \<and> interrupts s')"
proof (cases "seconds \<le> 0")
  case False
  obtain s1 where s1: "(if full_cycles sp > 0 then start_loop_wait False (ucast MAX_FREQ_DIVIDER + 1) s else ok s) = ok s1"
    "pit_wf s1" using send_count_wf [OF assms(2)] assms(2) by (metis start_loop_wait_def)
  obtain s2 where s2: "wait_cycles is_pit (unat (full_cycles sp)) s1 = Some (ok s2)" "pit_wf s2"
    using wait_cycles_return [OF assms(1) s1(2)] by blast
  obtain s3 where s3: "send_wait_count_command False (reminder_pit_count sp) s2 = ok s3" "pit_wf s3"
    using send_count_wf [OF s2(2)] by (metis send_wait_count_command_def)
  obtain s4 where "wait_till_pit_interrupt is_pit s3 = Some (ok s4)" "pit_wf s4" "interrupts s4"
    using wait_till_returns [OF assms(1) s3(2)] by blast
  then show ?thesis using False assms(3) s1(1) s2(1) s3(1) by (simp add: pit_wait_def bindL_def wait_pit_count_def)
qed (use assms(2) in \<open>simp add: pit_wait_def\<close>)

theorem pit_wait_returns_witness:
  "\<exists>r s'. pit_wait False (\<lambda>s. even (wakeups s)) (1 / 100) (pit_boot (\<lambda>_. 0)) = Some (ok (r, s')) \<and> r = 0 \<and> interrupts s'"
proof -
  have "timer_alive (\<lambda>s. even (wakeups s))"
    unfolding timer_alive_def
  proof
    fix n
    show "\<exists>k > n. \<forall>s. wakeups s = k \<longrightarrow> even (wakeups s)" by (intro exI [of _ "2 * (n + 1)"]) auto
  qed
  moreover obtain n where "split_of (1 / 100) = ok \<lparr>full_cycles = 0, reminder_pit_count = n\<rparr>"
    using split_short [of "1 / 100"] by auto
  ultimately show ?thesis using pit_wait_returns [of "\<lambda>s. even (wakeups s)" "pit_boot (\<lambda>_. 0)" "1 / 100"] by auto
qed

end
