(* ===== verification/Core_Boot.thy ===== *)
theory Core_Boot
  imports Lapic Pit
begin

text \<open>
  Waking an application core (\<open>apic::wake_core\<close> of \<open>cpu/apic/apic.cpp\<close>): INIT and start-up interrupts, a short poll
  with a timer of 1 ms, a second start-up interrupt and a long poll of twenty timers of 50 ms.

  The polled variables \<open>core_has_booted\<close> (written by the woken core) and \<open>finished\<close> (written by the timer's interrupt handler)
  are looks at the environment. The polls have no bound of their own: a call is a partial
  function, and \<open>None\<close> means that it never comes back.
\<close>

section \<open>Calls that may not come back\<close>

type_synonym 'a prog = "mlog \<Rightarrow> ('a exec \<times> mlog) option"

definition call :: "(mlog, 'a exec) state \<Rightarrow> 'a prog" where
  "call m tr = Some (run m tr)"

definition andthen :: "'a prog \<Rightarrow> ('a \<Rightarrow> 'b prog) \<Rightarrow> 'b prog" where
  "andthen m f tr = (case m tr of None \<Rightarrow> None | Some (Inl e, tr') \<Rightarrow> Some (Inl e, tr') | Some (Inr x, tr') \<Rightarrow> f x tr')"

definition effect :: "(mlog, unit) state \<Rightarrow> unit prog" where
  "effect m tr = (case run m tr of (_, tr') \<Rightarrow> Some (ok (), tr'))"

definition done_with :: "'a \<Rightarrow> 'a prog" where
  "done_with x tr = Some (ok x, tr)"

lemma prog_simps [simp]:
  "call m tr = Some (run m tr)"
  "effect m' tr = Some (ok (), snd (run m' tr))"
  "done_with x tr = Some (ok x, tr)"
  by (simp_all add: call_def effect_def done_with_def split: prod.split)

lemma andthen_ok: "m tr = Some (ok x, tr') \<Longrightarrow> andthen m f tr = f x tr'"
  by (simp add: andthen_def)

lemma andthen_None: "m tr = None \<Longrightarrow> andthen m f tr = None"
  by (simp add: andthen_def)

section \<open>The code\<close>

text \<open>What \<open>pit::short_timeout_async\<close> returns: 0 when it has started the timer.\<close>

definition timeout_code :: "single \<Rightarrow> int exec" where
  "timeout_code seconds =
     (if seconds \<le> 0 then ok 1 else bindE (split_of seconds) (\<lambda>sp. ok (if full_cycles sp > 0 then 2 else 0)))"

definition start_timeout :: "nat \<Rightarrow> bool \<Rightarrow> int prog" where
  "start_timeout ms new_timeout tr =
     (case timeout_code (fdiv (of_nat ms) 1000) of
        Inl e \<Rightarrow> Some (Inl e, tr)
      | Inr c \<Rightarrow> Some (ok c, if c = 0 then snd (run (pit_timer ms new_timeout) tr) else tr))"

text \<open>\<open>while (true)\<close>: look at \<open>core_has_booted\<close>, then at \<open>finished\<close>. True: the core has booted.\<close>

partial_function (option) poll :: "flags \<Rightarrow> nat \<Rightarrow> mlog \<Rightarrow> (bool \<times> mlog) option" where
  "poll env core tr =
     (case run (look env ''core_has_booted'' core) tr of (booted, tr1) \<Rightarrow>
        if booted then Some (True, tr1)
        else case run (look env ''finished'' 0) tr1 of (finished, tr2) \<Rightarrow>
          if finished then Some (False, tr2) else poll env core tr2)"

definition polling :: "flags \<Rightarrow> nat \<Rightarrow> bool prog" where
  "polling env core tr = map_option (\<lambda>(b, tr'). (ok b, tr')) (poll env core tr)"

definition tell_to_start :: "nat \<Rightarrow> apic_error prog" where
  "tell_to_start core =
     andthen (effect (store_shared ''master_tells_core_to_start'' core 1)) (\<lambda>_. done_with error_none)"

definition timeout_count :: nat where [const_defs]: "timeout_count = 1000 div 50"

text \<open>The loop of the long poll, from turn \<open>i\<close> on; the first argument counts the turns left.\<close>

fun long_poll :: "flags \<Rightarrow> nat \<Rightarrow> nat \<Rightarrow> nat \<Rightarrow> apic_error prog" where
  "long_poll env core i 0 =
     andthen (effect (mprintf ''Boot timeout happened\<newline>'' [])) (\<lambda>_. done_with boot_core_timeout)"
| "long_poll env core i (Suc n) =
     andthen (start_timeout 50 False) (\<lambda>pit_err.
       if pit_err \<noteq> 0 then
         andthen (effect (mprintf ''There was an error waiting for the short timeout (In Long Poll), i = %u\<newline>'' [KU (of_nat i)]))
           (\<lambda>_. done_with bad_time)
       else andthen (polling env core) (\<lambda>booted.
         if booted then tell_to_start core else long_poll env core (Suc i) n))"

definition second_try :: "mhw \<Rightarrow> flags \<Rightarrow> u8 \<Rightarrow> u32 \<Rightarrow> apic_error prog" where
  "second_try hw env core_id core_bootstrap =
     andthen (call (send_sipi hw core_id core_bootstrap)) (\<lambda>apic_err.
       if apic_err \<noteq> error_none then done_with apic_err
       else long_poll env (unat core_id) 0 timeout_count)"

definition wake_core :: "mhw \<Rightarrow> flags \<Rightarrow> u8 \<Rightarrow> u32 \<Rightarrow> u32 \<Rightarrow> apic_error prog" where
  "wake_core hw env core_id core_bootstrap core_main =
     andthen (effect (mprintf ''Trying to wake %u\<newline>'' [KU (ucast core_id)])) (\<lambda>_.
     andthen (call (send_init hw core_id)) (\<lambda>apic_err.
     if apic_err \<noteq> error_none then done_with apic_err
     else andthen (effect (mprintf ''Core main = %h\<newline>'' [KU core_main])) (\<lambda>_.
     if \<not> unat core_id < MAX_CORE_COUNT then (\<lambda>tr. Some (Inl OutOfBounds, tr))
     else andthen (effect (store_shared ''core_mains'' (unat core_id) core_main)) (\<lambda>_.
     andthen (effect (pit_wait_ms 10)) (\<lambda>_.
     andthen (call (send_sipi hw core_id core_bootstrap)) (\<lambda>apic_err.
     if apic_err \<noteq> error_none then done_with apic_err
     else andthen (start_timeout 1 True) (\<lambda>pit_err.
     if pit_err \<noteq> 0 then
       andthen (effect (mprintf ''There was an error waiting for the short timeout\<newline>'' [])) (\<lambda>_. done_with bad_time)
     else andthen (polling env (unat core_id)) (\<lambda>booted.
     if booted then tell_to_start (unat core_id)
     else second_try hw env core_id core_bootstrap))))))))"

section \<open>The timers start\<close>

lemma timeout_code_short_timeout:
  "short_timeout_async debug seconds finished new_timeout s = ok (r, s') \<Longrightarrow> timeout_code seconds = ok r"
  by (auto simp: short_timeout_async_def timeout_code_def bindE_Inr_iff split: if_splits)

lemma timeout_code_ms:
  assumes "0 < ms" and "ms \<le> 53"
  shows "timeout_code (fdiv (of_nat ms) 1000) = ok 0"
proof -
  let ?t = "fdiv (of_nat ms) 1000"
  have "1 / 1000 \<le> rat_of_nat ms / 1000" "rat_of_nat ms / 1000 \<le> 53 / 1000" using assms by simp_all
  then have "0 < ?t" "?t \<le> 54 / 1000"
    using round_single_lower [of "rat_of_nat ms / 1000"] round_single_upper [of "rat_of_nat ms / 1000"]
    by (simp_all add: fdiv_def)
  then show ?thesis using split_short [of ?t] by (auto simp: timeout_code_def)
qed

lemma start_timeout_ok:
  "0 < ms \<Longrightarrow> ms \<le> 53 \<Longrightarrow> start_timeout ms new tr = Some (ok 0, MTimer ms new # tr)"
  by (simp add: start_timeout_def timeout_code_ms)

section \<open>The interrupts sent\<close>

text \<open>A local APIC that accepts every interrupt at once.\<close>

definition prompt :: "mhw \<Rightarrow> bool" where
  "prompt hw \<longleftrightarrow> (\<forall>tr. \<not> bit (hw tr (lapic_register command_low)) 12)"

lemma wait_accepted_prompt:
  "prompt hw \<Longrightarrow> 0 < n \<Longrightarrow> run (wait_accepted hw n) tr =
     (True, MRead (lapic_register command_low) (hw tr (lapic_register command_low)) # tr)"
  by (cases n) (simp_all add: run_bind prompt_def)

lemma prompt_accepted:
  "prompt hw \<Longrightarrow> run (accepted_or_timeout hw) tr =
     (ok error_none, MRead (lapic_register command_low) (hw tr (lapic_register command_low)) # tr)"
  by (simp add: accepted_or_timeout_def run_bind wait_accepted_prompt TIMEOUT_IPI_PENDING_def)

text \<open>The actions of a log that other parts of the machine see: writes to registers and stores to shared variables.\<close>

fun action_of :: "mmio_event \<Rightarrow> mmio_event list" where
  "action_of (MWrite p v) = [MWrite p v]"
| "action_of (MStore x i v) = [MStore x i v]"
| "action_of _ = []"

definition actions :: "mlog \<Rightarrow> mmio_event list" where
  "actions tr = concat (map action_of (rev tr))"

lemma actions_simps [simp]: "actions [] = []" "actions (e # tr) = actions tr @ action_of e"
  by (simp_all add: actions_def)

abbreviation command :: "interrupt_command_low_register \<Rightarrow> u8 \<Rightarrow> mmio_event list" where
  "command low target \<equiv>
     [MWrite (lapic_register command_high) (command_high_raw target),
      MWrite (lapic_register command_low) (command_low_raw low)]"

lemma send_init_prompt:
  assumes "prompt hw" and "core_id \<le> 15"
  shows "\<exists>tr'. run (send_init hw core_id) tr = (ok error_none, tr') \<and>
    actions tr' = actions tr @ command init_assert core_id @ command init_deassert core_id"
  using assms by (simp add: send_init_def run_bind run_bindS run_send_command prompt_accepted)

lemma send_sipi_prompt:
  assumes "prompt hw" and "core_id \<le> 15" and "cb < 0xFF000" and "cb AND 0xFFF = 0"
  shows "\<exists>tr'. run (send_sipi hw core_id cb) tr = (ok error_none, tr') \<and>
    actions tr' = actions tr @ command (start_up_at cb) core_id"
  using assms by (simp add: send_sipi_def run_bind run_send_command prompt_accepted)

section \<open>Polling\<close>

text \<open>One fruitless turn of a poll, and so many of them.\<close>

definition turn :: "nat \<Rightarrow> mlog \<Rightarrow> mlog" where
  "turn core tr = MLook ''finished'' 0 False # MLook ''core_has_booted'' core False # tr"

definition quiet :: "flags \<Rightarrow> nat \<Rightarrow> mlog \<Rightarrow> bool" where
  "quiet env core tr \<longleftrightarrow> \<not> env tr ''core_has_booted'' core \<and>
     \<not> env (MLook ''core_has_booted'' core False # tr) ''finished'' 0"

lemma poll_quiet: "quiet env core tr \<Longrightarrow> poll env core tr = poll env core (turn core tr)"
  by (subst poll.simps) (simp add: quiet_def turn_def)

lemma poll_turns:
  "(\<And>i. i < n \<Longrightarrow> quiet env core ((turn core ^^ i) tr)) \<Longrightarrow> poll env core tr = poll env core ((turn core ^^ n) tr)"
  by (induction n) (simp_all add: poll_quiet)

lemma poll_booted: "env tr ''core_has_booted'' core \<Longrightarrow> poll env core tr = Some (True, MLook ''core_has_booted'' core True # tr)"
  by (subst poll.simps) simp


lemma poll_never:
  assumes "\<And>tr. P tr \<Longrightarrow> quiet env core tr" and "\<And>tr. P tr \<Longrightarrow> P (turn core tr)" and "P tr"
  shows "poll env core tr = None"
proof -
  have "poll e c tr = Some y \<Longrightarrow> e \<noteq> env \<or> c \<noteq> core \<or> \<not> P tr" for e c tr y
  proof (induction e c tr y rule: poll.raw_induct [rotated, consumes 1, case_names unfold])
    case (unfold f e c tr y)
    show ?case
    proof (rule ccontr)
      assume "\<not> (e \<noteq> env \<or> c \<noteq> core \<or> \<not> P tr)"
      then have "e = env" "c = core" "P tr" by simp_all
      moreover from this have "f env core (turn core tr) = Some y"
        using unfold(2) assms(1) [of tr] by (simp add: quiet_def turn_def)
      ultimately show False using unfold(1) assms(2) by blast
    qed
  qed
  then have "poll env core tr \<noteq> Some y" for y using assms(3) by blast
  then show ?thesis by (metis option.exhaust)
qed

lemma actions_turns [simp]: "actions ((turn core ^^ n) tr) = actions tr"
  by (induction n) (simp_all add: turn_def)

section \<open>Waking a core\<close>

text \<open>What the boot processor has done when the first poll begins.\<close>

abbreviation first_actions :: "u8 \<Rightarrow> u32 \<Rightarrow> u32 \<Rightarrow> mmio_event list" where
  "first_actions core_id cb main \<equiv> command init_assert core_id @ command init_deassert core_id @
     [MStore ''core_mains'' (unat core_id) main] @ command (start_up_at cb) core_id"

lemma wake_core_first_poll:
  assumes "prompt hw" and "core_id < 12" and "cb < 0xFF000" and "cb AND 0xFFF = 0"
  shows "\<exists>tr1. actions tr1 = actions tr @ first_actions core_id cb main \<and>
    (\<forall>env. wake_core hw env core_id cb main tr =
      andthen (polling env (unat core_id)) (\<lambda>booted.
        if booted then tell_to_start (unat core_id) else second_try hw env core_id cb) (MTimer 1 True # tr1))"
proof -
  have small: "core_id \<le> 15" "unat core_id < MAX_CORE_COUNT"
    using assms(2) by (simp_all add: word_le_nat_alt word_less_nat_alt MAX_CORE_COUNT_def)
  obtain f where f: "run (send_init hw core_id) tr = (ok error_none, f tr)"
    "actions (f tr) = actions tr @ command init_assert core_id @ command init_deassert core_id" for tr
    using send_init_prompt [OF assms(1) small(1)] by metis
  obtain g where g: "run (send_sipi hw core_id cb) tr = (ok error_none, g tr)"
    "actions (g tr) = actions tr @ command (start_up_at cb) core_id" for tr
    using send_sipi_prompt [OF assms(1) small(1) assms(3,4)] by metis
  let ?tr = "g (MWait 10 # MStore ''core_mains'' (unat core_id) main # MPrint ''Core main = %h\<newline>'' [KU main] #
    f (MPrint ''Trying to wake %u\<newline>'' [KU (ucast core_id)] # tr))"
  have "wake_core hw env core_id cb main tr =
      andthen (polling env (unat core_id)) (\<lambda>booted.
        if booted then tell_to_start (unat core_id) else second_try hw env core_id cb) (MTimer 1 True # ?tr)" for env
    unfolding wake_core_def using small by (simp add: andthen_def f(1) g(1) start_timeout_ok)
  then show ?thesis by (intro exI [of _ ?tr]) (simp add: f(2) g(2))
qed

text \<open>
  (C8) Waking a core that boots. When the local APIC accepts the interrupts and the boot flag of the core is seen in some turn of
  the poll, before the timer has ended it, the call returns without error, and all it did to the outside is, in this order: INIT
  asserted and deasserted on that core, the core's main function stored, one start-up interrupt whose vector is the page of
  the boot code, and only after the core was seen, the flag that tells it to start.
\<close>

theorem wake_core_boots:
  assumes "prompt hw" and "core_id < 12" and "cb < 0xFF000" and "cb AND 0xFFF = 0"
    and "\<And>tr i. i < n \<Longrightarrow> quiet env (unat core_id) ((turn (unat core_id) ^^ i) (MTimer 1 True # tr))"
    and "\<And>tr. env ((turn (unat core_id) ^^ n) (MTimer 1 True # tr)) ''core_has_booted'' (unat core_id)"
  shows "\<exists>tr'. wake_core hw env core_id cb main tr = Some (ok error_none, tr') \<and>
    actions tr' = actions tr @ first_actions core_id cb main @ [MStore ''master_tells_core_to_start'' (unat core_id) 1] \<and>
    vector_number (start_up_at cb) = ucast (cb div 0x1000)"
proof -
  let ?c = "unat core_id"
  obtain tr1 where tr1: "actions tr1 = actions tr @ first_actions core_id cb main"
    "wake_core hw env core_id cb main tr =
      andthen (polling env ?c) (\<lambda>booted. if booted then tell_to_start ?c else second_try hw env core_id cb) (MTimer 1 True # tr1)"
    using wake_core_first_poll [OF assms(1-4)] by blast
  have "poll env ?c (MTimer 1 True # tr1) = poll env ?c ((turn ?c ^^ n) (MTimer 1 True # tr1))"
    by (rule poll_turns [OF assms(5)])
  then have "polling env ?c (MTimer 1 True # tr1) =
      Some (ok True, MLook ''core_has_booted'' ?c True # (turn ?c ^^ n) (MTimer 1 True # tr1))"
    unfolding polling_def by (simp only: poll_booted [of env, OF assms(6)]) simp
  then show ?thesis unfolding tr1(2)
    by (simp add: andthen_ok tell_to_start_def) (simp add: andthen_def tr1(1) start_up_at_def default_command_def)
qed

fun boots_second :: flags where
  "boots_second (MLook y j b # tr) x i = (x = ''core_has_booted'' \<and> y = ''finished'')"
| "boots_second _ x i = False"

theorem wake_core_boots_witness:
  "\<exists>tr'. wake_core (\<lambda>_ _. 0) boots_second 1 0x8000 0x10000 [] = Some (ok error_none, tr') \<and>
    actions tr' = [MWrite 0xFEE00310 0x01000000, MWrite 0xFEE00300 0x4500, MWrite 0xFEE00310 0x01000000,
      MWrite 0xFEE00300 0x8500, MStore ''core_mains'' 1 0x10000, MWrite 0xFEE00310 0x01000000,
      MWrite 0xFEE00300 0x4608, MStore ''master_tells_core_to_start'' 1 1]"
proof -
  have regs: "lapic_register command_high = 0xFEE00310" "lapic_register command_low = 0xFEE00300"
    "command_high_raw 1 = 0x01000000" "command_low_raw init_assert = 0x4500" "command_low_raw init_deassert = 0x8500"
    "command_low_raw (start_up_at 0x8000) = 0x4608"
    by (simp_all add: lapic_register_def lapic_address_def command_high_raw_def command_low_raw_def default_command_def
        init_assert_def init_deassert_def start_up_at_def delivery_init_def delivery_start_up_def)
  show ?thesis
    using wake_core_boots [where hw = "\<lambda>_ _. 0" and env = boots_second and core_id = 1 and cb = "0x8000" and n = 1
        and main = "0x10000" and tr = "[]"]
    by (simp add: prompt_def quiet_def turn_def regs) blast
qed

text \<open>
  \<open>finished\<close> is a variable of the timer component: once the handler has set it, only starting a timeout with
  \<open>new_timeout\<close> resets it (\<open>short_timeout_async\<close> with an existing message leaves memory as it is).
\<close>

definition settled :: "mlog \<Rightarrow> bool" where
  "settled tr \<longleftrightarrow> MLook ''finished'' 0 True \<in> set (takeWhile (\<lambda>e. \<forall>ms. e \<noteq> MTimer ms True) tr)"


lemma settled_Cons [simp]: "(\<And>ms. e \<noteq> MTimer ms True) \<Longrightarrow> settled (e # tr) \<longleftrightarrow> e = MLook ''finished'' 0 True \<or> settled tr"
  by (auto simp: settled_def)








text \<open>
  The interrupt flag of the boot processor, as the log determines it: \<open>pit::wait\<close> turns interrupts on to halt and leaves them
  on, and starting a timer turns them off (\<open>set_pit_count\<close>) and leaves them off; both are shown of the timer's
  own model (theory \<open>Pit\<close>). No other action here changes the flag. The variable \<open>finished\<close> is written by
  an interrupt handler only: it can be found set only if interrupts were on at some moment since it was last reset.
\<close>

fun interrupts_on :: "mlog \<Rightarrow> bool" where
  "interrupts_on [] = True"
| "interrupts_on (MWait ms # tr) = True"
| "interrupts_on (MTimer ms new_timeout # tr) = False"
| "interrupts_on (_ # tr) = interrupts_on tr"

fun may_be_finished :: "mlog \<Rightarrow> bool" where
  "may_be_finished [] = True"
| "may_be_finished (MTimer ms True # tr) = False"
| "may_be_finished (e # tr) = (interrupts_on (e # tr) \<or> may_be_finished tr)"

definition set_by_interrupt :: "flags \<Rightarrow> bool" where
  "set_by_interrupt env \<longleftrightarrow> (\<forall>tr. env tr ''finished'' 0 \<longrightarrow> may_be_finished tr)"

lemma off_turn:
  assumes "\<not> interrupts_on tr \<and> \<not> may_be_finished tr"
  shows "\<not> interrupts_on (turn core tr) \<and> \<not> may_be_finished (turn core tr)"
    and "\<not> may_be_finished (MLook ''core_has_booted'' core False # tr)"
  using assms by (simp_all add: turn_def)

text \<open>
  (C38) Waking a core that does not boot never comes back. Starting the first timer turns interrupts off, and nothing on the way
  into the poll or in it turns them on again; so the handler that would set \<open>finished\<close> does not run, and the poll waits
  for it forever. The poll is entered after the INIT and start-up interrupts have been sent as usual (whatever the flags
  would show then), with the timer started and interrupts off; the second start-up interrupt is never sent.
\<close>

theorem wake_core_hangs:
  assumes "prompt hw" and "core_id < 12" and "cb < 0xFF000" and "cb AND 0xFFF = 0"
    and "\<And>tr. \<not> env tr ''core_has_booted'' (unat core_id)" and "set_by_interrupt env"
  shows "wake_core hw env core_id cb main tr = None \<and>
    (\<exists>tr1. actions tr1 = actions tr @ first_actions core_id cb main \<and> \<not> interrupts_on (MTimer 1 True # tr1) \<and>
       poll env (unat core_id) (MTimer 1 True # tr1) = None \<and>
       (\<forall>env'. wake_core hw env' core_id cb main tr =
          andthen (polling env' (unat core_id)) (\<lambda>booted. if booted then tell_to_start (unat core_id)
            else second_try hw env' core_id cb) (MTimer 1 True # tr1)))"
proof -
  let ?c = "unat core_id"
  obtain tr1 where tr1: "actions tr1 = actions tr @ first_actions core_id cb main"
    "\<forall>env'. wake_core hw env' core_id cb main tr =
      andthen (polling env' ?c) (\<lambda>booted. if booted then tell_to_start ?c else second_try hw env' core_id cb) (MTimer 1 True # tr1)"
    using wake_core_first_poll [OF assms(1-4)] by blast
  have never: "poll env ?c (MTimer 1 True # tr1) = None"
  proof (rule poll_never [where P = "\<lambda>tr. \<not> interrupts_on tr \<and> \<not> may_be_finished tr"])
    show "quiet env ?c tr" if "\<not> interrupts_on tr \<and> \<not> may_be_finished tr" for tr
      using off_turn(2) [OF that] assms(5,6) unfolding quiet_def set_by_interrupt_def by blast
  qed (fact off_turn(1), simp)
  moreover have "wake_core hw env core_id cb main tr = None"
    using tr1(2) never by (simp add: andthen_None polling_def)
  ultimately show ?thesis using tr1 by (intro conjI exI [of _ tr1]) simp_all
qed

text \<open>A timer whose interrupt is taken as soon as interrupts are on.\<close>

definition prompt_timer :: flags where
  "prompt_timer tr x i = (x = ''finished'' \<and> may_be_finished tr)"

theorem wake_core_hangs_witness: "wake_core (\<lambda>_ _. 0) prompt_timer 1 0x8000 0x10000 [] = None"
  using wake_core_hangs [where hw = "\<lambda>_ _. 0" and env = prompt_timer and core_id = 1 and cb = "0x8000"
      and main = "0x10000" and tr = "[]"]
  by (simp add: prompt_def prompt_timer_def set_by_interrupt_def)

end
