(* ===== verification/Framebuffer.thy ===== *)
theory Framebuffer
  imports Port_IO Memory
begin

text \<open>
  The linear frame buffer (\<open>framebuffer/framebuffer.hpp\<close>, \<open>framebuffer/framebuffer.cpp\<close>): colours, single pixels,
  horizontal and vertical lines, rectangles, bitmaps and Bresenham's line algorithm (\<open>draw_line_quick\<close>).

  The buffer is a region of the flat memory. Pixel arithmetic is done as in C: 16-bit arguments are promoted to \<open>int\<close>, so
  that an index beyond \<open>INT_MAX\<close> has no meaning, and the address is computed modulo 2^32. \<open>debug\<close> selects the
  range checks that only debug builds have.
\<close>

section \<open>Colours and the buffer\<close>

record Color =
  blue :: u8
  green :: u8
  red :: u8
  alpha :: u8

definition Color_of_hex :: "u32 \<Rightarrow> Color" where
  "Color_of_hex hex = \<lparr>blue = ucast (hex AND 0xFF), green = ucast (drop_bit 8 hex AND 0xFF),
     red = ucast (drop_bit 16 hex AND 0xFF), alpha = ucast (drop_bit 24 hex AND 0xFF)\<rparr>"

definition color_raw :: "Color \<Rightarrow> u32" where
  "color_raw c = push_bit 24 (ucast (alpha c)) OR push_bit 16 (ucast (red c)) OR push_bit 8 (ucast (green c)) OR ucast (blue c)"

record FrameBuffer =
  fb_base_address :: addr
  fb_width :: u16
  fb_height :: u16
  fb_effective_pitch :: u16

definition fb_initialize :: "addr \<Rightarrow> u16 \<Rightarrow> u16 \<Rightarrow> u16 \<Rightarrow> FrameBuffer" where
  "fb_initialize base w h eff_pitch =
     \<lparr>fb_base_address = base, fb_width = w, fb_height = h, fb_effective_pitch = eff_pitch\<rparr>"

definition pixel_index :: "FrameBuffer \<Rightarrow> u16 \<Rightarrow> u16 \<Rightarrow> u32 exec" where
  "pixel_index fb x y =
     (let idx = unat y * unat (fb_effective_pitch fb) + unat x
      in if idx < 2 ^ 31 then ok (of_nat idx) else Inl Undefined)"

definition set_pixel :: "bool \<Rightarrow> FrameBuffer \<Rightarrow> u16 \<Rightarrow> u16 \<Rightarrow> Color \<Rightarrow> mem \<Rightarrow> (nat \<times> mem) exec" where
  "set_pixel debug fb x y color m =
     (if debug \<and> x > fb_width fb then ok (1, m)
      else if debug \<and> y > fb_height fb then ok (2, m)
      else bindE (pixel_index fb x y) (\<lambda>idx.
        ok (0, store m (fb_base_address fb + 4 * idx) (bytes32 (color_raw color)))))"

definition get_pixel :: "bool \<Rightarrow> FrameBuffer \<Rightarrow> u16 \<Rightarrow> u16 \<Rightarrow> mem \<Rightarrow> Color exec" where
  "get_pixel debug fb x y m =
     (if debug \<and> (x > fb_width fb \<or> y > fb_height fb) then Inl Abort
      else bindE (pixel_index fb x y) (\<lambda>idx. ok (Color_of_hex (read32 m (fb_base_address fb + 4 * idx)))))"

section \<open>Shapes\<close>

text \<open>
  The loops set one pixel after the other; in debug builds they return at the first pixel that is refused. The list has the
  coordinates in the order of the loops, and what colours them.
\<close>

fun draw_points :: "bool \<Rightarrow> FrameBuffer \<Rightarrow> (u16 \<times> u16 \<times> (mem \<Rightarrow> Color)) list \<Rightarrow> mem \<Rightarrow> (nat \<times> mem) exec" where
  "draw_points debug fb [] m = ok (0, m)"
| "draw_points debug fb ((x, y, c) # ps) m =
     bindE (set_pixel debug fb x y (c m) m) (\<lambda>(r, m'). if debug \<and> r \<noteq> 0 then ok (r, m') else draw_points debug fb ps m')"

record DrawHorizontalLineArgs =
  hl_y :: u16
  hl_x_start :: u16
  hl_x_end :: u16
  hl_color :: Color
  hl_thickness :: u16

definition draw_horizontal_line :: "bool \<Rightarrow> FrameBuffer \<Rightarrow> DrawHorizontalLineArgs \<Rightarrow> mem \<Rightarrow> (nat \<times> mem) exec" where
  "draw_horizontal_line debug fb args =
     draw_points debug fb
       [(of_nat x, hl_y args + of_nat thick_offset, \<lambda>_. hl_color args).
          thick_offset \<leftarrow> [0..<unat (hl_thickness args)], x \<leftarrow> [unat (hl_x_start args)..<unat (hl_x_end args)]]"

record DrawVerticalLineArgs =
  vl_x :: u16
  vl_y_start :: u16
  vl_y_end :: u16
  vl_color :: Color
  vl_thickness :: u16

definition draw_vertical_line :: "bool \<Rightarrow> FrameBuffer \<Rightarrow> DrawVerticalLineArgs \<Rightarrow> mem \<Rightarrow> (nat \<times> mem) exec" where
  "draw_vertical_line debug fb args =
     draw_points debug fb
       [(vl_x args + of_nat thick_offset, of_nat y, \<lambda>_. vl_color args).
          y \<leftarrow> [unat (vl_y_start args)..<unat (vl_y_end args)], thick_offset \<leftarrow> [0..<unat (vl_thickness args)]]"

record DrawRectangleArgs =
  rect_left :: u16
  rect_top :: u16
  rect_width :: u16
  rect_height :: u16
  rect_color :: Color

definition draw_rectangle :: "bool \<Rightarrow> FrameBuffer \<Rightarrow> DrawRectangleArgs \<Rightarrow> mem \<Rightarrow> (nat \<times> mem) exec" where
  "draw_rectangle debug fb args =
     draw_points debug fb
       [(of_nat x, of_nat y, \<lambda>_. rect_color args).
          y \<leftarrow> [unat (rect_top args)..<unat (rect_top args) + unat (rect_height args)],
          x \<leftarrow> [unat (rect_left args)..<unat (rect_left args) + unat (rect_width args)]]"

record Bitmap =
  bm_width :: u16
  bm_height :: u16
  bm_effective_pitch :: u16
  bm_data :: addr

text \<open>A colour in memory: the bytes blue, green, red, alpha.\<close>

definition color_at :: "mem \<Rightarrow> addr \<Rightarrow> Color" where
  "color_at m p = \<lparr>blue = m p, green = m (p + 1), red = m (p + 2), alpha = m (p + 3)\<rparr>"

definition draw_bitmap :: "bool \<Rightarrow> FrameBuffer \<Rightarrow> u16 \<Rightarrow> u16 \<Rightarrow> Bitmap \<Rightarrow> mem \<Rightarrow> (nat \<times> mem) exec" where
  "draw_bitmap debug fb top_left_x top_left_y bm =
     draw_points debug fb
       [(top_left_x + of_nat i, top_left_y + of_nat j,
         \<lambda>m. color_at m (bm_data bm + 4 * (of_nat j * ucast (bm_effective_pitch bm) + of_nat i))).
          j \<leftarrow> [0..<unat (bm_height bm)], i \<leftarrow> [0..<unat (bm_width bm)]]"

definition draw_rgb_lines :: "bool \<Rightarrow> FrameBuffer \<Rightarrow> u8 \<Rightarrow> u16 \<Rightarrow> mem \<Rightarrow> mem exec" where
  "draw_rgb_lines debug fb line_thickness starting_y m =
     (let line = (\<lambda>k c m. bindE (draw_horizontal_line debug fb
            \<lparr>hl_y = of_nat k * ucast line_thickness + starting_y, hl_x_start = 0, hl_x_end = fb_width fb,
             hl_color = Color_of_hex c, hl_thickness = ucast line_thickness\<rparr> m) (\<lambda>(_, m'). ok m'))
      in bindE (line 0 0xFF0000 m) (\<lambda>m. bindE (line 1 0x00FF00 m) (\<lambda>m. line 2 0x0000FF m)))"

section \<open>The line algorithm\<close>

text \<open>One turn of the loop after the pixel: the new position and error term.\<close>

definition line_step :: "int \<Rightarrow> int \<Rightarrow> int \<Rightarrow> int \<Rightarrow> int \<times> int \<times> int \<Rightarrow> int \<times> int \<times> int" where
  "line_step dx dy sx sy = (\<lambda>(x0, y0, err).
     let e2 = 2 * err;
         (x0', err') = (if e2 > - dy then (x0 + sx, err - dy) else (x0, err));
         (y0', err'') = (if e2 < dx then (y0 + sy, err' + dx) else (y0, err'))
     in (x0', y0', err''))"

partial_function (option) line_loop ::
    "bool \<Rightarrow> FrameBuffer \<Rightarrow> Color \<Rightarrow> int \<times> int \<Rightarrow> (int \<times> int \<times> int \<Rightarrow> int \<times> int \<times> int) \<Rightarrow> int \<times> int \<times> int \<Rightarrow> mem \<Rightarrow> mem exec option" where
  "line_loop debug fb color target step s m =
     (case s of (x0, y0, err) \<Rightarrow>
        case set_pixel debug fb (of_int x0) (of_int y0) color m of
          Inl e \<Rightarrow> Some (Inl e)
        | Inr (_, m') \<Rightarrow> if (x0, y0) = target then Some (ok m') else line_loop debug fb color target step (step s) m')"

definition draw_line_quick :: "bool \<Rightarrow> FrameBuffer \<Rightarrow> u16 \<Rightarrow> u16 \<Rightarrow> u16 \<Rightarrow> u16 \<Rightarrow> Color \<Rightarrow> mem \<Rightarrow> mem exec option" where
  "draw_line_quick debug fb ax0 ay0 ax1 ay1 color m =
     (let x0 = int (unat ax0); y0 = int (unat ay0); x1 = int (unat ax1); y1 = int (unat ay1);
          dx = \<bar>x1 - x0\<bar>; dy = \<bar>y1 - y0\<bar>;
          sx = (if x0 < x1 then 1 else - 1); sy = (if y0 < y1 then 1 else - 1)
      in line_loop debug fb color (x1, y1) (line_step dx dy sx sy) (x0, y0, dx - dy) m)"

section \<open>Pixels\<close>

lemma low_byte: "(0xFF :: u32) = mask 8"
  by (simp add: mask_eq_exp_minus_1)

lemma color_roundtrip [simp]: "Color_of_hex (color_raw c) = c"
proof (rule Color.equality)
  show "blue (Color_of_hex (color_raw c)) = blue c" "green (Color_of_hex (color_raw c)) = green c"
    "red (Color_of_hex (color_raw c)) = red c" "alpha (Color_of_hex (color_raw c)) = alpha c"
    unfolding Color_of_hex_def low_byte
    by (rule bit_word_eqI; auto simp: color_raw_def bit_simps dest: bit_imp_le_length)+
qed simp

text \<open>A buffer that lies in memory without wrapping round and has rows at least as long as they are wide.\<close>

definition fb_ok :: "FrameBuffer \<Rightarrow> bool" where
  "fb_ok fb \<longleftrightarrow> fb_width fb \<le> fb_effective_pitch fb \<and>
     unat (fb_base_address fb) + 4 * (unat (fb_effective_pitch fb) * unat (fb_height fb)) \<le> 2 ^ 32 \<and>
     unat (fb_effective_pitch fb) * unat (fb_height fb) < 2 ^ 31"

abbreviation on_screen :: "FrameBuffer \<Rightarrow> u16 \<Rightarrow> u16 \<Rightarrow> bool" where
  "on_screen fb x y \<equiv> x < fb_width fb \<and> y < fb_height fb"

definition pixel_addr :: "FrameBuffer \<Rightarrow> u16 \<Rightarrow> u16 \<Rightarrow> addr" where
  "pixel_addr fb x y = fb_base_address fb + 4 * of_nat (unat y * unat (fb_effective_pitch fb) + unat x)"

definition picture :: "FrameBuffer \<Rightarrow> mem \<Rightarrow> u16 \<Rightarrow> u16 \<Rightarrow> Color" where
  "picture fb m x y = Color_of_hex (read32 m (pixel_addr fb x y))"

lemma row_bound: "(x :: nat) < p \<Longrightarrow> y < h \<Longrightarrow> y * p + x < p * h"
proof -
  assume "x < p" "y < h"
  then have "y * p + x < Suc y * p" by simp
  also have "\<dots> \<le> h * p" using \<open>y < h\<close> by (intro mult_right_mono) simp_all
  finally show ?thesis by (simp add: mult.commute)
qed

lemma pixel_in_buffer:
  assumes "fb_ok fb" and "on_screen fb x y"
  shows "unat y * unat (fb_effective_pitch fb) + unat x < unat (fb_effective_pitch fb) * unat (fb_height fb)"
  using assms by (intro row_bound) (auto simp: fb_ok_def word_less_nat_alt word_le_nat_alt)

lemma unat_pixel_addr:
  assumes "fb_ok fb" and "on_screen fb x y"
  shows "unat (pixel_addr fb x y) =
    unat (fb_base_address fb) + 4 * (unat y * unat (fb_effective_pitch fb) + unat x)"
proof -
  let ?i = "unat y * unat (fb_effective_pitch fb) + unat x"
  have "unat (fb_base_address fb) + 4 * ?i < 2 ^ 32"
    using pixel_in_buffer [OF assms] assms(1) by (simp add: fb_ok_def)
  moreover have "pixel_addr fb x y = fb_base_address fb + of_nat (4 * ?i)" by (simp add: pixel_addr_def)
  ultimately show ?thesis by (simp only: unat_word_ariths unat_of_nat) simp
qed

lemma set_pixel_on_screen:
  assumes "fb_ok fb" and "on_screen fb x y"
  shows "set_pixel debug fb x y c m = ok (0, store m (pixel_addr fb x y) (bytes32 (color_raw c)))"
  using assms pixel_in_buffer [OF assms]
  by (auto simp: set_pixel_def pixel_index_def pixel_addr_def fb_ok_def Let_def)

lemma get_pixel_on_screen:
  "fb_ok fb \<Longrightarrow> on_screen fb x y \<Longrightarrow> get_pixel debug fb x y m = ok (picture fb m x y)"
  using pixel_in_buffer [of fb x y]
  by (auto simp: get_pixel_def pixel_index_def pixel_addr_def picture_def fb_ok_def Let_def)

lemma picture_set:
  assumes "fb_ok fb" and "on_screen fb x y" and "on_screen fb u v"
  shows "picture fb (store m (pixel_addr fb x y) (bytes32 (color_raw c))) u v = (if u = x \<and> v = y then c else picture fb m u v)"
proof (cases "u = x \<and> v = y")
  case True
  have "fetch (store m (pixel_addr fb x y) (bytes32 (color_raw c))) (pixel_addr fb x y) 4 = bytes32 (color_raw c)"
    using fetch_store [of "bytes32 (color_raw c)"] by simp
  then show ?thesis using True by (simp add: picture_def read32_fetch)
next
  case False
  let ?p = "unat (fb_effective_pitch fb)" and ?b = "unat (fb_base_address fb)"
  let ?i = "unat y * ?p + unat x" and ?j = "unat v * ?p + unat u"
  have xu: "unat x < ?p" "unat u < ?p" using assms by (auto simp: fb_ok_def word_less_nat_alt word_le_nat_alt)
  have "?i \<noteq> ?j"
  proof
    assume eq: "?i = ?j"
    have "?i div ?p = unat y" "?j div ?p = unat v" "?i mod ?p = unat x" "?j mod ?p = unat u" using xu by simp_all
    then have "unat v = unat y" "unat u = unat x" unfolding eq by simp_all
    then show False using False by (simp add: word_unat_eq_iff)
  qed
  moreover have "?j < ?p * unat (fb_height fb)" "?i < ?p * unat (fb_height fb)"
    using pixel_in_buffer assms by blast+
  ultimately have "apart (pixel_addr fb u v, bytes32 0) (pixel_addr fb x y, bytes32 0)"
    using assms unat_pixel_addr [OF assms(1,2)] unat_pixel_addr [OF assms(1,3)]
    by (simp add: apart_def offset_def unat_sub_if' fb_ok_def word_le_nat_alt) linarith
  then have "fetch (store m (pixel_addr fb x y) (bytes32 (color_raw c))) (pixel_addr fb u v) 4 =
      bytes32 (read32 m (pixel_addr fb u v))"
    by (simp add: apart_def fetch_store_apart flip: fetch_read32)
  then show ?thesis using False by (auto simp: picture_def read32_fetch)
qed

lemma draw_points_on_screen:
  assumes "fb_ok fb" and "\<And>x y f. (x, y, f) \<in> set ps \<Longrightarrow> on_screen fb x y \<and> f = (\<lambda>_. c)"
  shows "\<exists>m'. draw_points debug fb ps m = ok (0, m') \<and>
    (\<forall>u v. on_screen fb u v \<longrightarrow>
       picture fb m' u v = (if \<exists>f. (u, v, f) \<in> set ps then c else picture fb m u v))"
  using assms(2)
proof (induction ps arbitrary: m)
  case (Cons p ps)
  obtain x y f where p: "p = (x, y, f)" by (cases p)
  have xy: "on_screen fb x y" "f = (\<lambda>_. c)" using Cons.prems [of x y f] by (simp_all add: p)
  let ?m = "store m (pixel_addr fb x y) (bytes32 (color_raw c))"
  obtain m' where m': "draw_points debug fb ps ?m = ok (0, m')"
    "\<And>u v. on_screen fb u v \<Longrightarrow> picture fb m' u v = (if \<exists>f. (u, v, f) \<in> set ps then c else picture fb ?m u v)"
    using Cons.IH [of ?m] Cons.prems by force
  have "draw_points debug fb (p # ps) m = ok (0, m')"
    using m'(1) xy by (simp add: p set_pixel_on_screen [OF assms(1)])
  moreover have "picture fb m' u v = (if \<exists>f. (u, v, f) \<in> set (p # ps) then c else picture fb m u v)"
    if "on_screen fb u v" for u v
    using m'(2) [OF that] picture_set [OF assms(1) xy(1) that] by (auto simp: p)
  ultimately show ?case by blast
qed simp

lemma of_nat_u16_eq: "n < 2 ^ 16 \<Longrightarrow> (of_nat n :: u16) = w \<longleftrightarrow> n = unat w"
  by (auto simp: word_unat_eq_iff unat_of_nat)

lemma unat_u16_less: "unat (w :: u16) < 2 ^ 16"
  using unsigned_less [where w = w and 'a = nat] by simp

text \<open>
  \<open>draw_rectangle\<close> on a frame buffer that lies in memory, for a rectangle that is wholly on the screen: the call
  succeeds, every pixel of the rectangle has its colour, and every other pixel of the screen is as before.
\<close>

theorem draw_rectangle_fills:
  assumes "fb_ok fb" and "unat (rect_left args) + unat (rect_width args) \<le> unat (fb_width fb)"
    and "unat (rect_top args) + unat (rect_height args) \<le> unat (fb_height fb)"
  shows "\<exists>m'. draw_rectangle debug fb args m = ok (0, m') \<and>
    (\<forall>u v. on_screen fb u v \<longrightarrow> get_pixel debug fb u v m' = ok
       (if unat (rect_left args) \<le> unat u \<and> unat u < unat (rect_left args) + unat (rect_width args) \<and>
           unat (rect_top args) \<le> unat v \<and> unat v < unat (rect_top args) + unat (rect_height args)
        then rect_color args else picture fb m u v))"
proof -
  let ?ps = "[(of_nat x :: u16, of_nat y :: u16, \<lambda>_ :: mem. rect_color args).
    y \<leftarrow> [unat (rect_top args)..<unat (rect_top args) + unat (rect_height args)],
    x \<leftarrow> [unat (rect_left args)..<unat (rect_left args) + unat (rect_width args)]]"
  have small: "x < 2 ^ 16 \<and> y < 2 ^ 16" if "x < unat (rect_left args) + unat (rect_width args)"
    "y < unat (rect_top args) + unat (rect_height args)" for x y
    using that assms(2,3) unat_u16_less [of "fb_width fb"] unat_u16_less [of "fb_height fb"] by linarith
  have mem: "(\<exists>f. (u, v, f) \<in> set ?ps) \<longleftrightarrow>
      unat (rect_left args) \<le> unat u \<and> unat u < unat (rect_left args) + unat (rect_width args) \<and>
      unat (rect_top args) \<le> unat v \<and> unat v < unat (rect_top args) + unat (rect_height args)" for u v
  proof
    assume "\<exists>f. (u, v, f) \<in> set ?ps"
    then obtain x y where xy: "u = of_nat x" "v = of_nat y"
      "unat (rect_left args) \<le> x" "x < unat (rect_left args) + unat (rect_width args)"
      "unat (rect_top args) \<le> y" "y < unat (rect_top args) + unat (rect_height args)" by auto
    then have "unat u = x" "unat v = y" using small [of x y] by (simp_all add: unat_of_nat)
    then show "unat (rect_left args) \<le> unat u \<and> unat u < unat (rect_left args) + unat (rect_width args) \<and>
      unat (rect_top args) \<le> unat v \<and> unat v < unat (rect_top args) + unat (rect_height args)" using xy by simp
  next
    assume b: "unat (rect_left args) \<le> unat u \<and> unat u < unat (rect_left args) + unat (rect_width args) \<and>
      unat (rect_top args) \<le> unat v \<and> unat v < unat (rect_top args) + unat (rect_height args)"
    then show "\<exists>f. (u, v, f) \<in> set ?ps" by (auto intro!: exI bexI [of _ "unat v"] image_eqI [of _ _ "unat u"])
  qed
  have "on_screen fb x y \<and> f = (\<lambda>_. rect_color args)" if "(x, y, f) \<in> set ?ps" for x y f
    using that mem [of x y] assms(2,3) by (auto simp: word_less_nat_alt)
  then obtain m' where "draw_points debug fb ?ps m = ok (0, m')"
    "\<And>u v. on_screen fb u v \<Longrightarrow> picture fb m' u v = (if \<exists>f. (u, v, f) \<in> set ?ps then rect_color args else picture fb m u v)"
    using draw_points_on_screen [OF assms(1), of ?ps "rect_color args" debug m] by blast
  then show ?thesis unfolding draw_rectangle_def mem by (intro exI [of _ m']) (simp add: get_pixel_on_screen [OF assms(1)])
qed

theorem draw_rectangle_fills_witness:
  "\<exists>m'. draw_rectangle True (fb_initialize 0xFD000000 1024 768 1024)
      \<lparr>rect_left = 50, rect_top = 190, rect_width = 30, rect_height = 180, rect_color = Color_of_hex 0xFF00FF\<rparr> (\<lambda>_. 0) = ok (0, m') \<and>
    get_pixel True (fb_initialize 0xFD000000 1024 768 1024) 79 369 m' = ok (Color_of_hex 0xFF00FF) \<and>
    get_pixel True (fb_initialize 0xFD000000 1024 768 1024) 80 369 m' =
      ok (picture (fb_initialize 0xFD000000 1024 768 1024) (\<lambda>_. 0) 80 369)"
  using draw_rectangle_fills [where fb = "fb_initialize 0xFD000000 1024 768 1024" and debug = True and m = "\<lambda>_. 0"
      and args = "\<lparr>rect_left = 50, rect_top = 190, rect_width = 30, rect_height = 180, rect_color = Color_of_hex 0xFF00FF\<rparr>"]
  by (force simp: fb_ok_def fb_initialize_def)

section \<open>Lines\<close>

text \<open>
  \<open>i\<close> steps in the x direction and \<open>j\<close> in the y direction from the start: the error term is the
  distance \<open>dx * j - dy * i\<close> from the line, shifted by \<open>dx - dy\<close>, and stays within half of the longer side.
\<close>

definition line_at :: "int \<Rightarrow> int \<Rightarrow> int \<Rightarrow> int \<Rightarrow> int \<Rightarrow> int \<Rightarrow> nat \<Rightarrow> int \<times> int \<times> int \<Rightarrow> bool" where
  "line_at dx dy sx sy x0 y0 n s \<longleftrightarrow>
     (\<exists>i j e. s = (x0 + sx * i, y0 + sy * j, e + dx - dy) \<and> e = dx * j - dy * i \<and> 0 \<le> i \<and> 0 \<le> j \<and>
        (if dy \<le> dx then i = int n \<and> - dx \<le> 2 * e \<and> 2 * e < dx \<and> (dx = dy \<longrightarrow> e = 0)
         else j = int n \<and> - dy < 2 * e \<and> 2 * e \<le> dy))"

lemma line_atI:
  "s = (x0 + sx * i, y0 + sy * j, e + dx - dy) \<Longrightarrow> e = dx * j - dy * i \<Longrightarrow> 0 \<le> i \<Longrightarrow> 0 \<le> j \<Longrightarrow>
     (dy \<le> dx \<Longrightarrow> i = int n \<and> - dx \<le> 2 * e \<and> 2 * e < dx \<and> (dx = dy \<longrightarrow> e = 0)) \<Longrightarrow>
     (\<not> dy \<le> dx \<Longrightarrow> j = int n \<and> - dy < 2 * e \<and> 2 * e \<le> dy) \<Longrightarrow> line_at dx dy sx sy x0 y0 n s"
  unfolding line_at_def by auto

lemma line_step_cases:
  "line_step dx dy sx sy (x, y, e + dx - dy) =
     (if 2 * e > dy - 2 * dx then x + sx else x, if 2 * e < 2 * dy - dx then y + sy else y,
      e - (if 2 * e > dy - 2 * dx then dy else 0) + (if 2 * e < 2 * dy - dx then dx else 0) + dx - dy)"
  by (simp add: line_step_def Let_def)

lemma line_at_step:
  assumes "line_at dx dy sx sy x0 y0 n s" and "0 \<le> dx" and "0 \<le> dy" and "0 < dx \<or> 0 < dy"
  shows "line_at dx dy sx sy x0 y0 (Suc n) (line_step dx dy sx sy s)"
proof -
  obtain i j e where s: "s = (x0 + sx * i, y0 + sy * j, e + dx - dy)" "e = dx * j - dy * i" "0 \<le> i" "0 \<le> j"
    and inv: "if dy \<le> dx then i = int n \<and> - dx \<le> 2 * e \<and> 2 * e < dx \<and> (dx = dy \<longrightarrow> e = 0)
         else j = int n \<and> - dy < 2 * e \<and> 2 * e \<le> dy"
    using assms(1) unfolding line_at_def by blast
  have x: "2 * e > dy - 2 * dx" if "dy \<le> dx" using inv that assms(4) by (cases "dx = dy") auto
  have y: "2 * e < 2 * dy - dx" if "\<not> dy \<le> dx" using inv that by simp
  let ?X = "2 * e > dy - 2 * dx" and ?Y = "2 * e < 2 * dy - dx"
  show ?thesis
  proof (rule line_atI)
    show "line_step dx dy sx sy s = (x0 + sx * (i + of_bool ?X), y0 + sy * (j + of_bool ?Y),
        (e - (if ?X then dy else 0) + (if ?Y then dx else 0)) + dx - dy)"
      unfolding s(1) line_step_cases by (simp add: algebra_simps)
    show "e - (if ?X then dy else 0) + (if ?Y then dx else 0) = dx * (j + of_bool ?Y) - dy * (i + of_bool ?X)"
      by (simp add: s(2) algebra_simps)
  qed (use s(3,4) inv x y assms(2-4) in \<open>auto split: if_splits\<close>)
qed

lemma line_at_start: "0 \<le> dx \<Longrightarrow> 0 \<le> dy \<Longrightarrow> 0 < dx \<or> 0 < dy \<Longrightarrow> line_at dx dy sx sy x0 y0 0 (x0, y0, dx - dy)"
  unfolding line_at_def by (rule exI [of _ 0])+ auto

lemma line_at_steps:
  assumes "0 \<le> dx" and "0 \<le> dy" and "0 < dx \<or> 0 < dy"
  shows "line_at dx dy sx sy x0 y0 n ((line_step dx dy sx sy ^^ n) (x0, y0, dx - dy))"
  by (induction n) (simp_all add: line_at_start line_at_step assms)

text \<open>After as many steps as the longer side has, and not before, the end is reached.\<close>

lemma line_at_end:
  assumes "line_at dx dy sx sy x0 y0 n (x, y, err)" and "0 \<le> dx" and "0 \<le> dy" and "0 < dx \<or> 0 < dy" and "int n \<le> max dx dy"
    and "\<bar>sx\<bar> = 1" and "\<bar>sy\<bar> = 1"
  shows "\<exists>i j. x = x0 + sx * i \<and> y = y0 + sy * j \<and> 0 \<le> i \<and> i \<le> dx \<and> 0 \<le> j \<and> j \<le> dy \<and>
    2 * \<bar>dx * j - dy * i\<bar> \<le> max dx dy \<and> ((i = dx \<and> j = dy) = (int n = max dx dy))"
proof -
  obtain i j e where s: "x = x0 + sx * i" "y = y0 + sy * j" "0 \<le> i" "0 \<le> j" and e: "e = dx * j - dy * i"
    and inv: "if dy \<le> dx then i = int n \<and> - dx \<le> 2 * e \<and> 2 * e < dx \<and> (dx = dy \<longrightarrow> e = 0)
         else j = int n \<and> - dy < 2 * e \<and> 2 * e \<le> dy"
    using assms(1) unfolding line_at_def by blast
  show ?thesis
  proof (cases "dy \<le> dx")
    case True
    then have i: "i = int n" "- dx \<le> 2 * e" "2 * e < dx" using inv by simp_all
    have le: "i \<le> dx" "0 < dx" using assms(3-5) True i(1) by auto
    have "dy * i \<le> dy * dx" using le(1) assms(3) by (rule mult_left_mono)
    then have "dx * (2 * j) < dx * (1 + 2 * dy)" using i(3) by (simp add: e algebra_simps)
    then have jle: "j \<le> dy" using le(2) mult_less_cancel_left_pos by fastforce
    have "j = dy" if "i = dx"
    proof -
      have "dx * (- 1) \<le> dx * (2 * (j - dy))" using i(2) that by (simp add: e algebra_simps)
      then show ?thesis using jle le(2) mult_le_cancel_left_pos [of dx "- 1" "2 * (j - dy)"] by simp
    qed
    moreover have "2 * \<bar>dx * j - dy * i\<bar> \<le> max dx dy" using i(2,3) True unfolding e [symmetric] by (auto simp: abs_le_iff)
    ultimately show ?thesis using s i(1) le jle True by - (rule exI [of _ i], rule exI [of _ j], auto)
  next
    case False
    then have j: "j = int n" "- dy < 2 * e" "2 * e \<le> dy" using inv by simp_all
    have le: "j \<le> dy" "0 < dy" using assms(2,4,5) False j(1) by auto
    have "dx * j \<le> dx * dy" using le(1) assms(2) by (rule mult_left_mono)
    then have "dy * (2 * i) < dy * (1 + 2 * dx)" using j(2) by (simp add: e algebra_simps)
    then have ile: "i \<le> dx" using le(2) mult_less_cancel_left_pos by fastforce
    have "i = dx" if "j = dy"
    proof -
      have "dy * (2 * (dx - i)) \<le> dy * 1" using j(3) that by (simp add: e algebra_simps)
      then show ?thesis using ile le(2) mult_le_cancel_left_pos [of dy "2 * (dx - i)" 1] by simp
    qed
    moreover have "2 * \<bar>dx * j - dy * i\<bar> \<le> max dx dy" using j(2,3) False unfolding e [symmetric] by (auto simp: abs_le_iff)
    ultimately show ?thesis using s j(1) le ile False by - (rule exI [of _ i], rule exI [of _ j], auto)
  qed
qed

lemma coordinate:
  assumes "0 \<le> x" and "x < int (unat (w :: u16))"
  shows "(of_int x :: u16) < w" and "of_int x = u \<longleftrightarrow> x = int (unat (u :: u16))"
proof -
  have "int (unat w) < int (2 ^ 16)" unfolding of_nat_less_iff by (rule unat_u16_less)
  then have "x < 2 ^ 16" using assms(2) by simp
  then have n: "unat (of_int x :: u16) = nat x"
    using assms(1) by (simp add: unsigned_of_int take_bit_int_eq_self)
  show "(of_int x :: u16) < w" unfolding word_less_nat_alt n using assms by (simp only: nat_less_iff)
  show "of_int x = u \<longleftrightarrow> x = int (unat u)" unfolding word_unat_eq_iff n using assms(1) by linarith
qed

abbreviation position :: "int \<times> int \<times> int \<Rightarrow> int \<times> int" where
  "position s \<equiv> (fst s, fst (snd s))"

lemma line_loop_draws:
  assumes "fb_ok fb"
    and "\<And>k. k < n \<Longrightarrow> position ((step ^^ k) s) \<noteq> target" and "position ((step ^^ n) s) = target"
    and "\<And>k. k \<le> n \<Longrightarrow> 0 \<le> fst ((step ^^ k) s) \<and> fst ((step ^^ k) s) < int (unat (fb_width fb)) \<and>
      0 \<le> fst (snd ((step ^^ k) s)) \<and> fst (snd ((step ^^ k) s)) < int (unat (fb_height fb))"
  shows "\<exists>m'. line_loop debug fb c target step s m = Some (ok m') \<and>
    (\<forall>u v. on_screen fb u v \<longrightarrow> picture fb m' u v =
      (if \<exists>k \<le> n. position ((step ^^ k) s) = (int (unat u), int (unat v)) then c else picture fb m u v))"
  using assms(2-4)
proof (induction n arbitrary: s m)
  case 0
  obtain x y err where s: "s = (x, y, err)" by (cases s)
  have xy: "0 \<le> x" "x < int (unat (fb_width fb))" "0 \<le> y" "y < int (unat (fb_height fb))"
    using "0.prems"(3) [of 0] by (simp_all add: s)
  note c = coordinate [OF xy(1,2)] coordinate [OF xy(3,4)]
  have on: "on_screen fb (of_int x) (of_int y)" using c by blast
  have "line_loop debug fb c target step s m = Some (ok (store m (pixel_addr fb (of_int x) (of_int y)) (bytes32 (color_raw c))))"
    using "0.prems"(2) by (subst line_loop.simps) (simp add: s set_pixel_on_screen [OF assms(1) on])
  then show ?case by (auto simp: picture_set [OF assms(1) on] s c eq_commute [where b = "of_int _"])
next
  case (Suc n)
  obtain x y err where s: "s = (x, y, err)" by (cases s)
  have xy: "0 \<le> x" "x < int (unat (fb_width fb))" "0 \<le> y" "y < int (unat (fb_height fb))"
    using Suc.prems(3) [of 0] by (simp_all add: s)
  note c = coordinate [OF xy(1,2)] coordinate [OF xy(3,4)]
  have on: "on_screen fb (of_int x) (of_int y)" using c by blast
  let ?m = "store m (pixel_addr fb (of_int x) (of_int y)) (bytes32 (color_raw c))"
  have pow: "(step ^^ k) (step s) = (step ^^ Suc k) s" for k by (simp add: funpow_swap1)
  obtain m' where m': "line_loop debug fb c target step (step s) ?m = Some (ok m')"
    "\<And>u v. on_screen fb u v \<Longrightarrow> picture fb m' u v =
      (if \<exists>k \<le> n. position ((step ^^ Suc k) s) = (int (unat u), int (unat v)) then c else picture fb ?m u v)"
    using Suc.IH [of "step s" ?m] Suc.prems(1) [of "Suc _"] Suc.prems(2) Suc.prems(3) [of "Suc _"] unfolding pow by auto
  have "line_loop debug fb c target step s m = Some (ok m')"
    using Suc.prems(1) [of 0] m'(1) by (subst line_loop.simps) (simp add: s set_pixel_on_screen [OF assms(1) on])
  moreover have ex: "(\<exists>k \<le> Suc n. position ((step ^^ k) s) = p) \<longleftrightarrow>
      position s = p \<or> (\<exists>k \<le> n. position ((step ^^ Suc k) s) = p)" for p
    by (metis (no_types, lifting) Suc_le_mono funpow_0 le0 not0_implies_Suc)
  moreover have "picture fb m' u v =
      (if position s = (int (unat u), int (unat v)) \<or> (\<exists>k \<le> n. position ((step ^^ Suc k) s) = (int (unat u), int (unat v)))
       then c else picture fb m u v)" if "on_screen fb u v" for u v
    using m'(2) [OF that] picture_set [OF assms(1) on that] c by (auto simp: s)
  ultimately show ?case by (simp only: ex) blast
qed

lemma line_step_adjacent:
  "\<bar>sx\<bar> = 1 \<Longrightarrow> \<bar>sy\<bar> = 1 \<Longrightarrow> \<bar>fst (line_step dx dy sx sy s) - fst s\<bar> \<le> 1 \<and>
     \<bar>fst (snd (line_step dx dy sx sy s)) - fst (snd s)\<bar> \<le> 1"
  by (cases s) (simp add: line_step_def Let_def)

lemma line_point:
  assumes "0 \<le> dx" and "0 \<le> dy" and "\<bar>sx\<bar> = 1" and "\<bar>sy\<bar> = 1" and "k \<le> nat (max dx dy)"
  shows "\<exists>i j. position ((line_step dx dy sx sy ^^ k) (x0, y0, dx - dy)) = (x0 + sx * i, y0 + sy * j) \<and>
    0 \<le> i \<and> i \<le> dx \<and> 0 \<le> j \<and> j \<le> dy \<and> 2 * \<bar>dx * j - dy * i\<bar> \<le> max dx dy \<and>
    ((i = dx \<and> j = dy) = (k = nat (max dx dy)))"
proof (cases "0 < dx \<or> 0 < dy")
  case True
  obtain x y err where s: "(line_step dx dy sx sy ^^ k) (x0, y0, dx - dy) = (x, y, err)"
    by (cases "(line_step dx dy sx sy ^^ k) (x0, y0, dx - dy)")
  have k: "int k \<le> max dx dy" "(int k = max dx dy) = (k = nat (max dx dy))" using assms(1,2,5) by auto
  show ?thesis
    using line_at_end [OF line_at_steps [OF assms(1,2) True, of sx sy x0 y0 k, unfolded s] assms(1,2) True k(1) assms(3,4)]
    by (simp add: s k(2))
next
  case False
  then have "dx = 0" "dy = 0" "k = 0" using assms(1,2,5) by auto
  then show ?thesis by auto
qed

text \<open>The states of the loop for a line from one point to another, and how many there are before the last.\<close>

definition line_dir :: "int \<Rightarrow> int \<Rightarrow> int" where
  "line_dir a b = (if a < b then 1 else - 1)"

definition line_states :: "int \<Rightarrow> int \<Rightarrow> int \<Rightarrow> int \<Rightarrow> nat \<Rightarrow> int \<times> int \<times> int" where
  "line_states x0 y0 x1 y1 k =
     (line_step \<bar>x1 - x0\<bar> \<bar>y1 - y0\<bar> (line_dir x0 x1) (line_dir y0 y1) ^^ k) (x0, y0, \<bar>x1 - x0\<bar> - \<bar>y1 - y0\<bar>)"

definition line_side :: "int \<Rightarrow> int \<Rightarrow> int \<Rightarrow> int \<Rightarrow> int" where
  "line_side x0 y0 x1 y1 = max \<bar>x1 - x0\<bar> \<bar>y1 - y0\<bar>"

lemma line_dir_facts:
  "\<bar>line_dir a b\<bar> = 1" "b - a = line_dir a b * \<bar>b - a\<bar>"
  "0 \<le> i \<Longrightarrow> (a + line_dir a b * i = b) = (i = \<bar>b - a\<bar>)"
  "0 \<le> i \<Longrightarrow> i \<le> \<bar>b - a\<bar> \<Longrightarrow> 0 \<le> a \<Longrightarrow> 0 \<le> b \<Longrightarrow> a < c \<Longrightarrow> b < c \<Longrightarrow>
     0 \<le> a + line_dir a b * i \<and> a + line_dir a b * i < c"
  by (auto simp: line_dir_def)

lemma line_states_adjacent:
  "\<bar>fst (line_states x0 y0 x1 y1 (Suc k)) - fst (line_states x0 y0 x1 y1 k)\<bar> \<le> 1 \<and>
   \<bar>fst (snd (line_states x0 y0 x1 y1 (Suc k))) - fst (snd (line_states x0 y0 x1 y1 k))\<bar> \<le> 1"
  unfolding line_states_def funpow.simps(2) o_apply by (rule line_step_adjacent) (rule line_dir_facts)+

lemma line_states_point:
  assumes "k \<le> nat (line_side x0 y0 x1 y1)"
  obtains i j where "fst (line_states x0 y0 x1 y1 k) = x0 + line_dir x0 x1 * i"
    and "fst (snd (line_states x0 y0 x1 y1 k)) = y0 + line_dir y0 y1 * j"
    and "0 \<le> i" "i \<le> \<bar>x1 - x0\<bar>" "0 \<le> j" "j \<le> \<bar>y1 - y0\<bar>"
    and "2 * \<bar>\<bar>x1 - x0\<bar> * j - \<bar>y1 - y0\<bar> * i\<bar> \<le> line_side x0 y0 x1 y1"
    and "(i = \<bar>x1 - x0\<bar> \<and> j = \<bar>y1 - y0\<bar>) = (k = nat (line_side x0 y0 x1 y1))"
  using line_point [where sx = "line_dir x0 x1" and sy = "line_dir y0 y1" and ?x0.0 = x0 and ?y0.0 = y0,
      OF abs_ge_zero abs_ge_zero line_dir_facts(1,1) assms [unfolded line_side_def]]
  unfolding line_states_def line_side_def by auto

lemma line_states_reach:
  assumes "k \<le> nat (line_side x0 y0 x1 y1)"
  shows "position (line_states x0 y0 x1 y1 k) = (x1, y1) \<longleftrightarrow> k = nat (line_side x0 y0 x1 y1)"
  using assms by (rule line_states_point) (simp add: line_dir_facts(3))

lemma line_states_inside:
  assumes "k \<le> nat (line_side x0 y0 x1 y1)" and "0 \<le> x0" "0 \<le> x1" "0 \<le> y0" "0 \<le> y1" and "x0 < w" "x1 < w" "y0 < h" "y1 < h"
  shows "0 \<le> fst (line_states x0 y0 x1 y1 k) \<and> fst (line_states x0 y0 x1 y1 k) < w \<and>
    0 \<le> fst (snd (line_states x0 y0 x1 y1 k)) \<and> fst (snd (line_states x0 y0 x1 y1 k)) < h"
  using assms(1)
  by (rule line_states_point)
    (use line_dir_facts(4) [OF _ _ assms(2,3,6,7)] line_dir_facts(4) [OF _ _ assms(4,5,8,9)] in simp)

lemma line_states_near:
  assumes "k \<le> nat (line_side x0 y0 x1 y1)"
  shows "2 * \<bar>(x1 - x0) * (fst (snd (line_states x0 y0 x1 y1 k)) - y0) - (y1 - y0) * (fst (line_states x0 y0 x1 y1 k) - x0)\<bar>
    \<le> line_side x0 y0 x1 y1"
  using assms
proof (rule line_states_point)
  fix i j
  assume p: "fst (line_states x0 y0 x1 y1 k) = x0 + line_dir x0 x1 * i"
      "fst (snd (line_states x0 y0 x1 y1 k)) = y0 + line_dir y0 y1 * j"
    and near: "2 * \<bar>\<bar>x1 - x0\<bar> * j - \<bar>y1 - y0\<bar> * i\<bar> \<le> line_side x0 y0 x1 y1"
  define s t a b where "s = line_dir x0 x1" and "t = line_dir y0 y1" and "a = \<bar>x1 - x0\<bar>" and "b = \<bar>y1 - y0\<bar>"
  have "(s * a) * (t * j) - (t * b) * (s * i) = (s * t) * (a * j - b * i)" by (simp add: algebra_simps)
  moreover have "\<bar>s * t\<bar> = 1" by (simp add: s_def t_def abs_mult line_dir_facts(1))
  ultimately have "\<bar>(s * a) * (t * j) - (t * b) * (s * i)\<bar> = \<bar>a * j - b * i\<bar>" by (simp only: abs_mult) simp
  moreover have "x1 - x0 = s * a" "y1 - y0 = t * b" unfolding s_def t_def a_def b_def by (rule line_dir_facts)+
  moreover have "2 * \<bar>a * j - b * i\<bar> \<le> line_side x0 y0 x1 y1" using near unfolding a_def b_def .
  ultimately show ?thesis using p [folded s_def t_def] by simp
qed

lemma draw_line_quick_result:
  assumes "fb_ok fb" and "on_screen fb ax0 ay0" and "on_screen fb ax1 ay1"
    and "x0 = int (unat ax0)" "y0 = int (unat ay0)" "x1 = int (unat ax1)" "y1 = int (unat ay1)"
  shows "\<exists>m'. draw_line_quick debug fb ax0 ay0 ax1 ay1 c m = Some (ok m') \<and>
    (\<forall>u v. on_screen fb u v \<longrightarrow> picture fb m' u v =
      (if \<exists>k \<le> nat (line_side x0 y0 x1 y1). position (line_states x0 y0 x1 y1 k) = (int (unat u), int (unat v))
       then c else picture fb m u v))"
proof -
  let ?n = "nat (line_side x0 y0 x1 y1)"
  let ?step = "line_step \<bar>x1 - x0\<bar> \<bar>y1 - y0\<bar> (line_dir x0 x1) (line_dir y0 y1)"
  let ?s = "(x0, y0, \<bar>x1 - x0\<bar> - \<bar>y1 - y0\<bar>)"
  have in_range: "x0 < int (unat (fb_width fb))" "x1 < int (unat (fb_width fb))" "y0 < int (unat (fb_height fb))"
    "y1 < int (unat (fb_height fb))" "0 \<le> x0" "0 \<le> x1" "0 \<le> y0" "0 \<le> y1"
    using assms(2,3) unfolding assms(4-7) by (simp_all only: of_nat_less_iff word_less_nat_alt of_nat_0_le_iff)
  have "position (line_states x0 y0 x1 y1 k) \<noteq> (x1, y1)" if "k < ?n" for k
    using line_states_reach [of k x0 y0 x1 y1] that by simp
  moreover have "position (line_states x0 y0 x1 y1 ?n) = (x1, y1)" by (simp only: line_states_reach order_refl)
  ultimately have "\<exists>m'. line_loop debug fb c (x1, y1) ?step ?s m = Some (ok m') \<and>
    (\<forall>u v. on_screen fb u v \<longrightarrow> picture fb m' u v =
      (if \<exists>k \<le> ?n. position (line_states x0 y0 x1 y1 k) = (int (unat u), int (unat v)) then c else picture fb m u v))"
    using line_loop_draws [OF assms(1), of ?n ?step ?s "(x1, y1)" debug c m, folded line_states_def]
      line_states_inside [OF _ in_range(5-8,1-4)] by blast
  then show ?thesis unfolding draw_line_quick_def Let_def by (simp only: assms(4-7) line_dir_def)
qed

text \<open>What a line is: the path of the pixels coloured, and the other pixels.\<close>

definition line_path ::
    "bool \<Rightarrow> FrameBuffer \<Rightarrow> int \<times> int \<Rightarrow> int \<times> int \<Rightarrow> Color \<Rightarrow> mem \<Rightarrow> mem \<Rightarrow> (nat \<Rightarrow> int \<times> int) \<Rightarrow> bool" where
  "line_path debug fb from to c m m' path \<longleftrightarrow> (case (from, to) of ((x0, y0), (x1, y1)) \<Rightarrow>
    path 0 = (x0, y0) \<and> path (nat (line_side x0 y0 x1 y1)) = (x1, y1) \<and>
    (\<forall>k. \<bar>fst (path (Suc k)) - fst (path k)\<bar> \<le> 1 \<and> \<bar>snd (path (Suc k)) - snd (path k)\<bar> \<le> 1) \<and>
    (\<forall>k \<le> nat (line_side x0 y0 x1 y1).
       2 * \<bar>(x1 - x0) * (snd (path k) - y0) - (y1 - y0) * (fst (path k) - x0)\<bar> \<le> line_side x0 y0 x1 y1) \<and>
    (\<forall>u v. on_screen fb u v \<longrightarrow> get_pixel debug fb u v m' =
       ok (if \<exists>k \<le> nat (line_side x0 y0 x1 y1). path k = (int (unat u), int (unat v)) then c else picture fb m u v)))"

lemma line_path_drawn:
  assumes "fb_ok fb" and "on_screen fb ax0 ay0" and "on_screen fb ax1 ay1"
    and "x0 = int (unat ax0)" "y0 = int (unat ay0)" "x1 = int (unat ax1)" "y1 = int (unat ay1)"
  shows "\<exists>m' path. draw_line_quick debug fb ax0 ay0 ax1 ay1 c m = Some (ok m') \<and>
    line_path debug fb (x0, y0) (x1, y1) c m m' path"
proof -
  let ?path = "\<lambda>k. position (line_states x0 y0 x1 y1 k)"
  obtain m' where "draw_line_quick debug fb ax0 ay0 ax1 ay1 c m = Some (ok m')"
    "\<And>u v. on_screen fb u v \<Longrightarrow> picture fb m' u v =
      (if \<exists>k \<le> nat (line_side x0 y0 x1 y1). ?path k = (int (unat u), int (unat v)) then c else picture fb m u v)"
    using draw_line_quick_result [OF assms] by blast
  moreover have "?path 0 = (x0, y0)" by (simp add: line_states_def)
  moreover have "?path (nat (line_side x0 y0 x1 y1)) = (x1, y1)" by (simp only: line_states_reach order_refl)
  ultimately show ?thesis
    using line_states_adjacent [of x0 y0 x1 y1] line_states_near [of _ x0 y0 x1 y1] unfolding line_path_def
    by - (rule exI [of _ m'], rule exI [of _ ?path], simp add: get_pixel_on_screen [OF assms(1)])
qed

text \<open>
  (C9) \<open>draw_line_quick\<close>. Between two points on the screen of a frame buffer in memory the loop ends, after as many pixels as the
  longer of the two sides has, plus one. The pixels it colours are a path from the first point to the last in which neighbours are
  at most one apart in each direction and none is further than half a pixel from the ideal line (along the shorter side); every
  other pixel of the screen is as before.
\<close>

theorem draw_line_quick_draws:
  assumes "fb_ok fb" and "on_screen fb ax0 ay0" and "on_screen fb ax1 ay1"
    and "x0 = int (unat ax0)" "y0 = int (unat ay0)" "x1 = int (unat ax1)" "y1 = int (unat ay1)"
  shows "\<exists>m' path. draw_line_quick debug fb ax0 ay0 ax1 ay1 c m = Some (ok m') \<and>
    path 0 = (x0, y0) \<and> path (nat (line_side x0 y0 x1 y1)) = (x1, y1) \<and>
    (\<forall>k. \<bar>fst (path (Suc k)) - fst (path k)\<bar> \<le> 1 \<and> \<bar>snd (path (Suc k)) - snd (path k)\<bar> \<le> 1) \<and>
    (\<forall>k \<le> nat (line_side x0 y0 x1 y1).
       2 * \<bar>(x1 - x0) * (snd (path k) - y0) - (y1 - y0) * (fst (path k) - x0)\<bar> \<le> line_side x0 y0 x1 y1) \<and>
    (\<forall>u v. on_screen fb u v \<longrightarrow> get_pixel debug fb u v m' =
       ok (if \<exists>k \<le> nat (line_side x0 y0 x1 y1). path k = (int (unat u), int (unat v)) then c else picture fb m u v))"
  using line_path_drawn [OF assms, of debug c m] by (simp add: line_path_def)

theorem draw_line_quick_draws_witness:
  "\<exists>m' (path :: nat \<Rightarrow> int \<times> int). draw_line_quick True (fb_initialize 0xFD000000 1024 768 1024) 10 20 5 22 (Color_of_hex 0xFFFFFF) (\<lambda>_. 0) = Some (ok m') \<and>
    path 0 = (10, 20) \<and> path 5 = (5, 22)"
proof -
  let ?fb = "fb_initialize 0xFD000000 1024 768 1024"
  have side: "nat (line_side 10 20 5 22) = 5" by (simp add: line_side_def)
  have ok: "fb_ok ?fb" "on_screen ?fb 10 20" "on_screen ?fb 5 22" by (simp_all add: fb_ok_def fb_initialize_def)
  have n: "int (unat (10 :: u16)) = 10" "int (unat (20 :: u16)) = 20" "int (unat (5 :: u16)) = 5" "int (unat (22 :: u16)) = 22"
    by simp_all
  show ?thesis
    using draw_line_quick_draws [OF ok refl refl refl refl, of True "Color_of_hex 0xFFFFFF" "\<lambda>_. 0"] unfolding n side
    by (elim exE conjE) (rule exI, rule exI, intro conjI)
qed

section \<open>The range check of debug builds\<close>

text \<open>
  The check lets the first column and the first row past the screen through: the pixel to the right of a row is the first of the
  next row when the rows have no padding, and the pixel below the last row is the first word behind the buffer.
\<close>

lemma set_pixel_below_last_row:
  assumes "fb_ok fb"
  shows "set_pixel True fb 0 (fb_height fb) c m =
    ok (0, store m (fb_base_address fb + 4 * of_nat (unat (fb_effective_pitch fb) * unat (fb_height fb))) (bytes32 (color_raw c)))"
  using assms by (simp add: set_pixel_def pixel_index_def fb_ok_def Let_def mult.commute)

lemma set_pixel_right_of_row:
  assumes "fb_ok fb" and "fb_effective_pitch fb = fb_width fb" and "0 < fb_width fb" and "y + 1 < fb_height fb" and "y < fb_height fb"
  shows "\<exists>m'. set_pixel True fb (fb_width fb) y c m = ok (0, m') \<and> get_pixel True fb 0 (y + 1) m' = ok c"
proof -
  have y: "unat (y + 1) = Suc (unat y)" by (rule unat_add_one [OF assms(5)])
  have idx: "unat y * unat (fb_effective_pitch fb) + unat (fb_width fb) = unat (y + 1) * unat (fb_effective_pitch fb) + unat (0 :: u16)"
    by (simp add: y assms(2))
  have on: "on_screen fb 0 (y + 1)" using assms(3,4) by simp
  have small: "unat (y + 1) * unat (fb_effective_pitch fb) + unat (0 :: u16) < 2 ^ 31"
    using pixel_in_buffer [OF assms(1) on] assms(1) unfolding fb_ok_def by linarith
  have "set_pixel True fb (fb_width fb) y c m = ok (0, store m (pixel_addr fb 0 (y + 1)) (bytes32 (color_raw c)))"
    using small assms(5) by (simp add: set_pixel_def pixel_index_def pixel_addr_def idx Let_def)
  then show ?thesis
    by (auto simp: get_pixel_on_screen [OF assms(1) on] picture_set [OF assms(1) on on])
qed

end
