(* ===== verification/Mouse_Handler.thy ===== *)
theory Mouse_Handler
  imports Framebuffer
begin

text \<open>
  The interrupt handler of the PS/2 mouse (\<open>drivers/ps2/mouse/ps2_mouse_handler.cpp\<close> and \<open>ps2_mouse_handler_internal.hpp\<close>): it collects
  the three bytes of a packet, follows the buttons, moves the pointer, draws a line while the left button
  is down and picks up a colour with the right one.

  The globals are the record \<open>mouse\<close>; the numbers of the position are the 16-bit words of \<open>int16_t\<close>, and conversions back to \<open>int16_t\<close>
  wrap. The line is drawn by a loop of the frame buffer, so the handler is a partial function; see
  \<open>mouse_drag_draws\<close> for its return.
\<close>

section \<open>Packets and state\<close>

record first_packet =
  button_left :: bool
  button_right :: bool
  button_middle :: bool
  always_one :: bool
  x_axis_sign :: bool
  y_axis_sign :: bool
  x_axis_overflow :: bool
  y_axis_overflow :: bool

definition first_packet_of :: "u8 \<Rightarrow> first_packet" where
  "first_packet_of raw = \<lparr>button_left = bit raw 0, button_right = bit raw 1, button_middle = bit raw 2, always_one = bit raw 3,
     x_axis_sign = bit raw 4, y_axis_sign = bit raw 5, x_axis_overflow = bit raw 6, y_axis_overflow = bit raw 7\<rparr>"

definition first_packet_raw :: "first_packet \<Rightarrow> u8" where
  "first_packet_raw p = of_bool (button_left p) OR push_bit 1 (of_bool (button_right p)) OR
     push_bit 2 (of_bool (button_middle p)) OR push_bit 3 (of_bool (always_one p)) OR
     push_bit 4 (of_bool (x_axis_sign p)) OR push_bit 5 (of_bool (y_axis_sign p)) OR
     push_bit 6 (of_bool (x_axis_overflow p)) OR push_bit 7 (of_bool (y_axis_overflow p))"

record generic_3_packet =
  flags :: first_packet
  x_axis_movement :: u8
  y_axis_movement :: u8

record mouse_button_pressed =
  left_button :: bool
  middle_button :: bool
  right_button :: bool

record mouse_properties =
  mouse_x :: u16
  mouse_y :: u16
  mouse_color :: Color

record mouse =
  global_3_packet :: generic_3_packet
  packet_idx :: u8
  pressed :: mouse_button_pressed
  g_mouse_prop :: mouse_properties
  screen :: mem
  mouse_log :: iolog
  mouse_eois :: nat

definition sign_extend :: "u8 \<Rightarrow> bool \<Rightarrow> u16" where
  "sign_extend val neg = (if neg then ucast val OR 0xFF00 else ucast val)"

section \<open>The handler\<close>

text \<open>One button: whether it is down now and was before; the message of a press or a release.\<close>

definition button_message :: "string \<Rightarrow> bool \<Rightarrow> bool \<Rightarrow> iolog \<Rightarrow> iolog" where
  "button_message name now before tr =
     (if now \<and> \<not> before then snd (run (kprintf (''[First Press] '' @ name @ '' mouse button\<newline>'') []) tr)
      else if \<not> now \<and> before then snd (run (kprintf (''[Released  ] '' @ name @ '' mouse button\<newline>'') []) tr)
      else tr)"

definition move :: "u16 \<Rightarrow> u16 \<Rightarrow> u16" where
  "move old d = (if sint (old + d) < 0 then 0 else old + d)"

definition packet_delta :: "u8 \<Rightarrow> bool \<Rightarrow> bool \<Rightarrow> u16" where
  "packet_delta val neg overflow = (if overflow then 0 else sign_extend val neg)"

definition follow_buttons :: "first_packet \<Rightarrow> mouse \<Rightarrow> mouse" where
  "follow_buttons f s =
     s\<lparr>mouse_log := button_message ''Right'' (button_right f) (right_button (pressed s))
         (button_message ''Middle'' (button_middle f) (middle_button (pressed s))
           (button_message ''Left'' (button_left f) (left_button (pressed s)) (mouse_log s))),
       pressed := \<lparr>left_button = button_left f, middle_button = button_middle f, right_button = button_right f\<rparr>\<rparr>"

definition move_only :: "first_packet \<Rightarrow> mouse_button_pressed \<Rightarrow> bool" where
  "move_only f p \<longleftrightarrow> button_left f = left_button p \<and> button_middle f = middle_button p \<and> button_right f = right_button p"

definition pick_color :: "bool \<Rightarrow> FrameBuffer \<Rightarrow> mouse \<Rightarrow> mouse exec" where
  "pick_color debug fb s =
     bindE (get_pixel debug fb (mouse_x (g_mouse_prop s) + 1) (mouse_y (g_mouse_prop s)) (screen s)) (\<lambda>c.
       ok (s\<lparr>g_mouse_prop := (g_mouse_prop s)\<lparr>mouse_color := c\<rparr>\<rparr>))"

definition packet_done :: "bool \<Rightarrow> FrameBuffer \<Rightarrow> mouse \<Rightarrow> mouse exec option" where
  "packet_done debug fb s =
     (let p = global_3_packet s; f = flags p;
          dx = packet_delta (x_axis_movement p) (x_axis_sign f) (x_axis_overflow f);
          dy = packet_delta (y_axis_movement p) (y_axis_sign f) (y_axis_overflow f);
          quiet = move_only f (pressed s);
          s = (follow_buttons f s)\<lparr>packet_idx := 0\<rparr>;
          s = (if quiet then s\<lparr>mouse_log := snd (run (kprintf ''xmovement: %d, y_movement: %d\<newline>\<newline>'' [KI (sint dx), KI (sint dy)])
                 (mouse_log s))\<rparr> else s);
          prop = g_mouse_prop s;
          prop' = prop\<lparr>mouse_x := move (mouse_x prop) dx, mouse_y := move (mouse_y prop) (- dy)\<rparr>;
          s = s\<lparr>g_mouse_prop := prop'\<rparr>;
          pick = (\<lambda>s. Some (if button_right f then pick_color debug fb s else ok s))
      in if button_left f then
           (case draw_line_quick debug fb (mouse_x prop) (mouse_y prop) (mouse_x prop') (mouse_y prop') (mouse_color prop) (screen s) of
              None \<Rightarrow> None
            | Some (Inl e) \<Rightarrow> Some (Inl e)
            | Some (Inr m) \<Rightarrow> pick (s\<lparr>screen := m\<rparr>))
         else pick s)"

text \<open>The switch on \<open>packet_idx\<close>; other values abort in debug builds only.\<close>

definition take_byte :: "bool \<Rightarrow> u8 \<Rightarrow> mouse \<Rightarrow> mouse exec" where
  "take_byte debug scancode s =
     (let p = global_3_packet s
      in if packet_idx s = 0 then ok (s\<lparr>global_3_packet := p\<lparr>flags := first_packet_of scancode\<rparr>\<rparr>)
         else if packet_idx s = 1 then ok (s\<lparr>global_3_packet := p\<lparr>x_axis_movement := scancode\<rparr>\<rparr>)
         else if packet_idx s = 2 then ok (s\<lparr>global_3_packet := p\<lparr>y_axis_movement := scancode\<rparr>\<rparr>)
         else if debug then Inl Abort else ok s)"

definition mouse_handler :: "bool \<Rightarrow> FrameBuffer \<Rightarrow> u8 \<Rightarrow> u8 \<Rightarrow> mouse \<Rightarrow> mouse exec option" where
  "mouse_handler debug fb scancode port_number s =
     (case take_byte debug scancode s of
        Inl e \<Rightarrow> Some (Inl e)
      | Inr s \<Rightarrow>
          (case (if packet_idx s = 2 then packet_done debug fb s else Some (ok (s\<lparr>packet_idx := packet_idx s + 1\<rparr>))) of
             None \<Rightarrow> None
           | Some (Inl e) \<Rightarrow> Some (Inl e)
           | Some (Inr s) \<Rightarrow> Some (ok (s\<lparr>mouse_eois := mouse_eois s + 1\<rparr>))))"

fun mouse_bytes :: "bool \<Rightarrow> FrameBuffer \<Rightarrow> u8 \<Rightarrow> u8 list \<Rightarrow> mouse \<Rightarrow> mouse exec option" where
  "mouse_bytes debug fb port [] s = Some (ok s)"
| "mouse_bytes debug fb port (b # bs) s =
     (case mouse_handler debug fb b port s of
        None \<Rightarrow> None | Some (Inl e) \<Rightarrow> Some (Inl e) | Some (Inr s) \<Rightarrow> mouse_bytes debug fb port bs s)"

section \<open>Movement\<close>

text \<open>The movement a packet stands for: a nine-bit number, the sign in the first byte; 0 on overflow.\<close>

definition movement :: "u8 \<Rightarrow> bool \<Rightarrow> bool \<Rightarrow> int" where
  "movement val neg overflow = (if overflow then 0 else int (unat val) - (if neg then 256 else 0))"

lemma first_packet_roundtrip: "first_packet_raw (first_packet_of raw) = raw"
proof (rule bit_word_eqI)
  fix n
  assume "n < LENGTH(8)"
  then consider "n = 0" | "n = 1" | "n = 2" | "n = 3" | "n = 4" | "n = 5" | "n = 6" | "n = 7" by fastforce
  then show "bit (first_packet_raw (first_packet_of raw)) n = bit raw n"
    by cases (simp_all add: first_packet_raw_def first_packet_of_def bit_simps)
qed

lemma packet_delta_movement: "packet_delta val neg overflow = of_int (movement val neg overflow)"
proof -
  have val: "(ucast val :: u16) = of_int (int (unat val))" by simp
  have m: "0xFF00 = (push_bit 8 (mask 8) :: u16)" by (simp add: mask_eq_exp_minus_1)
  have "(ucast val :: u16) AND 0xFF00 = 0"
    unfolding m by (rule bit_word_eqI) (auto simp: bit_simps dest: bit_imp_le_length)
  then have "ucast val OR 0xFF00 = (ucast val + 0xFF00 :: u16)" using word_plus_and_or [of "ucast val :: u16" "0xFF00"] by (simp only: add_0)
  also have "\<dots> = ucast val - 256" by simp
  finally have or: "ucast val OR 0xFF00 = (of_int (int (unat val) - 256) :: u16)" by (simp only: val of_int_diff of_int_numeral)
  show ?thesis unfolding packet_delta_def sign_extend_def movement_def or by (simp only: val) simp
qed

lemma movement_range: "- 256 \<le> movement val neg overflow \<and> movement val neg overflow \<le> 255"
proof -
  have "0 \<le> int (unat val)" "int (unat val) < 256" using unsigned_less [where w = val and 'a = int] by simp_all
  then show ?thesis unfolding movement_def by (simp only: split: if_split) linarith
qed

lemma sint_of_int: "- 32768 \<le> k \<Longrightarrow> k < 32768 \<Longrightarrow> sint (of_int k :: u16) = k"
  by (simp add: signed_of_int signed_take_bit_int_eq_self)

text \<open>The conversion of a number to \<open>int16_t\<close>, and a coordinate after a movement: not left of or above the screen.\<close>

definition int16 :: "int \<Rightarrow> int" where
  "int16 k = (k + 2 ^ 15) mod 2 ^ 16 - 2 ^ 15"

definition moved :: "u16 \<Rightarrow> int \<Rightarrow> u16" where
  "moved old k = of_int (max 0 (int16 (sint old + k)))"

lemma move_moved:
  assumes "\<bar>k\<bar> \<le> 256"
  shows "move old (of_int k) = moved old k"
proof -
  have "sint (of_int k :: u16) = k" using assms by (intro sint_of_int) auto
  then have "sint (old + of_int k) = signed_take_bit 15 (sint old + k)" by (simp add: sint_word_add)
  also have "\<dots> = int16 (sint old + k)"
    by (simp add: int16_def signed_take_bit_eq_take_bit_shift take_bit_eq_mod)
  finally have sint: "sint (old + of_int k) = int16 (sint old + k)" .
  have "of_int (sint w) = w" for w :: u16 by simp
  from this [of "old + of_int k"] have w: "of_int (int16 (sint old + k)) = old + of_int k" unfolding sint .
  have "(if z < 0 then 0 else of_int z) = (of_int (max 0 z) :: u16)" for z by (simp add: max_def)
  from this [of "int16 (sint old + k)"] show ?thesis unfolding move_def moved_def sint w .
qed

lemma move_packet:
  "move old (packet_delta val neg overflow) = moved old (movement val neg overflow)"
  "move old (- packet_delta val neg overflow) = moved old (- movement val neg overflow)"
proof -
  have "\<bar>movement val neg overflow\<bar> \<le> 256" using movement_range [of val neg overflow] by auto
  then show "move old (packet_delta val neg overflow) = moved old (movement val neg overflow)"
    "move old (- packet_delta val neg overflow) = moved old (- movement val neg overflow)"
    using move_moved [of "movement val neg overflow" old] move_moved [of "- movement val neg overflow" old]
    by (simp_all add: packet_delta_movement)
qed

section \<open>A packet\<close>

definition packet_of :: "u8 \<Rightarrow> u8 \<Rightarrow> u8 \<Rightarrow> generic_3_packet" where
  "packet_of b0 b1 b2 = \<lparr>flags = first_packet_of b0, x_axis_movement = b1, y_axis_movement = b2\<rparr>"

lemma packet_of_updates:
  "p\<lparr>flags := first_packet_of b0, x_axis_movement := b1, y_axis_movement := b2\<rparr> = packet_of b0 b1 b2"
  by (rule generic_3_packet.equality) (simp_all add: packet_of_def)

lemma first_take:
  assumes "packet_idx s = 0"
  shows "mouse_handler debug fb b0 port s =
    Some (ok (s\<lparr>global_3_packet := (global_3_packet s)\<lparr>flags := first_packet_of b0\<rparr>, packet_idx := 1, mouse_eois := mouse_eois s + 1\<rparr>))"
  using assms by (simp add: mouse_handler_def take_byte_def Let_def)

lemma second_take:
  assumes "packet_idx s = 1"
  shows "mouse_handler debug fb b1 port s =
    Some (ok (s\<lparr>global_3_packet := (global_3_packet s)\<lparr>x_axis_movement := b1\<rparr>, packet_idx := 2, mouse_eois := mouse_eois s + 1\<rparr>))"
  using assms by (simp add: mouse_handler_def take_byte_def Let_def)

lemma third_take:
  assumes "packet_idx s = 2"
  shows "mouse_handler debug fb b2 port s =
    (case packet_done debug fb (s\<lparr>global_3_packet := (global_3_packet s)\<lparr>y_axis_movement := b2\<rparr>\<rparr>) of
       None \<Rightarrow> None | Some (Inl e) \<Rightarrow> Some (Inl e) | Some (Inr s) \<Rightarrow> Some (ok (s\<lparr>mouse_eois := mouse_eois s + 1\<rparr>)))"
  using assms by (simp add: mouse_handler_def take_byte_def Let_def)

lemma three_bytes:
  assumes "packet_idx s = 0"
  shows "mouse_bytes debug fb port [b0, b1, b2] s =
    (case packet_done debug fb (s\<lparr>global_3_packet := packet_of b0 b1 b2, packet_idx := 2, mouse_eois := mouse_eois s + 2\<rparr>) of
       None \<Rightarrow> None | Some (Inl e) \<Rightarrow> Some (Inl e) | Some (Inr s) \<Rightarrow> Some (ok (s\<lparr>mouse_eois := mouse_eois s + 1\<rparr>)))"
proof -
  let ?s1 = "s\<lparr>global_3_packet := (global_3_packet s)\<lparr>flags := first_packet_of b0\<rparr>, packet_idx := 1, mouse_eois := mouse_eois s + 1\<rparr>"
  let ?s2 = "?s1\<lparr>global_3_packet := (global_3_packet ?s1)\<lparr>x_axis_movement := b1\<rparr>, packet_idx := 2, mouse_eois := mouse_eois ?s1 + 1\<rparr>"
  have "?s2\<lparr>global_3_packet := (global_3_packet ?s2)\<lparr>y_axis_movement := b2\<rparr>\<rparr> =
      s\<lparr>global_3_packet := packet_of b0 b1 b2, packet_idx := 2, mouse_eois := mouse_eois s + 2\<rparr>"
    by (simp add: packet_of_updates)
  moreover have "mouse_handler debug fb b1 port ?s1 = Some (ok ?s2)" by (rule second_take) simp
  moreover note third_take [of ?s2 debug fb b2 port]
  ultimately show ?thesis
    by (simp add: first_take [OF assms] split: option.split sum.split)
qed

text \<open>The outcome of a packet, from what drawing and picking a colour yield.\<close>

lemma packet_outcome:
  assumes "packet_idx s = 0" and "old = g_mouse_prop s"
    and "nx = moved (mouse_x old) (movement b1 (bit b0 4) (bit b0 6))"
    and "ny = moved (mouse_y old) (- movement b2 (bit b0 5) (bit b0 7))"
    and "if bit b0 0 then draw_line_quick debug fb (mouse_x old) (mouse_y old) nx ny (mouse_color old) (screen s) = Some (ok m)
      else m = screen s"
    and "if bit b0 1 then get_pixel debug fb (nx + 1) ny m = ok c else c = mouse_color old"
  shows "\<exists>s'. mouse_bytes debug fb port [b0, b1, b2] s = Some (ok s') \<and> packet_idx s' = 0 \<and> screen s' = m \<and>
    g_mouse_prop s' = \<lparr>mouse_x = nx, mouse_y = ny, mouse_color = c\<rparr> \<and>
    pressed s' = \<lparr>left_button = bit b0 0, middle_button = bit b0 2, right_button = bit b0 1\<rparr> \<and>
    mouse_eois s' = mouse_eois s + 3"
proof -
  let ?s = "s\<lparr>global_3_packet := packet_of b0 b1 b2, packet_idx := 2, mouse_eois := mouse_eois s + 2\<rparr>"
  have move: "move (mouse_x (g_mouse_prop s)) (packet_delta b1 (bit b0 4) (bit b0 6)) = nx"
    "move (mouse_y (g_mouse_prop s)) (- packet_delta b2 (bit b0 5) (bit b0 7)) = ny"
    using assms(2-4) by (simp_all only: move_packet)
  have bits: "bit b0 0 = l \<Longrightarrow> bit b0 1 = r \<Longrightarrow> ?thesis" for l r
    unfolding three_bytes [OF assms(1)]
    using assms(2,5,6)
    by (cases l; cases r)
       (simp_all add: packet_done_def packet_of_def first_packet_of_def follow_buttons_def pick_color_def move bindE_def Let_def)
  then show ?thesis by blast
qed

lemma picked:
  assumes "r \<longrightarrow> fb_ok fb \<and> on_screen fb x y" and "c = (if r then picture fb m x y else c0)"
  shows "if r then get_pixel debug fb x y m = ok c else c = c0"
  using assms get_pixel_on_screen [of fb x y debug m] by simp

text \<open>
  (C16) A packet of the mouse, with any buttons and at any position: the three bytes are taken one per interrupt, each of which is
  acknowledged. After the third the pointer has moved by the two signed nine-bit numbers of the packet (none on overflow), up
  for a positive second number, as a 16-bit number that stops at the upper and left edges; all three buttons are recorded as the
  packet has them, and the handler is ready for the next packet. The colour is kept, or, with the right button, that of the
  pixel to the right of the new position on the picture as it is then; the picture is as before unless the left
  button is down. Where the packet draws or picks a colour, the positions it uses are on the screen of a frame buffer in memory;
  otherwise nothing is asked of the screen.
\<close>

theorem mouse_packet_moves:
  assumes "packet_idx s = 0" and "old = g_mouse_prop s"
    and "nx = moved (mouse_x old) (movement b1 (bit b0 4) (bit b0 6))"
    and "ny = moved (mouse_y old) (- movement b2 (bit b0 5) (bit b0 7))"
    and "bit b0 0 \<longrightarrow> fb_ok fb \<and> on_screen fb (mouse_x old) (mouse_y old) \<and> on_screen fb nx ny"
    and "bit b0 1 \<longrightarrow> fb_ok fb \<and> on_screen fb (nx + 1) ny"
  shows "\<exists>s'. mouse_bytes debug fb port [b0, b1, b2] s = Some (ok s') \<and> packet_idx s' = 0 \<and>
    mouse_eois s' = mouse_eois s + 3 \<and> mouse_x (g_mouse_prop s') = nx \<and> mouse_y (g_mouse_prop s') = ny \<and>
    pressed s' = \<lparr>left_button = bit b0 0, middle_button = bit b0 2, right_button = bit b0 1\<rparr> \<and>
    mouse_color (g_mouse_prop s') = (if bit b0 1 then picture fb (screen s') (nx + 1) ny else mouse_color old) \<and>
    (\<not> bit b0 0 \<longrightarrow> screen s' = screen s)"
proof -
  obtain m where m: "if bit b0 0 then draw_line_quick debug fb (mouse_x old) (mouse_y old) nx ny (mouse_color old) (screen s) = Some (ok m)
      else m = screen s"
  proof (cases "bit b0 0")
    case True
    then show ?thesis
      using that draw_line_quick_result [OF _ _ _ refl refl refl refl, of fb "mouse_x old" "mouse_y old" nx ny debug "mouse_color old" "screen s"]
        assms(5) by auto
  qed simp
  obtain c where c: "c = (if bit b0 1 then picture fb m (nx + 1) ny else mouse_color old)" by blast
  obtain s' where "mouse_bytes debug fb port [b0, b1, b2] s = Some (ok s')" "packet_idx s' = 0" "screen s' = m"
    "g_mouse_prop s' = \<lparr>mouse_x = nx, mouse_y = ny, mouse_color = c\<rparr>"
    "pressed s' = \<lparr>left_button = bit b0 0, middle_button = bit b0 2, right_button = bit b0 1\<rparr>"
    "mouse_eois s' = mouse_eois s + 3"
    using packet_outcome [OF assms(1-4) m picked [OF assms(6) c]] by blast
  then show ?thesis using m c by (intro exI [of _ s']) simp
qed

abbreviation example_mouse :: mouse where
  "example_mouse \<equiv> \<lparr>global_3_packet = packet_of 8 0 0, packet_idx = 0,
     pressed = \<lparr>left_button = False, middle_button = False, right_button = False\<rparr>,
     g_mouse_prop = \<lparr>mouse_x = 100, mouse_y = 200, mouse_color = Color_of_hex 7\<rparr>, screen = \<lambda>_. 0, mouse_log = [], mouse_eois = 0\<rparr>"

theorem mouse_packet_moves_witness:
  "\<exists>s'. mouse_bytes True (fb_initialize 0x10000 1024 768 1024) 2 [0x3A, 0xFB, 0xF6] example_mouse = Some (ok s') \<and>
     mouse_x (g_mouse_prop s') = 95 \<and> mouse_y (g_mouse_prop s') = 210 \<and> right_button (pressed s') \<and> \<not> left_button (pressed s')"
proof -
  have nx: "95 = moved 100 (movement 0xFB (bit (0x3A :: u8) 4) (bit (0x3A :: u8) 6))"
    and ny: "210 = moved 200 (- movement 0xF6 (bit (0x3A :: u8) 5) (bit (0x3A :: u8) 7))"
    by (simp_all add: movement_def moved_def int16_def)
  show ?thesis
    using mouse_packet_moves [where ?b0.0 = "0x3A" and ?b1.0 = "0xFB" and ?b2.0 = "0xF6" and port = 2 and debug = True
      and fb = "fb_initialize 0x10000 1024 768 1024" and s = example_mouse and nx = 95 and ny = 210, OF _ refl] nx ny
    by (auto simp: fb_ok_def fb_initialize_def)
qed

text \<open>
  (C17) Dragging with the left button, between two positions on the screen, whatever the other buttons are: the handler returns,
  with the pointer at the new position, and has drawn, in the colour the pointer had, a line from the old position to the new:
  a path of as many pixels as the longer side has, plus one, in which neighbours are at most one apart in each direction and none
  is further than half a pixel from the ideal line. Every other pixel of the screen is as before. (With the right
  button, the pixel whose colour is picked up then is on the screen, too.)
\<close>

theorem mouse_drag_draws:
  assumes "packet_idx s = 0" and "bit b0 0" and "fb_ok fb" and "old = g_mouse_prop s"
    and "nx = moved (mouse_x old) (movement b1 (bit b0 4) (bit b0 6))"
    and "ny = moved (mouse_y old) (- movement b2 (bit b0 5) (bit b0 7))"
    and "on_screen fb (mouse_x old) (mouse_y old)" and "on_screen fb nx ny" and "bit b0 1 \<longrightarrow> on_screen fb (nx + 1) ny"
    and "x0 = int (unat (mouse_x old))" "y0 = int (unat (mouse_y old))" "x1 = int (unat nx)" "y1 = int (unat ny)"
  shows "\<exists>s' path. mouse_bytes debug fb port [b0, b1, b2] s = Some (ok s') \<and> packet_idx s' = 0 \<and>
    mouse_x (g_mouse_prop s') = nx \<and> mouse_y (g_mouse_prop s') = ny \<and> left_button (pressed s') \<and>
    path 0 = (x0, y0) \<and> path (nat (line_side x0 y0 x1 y1)) = (x1, y1) \<and>
    (\<forall>k. \<bar>fst (path (Suc k)) - fst (path k)\<bar> \<le> 1 \<and> \<bar>snd (path (Suc k)) - snd (path k)\<bar> \<le> 1) \<and>
    (\<forall>k \<le> nat (line_side x0 y0 x1 y1).
       2 * \<bar>(x1 - x0) * (snd (path k) - y0) - (y1 - y0) * (fst (path k) - x0)\<bar> \<le> line_side x0 y0 x1 y1) \<and>
    (\<forall>u v. on_screen fb u v \<longrightarrow> get_pixel debug fb u v (screen s') =
       ok (if \<exists>k \<le> nat (line_side x0 y0 x1 y1). path k = (int (unat u), int (unat v)) then mouse_color old
           else picture fb (screen s) u v))"
proof -
  obtain m path where m: "draw_line_quick debug fb (mouse_x old) (mouse_y old) nx ny (mouse_color old) (screen s) = Some (ok m)"
    and path: "line_path debug fb (x0, y0) (x1, y1) (mouse_color old) (screen s) m path"
    using line_path_drawn [OF assms(3,7,8,10-13)] by blast
  obtain c where c: "c = (if bit b0 1 then picture fb m (nx + 1) ny else mouse_color old)" by blast
  have "bit b0 1 \<longrightarrow> fb_ok fb \<and> on_screen fb (nx + 1) ny" using assms(3,9) by blast
  from picked [OF this c] obtain s' where "mouse_bytes debug fb port [b0, b1, b2] s = Some (ok s')" "packet_idx s' = 0"
    "screen s' = m" "g_mouse_prop s' = \<lparr>mouse_x = nx, mouse_y = ny, mouse_color = c\<rparr>"
    "pressed s' = \<lparr>left_button = bit b0 0, middle_button = bit b0 2, right_button = bit b0 1\<rparr>"
    using packet_outcome [OF assms(1,4-6), of debug fb m] m assms(2) by (simp only: if_True) blast
  then show ?thesis using path unfolding line_path_def by (intro exI [of _ s'] exI [of _ path]) (simp add: assms(2))
qed

theorem mouse_drag_draws_witness:
  "\<exists>s' (path :: nat \<Rightarrow> int \<times> int).
      mouse_bytes True (fb_initialize 0x10000 1024 768 1024) 2 [0x0B, 3, 2] example_mouse = Some (ok s') \<and>
      path 0 = (100, 200) \<and> path 3 = (103, 198)"
proof -
  let ?fb = "fb_initialize 0x10000 1024 768 1024"
  have nx: "103 = moved 100 (movement 3 (bit (0x0B :: u8) 4) (bit (0x0B :: u8) 6))"
    and ny: "198 = moved 200 (- movement 2 (bit (0x0B :: u8) 5) (bit (0x0B :: u8) 7))"
    by (simp_all add: movement_def moved_def int16_def)
  have ok: "fb_ok ?fb" "on_screen ?fb 100 200" "on_screen ?fb 103 198" "on_screen ?fb (103 + 1) 198"
    by (simp_all add: fb_ok_def fb_initialize_def)
  have "nat (line_side 100 200 103 198) = 3" by (simp add: line_side_def)
  then show ?thesis
    using mouse_drag_draws [where ?b0.0 = "0x0B" and ?b1.0 = 3 and ?b2.0 = 2 and port = 2 and debug = True and nx = 103 and ny = 198
      and fb = ?fb and s = example_mouse, OF _ _ ok(1) refl _ _ _ ok(3) _ refl refl refl refl] nx ny ok
    by auto
qed

end
