(* ===== verification/Keycodes.thy ===== *)
theory Keycodes
  imports Keyboard_Handler
begin

text \<open>
  The C++ part of the keyboard driver (\<open>drivers/ps2/keyboard/cpp\<close>): key codes (a position on the keyboard, packed
  into a byte), the tables from scan codes to key codes, from key codes to names and to characters, and
  \<open>keycode_handler\<close>, to which the interrupt handler reports every key.

  \<open>Key\<close> is an enumeration over a byte; key codes read from a device are cast to it, so it is the byte here and its
  enumerators are constants. The tables are the state \<open>keytables\<close>, filled by assignments that the \<open>init\<close> functions make one after the other;
  an index outside of a table is \<open>Inl OutOfBounds\<close>, a name that was never set is a null pointer, \<open>None\<close>.
\<close>

named_theorems key_defs

section \<open>Key codes\<close>

record KeyCode =
  right :: "5 word"
  down :: "3 word"

definition pack_keycode_raw :: "KeyCode \<Rightarrow> u8" where
  "pack_keycode_raw keycode = push_bit 5 (ucast (down keycode)) OR (ucast (right keycode) AND 0x1F)"

definition KEY_ESC :: u8 where [key_defs]: "KEY_ESC = pack_keycode_raw \<lparr>right = 0, down = 0\<rparr>"
definition KEY_F1 :: u8 where [key_defs]: "KEY_F1 = pack_keycode_raw \<lparr>right = 1, down = 0\<rparr>"
definition KEY_F2 :: u8 where [key_defs]: "KEY_F2 = pack_keycode_raw \<lparr>right = 2, down = 0\<rparr>"
definition KEY_F3 :: u8 where [key_defs]: "KEY_F3 = pack_keycode_raw \<lparr>right = 3, down = 0\<rparr>"
definition KEY_F4 :: u8 where [key_defs]: "KEY_F4 = pack_keycode_raw \<lparr>right = 4, down = 0\<rparr>"
definition KEY_F5 :: u8 where [key_defs]: "KEY_F5 = pack_keycode_raw \<lparr>right = 5, down = 0\<rparr>"
definition KEY_F6 :: u8 where [key_defs]: "KEY_F6 = pack_keycode_raw \<lparr>right = 6, down = 0\<rparr>"
definition KEY_F7 :: u8 where [key_defs]: "KEY_F7 = pack_keycode_raw \<lparr>right = 7, down = 0\<rparr>"
definition KEY_F8 :: u8 where [key_defs]: "KEY_F8 = pack_keycode_raw \<lparr>right = 8, down = 0\<rparr>"
definition KEY_F9 :: u8 where [key_defs]: "KEY_F9 = pack_keycode_raw \<lparr>right = 9, down = 0\<rparr>"
definition KEY_F10 :: u8 where [key_defs]: "KEY_F10 = pack_keycode_raw \<lparr>right = 10, down = 0\<rparr>"
definition KEY_F11 :: u8 where [key_defs]: "KEY_F11 = pack_keycode_raw \<lparr>right = 11, down = 0\<rparr>"
definition KEY_F12 :: u8 where [key_defs]: "KEY_F12 = pack_keycode_raw \<lparr>right = 12, down = 0\<rparr>"
definition KEY_PRINTSCR :: u8 where [key_defs]: "KEY_PRINTSCR = pack_keycode_raw \<lparr>right = 13, down = 0\<rparr>"
definition KEY_SCROLLLOCK :: u8 where [key_defs]: "KEY_SCROLLLOCK = pack_keycode_raw \<lparr>right = 14, down = 0\<rparr>"
definition KEY_PAUSE :: u8 where [key_defs]: "KEY_PAUSE = pack_keycode_raw \<lparr>right = 15, down = 0\<rparr>"
definition KEY_BACKTICK :: u8 where [key_defs]: "KEY_BACKTICK = pack_keycode_raw \<lparr>right = 0, down = 1\<rparr>"
definition KEY_1 :: u8 where [key_defs]: "KEY_1 = pack_keycode_raw \<lparr>right = 1, down = 1\<rparr>"
definition KEY_2 :: u8 where [key_defs]: "KEY_2 = pack_keycode_raw \<lparr>right = 2, down = 1\<rparr>"
definition KEY_3 :: u8 where [key_defs]: "KEY_3 = pack_keycode_raw \<lparr>right = 3, down = 1\<rparr>"
definition KEY_4 :: u8 where [key_defs]: "KEY_4 = pack_keycode_raw \<lparr>right = 4, down = 1\<rparr>"
definition KEY_5 :: u8 where [key_defs]: "KEY_5 = pack_keycode_raw \<lparr>right = 5, down = 1\<rparr>"
definition KEY_6 :: u8 where [key_defs]: "KEY_6 = pack_keycode_raw \<lparr>right = 6, down = 1\<rparr>"
definition KEY_7 :: u8 where [key_defs]: "KEY_7 = pack_keycode_raw \<lparr>right = 7, down = 1\<rparr>"
definition KEY_8 :: u8 where [key_defs]: "KEY_8 = pack_keycode_raw \<lparr>right = 8, down = 1\<rparr>"
definition KEY_9 :: u8 where [key_defs]: "KEY_9 = pack_keycode_raw \<lparr>right = 9, down = 1\<rparr>"
definition KEY_0 :: u8 where [key_defs]: "KEY_0 = pack_keycode_raw \<lparr>right = 10, down = 1\<rparr>"
definition KEY_MINUS :: u8 where [key_defs]: "KEY_MINUS = pack_keycode_raw \<lparr>right = 11, down = 1\<rparr>"
definition KEY_EQUALS :: u8 where [key_defs]: "KEY_EQUALS = pack_keycode_raw \<lparr>right = 12, down = 1\<rparr>"
definition KEY_BACKSPACE :: u8 where [key_defs]: "KEY_BACKSPACE = pack_keycode_raw \<lparr>right = 13, down = 1\<rparr>"
definition KEY_INSERT :: u8 where [key_defs]: "KEY_INSERT = pack_keycode_raw \<lparr>right = 14, down = 1\<rparr>"
definition KEY_HOME :: u8 where [key_defs]: "KEY_HOME = pack_keycode_raw \<lparr>right = 15, down = 1\<rparr>"
definition KEY_PAGEUP :: u8 where [key_defs]: "KEY_PAGEUP = pack_keycode_raw \<lparr>right = 16, down = 1\<rparr>"
definition KEY_NUMLOCK :: u8 where [key_defs]: "KEY_NUMLOCK = pack_keycode_raw \<lparr>right = 17, down = 1\<rparr>"
definition KEY_KP_DIVIDE :: u8 where [key_defs]: "KEY_KP_DIVIDE = pack_keycode_raw \<lparr>right = 18, down = 1\<rparr>"
definition KEY_KP_MULTIPLY :: u8 where [key_defs]: "KEY_KP_MULTIPLY = pack_keycode_raw \<lparr>right = 19, down = 1\<rparr>"
definition KEY_KP_MINUS :: u8 where [key_defs]: "KEY_KP_MINUS = pack_keycode_raw \<lparr>right = 20, down = 1\<rparr>"
definition KEY_TAB :: u8 where [key_defs]: "KEY_TAB = pack_keycode_raw \<lparr>right = 0, down = 2\<rparr>"
definition KEY_Q :: u8 where [key_defs]: "KEY_Q = pack_keycode_raw \<lparr>right = 1, down = 2\<rparr>"
definition KEY_W :: u8 where [key_defs]: "KEY_W = pack_keycode_raw \<lparr>right = 2, down = 2\<rparr>"
definition KEY_E :: u8 where [key_defs]: "KEY_E = pack_keycode_raw \<lparr>right = 3, down = 2\<rparr>"
definition KEY_R :: u8 where [key_defs]: "KEY_R = pack_keycode_raw \<lparr>right = 4, down = 2\<rparr>"
definition KEY_T :: u8 where [key_defs]: "KEY_T = pack_keycode_raw \<lparr>right = 5, down = 2\<rparr>"
definition KEY_Y :: u8 where [key_defs]: "KEY_Y = pack_keycode_raw \<lparr>right = 6, down = 2\<rparr>"
definition KEY_U :: u8 where [key_defs]: "KEY_U = pack_keycode_raw \<lparr>right = 7, down = 2\<rparr>"
definition KEY_I :: u8 where [key_defs]: "KEY_I = pack_keycode_raw \<lparr>right = 8, down = 2\<rparr>"
definition KEY_O :: u8 where [key_defs]: "KEY_O = pack_keycode_raw \<lparr>right = 9, down = 2\<rparr>"
definition KEY_P :: u8 where [key_defs]: "KEY_P = pack_keycode_raw \<lparr>right = 10, down = 2\<rparr>"
definition KEY_LEFTBRACKET :: u8 where [key_defs]: "KEY_LEFTBRACKET = pack_keycode_raw \<lparr>right = 11, down = 2\<rparr>"
definition KEY_RIGHTBRACKET :: u8 where [key_defs]: "KEY_RIGHTBRACKET = pack_keycode_raw \<lparr>right = 12, down = 2\<rparr>"
definition KEY_BACKSLASH :: u8 where [key_defs]: "KEY_BACKSLASH = pack_keycode_raw \<lparr>right = 13, down = 2\<rparr>"
definition KEY_DELETE :: u8 where [key_defs]: "KEY_DELETE = pack_keycode_raw \<lparr>right = 14, down = 2\<rparr>"
definition KEY_END :: u8 where [key_defs]: "KEY_END = pack_keycode_raw \<lparr>right = 15, down = 2\<rparr>"
definition KEY_PAGEDOWN :: u8 where [key_defs]: "KEY_PAGEDOWN = pack_keycode_raw \<lparr>right = 16, down = 2\<rparr>"
definition KEY_KP_7 :: u8 where [key_defs]: "KEY_KP_7 = pack_keycode_raw \<lparr>right = 17, down = 2\<rparr>"
definition KEY_KP_8 :: u8 where [key_defs]: "KEY_KP_8 = pack_keycode_raw \<lparr>right = 18, down = 2\<rparr>"
definition KEY_KP_9 :: u8 where [key_defs]: "KEY_KP_9 = pack_keycode_raw \<lparr>right = 19, down = 2\<rparr>"
definition KEY_KP_PLUS :: u8 where [key_defs]: "KEY_KP_PLUS = pack_keycode_raw \<lparr>right = 20, down = 2\<rparr>"
definition KEY_CAPSLOCK :: u8 where [key_defs]: "KEY_CAPSLOCK = pack_keycode_raw \<lparr>right = 0, down = 3\<rparr>"
definition KEY_A :: u8 where [key_defs]: "KEY_A = pack_keycode_raw \<lparr>right = 1, down = 3\<rparr>"
definition KEY_S :: u8 where [key_defs]: "KEY_S = pack_keycode_raw \<lparr>right = 2, down = 3\<rparr>"
definition KEY_D :: u8 where [key_defs]: "KEY_D = pack_keycode_raw \<lparr>right = 3, down = 3\<rparr>"
definition KEY_F :: u8 where [key_defs]: "KEY_F = pack_keycode_raw \<lparr>right = 4, down = 3\<rparr>"
definition KEY_G :: u8 where [key_defs]: "KEY_G = pack_keycode_raw \<lparr>right = 5, down = 3\<rparr>"
definition KEY_H :: u8 where [key_defs]: "KEY_H = pack_keycode_raw \<lparr>right = 6, down = 3\<rparr>"
definition KEY_J :: u8 where [key_defs]: "KEY_J = pack_keycode_raw \<lparr>right = 7, down = 3\<rparr>"
definition KEY_K :: u8 where [key_defs]: "KEY_K = pack_keycode_raw \<lparr>right = 8, down = 3\<rparr>"
definition KEY_L :: u8 where [key_defs]: "KEY_L = pack_keycode_raw \<lparr>right = 9, down = 3\<rparr>"
definition KEY_SEMICOLON :: u8 where [key_defs]: "KEY_SEMICOLON = pack_keycode_raw \<lparr>right = 10, down = 3\<rparr>"
definition KEY_QUOTE :: u8 where [key_defs]: "KEY_QUOTE = pack_keycode_raw \<lparr>right = 11, down = 3\<rparr>"
definition KEY_ENTER :: u8 where [key_defs]: "KEY_ENTER = pack_keycode_raw \<lparr>right = 12, down = 3\<rparr>"
definition KEY_KP_4 :: u8 where [key_defs]: "KEY_KP_4 = pack_keycode_raw \<lparr>right = 13, down = 3\<rparr>"
definition KEY_KP_5 :: u8 where [key_defs]: "KEY_KP_5 = pack_keycode_raw \<lparr>right = 14, down = 3\<rparr>"
definition KEY_KP_6 :: u8 where [key_defs]: "KEY_KP_6 = pack_keycode_raw \<lparr>right = 15, down = 3\<rparr>"
definition KEY_LEFTSHIFT :: u8 where [key_defs]: "KEY_LEFTSHIFT = pack_keycode_raw \<lparr>right = 0, down = 4\<rparr>"
definition KEY_Z :: u8 where [key_defs]: "KEY_Z = pack_keycode_raw \<lparr>right = 1, down = 4\<rparr>"
definition KEY_X :: u8 where [key_defs]: "KEY_X = pack_keycode_raw \<lparr>right = 2, down = 4\<rparr>"
definition KEY_C :: u8 where [key_defs]: "KEY_C = pack_keycode_raw \<lparr>right = 3, down = 4\<rparr>"
definition KEY_V :: u8 where [key_defs]: "KEY_V = pack_keycode_raw \<lparr>right = 4, down = 4\<rparr>"
definition KEY_B :: u8 where [key_defs]: "KEY_B = pack_keycode_raw \<lparr>right = 5, down = 4\<rparr>"
definition KEY_N :: u8 where [key_defs]: "KEY_N = pack_keycode_raw \<lparr>right = 6, down = 4\<rparr>"
definition KEY_M :: u8 where [key_defs]: "KEY_M = pack_keycode_raw \<lparr>right = 7, down = 4\<rparr>"
definition KEY_COMMA :: u8 where [key_defs]: "KEY_COMMA = pack_keycode_raw \<lparr>right = 8, down = 4\<rparr>"
definition KEY_PERIOD :: u8 where [key_defs]: "KEY_PERIOD = pack_keycode_raw \<lparr>right = 9, down = 4\<rparr>"
definition KEY_SLASH :: u8 where [key_defs]: "KEY_SLASH = pack_keycode_raw \<lparr>right = 10, down = 4\<rparr>"
definition KEY_RIGHTSHIFT :: u8 where [key_defs]: "KEY_RIGHTSHIFT = pack_keycode_raw \<lparr>right = 11, down = 4\<rparr>"
definition KEY_UP :: u8 where [key_defs]: "KEY_UP = pack_keycode_raw \<lparr>right = 12, down = 4\<rparr>"
definition KEY_KP_1 :: u8 where [key_defs]: "KEY_KP_1 = pack_keycode_raw \<lparr>right = 13, down = 4\<rparr>"
definition KEY_KP_2 :: u8 where [key_defs]: "KEY_KP_2 = pack_keycode_raw \<lparr>right = 14, down = 4\<rparr>"
definition KEY_KP_3 :: u8 where [key_defs]: "KEY_KP_3 = pack_keycode_raw \<lparr>right = 15, down = 4\<rparr>"
definition KEY_KP_ENTER :: u8 where [key_defs]: "KEY_KP_ENTER = pack_keycode_raw \<lparr>right = 16, down = 4\<rparr>"
definition KEY_LEFTCTRL :: u8 where [key_defs]: "KEY_LEFTCTRL = pack_keycode_raw \<lparr>right = 0, down = 5\<rparr>"
definition KEY_LEFTMETA :: u8 where [key_defs]: "KEY_LEFTMETA = pack_keycode_raw \<lparr>right = 1, down = 5\<rparr>"
definition KEY_LEFTALT :: u8 where [key_defs]: "KEY_LEFTALT = pack_keycode_raw \<lparr>right = 2, down = 5\<rparr>"
definition KEY_SPACE :: u8 where [key_defs]: "KEY_SPACE = pack_keycode_raw \<lparr>right = 3, down = 5\<rparr>"
definition KEY_RIGHTALT :: u8 where [key_defs]: "KEY_RIGHTALT = pack_keycode_raw \<lparr>right = 4, down = 5\<rparr>"
definition KEY_RIGHTMETA :: u8 where [key_defs]: "KEY_RIGHTMETA = pack_keycode_raw \<lparr>right = 5, down = 5\<rparr>"
definition KEY_MENU :: u8 where [key_defs]: "KEY_MENU = pack_keycode_raw \<lparr>right = 6, down = 5\<rparr>"
definition KEY_RIGHTCTRL :: u8 where [key_defs]: "KEY_RIGHTCTRL = pack_keycode_raw \<lparr>right = 7, down = 5\<rparr>"
definition KEY_LEFT :: u8 where [key_defs]: "KEY_LEFT = pack_keycode_raw \<lparr>right = 8, down = 5\<rparr>"
definition KEY_DOWN :: u8 where [key_defs]: "KEY_DOWN = pack_keycode_raw \<lparr>right = 9, down = 5\<rparr>"
definition KEY_RIGHT :: u8 where [key_defs]: "KEY_RIGHT = pack_keycode_raw \<lparr>right = 10, down = 5\<rparr>"
definition KEY_KP_0 :: u8 where [key_defs]: "KEY_KP_0 = pack_keycode_raw \<lparr>right = 11, down = 5\<rparr>"
definition KEY_KP_DECIMAL :: u8 where [key_defs]: "KEY_KP_DECIMAL = pack_keycode_raw \<lparr>right = 12, down = 5\<rparr>"
definition KEY_POWER :: u8 where [key_defs]: "KEY_POWER = pack_keycode_raw \<lparr>right = 0, down = 6\<rparr>"
definition KEY_SLEEP :: u8 where [key_defs]: "KEY_SLEEP = pack_keycode_raw \<lparr>right = 1, down = 6\<rparr>"
definition KEY_WAKE :: u8 where [key_defs]: "KEY_WAKE = pack_keycode_raw \<lparr>right = 2, down = 6\<rparr>"
definition KEY_MEDIA_PLAY :: u8 where [key_defs]: "KEY_MEDIA_PLAY = pack_keycode_raw \<lparr>right = 3, down = 6\<rparr>"
definition KEY_MEDIA_STOP :: u8 where [key_defs]: "KEY_MEDIA_STOP = pack_keycode_raw \<lparr>right = 4, down = 6\<rparr>"
definition KEY_MEDIA_PREV :: u8 where [key_defs]: "KEY_MEDIA_PREV = pack_keycode_raw \<lparr>right = 5, down = 6\<rparr>"
definition KEY_MEDIA_NEXT :: u8 where [key_defs]: "KEY_MEDIA_NEXT = pack_keycode_raw \<lparr>right = 6, down = 6\<rparr>"
definition KEY_VOLUME_UP :: u8 where [key_defs]: "KEY_VOLUME_UP = pack_keycode_raw \<lparr>right = 7, down = 6\<rparr>"
definition KEY_VOLUME_DOWN :: u8 where [key_defs]: "KEY_VOLUME_DOWN = pack_keycode_raw \<lparr>right = 8, down = 6\<rparr>"
definition KEY_VOLUME_MUTE :: u8 where [key_defs]: "KEY_VOLUME_MUTE = pack_keycode_raw \<lparr>right = 9, down = 6\<rparr>"
definition KEY_BRIGHTNESS_UP :: u8 where [key_defs]: "KEY_BRIGHTNESS_UP = pack_keycode_raw \<lparr>right = 10, down = 6\<rparr>"
definition KEY_BRIGHTNESS_DOWN :: u8 where [key_defs]: "KEY_BRIGHTNESS_DOWN = pack_keycode_raw \<lparr>right = 11, down = 6\<rparr>"
definition KEY_CALCULATOR :: u8 where [key_defs]: "KEY_CALCULATOR = pack_keycode_raw \<lparr>right = 12, down = 6\<rparr>"
definition KEY_WWW_HOME :: u8 where [key_defs]: "KEY_WWW_HOME = pack_keycode_raw \<lparr>right = 13, down = 6\<rparr>"
definition KEY_WWW_SEARCH :: u8 where [key_defs]: "KEY_WWW_SEARCH = pack_keycode_raw \<lparr>right = 14, down = 6\<rparr>"
definition KEY_WWW_FAVORITES :: u8 where [key_defs]: "KEY_WWW_FAVORITES = pack_keycode_raw \<lparr>right = 15, down = 6\<rparr>"
definition KEY_WWW_REFRESH :: u8 where [key_defs]: "KEY_WWW_REFRESH = pack_keycode_raw \<lparr>right = 16, down = 6\<rparr>"
definition KEY_WWW_STOP :: u8 where [key_defs]: "KEY_WWW_STOP = pack_keycode_raw \<lparr>right = 17, down = 6\<rparr>"
definition KEY_WWW_FORWARD :: u8 where [key_defs]: "KEY_WWW_FORWARD = pack_keycode_raw \<lparr>right = 18, down = 6\<rparr>"
definition KEY_WWW_BACK :: u8 where [key_defs]: "KEY_WWW_BACK = pack_keycode_raw \<lparr>right = 19, down = 6\<rparr>"
definition KEY_MY_COMPUTER :: u8 where [key_defs]: "KEY_MY_COMPUTER = pack_keycode_raw \<lparr>right = 20, down = 6\<rparr>"
definition KEY_EMAIL :: u8 where [key_defs]: "KEY_EMAIL = pack_keycode_raw \<lparr>right = 0, down = 7\<rparr>"
definition KEY_MEDIA_SELECT :: u8 where [key_defs]: "KEY_MEDIA_SELECT = pack_keycode_raw \<lparr>right = 1, down = 7\<rparr>"
definition KEY_F15 :: u8 where [key_defs]: "KEY_F15 = pack_keycode_raw \<lparr>right = 2, down = 7\<rparr>"
definition KEY_F16 :: u8 where [key_defs]: "KEY_F16 = pack_keycode_raw \<lparr>right = 3, down = 7\<rparr>"
definition KEY_F17 :: u8 where [key_defs]: "KEY_F17 = pack_keycode_raw \<lparr>right = 4, down = 7\<rparr>"
definition KEY_F18 :: u8 where [key_defs]: "KEY_F18 = pack_keycode_raw \<lparr>right = 5, down = 7\<rparr>"
definition KEY_F19 :: u8 where [key_defs]: "KEY_F19 = pack_keycode_raw \<lparr>right = 6, down = 7\<rparr>"
definition KEY_F20 :: u8 where [key_defs]: "KEY_F20 = pack_keycode_raw \<lparr>right = 7, down = 7\<rparr>"
definition KEY_F21 :: u8 where [key_defs]: "KEY_F21 = pack_keycode_raw \<lparr>right = 8, down = 7\<rparr>"
definition KEY_F22 :: u8 where [key_defs]: "KEY_F22 = pack_keycode_raw \<lparr>right = 9, down = 7\<rparr>"
definition KEY_F23 :: u8 where [key_defs]: "KEY_F23 = pack_keycode_raw \<lparr>right = 10, down = 7\<rparr>"
definition KEY_F24 :: u8 where [key_defs]: "KEY_F24 = pack_keycode_raw \<lparr>right = 11, down = 7\<rparr>"
definition KEY_NONE :: u8 where [key_defs]: "KEY_NONE = 0xFF"
definition KEY_ANY :: u8 where [key_defs]: "KEY_ANY = 0xFE"
definition KEY_INVALID :: u8 where [key_defs]: "KEY_INVALID = 0xFD"
definition KEY_UNKNOWN :: u8 where [key_defs]: "KEY_UNKNOWN = 0xFC"

definition unpack_keycode :: "u8 \<Rightarrow> KeyCode" where
  "unpack_keycode key = \<lparr>right = ucast (key AND 0x1F), down = ucast (drop_bit 5 key AND 0x07)\<rparr>"

definition pack_keycode :: "KeyCode \<Rightarrow> u8" where
  "pack_keycode keycode = push_bit 5 (ucast (down keycode)) OR (ucast (right keycode) AND 0x1F)"

definition is_modifier :: "u8 \<Rightarrow> bool" where
  "is_modifier key \<longleftrightarrow> key \<in> {KEY_LEFTSHIFT, KEY_RIGHTSHIFT, KEY_LEFTCTRL, KEY_RIGHTCTRL, KEY_LEFTALT, KEY_RIGHTALT,
     KEY_LEFTMETA, KEY_RIGHTMETA, KEY_CAPSLOCK, KEY_NUMLOCK, KEY_SCROLLLOCK}"

section \<open>Tables\<close>

record KeyCharInfo =
  normal :: char
  shift :: char
  caps :: char
  altgr_char :: char
  letter :: bool
  printable :: bool
  altgr_able :: bool

datatype KeyboardMode = Typing | Testing | Application | TypingApplication

record keytables =
  KEY_CHAR_TABLE :: "u8 \<Rightarrow> KeyCharInfo"
  ScanToKeyCode :: "u8 \<Rightarrow> KeyCode"
  ExtendedScanToKeyCode :: "u8 \<Rightarrow> KeyCode"
  key_strings :: "u8 \<Rightarrow> string option"
  keyboard_mode :: KeyboardMode

definition char_info :: "char \<times> char \<times> char \<times> char \<times> bool \<times> bool \<times> bool \<Rightarrow> KeyCharInfo" where
  "char_info = (\<lambda>(n, s, c, a, l, p, g).
     \<lparr>normal = n, shift = s, caps = c, altgr_char = a, letter = l, printable = p, altgr_able = g\<rparr>)"

text \<open>The assignments of \<open>init_key_char_table\<close>, in order.\<close>

definition char_assignments :: "(u8 \<times> (char \<times> char \<times> char \<times> char \<times> bool \<times> bool \<times> bool)) list" where
  "char_assignments = [
    (KEY_1, (CHR ''1'', CHR ''!'', CHR ''1'', CHR '' '', False, True, False)),
    (KEY_2, (CHR ''2'', CHR 0x22, CHR ''2'', CHR ''@'', False, True, True)),
    (KEY_3, (CHR ''3'', CHR ''/'', CHR ''3'', CHR '' '', False, True, False)),
    (KEY_4, (CHR ''4'', CHR ''$'', CHR ''4'', CHR '' '', False, True, False)),
    (KEY_5, (CHR ''5'', CHR ''%'', CHR ''5'', CHR '' '', False, True, False)),
    (KEY_6, (CHR ''6'', CHR ''?'', CHR ''6'', CHR '' '', False, True, False)),
    (KEY_7, (CHR ''7'', CHR ''&'', CHR ''7'', CHR '' '', False, True, False)),
    (KEY_8, (CHR ''8'', CHR ''*'', CHR ''8'', CHR '' '', False, True, False)),
    (KEY_9, (CHR ''9'', CHR ''('', CHR ''9'', CHR '' '', False, True, False)),
    (KEY_0, (CHR ''0'', CHR '')'', CHR ''0'', CHR '' '', False, True, False)),
    (KEY_A, (CHR ''a'', CHR ''A'', CHR ''A'', CHR '' '', True, True, False)),
    (KEY_B, (CHR ''b'', CHR ''B'', CHR ''B'', CHR '' '', True, True, False)),
    (KEY_C, (CHR ''c'', CHR ''C'', CHR ''C'', CHR '' '', True, True, False)),
    (KEY_D, (CHR ''d'', CHR ''D'', CHR ''D'', CHR '' '', True, True, False)),
    (KEY_E, (CHR ''e'', CHR ''E'', CHR ''E'', CHR '' '', True, True, False)),
    (KEY_F, (CHR ''f'', CHR ''F'', CHR ''F'', CHR '' '', True, True, False)),
    (KEY_G, (CHR ''g'', CHR ''G'', CHR ''G'', CHR '' '', True, True, False)),
    (KEY_H, (CHR ''h'', CHR ''H'', CHR ''H'', CHR '' '', True, True, False)),
    (KEY_I, (CHR ''i'', CHR ''I'', CHR ''I'', CHR '' '', True, True, False)),
    (KEY_J, (CHR ''j'', CHR ''J'', CHR ''J'', CHR '' '', True, True, False)),
    (KEY_K, (CHR ''k'', CHR ''K'', CHR ''K'', CHR '' '', True, True, False)),
    (KEY_L, (CHR ''l'', CHR ''L'', CHR ''L'', CHR '' '', True, True, False)),
    (KEY_M, (CHR ''m'', CHR ''M'', CHR ''M'', CHR '' '', True, True, False)),
    (KEY_N, (CHR ''n'', CHR ''N'', CHR ''N'', CHR '' '', True, True, False)),
    (KEY_O, (CHR ''o'', CHR ''O'', CHR ''O'', CHR '' '', True, True, False)),
    (KEY_P, (CHR ''p'', CHR ''P'', CHR ''P'', CHR '' '', True, True, False)),
    (KEY_Q, (CHR ''q'', CHR ''Q'', CHR ''Q'', CHR '' '', True, True, False)),
    (KEY_R, (CHR ''r'', CHR ''R'', CHR ''R'', CHR '' '', True, True, False)),
    (KEY_S, (CHR ''s'', CHR ''S'', CHR ''S'', CHR '' '', True, True, False)),
    (KEY_T, (CHR ''t'', CHR ''T'', CHR ''T'', CHR '' '', True, True, False)),
    (KEY_U, (CHR ''u'', CHR ''U'', CHR ''U'', CHR '' '', True, True, False)),
    (KEY_V, (CHR ''v'', CHR ''V'', CHR ''V'', CHR '' '', True, True, False)),
    (KEY_W, (CHR ''w'', CHR ''W'', CHR ''W'', CHR '' '', True, True, False)),
    (KEY_X, (CHR ''x'', CHR ''X'', CHR ''X'', CHR '' '', True, True, False)),
    (KEY_Y, (CHR ''y'', CHR ''Y'', CHR ''Y'', CHR '' '', True, True, False)),
    (KEY_Z, (CHR ''z'', CHR ''Z'', CHR ''Z'', CHR '' '', True, True, False)),
    (KEY_BACKTICK, (CHR ''#'', CHR ''|'', CHR ''#'', CHR 0x5C, False, True, True)),
    (KEY_MINUS, (CHR ''-'', CHR ''_'', CHR ''-'', CHR '' '', False, True, False)),
    (KEY_EQUALS, (CHR ''='', CHR ''+'', CHR ''='', CHR '' '', False, True, False)),
    (KEY_LEFTBRACKET, (CHR ''^'', CHR ''^'', CHR ''^'', CHR ''['', False, True, True)),
    (KEY_RIGHTBRACKET, (CHR '']'', CHR '']'', CHR '']'', CHR '']'', False, True, True)),
    (KEY_BACKSLASH, (CHR ''<'', CHR ''>'', CHR ''<'', CHR ''}'', False, True, True)),
    (KEY_SEMICOLON, (CHR '';'', CHR '':'', CHR '';'', CHR ''~'', False, True, True)),
    (KEY_QUOTE, (CHR 0x60, CHR 0x60, CHR 0x60, CHR ''{'', False, True, True)),
    (KEY_COMMA, (CHR '','', CHR 0x27, CHR '','', CHR '' '', False, True, False)),
    (KEY_PERIOD, (CHR ''.'', CHR ''.'', CHR ''.'', CHR '' '', False, True, False)),
    (KEY_SLASH, (CHR ''/'', CHR ''/'', CHR ''/'', CHR '' '', False, True, False)),
    (KEY_SPACE, (CHR '' '', CHR '' '', CHR '' '', CHR '' '', False, True, False)),
    (KEY_TAB, (CHR 0x09, CHR 0x09, CHR 0x09, CHR '' '', False, True, False)),
    (KEY_ENTER, (CHR 0x0A, CHR 0x0A, CHR 0x0A, CHR '' '', False, True, False))]"

definition init_key_char_table :: "keytables \<Rightarrow> keytables" where
  "init_key_char_table s = s\<lparr>KEY_CHAR_TABLE :=
     fold (\<lambda>(k, i) t. t(k := char_info i)) char_assignments (\<lambda>_. char_info (CHR 0x00, CHR 0x00, CHR 0x00, CHR 0x00, False, False, False))\<rparr>"

text \<open>The enumerators that the macros of the scan code tables make: \<open>SC_ESCAPE\<close> is \<open>SC ''ESCAPE''\<close>.\<close>

definition SC :: "string \<Rightarrow> u8" where
  "SC n = the (map_of SCANCODES n)"

definition SCE :: "string \<Rightarrow> u8" where
  "SCE n = the (map_of EXTENDED_SCANCODES n)"

definition scan_assignments :: "(string \<times> u8) list" where
  "scan_assignments = [
    (''ESCAPE'', KEY_ESC), (''F1'', KEY_F1), (''F2'', KEY_F2), (''F3'', KEY_F3), (''F4'', KEY_F4), (''F5'', KEY_F5),
    (''F6'', KEY_F6), (''F7'', KEY_F7), (''F8'', KEY_F8), (''F9'', KEY_F9), (''F10'', KEY_F10), (''F11'', KEY_F11),
    (''F12'', KEY_F12), (''SCROLLLOCK'', KEY_SCROLLLOCK), (''BACKTICK'', KEY_BACKTICK), (''1'', KEY_1), (''2'', KEY_2),
    (''3'', KEY_3), (''4'', KEY_4), (''5'', KEY_5), (''6'', KEY_6), (''7'', KEY_7), (''8'', KEY_8), (''9'', KEY_9),
    (''0'', KEY_0), (''MINUS'', KEY_MINUS), (''EQUALS'', KEY_EQUALS), (''BACKSPACE'', KEY_BACKSPACE),
    (''NUMLOCK'', KEY_NUMLOCK), (''KP_ASTERISK'', KEY_KP_MULTIPLY), (''KP_MINUS'', KEY_KP_MINUS), (''TAB'', KEY_TAB),
    (''Q'', KEY_Q), (''W'', KEY_W), (''E'', KEY_E), (''R'', KEY_R), (''T'', KEY_T), (''Y'', KEY_Y), (''U'', KEY_U),
    (''I'', KEY_I), (''O'', KEY_O), (''P'', KEY_P), (''LBRACKET'', KEY_LEFTBRACKET), (''RBRACKET'', KEY_RIGHTBRACKET),
    (''BACKSLASH'', KEY_BACKSLASH), (''KP_7'', KEY_KP_7), (''KP_8'', KEY_KP_8), (''KP_9'', KEY_KP_9),
    (''KP_PLUS'', KEY_KP_PLUS), (''CAPSLOCK'', KEY_CAPSLOCK), (''A'', KEY_A), (''S'', KEY_S), (''D'', KEY_D),
    (''F'', KEY_F), (''G'', KEY_G), (''H'', KEY_H), (''J'', KEY_J), (''K'', KEY_K), (''L'', KEY_L),
    (''SEMICOLON'', KEY_SEMICOLON), (''QUOTE'', KEY_QUOTE), (''ENTER'', KEY_ENTER), (''KP_4'', KEY_KP_4),
    (''KP_5'', KEY_KP_5), (''KP_6'', KEY_KP_6), (''LEFT_SHIFT'', KEY_LEFTSHIFT), (''Z'', KEY_Z), (''X_'', KEY_X),
    (''C'', KEY_C), (''V'', KEY_V), (''B'', KEY_B), (''N'', KEY_N), (''M'', KEY_M), (''COMMA'', KEY_COMMA),
    (''DOT'', KEY_PERIOD), (''SLASH'', KEY_SLASH), (''RIGHT_SHIFT'', KEY_RIGHTSHIFT), (''KP_1'', KEY_KP_1),
    (''KP_2'', KEY_KP_2), (''KP_3'', KEY_KP_3), (''LEFT_CTRL'', KEY_LEFTCTRL), (''LEFT_ALT'', KEY_LEFTALT),
    (''SPACE'', KEY_SPACE), (''KP_0'', KEY_KP_0), (''KP_DOT'', KEY_KP_DECIMAL)]"

definition extended_assignments :: "(string \<times> u8) list" where
  "extended_assignments = [
    (''INSERT'', KEY_INSERT), (''HOME'', KEY_HOME), (''PAGE_UP'', KEY_PAGEUP), (''KP_SLASH'', KEY_KP_DIVIDE),
    (''DELETE'', KEY_DELETE), (''END'', KEY_END), (''PAGE_DOWN'', KEY_PAGEDOWN), (''UP'', KEY_UP),
    (''KP_ENTER'', KEY_KP_ENTER), (''LEFT_META'', KEY_LEFTMETA), (''RIGHT_ALT'', KEY_RIGHTALT),
    (''RIGHT_META'', KEY_RIGHTMETA), (''APPS'', KEY_MENU), (''RIGHT_CTRL'', KEY_RIGHTCTRL), (''LEFT'', KEY_LEFT),
    (''DOWN'', KEY_DOWN), (''RIGHT'', KEY_RIGHT), (''PREV_TRACK'', KEY_MEDIA_PREV), (''NEXT_TRACK'', KEY_MEDIA_NEXT),
    (''PLAY'', KEY_MEDIA_PLAY), (''STOP'', KEY_MEDIA_STOP), (''MUTE'', KEY_VOLUME_MUTE), (''VOLUME_UP'', KEY_VOLUME_UP),
    (''VOLUME_DOWN'', KEY_VOLUME_DOWN), (''CALCULATOR'', KEY_CALCULATOR), (''WWW_HOME'', KEY_WWW_HOME),
    (''WWW_SEARCH'', KEY_WWW_SEARCH), (''WWW_FAVORITES'', KEY_WWW_FAVORITES), (''WWW_REFRESH'', KEY_WWW_REFRESH),
    (''WWW_STOP'', KEY_WWW_STOP), (''WWW_FORWARD'', KEY_WWW_FORWARD), (''WWW_BACK'', KEY_WWW_BACK),
    (''MY_COMPUTER'', KEY_MY_COMPUTER), (''EMAIL'', KEY_EMAIL), (''MEDIA_SELECT'', KEY_MEDIA_SELECT),
    (''POWER'', KEY_POWER), (''SLEEP'', KEY_SLEEP), (''WAKE'', KEY_WAKE)]"

definition init_scancodes_to_keycodes :: "keytables \<Rightarrow> keytables" where
  "init_scancodes_to_keycodes s = s\<lparr>
     ScanToKeyCode := fold (\<lambda>(n, k) t. t(SC n := unpack_keycode k)) scan_assignments (\<lambda>_. unpack_keycode KEY_INVALID),
     ExtendedScanToKeyCode :=
       fold (\<lambda>(n, k) t. t(SCE n := unpack_keycode k)) extended_assignments (\<lambda>_. unpack_keycode KEY_INVALID)\<rparr>"

definition name_assignments :: "(u8 \<times> string) list" where
  "name_assignments = [
    (KEY_ESC, ''KEY_ESC''), (KEY_F1, ''KEY_F1''), (KEY_F2, ''KEY_F2''), (KEY_F3, ''KEY_F3''), (KEY_F4, ''KEY_F4''),
    (KEY_F5, ''KEY_F5''), (KEY_F6, ''KEY_F6''), (KEY_F7, ''KEY_F7''), (KEY_F8, ''KEY_F8''), (KEY_F9, ''KEY_F9''),
    (KEY_F10, ''KEY_F10''), (KEY_F11, ''KEY_F11''), (KEY_F12, ''KEY_F12''), (KEY_PRINTSCR, ''KEY_PRINTSCR''),
    (KEY_SCROLLLOCK, ''KEY_SCROLLLOCK''), (KEY_PAUSE, ''KEY_PAUSE''), (KEY_BACKTICK, ''KEY_BACKTICK''),
    (KEY_1, ''KEY_1''), (KEY_2, ''KEY_2''), (KEY_3, ''KEY_3''), (KEY_4, ''KEY_4''), (KEY_5, ''KEY_5''),
    (KEY_6, ''KEY_6''), (KEY_7, ''KEY_7''), (KEY_8, ''KEY_8''), (KEY_9, ''KEY_9''), (KEY_0, ''KEY_0''),
    (KEY_MINUS, ''KEY_MINUS''), (KEY_EQUALS, ''KEY_EQUALS''), (KEY_BACKSPACE, ''KEY_BACKSPACE''),
    (KEY_INSERT, ''KEY_INSERT''), (KEY_HOME, ''KEY_HOME''), (KEY_PAGEUP, ''KEY_PAGEUP''),
    (KEY_NUMLOCK, ''KEY_NUMLOCK''), (KEY_KP_DIVIDE, ''KEY_KP_DIVIDE''), (KEY_KP_MULTIPLY, ''KEY_KP_MULTIPLY''),
    (KEY_KP_MINUS, ''KEY_KP_MINUS''), (KEY_TAB, ''KEY_TAB''), (KEY_Q, ''KEY_Q''), (KEY_W, ''KEY_W''),
    (KEY_E, ''KEY_E''), (KEY_R, ''KEY_R''), (KEY_T, ''KEY_T''), (KEY_Y, ''KEY_Y''), (KEY_U, ''KEY_U''),
    (KEY_I, ''KEY_I''), (KEY_O, ''KEY_O''), (KEY_P, ''KEY_P''), (KEY_LEFTBRACKET, ''KEY_LEFTBRACKET''),
    (KEY_RIGHTBRACKET, ''KEY_RIGHTBRACKET''), (KEY_BACKSLASH, ''KEY_BACKSLASH''), (KEY_DELETE, ''KEY_DELETE''),
    (KEY_END, ''KEY_END''), (KEY_PAGEDOWN, ''KEY_PAGEDOWN''), (KEY_KP_7, ''KEY_KP_7''), (KEY_KP_8, ''KEY_KP_8''),
    (KEY_KP_9, ''KEY_KP_9''), (KEY_KP_PLUS, ''KEY_KP_PLUS''), (KEY_CAPSLOCK, ''KEY_CAPSLOCK''), (KEY_A, ''KEY_A''),
    (KEY_S, ''KEY_S''), (KEY_D, ''KEY_D''), (KEY_F, ''KEY_F''), (KEY_G, ''KEY_G''), (KEY_H, ''KEY_H''),
    (KEY_J, ''KEY_J''), (KEY_K, ''KEY_K''), (KEY_L, ''KEY_L''), (KEY_SEMICOLON, ''KEY_SEMICOLON''),
    (KEY_QUOTE, ''KEY_QUOTE''), (KEY_ENTER, ''KEY_ENTER''), (KEY_KP_4, ''KEY_KP_4''), (KEY_KP_5, ''KEY_KP_5''),
    (KEY_KP_6, ''KEY_KP_6''), (KEY_LEFTSHIFT, ''KEY_LEFTSHIFT''), (KEY_Z, ''KEY_Z''), (KEY_X, ''KEY_X''),
    (KEY_C, ''KEY_C''), (KEY_V, ''KEY_V''), (KEY_B, ''KEY_B''), (KEY_N, ''KEY_N''), (KEY_M, ''KEY_M''),
    (KEY_COMMA, ''KEY_COMMA''), (KEY_PERIOD, ''KEY_PERIOD''), (KEY_SLASH, ''KEY_SLASH''),
    (KEY_RIGHTSHIFT, ''KEY_RIGHTSHIFT''), (KEY_UP, ''KEY_UP''), (KEY_KP_1, ''KEY_KP_1''), (KEY_KP_2, ''KEY_KP_2''),
    (KEY_KP_3, ''KEY_KP_3''), (KEY_KP_ENTER, ''KEY_KP_ENTER''), (KEY_LEFTCTRL, ''KEY_LEFTCTRL''),
    (KEY_LEFTMETA, ''KEY_LEFTMETA''), (KEY_LEFTALT, ''KEY_LEFTALT''), (KEY_SPACE, ''KEY_SPACE''),
    (KEY_RIGHTALT, ''KEY_RIGHTALT''), (KEY_RIGHTMETA, ''KEY_RIGHTMETA''), (KEY_MENU, ''KEY_MENU''),
    (KEY_RIGHTCTRL, ''KEY_RIGHTCTRL''), (KEY_LEFT, ''KEY_LEFT''), (KEY_DOWN, ''KEY_DOWN''), (KEY_RIGHT, ''KEY_RIGHT''),
    (KEY_KP_0, ''KEY_KP_0''), (KEY_KP_DECIMAL, ''KEY_KP_DECIMAL''), (KEY_POWER, ''KEY_POWER''),
    (KEY_SLEEP, ''KEY_SLEEP''), (KEY_WAKE, ''KEY_WAKE''), (KEY_MEDIA_PLAY, ''KEY_MEDIA_PLAY''),
    (KEY_MEDIA_STOP, ''KEY_MEDIA_STOP''), (KEY_MEDIA_PREV, ''KEY_MEDIA_PREV''), (KEY_MEDIA_NEXT, ''KEY_MEDIA_NEXT''),
    (KEY_VOLUME_UP, ''KEY_VOLUME_UP''), (KEY_VOLUME_DOWN, ''KEY_VOLUME_DOWN''), (KEY_VOLUME_MUTE, ''KEY_VOLUME_MUTE''),
    (KEY_BRIGHTNESS_UP, ''KEY_BRIGHTNESS_UP''), (KEY_BRIGHTNESS_DOWN, ''KEY_BRIGHTNESS_DOWN''),
    (KEY_CALCULATOR, ''KEY_CALCULATOR''), (KEY_WWW_HOME, ''KEY_WWW_HOME''), (KEY_WWW_SEARCH, ''KEY_WWW_SEARCH''),
    (KEY_WWW_FAVORITES, ''KEY_WWW_FAVORITES''), (KEY_WWW_REFRESH, ''KEY_WWW_REFRESH''),
    (KEY_WWW_STOP, ''KEY_WWW_STOP''), (KEY_WWW_FORWARD, ''KEY_WWW_FORWARD''), (KEY_WWW_BACK, ''KEY_WWW_BACK''),
    (KEY_MY_COMPUTER, ''KEY_MY_COMPUTER''), (KEY_EMAIL, ''KEY_EMAIL''), (KEY_MEDIA_SELECT, ''KEY_MEDIA_SELECT''),
    (KEY_F15, ''KEY_F15''), (KEY_F16, ''KEY_F16''), (KEY_F17, ''KEY_F17''), (KEY_F18, ''KEY_F18''),
    (KEY_F19, ''KEY_F19''), (KEY_F20, ''KEY_F20''), (KEY_F21, ''KEY_F21''), (KEY_F22, ''KEY_F22''),
    (KEY_F23, ''KEY_F23''), (KEY_F24, ''KEY_F24''), (KEY_NONE, ''KEY_NONE''), (KEY_ANY, ''KEY_ANY''),
    (KEY_INVALID, ''KEY_INVALID''), (KEY_UNKNOWN, ''KEY_UNKNOWN'')]"

definition initialize_keycodes_name_converter :: "keytables \<Rightarrow> keytables" where
  "initialize_keycodes_name_converter s = s\<lparr>key_strings :=
     fold (\<lambda>(k, n) t. t(k := Some n)) name_assignments (\<lambda>_. Some ''UNKNOWN'')\<rparr>"

definition ps2_keyboard_cpp_init :: "keytables \<Rightarrow> keytables" where
  "ps2_keyboard_cpp_init s =
     (initialize_keycodes_name_converter (init_scancodes_to_keycodes (init_key_char_table s)))\<lparr>keyboard_mode := Testing\<rparr>"

section \<open>Look-up\<close>

definition scancode_to_keycode :: "keytables \<Rightarrow> u8 \<Rightarrow> KeyCode exec" where
  "scancode_to_keycode s scancode = (if scancode < 128 then ok (ScanToKeyCode s scancode) else Inl OutOfBounds)"

definition extended_scancode_to_keycode :: "keytables \<Rightarrow> u8 \<Rightarrow> KeyCode exec" where
  "extended_scancode_to_keycode s extended_scancode =
     (if extended_scancode < 128 then ok (ExtendedScanToKeyCode s extended_scancode) else Inl OutOfBounds)"

definition pause_to_keycode :: KeyCode where
  "pause_to_keycode = unpack_keycode KEY_PAUSE"

definition print_screen_to_keycode :: KeyCode where
  "print_screen_to_keycode = unpack_keycode KEY_PRINTSCR"

definition get_char_info :: "keytables \<Rightarrow> u8 \<Rightarrow> KeyCharInfo" where
  "get_char_info s key = KEY_CHAR_TABLE s key"

definition is_printable :: "keytables \<Rightarrow> u8 \<Rightarrow> bool" where
  "is_printable s key = printable (get_char_info s key)"

definition is_letter :: "keytables \<Rightarrow> u8 \<Rightarrow> bool" where
  "is_letter s key = letter (get_char_info s key)"

definition is_altgr_able :: "keytables \<Rightarrow> u8 \<Rightarrow> bool" where
  "is_altgr_able s key = altgr_able (get_char_info s key)"

definition key_to_char :: "keytables \<Rightarrow> u8 \<Rightarrow> KeyModifierState \<Rightarrow> char" where
  "key_to_char s key mods =
     (let info = KEY_CHAR_TABLE s key;
          shifted = left_shift mods \<or> right_shift mods
      in if \<not> printable info then CHR 0x00
         else if \<not> altgr_able info \<and> altgr mods then CHR 0x00
         else if left_ctrl mods \<or> right_ctrl mods \<or> left_meta mods \<or> right_meta mods \<or> alt mods then CHR 0x00
         else if letter info then
           (if shifted \<and> capslock mods then normal info
            else if capslock mods then caps info
            else if shifted then shift info
            else normal info)
         else if altgr mods then altgr_char info
         else if shifted then shift info
         else normal info)"

definition key_to_string :: "keytables \<Rightarrow> u8 \<Rightarrow> string option" where
  "key_to_string s key = key_strings s key"

section \<open>The handler\<close>

text \<open>A message with the position and the name of the key; a null name is undefined behaviour in the printer.\<close>

definition report_key :: "keytables \<Rightarrow> string \<Rightarrow> KeyCode \<Rightarrow> (iolog, unit exec) state" where
  "report_key s what keycode =
     (case key_to_string s (pack_keycode keycode) of
        None \<Rightarrow> ret (Inl Undefined)
      | Some n \<Rightarrow> do {
          kprintf (what @ '' keycode = (%u, %u) = %s\<newline>'') [KU (ucast (down keycode)), KU (ucast (right keycode)), KS n];
          ret (ok ())
        })"

definition keycode_handler ::
    "keytables \<Rightarrow> KeyCode \<Rightarrow> KeyModifierState \<Rightarrow> bool \<Rightarrow> bool \<Rightarrow> (iolog, unit exec) state" where
  "keycode_handler s keycode mod_state first_press press_not_released =
     (let key = pack_keycode keycode
      in case keyboard_mode s of
           Testing \<Rightarrow>
             if key = KEY_INVALID \<or> key = KEY_NONE \<or> key = KEY_UNKNOWN then report_key s ''[Invalid     ]'' keycode
             else if first_press then report_key s ''[FIRST PRESS ]'' keycode
             else if press_not_released then report_key s ''[REPEAT PRESS]'' keycode
             else report_key s ''[Release     ]'' keycode
         | Typing \<Rightarrow>
             if \<not> press_not_released then ret (ok ())
             else if is_printable s key then do {
               kprintf ''%c'' [KC (of_char (key_to_char s key mod_state))];
               ret (ok ())
             }
             else ret (ok ())
         | _ \<Rightarrow> ret (ok ()))"

text \<open>The calls the interrupt handler makes: the argument of \<open>keycode_handler\<close> for each kind of key, and the call.\<close>

fun keycode_of :: "keytables \<Rightarrow> key \<Rightarrow> KeyCode exec" where
  "keycode_of s (Plain sc) = scancode_to_keycode s sc"
| "keycode_of s (Extended sc) = extended_scancode_to_keycode s sc"
| "keycode_of s Print_screen = ok print_screen_to_keycode"
| "keycode_of s Pause = ok pause_to_keycode"

fun call_keycode_handler :: "keytables \<Rightarrow> call \<Rightarrow> (iolog, unit exec) state" where
  "call_keycode_handler s (Keycode key mods first_press press) =
     bindS (ret (keycode_of s key)) (\<lambda>keycode. keycode_handler s keycode mods first_press press)"
| "call_keycode_handler s (Terminal _) = ret (ok ())"

section \<open>Packing\<close>

lemma pack_unpack: "pack_keycode (unpack_keycode key) = key"
proof (rule bit_word_eqI)
  fix n
  assume "n < LENGTH(8)"
  then consider "n = 0" | "n = 1" | "n = 2" | "n = 3" | "n = 4" | "n = 5" | "n = 6" | "n = 7" by fastforce
  then show "bit (pack_keycode (unpack_keycode key)) n = bit key n"
    by cases (simp_all add: pack_keycode_def unpack_keycode_def bit_simps)
qed

section \<open>The tables after the set-up\<close>

lemma key_values:
  "KEY_ESC = 0" "KEY_F1 = 1" "KEY_F2 = 2" "KEY_F3 = 3" "KEY_F4 = 4"
  "KEY_F5 = 5" "KEY_F6 = 6" "KEY_F7 = 7" "KEY_F8 = 8" "KEY_F9 = 9"
  "KEY_F10 = 10" "KEY_F11 = 11" "KEY_F12 = 12" "KEY_PRINTSCR = 13" "KEY_SCROLLLOCK = 14"
  "KEY_PAUSE = 15" "KEY_BACKTICK = 32" "KEY_1 = 33" "KEY_2 = 34" "KEY_3 = 35"
  "KEY_4 = 36" "KEY_5 = 37" "KEY_6 = 38" "KEY_7 = 39" "KEY_8 = 40"
  "KEY_9 = 41" "KEY_0 = 42" "KEY_MINUS = 43" "KEY_EQUALS = 44" "KEY_BACKSPACE = 45"
  "KEY_INSERT = 46" "KEY_HOME = 47" "KEY_PAGEUP = 48" "KEY_NUMLOCK = 49" "KEY_KP_DIVIDE = 50"
  "KEY_KP_MULTIPLY = 51" "KEY_KP_MINUS = 52" "KEY_TAB = 64" "KEY_Q = 65" "KEY_W = 66"
  "KEY_E = 67" "KEY_R = 68" "KEY_T = 69" "KEY_Y = 70" "KEY_U = 71"
  "KEY_I = 72" "KEY_O = 73" "KEY_P = 74" "KEY_LEFTBRACKET = 75" "KEY_RIGHTBRACKET = 76"
  "KEY_BACKSLASH = 77" "KEY_DELETE = 78" "KEY_END = 79" "KEY_PAGEDOWN = 80" "KEY_KP_7 = 81"
  "KEY_KP_8 = 82" "KEY_KP_9 = 83" "KEY_KP_PLUS = 84" "KEY_CAPSLOCK = 96" "KEY_A = 97"
  "KEY_S = 98" "KEY_D = 99" "KEY_F = 100" "KEY_G = 101" "KEY_H = 102"
  "KEY_J = 103" "KEY_K = 104" "KEY_L = 105" "KEY_SEMICOLON = 106" "KEY_QUOTE = 107"
  "KEY_ENTER = 108" "KEY_KP_4 = 109" "KEY_KP_5 = 110" "KEY_KP_6 = 111" "KEY_LEFTSHIFT = 128"
  "KEY_Z = 129" "KEY_X = 130" "KEY_C = 131" "KEY_V = 132" "KEY_B = 133"
  "KEY_N = 134" "KEY_M = 135" "KEY_COMMA = 136" "KEY_PERIOD = 137" "KEY_SLASH = 138"
  "KEY_RIGHTSHIFT = 139" "KEY_UP = 140" "KEY_KP_1 = 141" "KEY_KP_2 = 142" "KEY_KP_3 = 143"
  "KEY_KP_ENTER = 144" "KEY_LEFTCTRL = 160" "KEY_LEFTMETA = 161" "KEY_LEFTALT = 162" "KEY_SPACE = 163"
  "KEY_RIGHTALT = 164" "KEY_RIGHTMETA = 165" "KEY_MENU = 166" "KEY_RIGHTCTRL = 167" "KEY_LEFT = 168"
  "KEY_DOWN = 169" "KEY_RIGHT = 170" "KEY_KP_0 = 171" "KEY_KP_DECIMAL = 172" "KEY_POWER = 192"
  "KEY_SLEEP = 193" "KEY_WAKE = 194" "KEY_MEDIA_PLAY = 195" "KEY_MEDIA_STOP = 196" "KEY_MEDIA_PREV = 197"
  "KEY_MEDIA_NEXT = 198" "KEY_VOLUME_UP = 199" "KEY_VOLUME_DOWN = 200" "KEY_VOLUME_MUTE = 201" "KEY_BRIGHTNESS_UP = 202"
  "KEY_BRIGHTNESS_DOWN = 203" "KEY_CALCULATOR = 204" "KEY_WWW_HOME = 205" "KEY_WWW_SEARCH = 206" "KEY_WWW_FAVORITES = 207"
  "KEY_WWW_REFRESH = 208" "KEY_WWW_STOP = 209" "KEY_WWW_FORWARD = 210" "KEY_WWW_BACK = 211" "KEY_MY_COMPUTER = 212"
  "KEY_EMAIL = 224" "KEY_MEDIA_SELECT = 225" "KEY_F15 = 226" "KEY_F16 = 227" "KEY_F17 = 228"
  "KEY_F18 = 229" "KEY_F19 = 230" "KEY_F20 = 231" "KEY_F21 = 232" "KEY_F22 = 233"
  "KEY_F23 = 234" "KEY_F24 = 235" "KEY_NONE = 255" "KEY_ANY = 254" "KEY_INVALID = 253"
  "KEY_UNKNOWN = 252"
  by (simp_all add: key_defs pack_keycode_raw_def)

lemma scan_codes: "map (\<lambda>(n, k). (SC n, k)) scan_assignments = [
    (0x01, KEY_ESC), (0x3B, KEY_F1), (0x3C, KEY_F2), (0x3D, KEY_F3), (0x3E, KEY_F4), (0x3F, KEY_F5), (0x40, KEY_F6),
    (0x41, KEY_F7), (0x42, KEY_F8), (0x43, KEY_F9), (0x44, KEY_F10), (0x57, KEY_F11), (0x58, KEY_F12),
    (0x46, KEY_SCROLLLOCK), (0x29, KEY_BACKTICK), (0x02, KEY_1), (0x03, KEY_2), (0x04, KEY_3), (0x05, KEY_4),
    (0x06, KEY_5), (0x07, KEY_6), (0x08, KEY_7), (0x09, KEY_8), (0x0A, KEY_9), (0x0B, KEY_0), (0x0C, KEY_MINUS),
    (0x0D, KEY_EQUALS), (0x0E, KEY_BACKSPACE), (0x45, KEY_NUMLOCK), (0x37, KEY_KP_MULTIPLY), (0x4A, KEY_KP_MINUS),
    (0x0F, KEY_TAB), (0x10, KEY_Q), (0x11, KEY_W), (0x12, KEY_E), (0x13, KEY_R), (0x14, KEY_T), (0x15, KEY_Y),
    (0x16, KEY_U), (0x17, KEY_I), (0x18, KEY_O), (0x19, KEY_P), (0x1A, KEY_LEFTBRACKET), (0x1B, KEY_RIGHTBRACKET),
    (0x2B, KEY_BACKSLASH), (0x47, KEY_KP_7), (0x48, KEY_KP_8), (0x49, KEY_KP_9), (0x4E, KEY_KP_PLUS),
    (0x3A, KEY_CAPSLOCK), (0x1E, KEY_A), (0x1F, KEY_S), (0x20, KEY_D), (0x21, KEY_F), (0x22, KEY_G), (0x23, KEY_H),
    (0x24, KEY_J), (0x25, KEY_K), (0x26, KEY_L), (0x27, KEY_SEMICOLON), (0x28, KEY_QUOTE), (0x1C, KEY_ENTER),
    (0x4B, KEY_KP_4), (0x4C, KEY_KP_5), (0x4D, KEY_KP_6), (0x2A, KEY_LEFTSHIFT), (0x2C, KEY_Z), (0x2D, KEY_X),
    (0x2E, KEY_C), (0x2F, KEY_V), (0x30, KEY_B), (0x31, KEY_N), (0x32, KEY_M), (0x33, KEY_COMMA), (0x34, KEY_PERIOD),
    (0x35, KEY_SLASH), (0x36, KEY_RIGHTSHIFT), (0x4F, KEY_KP_1), (0x50, KEY_KP_2), (0x51, KEY_KP_3),
    (0x1D, KEY_LEFTCTRL), (0x38, KEY_LEFTALT), (0x39, KEY_SPACE), (0x52, KEY_KP_0), (0x53, KEY_KP_DECIMAL)]"
  by code_simp

lemma extended_codes: "map (\<lambda>(n, k). (SCE n, k)) extended_assignments = [
    (0x52, KEY_INSERT), (0x47, KEY_HOME), (0x49, KEY_PAGEUP), (0x35, KEY_KP_DIVIDE), (0x53, KEY_DELETE),
    (0x4F, KEY_END), (0x51, KEY_PAGEDOWN), (0x48, KEY_UP), (0x1C, KEY_KP_ENTER), (0x5B, KEY_LEFTMETA),
    (0x38, KEY_RIGHTALT), (0x5C, KEY_RIGHTMETA), (0x5D, KEY_MENU), (0x1D, KEY_RIGHTCTRL), (0x4B, KEY_LEFT),
    (0x50, KEY_DOWN), (0x4D, KEY_RIGHT), (0x10, KEY_MEDIA_PREV), (0x19, KEY_MEDIA_NEXT), (0x22, KEY_MEDIA_PLAY),
    (0x24, KEY_MEDIA_STOP), (0x20, KEY_VOLUME_MUTE), (0x30, KEY_VOLUME_UP), (0x2E, KEY_VOLUME_DOWN),
    (0x21, KEY_CALCULATOR), (0x32, KEY_WWW_HOME), (0x65, KEY_WWW_SEARCH), (0x66, KEY_WWW_FAVORITES),
    (0x67, KEY_WWW_REFRESH), (0x68, KEY_WWW_STOP), (0x69, KEY_WWW_FORWARD), (0x6A, KEY_WWW_BACK),
    (0x6B, KEY_MY_COMPUTER), (0x6C, KEY_EMAIL), (0x6D, KEY_MEDIA_SELECT), (0x5E, KEY_POWER), (0x5F, KEY_SLEEP),
    (0x63, KEY_WAKE)]"
  by code_simp

lemma distinct_name_keys: "distinct (map fst name_assignments)"
  by (simp add: name_assignments_def key_values)

definition known_keys :: "key list" where
  "known_keys = map Plain (press_codes SCANCODES) @ map Extended (press_codes EXTENDED_SCANCODES) @ [Print_screen, Pause]"

definition plain_keys :: "(u8 \<times> u8) list" where
  "plain_keys = map (\<lambda>(n, k). (SC n, k)) scan_assignments"

definition extended_keys :: "(u8 \<times> u8) list" where
  "extended_keys = map (\<lambda>(n, k). (SCE n, k)) extended_assignments"

lemma init_tables:
  "ScanToKeyCode (ps2_keyboard_cpp_init s) =
     fold (\<lambda>(c, k) t. t(c := unpack_keycode k)) plain_keys (\<lambda>_. unpack_keycode KEY_INVALID)"
  "ExtendedScanToKeyCode (ps2_keyboard_cpp_init s) =
     fold (\<lambda>(c, k) t. t(c := unpack_keycode k)) extended_keys (\<lambda>_. unpack_keycode KEY_INVALID)"
  "KEY_CHAR_TABLE (ps2_keyboard_cpp_init s) = KEY_CHAR_TABLE (init_key_char_table s)"
  "key_strings (ps2_keyboard_cpp_init s) = key_strings (initialize_keycodes_name_converter s)"
  "keyboard_mode (ps2_keyboard_cpp_init s) = Testing"
  by (simp_all add: ps2_keyboard_cpp_init_def initialize_keycodes_name_converter_def init_scancodes_to_keycodes_def
      init_key_char_table_def plain_keys_def extended_keys_def fold_map comp_def case_prod_unfold)

lemma fold_update_other: "c \<notin> fst ` set xs \<Longrightarrow> fold (\<lambda>(c, k) t. t(c := f k)) xs t c = t c"
  by (induction xs arbitrary: t) auto

lemma fold_update_mem:
  "distinct (map fst xs) \<Longrightarrow> (c, k) \<in> set xs \<Longrightarrow> fold (\<lambda>(c, k) t. t(c := f k)) xs t c = f k"
  by (induction xs arbitrary: t) (auto simp: fold_update_other)

text \<open>
  A table filled by assignments to different places: afterwards each place has what was assigned to it, and the
  others are as before. The four tables of the driver are of this kind.
\<close>

locale assignment_table =
  fixes xs :: "('k \<times> 'v) list" and f :: "'v \<Rightarrow> 'w"
  assumes places: "distinct (map fst xs)"
begin

lemma unassigned: "c \<notin> fst ` set xs \<Longrightarrow> fold (\<lambda>(c, k) t. t(c := f k)) xs t c = t c"
  by (rule fold_update_other)

lemma assigned: "(c, k) \<in> set xs \<Longrightarrow> fold (\<lambda>(c, k) t. t(c := f k)) xs t c = f k"
  by (rule fold_update_mem [OF places])

end

lemma distinct_codes: "distinct (map fst plain_keys)" "distinct (map fst extended_keys)"
  unfolding plain_keys_def extended_keys_def scan_codes extended_codes by simp_all

interpretation scan_table: assignment_table plain_keys unpack_keycode
  by unfold_locales (rule distinct_codes(1))

interpretation extended_table: assignment_table extended_keys unpack_keycode
  by unfold_locales (rule distinct_codes(2))

interpretation name_table: assignment_table name_assignments Some
  by unfold_locales (rule distinct_name_keys)

lemma press_codes_SCANCODES: "press_codes SCANCODES = map of_nat ([1..<0x54] @ [0x57, 0x58])"
  unfolding press_codes_def SCANCODES_def by (simp add: upt_rec_numeral upt_rec)

lemma press_codes_EXTENDED: "press_codes EXTENDED_SCANCODES = [0x10, 0x19, 0x1C, 0x1D, 0x20, 0x21, 0x22, 0x24, 0x2E, 0x30,
    0x32, 0x35, 0x38, 0x47, 0x48, 0x49, 0x4B, 0x4D, 0x4F, 0x50, 0x51, 0x52, 0x53, 0x5B, 0x5C, 0x5D, 0x5E, 0x5F, 0x63, 0x65,
    0x66, 0x67, 0x68, 0x69, 0x6A, 0x6B, 0x6C, 0x6D]"
  unfolding press_codes_def EXTENDED_SCANCODES_def by simp

lemma distinct_keys: "distinct (map snd plain_keys @ map snd extended_keys @ [KEY_PRINTSCR, KEY_PAUSE])"
  unfolding plain_keys_def extended_keys_def scan_codes extended_codes by (simp add: key_values)

lemma mem_press_codes: "c \<in> set (press_codes SCANCODES) \<longleftrightarrow> 1 \<le> c \<and> c \<le> 0x53 \<or> c = 0x57 \<or> c = 0x58"
proof -
  have "c \<in> of_nat ` {1..<0x54} \<longleftrightarrow> 1 \<le> c \<and> c \<le> 0x53"
  proof
    show "c \<in> of_nat ` {1..<0x54} \<Longrightarrow> 1 \<le> c \<and> c \<le> 0x53" by (auto simp: word_le_nat_alt unat_of_nat)
    assume "1 \<le> c \<and> c \<le> 0x53"
    then show "c \<in> of_nat ` {1..<0x54}" by (intro image_eqI [of _ _ "unat c"]) (auto simp: word_le_nat_alt)
  qed
  then show ?thesis by (auto simp: press_codes_SCANCODES image_Un)
qed

lemma keys_cover:
  "fst ` set plain_keys = set (press_codes SCANCODES)" "fst ` set extended_keys = set (press_codes EXTENDED_SCANCODES)"
proof -
  have len: "length plain_keys = 85" "length (press_codes SCANCODES) = 85" unfolding plain_keys_def scan_codes press_codes_SCANCODES by simp_all
  have sub: "fst ` set plain_keys \<subseteq> set (press_codes SCANCODES)"
    unfolding plain_keys_def scan_codes by (simp add: mem_press_codes)
  have "card (set (press_codes SCANCODES)) \<le> card (fst ` set plain_keys)"
    using distinct_card [OF distinct_codes(1)] card_length [of "press_codes SCANCODES"] len by simp
  then show "fst ` set plain_keys = set (press_codes SCANCODES)" by (intro card_seteq sub) simp
  have len: "length extended_keys = 38" "length (press_codes EXTENDED_SCANCODES) = 38"
    unfolding extended_keys_def extended_codes press_codes_EXTENDED by simp_all
  have sub: "fst ` set extended_keys \<subseteq> set (press_codes EXTENDED_SCANCODES)"
    unfolding extended_keys_def extended_codes press_codes_EXTENDED by simp
  have "card (set (press_codes EXTENDED_SCANCODES)) \<le> card (fst ` set extended_keys)"
    using distinct_card [OF distinct_codes(2)] card_length [of "press_codes EXTENDED_SCANCODES"] len by simp
  then show "fst ` set extended_keys = set (press_codes EXTENDED_SCANCODES)" by (intro card_seteq sub) simp
qed

lemma keycode_of_known:
  "(c, k) \<in> set plain_keys \<Longrightarrow> keycode_of (ps2_keyboard_cpp_init s) (Plain c) = ok (unpack_keycode k)"
  "(c, k) \<in> set extended_keys \<Longrightarrow> keycode_of (ps2_keyboard_cpp_init s) (Extended c) = ok (unpack_keycode k)"
proof -
  assume *: "(c, k) \<in> set plain_keys"
  then have "c \<in> fst ` set plain_keys" by force
  then have "c < 128" unfolding keys_cover mem_press_codes by (auto simp: word_le_nat_alt word_less_nat_alt)
  then show "keycode_of (ps2_keyboard_cpp_init s) (Plain c) = ok (unpack_keycode k)"
    by (simp add: scancode_to_keycode_def init_tables scan_table.assigned [OF *])
next
  assume *: "(c, k) \<in> set extended_keys"
  then have "c \<in> fst ` set extended_keys" by force
  then have "c \<in> set (filter (\<lambda>c. c < 128) (map snd EXTENDED_SCANCODES))" unfolding keys_cover press_codes_def .
  then have "c < 128" by (simp only: set_filter mem_Collect_eq)
  then show "keycode_of (ps2_keyboard_cpp_init s) (Extended c) = ok (unpack_keycode k)"
    by (simp add: extended_scancode_to_keycode_def init_tables extended_table.assigned [OF *])
qed

text \<open>Any other scan code stands for the invalid key; a code from 128 on is outside of the tables.\<close>

lemma keycode_of_unknown:
  "c \<notin> set (press_codes SCANCODES) \<Longrightarrow> keycode_of (ps2_keyboard_cpp_init s) (Plain c) =
     (if c < 128 then ok (unpack_keycode KEY_INVALID) else Inl OutOfBounds)"
  "c \<notin> set (press_codes EXTENDED_SCANCODES) \<Longrightarrow> keycode_of (ps2_keyboard_cpp_init s) (Extended c) =
     (if c < 128 then ok (unpack_keycode KEY_INVALID) else Inl OutOfBounds)"
  using scan_table.unassigned [of c] extended_table.unassigned [of c]
  by (simp_all only: keys_cover [symmetric] keycode_of.simps scancode_to_keycode_def extended_scancode_to_keycode_def init_tables
      not_False_eq_True simp_thms)

text \<open>The keys and, next to each, the key code it has.\<close>

definition known_pairs :: "(key \<times> u8) list" where
  "known_pairs = map (map_prod Plain id) plain_keys @ map (map_prod Extended id) extended_keys @
     [(Print_screen, KEY_PRINTSCR), (Pause, KEY_PAUSE)]"

lemma known_pairs:
  "(key, k) \<in> set known_pairs \<Longrightarrow> keycode_of (ps2_keyboard_cpp_init s) key = ok (unpack_keycode k)"
  "fst ` set known_pairs = set known_keys" "distinct (map snd known_pairs)"
proof -
  show "(key, k) \<in> set known_pairs \<Longrightarrow> keycode_of (ps2_keyboard_cpp_init s) key = ok (unpack_keycode k)"
    by (auto simp: known_pairs_def keycode_of_known print_screen_to_keycode_def pause_to_keycode_def simp del: keycode_of.simps(1,2))
  have "fst ` map_prod f id ` A = f ` fst ` A" for f :: "u8 \<Rightarrow> key" and A :: "(u8 \<times> u8) set" by force
  then show "fst ` set known_pairs = set known_keys"
    by (simp add: known_pairs_def known_keys_def image_Un keys_cover)
  have "map snd known_pairs = map snd plain_keys @ map snd extended_keys @ [KEY_PRINTSCR, KEY_PAUSE]"
    by (simp add: known_pairs_def)
  then show "distinct (map snd known_pairs)" using distinct_keys by (simp only:)
qed

lemma known_valid: "snd ` set known_pairs \<inter> {KEY_INVALID, KEY_NONE, KEY_UNKNOWN} = {}"
  unfolding known_pairs_def plain_keys_def extended_keys_def scan_codes extended_codes by (simp add: key_values)

lemma name_of_key: "(k, n) \<in> set name_assignments \<Longrightarrow> key_strings (ps2_keyboard_cpp_init s) k = Some n"
  unfolding init_tables initialize_keycodes_name_converter_def
  by (simp add: name_table.assigned)

lemma inj_unpack: "unpack_keycode a = unpack_keycode b \<longleftrightarrow> a = b"
  by (metis pack_unpack)

text \<open>The message of a press.\<close>

definition press_message :: "bool \<Rightarrow> u8 \<Rightarrow> string \<Rightarrow> io_event" where
  "press_message first k n =
     Kprint ((if first then ''[FIRST PRESS ]'' else ''[REPEAT PRESS]'') @ '' keycode = (%u, %u) = %s\<newline>'')
       [KU (ucast (down (unpack_keycode k))), KU (ucast (right (unpack_keycode k))), KS n]"

text \<open>
  The keyboard, as scan code set 1 numbers it: each scan code (plain, or after the prefix E0) and the two keys with a sequence
  of their own, with the name the key is to be reported under.
\<close>

definition keyboard_layout :: "(key \<times> string) list" where
  "keyboard_layout = [
    (Plain 0x01, ''KEY_ESC''), (Plain 0x02, ''KEY_1''), (Plain 0x03, ''KEY_2''), (Plain 0x04, ''KEY_3''),
    (Plain 0x05, ''KEY_4''), (Plain 0x06, ''KEY_5''), (Plain 0x07, ''KEY_6''), (Plain 0x08, ''KEY_7''),
    (Plain 0x09, ''KEY_8''), (Plain 0x0A, ''KEY_9''), (Plain 0x0B, ''KEY_0''), (Plain 0x0C, ''KEY_MINUS''),
    (Plain 0x0D, ''KEY_EQUALS''), (Plain 0x0E, ''KEY_BACKSPACE''), (Plain 0x0F, ''KEY_TAB''),
    (Plain 0x10, ''KEY_Q''), (Plain 0x11, ''KEY_W''), (Plain 0x12, ''KEY_E''), (Plain 0x13, ''KEY_R''),
    (Plain 0x14, ''KEY_T''), (Plain 0x15, ''KEY_Y''), (Plain 0x16, ''KEY_U''), (Plain 0x17, ''KEY_I''),
    (Plain 0x18, ''KEY_O''), (Plain 0x19, ''KEY_P''), (Plain 0x1A, ''KEY_LEFTBRACKET''),
    (Plain 0x1B, ''KEY_RIGHTBRACKET''), (Plain 0x1C, ''KEY_ENTER''), (Plain 0x1D, ''KEY_LEFTCTRL''),
    (Plain 0x1E, ''KEY_A''), (Plain 0x1F, ''KEY_S''), (Plain 0x20, ''KEY_D''), (Plain 0x21, ''KEY_F''),
    (Plain 0x22, ''KEY_G''), (Plain 0x23, ''KEY_H''), (Plain 0x24, ''KEY_J''), (Plain 0x25, ''KEY_K''),
    (Plain 0x26, ''KEY_L''), (Plain 0x27, ''KEY_SEMICOLON''), (Plain 0x28, ''KEY_QUOTE''),
    (Plain 0x29, ''KEY_BACKTICK''), (Plain 0x2A, ''KEY_LEFTSHIFT''), (Plain 0x2B, ''KEY_BACKSLASH''),
    (Plain 0x2C, ''KEY_Z''), (Plain 0x2D, ''KEY_X''), (Plain 0x2E, ''KEY_C''), (Plain 0x2F, ''KEY_V''),
    (Plain 0x30, ''KEY_B''), (Plain 0x31, ''KEY_N''), (Plain 0x32, ''KEY_M''), (Plain 0x33, ''KEY_COMMA''),
    (Plain 0x34, ''KEY_PERIOD''), (Plain 0x35, ''KEY_SLASH''), (Plain 0x36, ''KEY_RIGHTSHIFT''),
    (Plain 0x37, ''KEY_KP_MULTIPLY''), (Plain 0x38, ''KEY_LEFTALT''), (Plain 0x39, ''KEY_SPACE''),
    (Plain 0x3A, ''KEY_CAPSLOCK''), (Plain 0x3B, ''KEY_F1''), (Plain 0x3C, ''KEY_F2''), (Plain 0x3D, ''KEY_F3''),
    (Plain 0x3E, ''KEY_F4''), (Plain 0x3F, ''KEY_F5''), (Plain 0x40, ''KEY_F6''), (Plain 0x41, ''KEY_F7''),
    (Plain 0x42, ''KEY_F8''), (Plain 0x43, ''KEY_F9''), (Plain 0x44, ''KEY_F10''), (Plain 0x45, ''KEY_NUMLOCK''),
    (Plain 0x46, ''KEY_SCROLLLOCK''), (Plain 0x47, ''KEY_KP_7''), (Plain 0x48, ''KEY_KP_8''),
    (Plain 0x49, ''KEY_KP_9''), (Plain 0x4A, ''KEY_KP_MINUS''), (Plain 0x4B, ''KEY_KP_4''),
    (Plain 0x4C, ''KEY_KP_5''), (Plain 0x4D, ''KEY_KP_6''), (Plain 0x4E, ''KEY_KP_PLUS''),
    (Plain 0x4F, ''KEY_KP_1''), (Plain 0x50, ''KEY_KP_2''), (Plain 0x51, ''KEY_KP_3''), (Plain 0x52, ''KEY_KP_0''),
    (Plain 0x53, ''KEY_KP_DECIMAL''), (Plain 0x57, ''KEY_F11''), (Plain 0x58, ''KEY_F12''),
    (Extended 0x10, ''KEY_MEDIA_PREV''), (Extended 0x19, ''KEY_MEDIA_NEXT''), (Extended 0x1C, ''KEY_KP_ENTER''),
    (Extended 0x1D, ''KEY_RIGHTCTRL''), (Extended 0x20, ''KEY_VOLUME_MUTE''), (Extended 0x21, ''KEY_CALCULATOR''),
    (Extended 0x22, ''KEY_MEDIA_PLAY''), (Extended 0x24, ''KEY_MEDIA_STOP''), (Extended 0x2E, ''KEY_VOLUME_DOWN''),
    (Extended 0x30, ''KEY_VOLUME_UP''), (Extended 0x32, ''KEY_WWW_HOME''), (Extended 0x35, ''KEY_KP_DIVIDE''),
    (Extended 0x38, ''KEY_RIGHTALT''), (Extended 0x47, ''KEY_HOME''), (Extended 0x48, ''KEY_UP''),
    (Extended 0x49, ''KEY_PAGEUP''), (Extended 0x4B, ''KEY_LEFT''), (Extended 0x4D, ''KEY_RIGHT''),
    (Extended 0x4F, ''KEY_END''), (Extended 0x50, ''KEY_DOWN''), (Extended 0x51, ''KEY_PAGEDOWN''),
    (Extended 0x52, ''KEY_INSERT''), (Extended 0x53, ''KEY_DELETE''), (Extended 0x5B, ''KEY_LEFTMETA''),
    (Extended 0x5C, ''KEY_RIGHTMETA''), (Extended 0x5D, ''KEY_MENU''), (Extended 0x5E, ''KEY_POWER''),
    (Extended 0x5F, ''KEY_SLEEP''), (Extended 0x63, ''KEY_WAKE''), (Extended 0x65, ''KEY_WWW_SEARCH''),
    (Extended 0x66, ''KEY_WWW_FAVORITES''), (Extended 0x67, ''KEY_WWW_REFRESH''), (Extended 0x68, ''KEY_WWW_STOP''),
    (Extended 0x69, ''KEY_WWW_FORWARD''), (Extended 0x6A, ''KEY_WWW_BACK''), (Extended 0x6B, ''KEY_MY_COMPUTER''),
    (Extended 0x6C, ''KEY_EMAIL''), (Extended 0x6D, ''KEY_MEDIA_SELECT''), (Print_screen, ''KEY_PRINTSCR''),
    (Pause, ''KEY_PAUSE'')]"

lemma known_pairs_literal: "known_pairs = [
    (Plain 0x01, KEY_ESC), (Plain 0x3B, KEY_F1), (Plain 0x3C, KEY_F2), (Plain 0x3D, KEY_F3), (Plain 0x3E, KEY_F4),
    (Plain 0x3F, KEY_F5), (Plain 0x40, KEY_F6), (Plain 0x41, KEY_F7), (Plain 0x42, KEY_F8), (Plain 0x43, KEY_F9),
    (Plain 0x44, KEY_F10), (Plain 0x57, KEY_F11), (Plain 0x58, KEY_F12), (Plain 0x46, KEY_SCROLLLOCK),
    (Plain 0x29, KEY_BACKTICK), (Plain 0x02, KEY_1), (Plain 0x03, KEY_2), (Plain 0x04, KEY_3), (Plain 0x05, KEY_4),
    (Plain 0x06, KEY_5), (Plain 0x07, KEY_6), (Plain 0x08, KEY_7), (Plain 0x09, KEY_8), (Plain 0x0A, KEY_9),
    (Plain 0x0B, KEY_0), (Plain 0x0C, KEY_MINUS), (Plain 0x0D, KEY_EQUALS), (Plain 0x0E, KEY_BACKSPACE),
    (Plain 0x45, KEY_NUMLOCK), (Plain 0x37, KEY_KP_MULTIPLY), (Plain 0x4A, KEY_KP_MINUS), (Plain 0x0F, KEY_TAB),
    (Plain 0x10, KEY_Q), (Plain 0x11, KEY_W), (Plain 0x12, KEY_E), (Plain 0x13, KEY_R), (Plain 0x14, KEY_T),
    (Plain 0x15, KEY_Y), (Plain 0x16, KEY_U), (Plain 0x17, KEY_I), (Plain 0x18, KEY_O), (Plain 0x19, KEY_P),
    (Plain 0x1A, KEY_LEFTBRACKET), (Plain 0x1B, KEY_RIGHTBRACKET), (Plain 0x2B, KEY_BACKSLASH),
    (Plain 0x47, KEY_KP_7), (Plain 0x48, KEY_KP_8), (Plain 0x49, KEY_KP_9), (Plain 0x4E, KEY_KP_PLUS),
    (Plain 0x3A, KEY_CAPSLOCK), (Plain 0x1E, KEY_A), (Plain 0x1F, KEY_S), (Plain 0x20, KEY_D), (Plain 0x21, KEY_F),
    (Plain 0x22, KEY_G), (Plain 0x23, KEY_H), (Plain 0x24, KEY_J), (Plain 0x25, KEY_K), (Plain 0x26, KEY_L),
    (Plain 0x27, KEY_SEMICOLON), (Plain 0x28, KEY_QUOTE), (Plain 0x1C, KEY_ENTER), (Plain 0x4B, KEY_KP_4),
    (Plain 0x4C, KEY_KP_5), (Plain 0x4D, KEY_KP_6), (Plain 0x2A, KEY_LEFTSHIFT), (Plain 0x2C, KEY_Z),
    (Plain 0x2D, KEY_X), (Plain 0x2E, KEY_C), (Plain 0x2F, KEY_V), (Plain 0x30, KEY_B), (Plain 0x31, KEY_N),
    (Plain 0x32, KEY_M), (Plain 0x33, KEY_COMMA), (Plain 0x34, KEY_PERIOD), (Plain 0x35, KEY_SLASH),
    (Plain 0x36, KEY_RIGHTSHIFT), (Plain 0x4F, KEY_KP_1), (Plain 0x50, KEY_KP_2), (Plain 0x51, KEY_KP_3),
    (Plain 0x1D, KEY_LEFTCTRL), (Plain 0x38, KEY_LEFTALT), (Plain 0x39, KEY_SPACE), (Plain 0x52, KEY_KP_0),
    (Plain 0x53, KEY_KP_DECIMAL), (Extended 0x52, KEY_INSERT), (Extended 0x47, KEY_HOME),
    (Extended 0x49, KEY_PAGEUP), (Extended 0x35, KEY_KP_DIVIDE), (Extended 0x53, KEY_DELETE),
    (Extended 0x4F, KEY_END), (Extended 0x51, KEY_PAGEDOWN), (Extended 0x48, KEY_UP), (Extended 0x1C, KEY_KP_ENTER),
    (Extended 0x5B, KEY_LEFTMETA), (Extended 0x38, KEY_RIGHTALT), (Extended 0x5C, KEY_RIGHTMETA),
    (Extended 0x5D, KEY_MENU), (Extended 0x1D, KEY_RIGHTCTRL), (Extended 0x4B, KEY_LEFT), (Extended 0x50, KEY_DOWN),
    (Extended 0x4D, KEY_RIGHT), (Extended 0x10, KEY_MEDIA_PREV), (Extended 0x19, KEY_MEDIA_NEXT),
    (Extended 0x22, KEY_MEDIA_PLAY), (Extended 0x24, KEY_MEDIA_STOP), (Extended 0x20, KEY_VOLUME_MUTE),
    (Extended 0x30, KEY_VOLUME_UP), (Extended 0x2E, KEY_VOLUME_DOWN), (Extended 0x21, KEY_CALCULATOR),
    (Extended 0x32, KEY_WWW_HOME), (Extended 0x65, KEY_WWW_SEARCH), (Extended 0x66, KEY_WWW_FAVORITES),
    (Extended 0x67, KEY_WWW_REFRESH), (Extended 0x68, KEY_WWW_STOP), (Extended 0x69, KEY_WWW_FORWARD),
    (Extended 0x6A, KEY_WWW_BACK), (Extended 0x6B, KEY_MY_COMPUTER), (Extended 0x6C, KEY_EMAIL),
    (Extended 0x6D, KEY_MEDIA_SELECT), (Extended 0x5E, KEY_POWER), (Extended 0x5F, KEY_SLEEP),
    (Extended 0x63, KEY_WAKE), (Print_screen, KEY_PRINTSCR), (Pause, KEY_PAUSE)]"
  unfolding known_pairs_def plain_keys_def extended_keys_def scan_codes extended_codes
  by (simp only: list.map append.simps map_prod_simp id_apply)

lemma layout_names:
  "list_all (\<lambda>(key, n). \<exists>k. (key, k) \<in> set known_pairs \<and> (k, n) \<in> set name_assignments) keyboard_layout"
  unfolding keyboard_layout_def list.pred_inject prod.case known_pairs_literal name_assignments_def list.set
  by (intro conjI list.pred_inject(1) exI) (rule insertI1 | rule insertI2)+

lemma layout_keys: "set (map fst keyboard_layout) = set known_keys"
proof -
  have "length (map fst keyboard_layout) = length (map fst known_pairs)"
    unfolding keyboard_layout_def known_pairs_literal by simp
  moreover have "distinct (map fst keyboard_layout)" unfolding keyboard_layout_def by simp
  moreover have "set (map fst keyboard_layout) \<subseteq> set (map fst known_pairs)"
    using layout_names by (force simp: list_all_iff)
  ultimately have "set (map fst keyboard_layout) = set (map fst known_pairs)"
    by (metis List.finite_set card_length card_seteq distinct_card)
  then show ?thesis using known_pairs(2) by simp
qed

lemma known_key_reported:
  assumes "(key, n) \<in> set keyboard_layout"
  shows "\<exists>k. keycode_of (ps2_keyboard_cpp_init s) key = ok (unpack_keycode k) \<and>
    (\<forall>mods first tr. run (call_keycode_handler (ps2_keyboard_cpp_init s) (Keycode key mods first True)) tr =
       (ok (), press_message first k n # tr))"
proof -
  obtain k where k: "(key, k) \<in> set known_pairs" and n: "(k, n) \<in> set name_assignments"
    using layout_names assms unfolding list_all_iff by blast
  then have "k \<in> snd ` set known_pairs" by force
  then have valid: "k \<notin> {KEY_INVALID, KEY_NONE, KEY_UNKNOWN}" using known_valid by blast
  have "run (call_keycode_handler (ps2_keyboard_cpp_init s) (Keycode key mods first True)) tr =
      (ok (), press_message first k n # tr)" for mods first tr
    using valid by (simp add: known_pairs(1) [OF k] name_of_key [OF n] keycode_handler_def report_key_def key_to_string_def pack_unpack
        init_tables(5) press_message_def run_bindS Let_def)
  then show ?thesis using known_pairs(1) [OF k] by blast
qed

text \<open>
  (C18) Once the tables are set up, every key of scan code set 1 as the layout numbers and names it, Print Screen and Pause
  included, has a key code of its own (no two keys share one), and a report of a press of it prints the position and exactly that name,
  marked as a first press or a repetition. These are all the keys of the driver's scan code tables.
\<close>

theorem keys_reported:
  "set (map fst keyboard_layout) = set known_keys \<and>
   inj_on (keycode_of (ps2_keyboard_cpp_init s)) (set known_keys) \<and>
   list_all (\<lambda>(key, n). \<exists>k. keycode_of (ps2_keyboard_cpp_init s) key = ok (unpack_keycode k) \<and>
     (\<forall>mods first tr. run (call_keycode_handler (ps2_keyboard_cpp_init s) (Keycode key mods first True)) tr =
        (ok (), press_message first k n # tr))) keyboard_layout"
proof (intro conjI)
  show "set (map fst keyboard_layout) = set known_keys" by (rule layout_keys)
  show "inj_on (keycode_of (ps2_keyboard_cpp_init s)) (set known_keys)"
  proof (rule inj_onI)
    fix a b
    assume ab: "a \<in> set known_keys" "b \<in> set known_keys" "keycode_of (ps2_keyboard_cpp_init s) a = keycode_of (ps2_keyboard_cpp_init s) b"
    then obtain k l where kl: "(a, k) \<in> set known_pairs" "(b, l) \<in> set known_pairs" unfolding known_pairs(2) [symmetric] by auto
    then have "k = l" using ab(3) by (simp add: known_pairs(1) inj_unpack)
    then show "a = b" using kl known_pairs(3) unfolding distinct_map inj_on_def by force
  qed
qed (use known_key_reported in \<open>auto simp: list_all_iff simp del: call_keycode_handler.simps\<close>)

section \<open>Characters\<close>

text \<open>The scan code of each letter.\<close>

definition letter_keys :: "(char \<times> string) list" where
  "letter_keys = [(CHR ''a'', ''A''), (CHR ''b'', ''B''), (CHR ''c'', ''C''), (CHR ''d'', ''D''), (CHR ''e'', ''E''), (CHR ''f'', ''F''),
     (CHR ''g'', ''G''), (CHR ''h'', ''H''), (CHR ''i'', ''I''), (CHR ''j'', ''J''), (CHR ''k'', ''K''), (CHR ''l'', ''L''),
     (CHR ''m'', ''M''), (CHR ''n'', ''N''), (CHR ''o'', ''O''), (CHR ''p'', ''P''), (CHR ''q'', ''Q''), (CHR ''r'', ''R''),
     (CHR ''s'', ''S''), (CHR ''t'', ''T''), (CHR ''u'', ''U''), (CHR ''v'', ''V''), (CHR ''w'', ''W''), (CHR ''x'', ''X_''),
     (CHR ''y'', ''Y''), (CHR ''z'', ''Z'')]"

definition upper :: "char \<Rightarrow> char" where
  "upper c = char_of (of_char c - 32 :: nat)"

lemma distinct_char_keys: "distinct (map fst char_assignments)"
  unfolding char_assignments_def by (simp add: key_values)

interpretation char_table: assignment_table char_assignments char_info
  by unfold_locales (rule distinct_char_keys)

lemma char_of_key: "(k, i) \<in> set char_assignments \<Longrightarrow> KEY_CHAR_TABLE (ps2_keyboard_cpp_init s) k = char_info i"
  unfolding init_tables init_key_char_table_def by (simp add: char_table.assigned)

lemma scan_assignment: "(n, k) \<in> set scan_assignments \<Longrightarrow> scancode_to_keycode (ps2_keyboard_cpp_init s) (SC n) = ok (unpack_keycode k)"
  using keycode_of_known(1) [of "SC n" k s] by (force simp: plain_keys_def)

lemma letter_tables:
  "list_all (\<lambda>(c, n). \<exists>k. (n, k) \<in> set scan_assignments \<and>
     (k, (c, upper c, upper c, CHR '' '', True, True, False)) \<in> set char_assignments) letter_keys"
  by (simp add: letter_keys_def scan_assignments_def char_assignments_def upper_def char_of_def bit_0)

text \<open>
  (C27) A letter: its scan code leads to the key that types it, small or capital according to whether exactly one of Shift and Caps Lock is
  in the modifiers, and to no character (0) when Control, Meta, Alt or AltGr is.
\<close>

theorem letters_typed:
  "list_all (\<lambda>(c, n). \<exists>keycode. scancode_to_keycode (ps2_keyboard_cpp_init s) (SC n) = ok keycode \<and>
     key_to_char (ps2_keyboard_cpp_init s) (pack_keycode keycode) mods =
       (if left_ctrl mods \<or> right_ctrl mods \<or> left_meta mods \<or> right_meta mods \<or> alt mods \<or> altgr mods then CHR 0x00
        else if (left_shift mods \<or> right_shift mods) \<noteq> capslock mods then upper c else c)) letter_keys"
proof -
  have "key_to_char (ps2_keyboard_cpp_init s) k mods =
      (if left_ctrl mods \<or> right_ctrl mods \<or> left_meta mods \<or> right_meta mods \<or> alt mods \<or> altgr mods then CHR 0x00
       else if (left_shift mods \<or> right_shift mods) \<noteq> capslock mods then upper c else c)"
    if "(k, (c, upper c, upper c, CHR '' '', True, True, False)) \<in> set char_assignments" for k c
    by (simp add: key_to_char_def char_of_key [OF that] char_info_def Let_def)
  then show ?thesis
    using letter_tables by (fastforce simp: list_all_iff scan_assignment pack_unpack)
qed

end
