(* ===== verification/Cpuid.thy ===== *)
theory Cpuid
  imports Memory
begin

text \<open>
  Queries of the processor (\<open>cpu/cpuid/cpuid.cpp\<close>, \<open>cpuid.hpp\<close>): the check of a function number against what the
  processor supports, the call, and the cached vendor and brand strings.

  The instruction itself (\<open>_cpuid\<close>) is a parameter \<open>cpu\<close>. The globals are the record \<open>cpuid_state\<close>; character arrays are lists of
  their length, 13 and 49. \<open>get_cpuid_max\<close> and \<open>call_cpuid\<close> call each other, but the call inside the former is for a function that is not
  validated: it is \<open>call_leaf\<close>, the part of \<open>call_cpuid\<close> after the validation.
\<close>

section \<open>Data\<close>

record cpuid_reg =
  eax :: u32
  ebx :: u32
  ecx :: u32
  edx :: u32

datatype cpuid_error = none | unknown_cpu_function | function_doesnt_have_subleaf
  | cpuid_function_not_supported_by_hardware | cpuid_extended_function_not_supported_by_hardware

record cpuid_state =
  max_cpuid_command :: u32
  cpuid_vendor :: "u8 list"
  max_extended_cpuid_command :: u32
  brand_string :: "u8 list"

type_synonym cpu = "u32 \<Rightarrow> u32 \<Rightarrow> cpuid_reg"

definition Basic_MaxFunction :: u32 where [const_defs]: "Basic_MaxFunction = 0x0"
definition ProcessorInfo :: u32 where [const_defs]: "ProcessorInfo = 0x1"
definition Cache_TLB :: u32 where [const_defs]: "Cache_TLB = 0x2"
definition SerialNumber :: u32 where [const_defs]: "SerialNumber = 0x3"
definition DeterministicCache :: u32 where [const_defs]: "DeterministicCache = 0x4"
definition MonitorMwait :: u32 where [const_defs]: "MonitorMwait = 0x5"
definition ThermalPower :: u32 where [const_defs]: "ThermalPower = 0x6"
definition ExtendedFeatures :: u32 where [const_defs]: "ExtendedFeatures = 0x7"
definition DirectCacheAccess :: u32 where [const_defs]: "DirectCacheAccess = 0x9"
definition PerformanceMonitoring :: u32 where [const_defs]: "PerformanceMonitoring = 0xA"
definition ExtendedTopology :: u32 where [const_defs]: "ExtendedTopology = 0xB"
definition XSAVE_Features :: u32 where [const_defs]: "XSAVE_Features = 0xD"
definition TSC_INFO :: u32 where [const_defs]: "TSC_INFO = 15"
definition Extended_MaxFunction :: u32 where [const_defs]: "Extended_MaxFunction = 0x80000000"
definition Extended_Features :: u32 where [const_defs]: "Extended_Features = 0x80000001"
definition Brand_String1 :: u32 where [const_defs]: "Brand_String1 = 0x80000002"
definition Brand_String2 :: u32 where [const_defs]: "Brand_String2 = 0x80000003"
definition Brand_String3 :: u32 where [const_defs]: "Brand_String3 = 0x80000004"
definition L2L3_CacheInfo :: u32 where [const_defs]: "L2L3_CacheInfo = 0x80000006"
definition AdvancedPowerMgmt :: u32 where [const_defs]: "AdvancedPowerMgmt = 0x80000007"
definition PhysicalAddressInfo :: u32 where [const_defs]: "PhysicalAddressInfo = 0x80000008"

definition cpuid_names :: "string list" where
  "cpuid_names = [''none'', ''unknown_cpu_function'', ''function_doesnt_have_subleaf'',
     ''cpuid_function_not_supported_by_hardware'', ''cpuid_extennded_function_not_supported_by_hardware'']"

text \<open>The number of an error; any other number can come in through the C interface.\<close>

primrec cpuid_error_value :: "cpuid_error \<Rightarrow> int" where
  "cpuid_error_value none = 0"
| "cpuid_error_value unknown_cpu_function = 1"
| "cpuid_error_value function_doesnt_have_subleaf = 2"
| "cpuid_error_value cpuid_function_not_supported_by_hardware = 3"
| "cpuid_error_value cpuid_extended_function_not_supported_by_hardware = 4"

definition cpuid_to_string :: "int \<Rightarrow> string" where
  "cpuid_to_string index =
     (if index < 0 \<or> index \<ge> int (length cpuid_names) then ''invalid_cpuid_error'' else cpuid_names ! nat index)"

section \<open>Operations\<close>

text \<open>The \<open>switch\<close> of \<open>call_cpuid\<close> and the call.\<close>

definition call_leaf :: "cpu \<Rightarrow> u32 \<Rightarrow> u32 \<Rightarrow> cpuid_reg \<times> cpuid_error" where
  "call_leaf cpu f subleaf_ecx =
     (let no_regs = \<lparr>eax = 0, ebx = 0, ecx = 0, edx = 0\<rparr>
      in if f \<in> {ExtendedFeatures, ExtendedTopology, XSAVE_Features} then (cpu f subleaf_ecx, none)
         else if f \<in> {Basic_MaxFunction, ProcessorInfo, Cache_TLB, SerialNumber, DeterministicCache, MonitorMwait, ThermalPower,
             DirectCacheAccess, PerformanceMonitoring, Extended_MaxFunction, Extended_Features, Brand_String1, Brand_String2,
             Brand_String3, L2L3_CacheInfo, AdvancedPowerMgmt, PhysicalAddressInfo} then
           (if subleaf_ecx \<noteq> 0 then (no_regs, function_doesnt_have_subleaf) else (cpu f 0, none))
         else (no_regs, unknown_cpu_function))"

text \<open>The three stores of a vendor string: \<open>ebx\<close>, \<open>edx\<close>, \<open>ecx\<close>; the thirteenth byte stays.\<close>

definition vendor_bytes :: "cpuid_reg \<Rightarrow> u8 list" where
  "vendor_bytes r = bytes32 (ebx r) @ bytes32 (edx r) @ bytes32 (ecx r)"

definition get_cpuid_max :: "cpu \<Rightarrow> cpuid_state \<Rightarrow> u32 \<times> cpuid_state" where
  "get_cpuid_max cpu s =
     (if max_cpuid_command s \<noteq> 0 then (max_cpuid_command s, s)
      else let r = fst (call_leaf cpu Extended_MaxFunction 0)
           in (eax r, s\<lparr>max_cpuid_command := eax r, cpuid_vendor := vendor_bytes r @ drop 12 (cpuid_vendor s)\<rparr>))"

definition get_cpuid_max_extended :: "cpu \<Rightarrow> cpuid_state \<Rightarrow> u32 \<times> cpuid_state" where
  "get_cpuid_max_extended cpu s =
     (if max_extended_cpuid_command s \<noteq> 0 then (max_extended_cpuid_command s, s)
      else let r = fst (call_leaf cpu Extended_MaxFunction 0)
           in (eax r, s\<lparr>max_extended_cpuid_command := eax r\<rparr>))"

definition validate_cpuid_function :: "cpu \<Rightarrow> u32 \<Rightarrow> cpuid_state \<Rightarrow> cpuid_error \<times> cpuid_state" where
  "validate_cpuid_function cpu raw s =
     (if raw \<le> XSAVE_Features then
        (let (max_basic, s) = get_cpuid_max cpu s
         in (if raw > max_basic then cpuid_function_not_supported_by_hardware else none, s))
      else if raw \<ge> Extended_MaxFunction then
        (let (max_ext, s) = get_cpuid_max_extended cpu s
         in (if raw > max_ext then cpuid_extended_function_not_supported_by_hardware else none, s))
      else (unknown_cpu_function, s))"

definition call_cpuid :: "cpu \<Rightarrow> u32 \<Rightarrow> u32 \<Rightarrow> cpuid_state \<Rightarrow> (cpuid_reg \<times> cpuid_error) \<times> cpuid_state" where
  "call_cpuid cpu f subleaf_ecx s =
     (if f \<noteq> Basic_MaxFunction \<and> f \<noteq> Extended_MaxFunction then
        (let (err, s) = validate_cpuid_function cpu f s
         in if err \<noteq> none then ((\<lparr>eax = 0, ebx = 0, ecx = 0, edx = 0\<rparr>, err), s) else (call_leaf cpu f subleaf_ecx, s))
      else (call_leaf cpu f subleaf_ecx, s))"

definition get_cpuid_vendor :: "cpu \<Rightarrow> cpuid_state \<Rightarrow> u8 list \<times> cpuid_state" where
  "get_cpuid_vendor cpu s =
     (if cpuid_vendor s ! 0 \<noteq> 0 then (cpuid_vendor s, s)
      else let ((r, _), s) = call_cpuid cpu Basic_MaxFunction 0 s;
               v = vendor_bytes r @ [0]
           in (v, s\<lparr>max_cpuid_command := eax r, cpuid_vendor := v\<rparr>))"

definition get_cpuid_max_and_vendor :: "cpu \<Rightarrow> cpuid_state \<Rightarrow> (cpuid_reg \<times> u8 list) \<times> cpuid_state" where
  "get_cpuid_max_and_vendor cpu s =
     (let ((r, _), s) = call_cpuid cpu Basic_MaxFunction 0 s;
          v = vendor_bytes r @ [0]
      in ((r, v), s\<lparr>max_cpuid_command := eax r, cpuid_vendor := v\<rparr>))"

text \<open>The loop over the three leaves; only builds without \<open>DEBUG\<close> stop on an error.\<close>

fun brand_loop :: "bool \<Rightarrow> cpu \<Rightarrow> u32 list \<Rightarrow> u8 list \<Rightarrow> cpuid_state \<Rightarrow> (u8 list \<times> cpuid_state) exec" where
  "brand_loop debug cpu [] acc s = ok (acc, s)"
| "brand_loop debug cpu (f # fs) acc s =
     (let ((r, err), s) = call_cpuid cpu f 0 s
      in if \<not> debug \<and> err \<noteq> none then Inl Abort
         else brand_loop debug cpu fs (acc @ bytes32 (eax r) @ bytes32 (ebx r) @ bytes32 (ecx r) @ bytes32 (edx r)) s)"

definition get_cpuid_brand_string :: "bool \<Rightarrow> cpu \<Rightarrow> cpuid_state \<Rightarrow> (u8 list \<times> cpuid_state) exec" where
  "get_cpuid_brand_string debug cpu s =
     (if brand_string s ! 0 \<noteq> 0 then ok (brand_string s, s)
      else bindE (brand_loop debug cpu [Brand_String1, Brand_String2, Brand_String3] [] s) (\<lambda>(b, s).
        ok (b @ [0], s\<lparr>brand_string := b @ [0]\<rparr>)))"

definition cpuid_boot :: cpuid_state where
  "cpuid_boot = \<lparr>max_cpuid_command = 0, cpuid_vendor = replicate 13 0, max_extended_cpuid_command = 0, brand_string = replicate 49 0\<rparr>"

section \<open>Which functions are supported\<close>

text \<open>The call inside \<open>get_cpuid_max\<close> is the one the source makes.\<close>

lemma call_cpuid_max: "call_cpuid cpu Extended_MaxFunction 0 s = (call_leaf cpu Extended_MaxFunction 0, s)"
  by (simp add: call_cpuid_def)

lemma call_leaf_max:
  "call_leaf cpu Extended_MaxFunction 0 = (cpu Extended_MaxFunction 0, none)"
  "call_leaf cpu Basic_MaxFunction 0 = (cpu Basic_MaxFunction 0, none)"
  by (simp_all add: call_leaf_def const_defs)

lemma validate_basic:
  "raw \<le> XSAVE_Features \<Longrightarrow> max_cpuid_command s \<noteq> 0 \<Longrightarrow>
     validate_cpuid_function cpu raw s =
       (if raw > max_cpuid_command s then cpuid_function_not_supported_by_hardware else none, s)"
  by (simp add: validate_cpuid_function_def get_cpuid_max_def)

lemma vendor_sets_max:
  "cpuid_vendor s ! 0 = 0 \<Longrightarrow> max_cpuid_command (snd (get_cpuid_vendor cpu s)) = eax (cpu Basic_MaxFunction 0)"
  by (simp add: get_cpuid_vendor_def call_cpuid_def call_leaf_max Let_def)

text \<open>
  (C32) The check of basic functions depends on what was asked first. When the vendor has been asked for, a basic function passes exactly if
  the processor supports it. Before, the check compares with the highest extended function: on every processor that has
  extended functions all basic ones pass, supported or not, and the wrong limit is kept from then on.
\<close>

theorem basic_check_needs_vendor:
  assumes "raw \<le> XSAVE_Features" and "0x80000000 \<le> eax (cpu Extended_MaxFunction 0)" and "eax (cpu Basic_MaxFunction 0) \<noteq> 0"
  shows "fst (validate_cpuid_function cpu raw (snd (get_cpuid_vendor cpu cpuid_boot))) =
      (if raw \<le> eax (cpu Basic_MaxFunction 0) then none else cpuid_function_not_supported_by_hardware) \<and>
    validate_cpuid_function cpu raw cpuid_boot = (none, snd (get_cpuid_max cpu cpuid_boot)) \<and>
    fst (validate_cpuid_function cpu raw (snd (get_cpuid_max cpu cpuid_boot))) = none"
proof (intro conjI)
  have vendor: "max_cpuid_command (snd (get_cpuid_vendor cpu cpuid_boot)) = eax (cpu Basic_MaxFunction 0)"
    by (rule vendor_sets_max) (simp add: cpuid_boot_def)
  show "fst (validate_cpuid_function cpu raw (snd (get_cpuid_vendor cpu cpuid_boot))) =
      (if raw \<le> eax (cpu Basic_MaxFunction 0) then none else cpuid_function_not_supported_by_hardware)"
    using validate_basic [OF assms(1), of "snd (get_cpuid_vendor cpu cpuid_boot)" cpu] assms(3) by (auto simp: vendor)
  have le: "raw \<le> eax (cpu Extended_MaxFunction 0)" "eax (cpu Extended_MaxFunction 0) \<noteq> 0"
    using assms(1,2) by (auto simp: XSAVE_Features_def word_le_nat_alt unat_eq_0)
  have max: "get_cpuid_max cpu cpuid_boot = (eax (cpu Extended_MaxFunction 0), snd (get_cpuid_max cpu cpuid_boot))"
    "max_cpuid_command (snd (get_cpuid_max cpu cpuid_boot)) = eax (cpu Extended_MaxFunction 0)"
    by (simp_all add: get_cpuid_max_def cpuid_boot_def call_leaf_max Let_def)
  show "validate_cpuid_function cpu raw cpuid_boot = (none, snd (get_cpuid_max cpu cpuid_boot))"
    unfolding validate_cpuid_function_def using assms(1) le(1) by (subst max(1)) (simp add: not_less)
  show "fst (validate_cpuid_function cpu raw (snd (get_cpuid_max cpu cpuid_boot))) = none"
    using validate_basic [OF assms(1), of "snd (get_cpuid_max cpu cpuid_boot)" cpu] le by (simp add: max(2) not_less)
qed

section \<open>The brand string\<close>

lemma brand_leaf:
  assumes "f \<in> {Brand_String1, Brand_String2, Brand_String3}" and "max_extended_cpuid_command s = 0 \<longrightarrow> limit = eax (cpu Extended_MaxFunction 0)"
    and "max_extended_cpuid_command s \<noteq> 0 \<longrightarrow> limit = max_extended_cpuid_command s" and "Brand_String3 \<le> limit"
  shows "call_cpuid cpu f 0 s = ((cpu f 0, none), s\<lparr>max_extended_cpuid_command := limit\<rparr>)"
proof -
  have f: "\<not> f \<le> XSAVE_Features" "Extended_MaxFunction \<le> f" "f \<le> Brand_String3" "f \<noteq> Basic_MaxFunction" "f \<noteq> Extended_MaxFunction"
    using assms(1) by (auto simp: const_defs)
  have "f \<le> limit" using f(3) assms(4) by (rule order_trans)
  moreover have "get_cpuid_max_extended cpu s = (limit, s\<lparr>max_extended_cpuid_command := limit\<rparr>)"
    using assms(2,3) by (cases "max_extended_cpuid_command s = 0") (simp_all add: get_cpuid_max_extended_def call_leaf_max Let_def)
  ultimately have "validate_cpuid_function cpu f s = (none, s\<lparr>max_extended_cpuid_command := limit\<rparr>)"
    using f by (simp add: validate_cpuid_function_def not_less)
  moreover have "call_leaf cpu f 0 = (cpu f 0, none)" using assms(1) by (auto simp: call_leaf_def const_defs)
  ultimately show ?thesis using f by (simp add: call_cpuid_def)
qed

definition brand_bytes :: "cpu \<Rightarrow> u32 \<Rightarrow> u8 list" where
  "brand_bytes cpu f = (let r = cpu f 0 in bytes32 (eax r) @ bytes32 (ebx r) @ bytes32 (ecx r) @ bytes32 (edx r))"

text \<open>
  On a processor that has the three brand string functions the brand string of a fresh system is their 48 bytes in order, with a zero after them, in
  debug and release builds; asking again gives the same string without asking the processor (any processor), unless its first byte is 0.
\<close>

theorem brand_string_read:
  assumes "Brand_String3 \<le> eax (cpu Extended_MaxFunction 0)"
  shows "\<exists>s. get_cpuid_brand_string debug cpu cpuid_boot =
      ok (brand_bytes cpu Brand_String1 @ brand_bytes cpu Brand_String2 @ brand_bytes cpu Brand_String3 @ [0], s) \<and>
    max_extended_cpuid_command s = eax (cpu Extended_MaxFunction 0) \<and>
    ((ucast (eax (cpu Brand_String1 0)) :: u8) \<noteq> 0 \<longrightarrow>
       (\<forall>other. get_cpuid_brand_string debug other s = ok (brand_string s, s)))"
proof -
  let ?limit = "eax (cpu Extended_MaxFunction 0)"
  let ?s = "cpuid_boot\<lparr>max_extended_cpuid_command := ?limit\<rparr>"
  let ?b = "brand_bytes cpu Brand_String1 @ brand_bytes cpu Brand_String2 @ brand_bytes cpu Brand_String3 @ [0]"
  have pos: "?limit \<noteq> 0" using assms by (auto simp: Brand_String3_def word_le_nat_alt)
  have "call_cpuid cpu Brand_String1 0 cpuid_boot = ((cpu Brand_String1 0, none), ?s)"
    by (rule brand_leaf) (use assms in \<open>auto simp: cpuid_boot_def\<close>)
  moreover have "call_cpuid cpu f 0 ?s = ((cpu f 0, none), ?s)" if "f \<in> {Brand_String2, Brand_String3}" for f
    using brand_leaf [of f ?s ?limit cpu] that assms pos by auto
  ultimately have "get_cpuid_brand_string debug cpu cpuid_boot = ok (?b, ?s\<lparr>brand_string := ?b\<rparr>)"
    by (simp add: get_cpuid_brand_string_def brand_bytes_def Let_def) (simp add: cpuid_boot_def)
  moreover have "brand_string (?s\<lparr>brand_string := ?b\<rparr>) ! 0 = ucast (eax (cpu Brand_String1 0))"
    by (simp add: brand_bytes_def bytes32_def Let_def)
  ultimately show ?thesis
    by - (rule exI [of _ "?s\<lparr>brand_string := ?b\<rparr>"], simp add: get_cpuid_brand_string_def)
qed

text \<open>A processor with basic functions up to 1 and extended ones up to 80000004, all answering with letters.\<close>

definition small_cpu :: cpu where
  "small_cpu f sub = (if f = 0 then \<lparr>eax = 1, ebx = 0x756E6547, ecx = 0x6C65746E, edx = 0x49656E69\<rparr>
     else if f = 0x80000000 then \<lparr>eax = 0x80000004, ebx = 0, ecx = 0, edx = 0\<rparr>
     else \<lparr>eax = 0x64636261, ebx = 0x64636261, ecx = 0x64636261, edx = 0x64636261\<rparr>)"

theorem basic_check_needs_vendor_witness:
  "fst (validate_cpuid_function small_cpu 7 (snd (get_cpuid_vendor small_cpu cpuid_boot))) = cpuid_function_not_supported_by_hardware \<and>
   fst (validate_cpuid_function small_cpu 7 cpuid_boot) = none"
  using basic_check_needs_vendor [of 7 small_cpu] by (simp add: small_cpu_def const_defs word_le_nat_alt)

theorem brand_string_read_witness:
  "\<exists>s. get_cpuid_brand_string True small_cpu cpuid_boot =
     ok (str ''abcdabcdabcdabcd'' @ str ''abcdabcdabcdabcd'' @ str ''abcdabcdabcdabcd'' @ [0], s)"
proof -
  have "brand_bytes small_cpu Brand_String1 = str ''abcdabcdabcdabcd''" "brand_bytes small_cpu Brand_String2 = str ''abcdabcdabcdabcd''"
    "brand_bytes small_cpu Brand_String3 = str ''abcdabcdabcdabcd''" "Brand_String3 \<le> eax (small_cpu Extended_MaxFunction 0)"
    by (simp_all add: brand_bytes_def bytes32_def small_cpu_def const_defs Let_def)
  then show ?thesis using brand_string_read [of small_cpu True] by metis
qed

end
