(* ===== verification/Symbols.thy ===== *)
theory Symbols
  imports C_Strings_Correct
begin

text \<open>
  The symbol table of the kernel (\<open>kernel/symbols.c\<close>): addresses of names, names of addresses, and the nearest symbol below an
  address, for stack traces.

  The table is an array of 16-byte entries in memory, between two addresses the linker sets, next to it the string table. The address
  of the table is a constant that is never null, so the three searches never initialise it themselves: they see the count that
  \<open>init_elf_symbols\<close> stored, or 0. Its messages are left out.
\<close>

record Elf32_Sym =
  sym_name :: u32
  sym_value :: u32
  sym_size :: u32
  sym_info :: u8
  sym_other :: u8
  sym_shndx :: u16

record symbols =
  ksymtab_start :: addr
  ksymtab_end :: addr
  kstrtab_start :: addr
  elf_symcount :: nat

definition read_sym :: "mem \<Rightarrow> addr \<Rightarrow> Elf32_Sym" where
  "read_sym m p = \<lparr>sym_name = read32 m p, sym_value = read32 m (p + 4), sym_size = read32 m (p + 8), sym_info = m (p + 12),
     sym_other = m (p + 13), sym_shndx = read16 m (p + 14)\<rparr>"

definition elf_symtab :: "mem \<Rightarrow> symbols \<Rightarrow> nat \<Rightarrow> Elf32_Sym" where
  "elf_symtab m t i = read_sym m (ksymtab_start t + of_nat (16 * i))"

text \<open>The difference of the two addresses is a signed number; the table the linker makes has a positive size below 2^31.\<close>

definition init_elf_symbols :: "symbols \<Rightarrow> symbols exec" where
  "init_elf_symbols t =
     (let size = unat (ksymtab_end t - ksymtab_start t)
      in if size mod 16 \<noteq> 0 then Inl Abort else ok (t\<lparr>elf_symcount := size div 16\<rparr>))"

section \<open>Searches\<close>

partial_function (option) same_name :: "mem \<Rightarrow> addr \<Rightarrow> addr \<Rightarrow> bool option" where
  "same_name m symname n =
     (if m symname \<noteq> 0 \<and> m symname = m n then same_name m (symname + 1) (n + 1) else Some (m symname = m n))"

text \<open>The loop of \<open>find_symbol_address\<close> from an index on.\<close>

function find_address_loop :: "mem \<Rightarrow> symbols \<Rightarrow> addr \<Rightarrow> nat \<Rightarrow> u32 exec" where
  "find_address_loop m t name i =
     (if i < elf_symcount t then
        bindE (hang_unless (same_name m (kstrtab_start t + sym_name (elf_symtab m t i)) name)) (\<lambda>same.
          if same then ok (sym_value (elf_symtab m t i)) else find_address_loop m t name (i + 1))
      else ok 0)"
  by pat_completeness auto
termination
  by (relation "measure (\<lambda>(m, t, name, i). elf_symcount t - i)") auto

declare find_address_loop.simps [simp del]

definition find_symbol_address :: "mem \<Rightarrow> symbols \<Rightarrow> addr \<Rightarrow> u32 exec" where
  "find_symbol_address m t name = find_address_loop m t name 0"

function find_name_loop :: "mem \<Rightarrow> symbols \<Rightarrow> u32 \<Rightarrow> nat \<Rightarrow> addr" where
  "find_name_loop m t address i =
     (if i < elf_symcount t then
        (if sym_value (elf_symtab m t i) = address then kstrtab_start t + sym_name (elf_symtab m t i)
         else find_name_loop m t address (i + 1))
      else 0)"
  by pat_completeness auto
termination
  by (relation "measure (\<lambda>(m, t, address, i). elf_symcount t - i)") auto

declare find_name_loop.simps [simp del]

definition find_symbol_name :: "mem \<Rightarrow> symbols \<Rightarrow> u32 \<Rightarrow> addr" where
  "find_symbol_name m t address = find_name_loop m t address 0"

text \<open>One turn of the loop: the best name and address so far.\<close>

definition nearer :: "mem \<Rightarrow> symbols \<Rightarrow> u32 \<Rightarrow> nat \<Rightarrow> addr \<times> u32 \<Rightarrow> addr \<times> u32" where
  "nearer m t address i = (\<lambda>(best_name, best_addr).
     let sym_addr = sym_value (elf_symtab m t i)
     in if sym_addr \<noteq> 0 \<and> sym_addr \<le> address then
          (if sym_addr > best_addr then (kstrtab_start t + sym_name (elf_symtab m t i), sym_addr) else (best_name, best_addr))
        else (best_name, best_addr))"

text \<open>The result and, when there is one and \<open>offset\<close> is not null, what is stored through \<open>offset\<close>.\<close>

definition find_nearest_symbol :: "mem \<Rightarrow> symbols \<Rightarrow> u32 \<Rightarrow> bool \<Rightarrow> addr \<times> u32 option" where
  "find_nearest_symbol m t address with_offset =
     (let (best_name, best_addr) = fold (nearer m t address) [0..<elf_symcount t] (0, 0)
      in (best_name, if best_name \<noteq> 0 \<and> with_offset then Some (address - best_addr) else None))"

section \<open>Correctness\<close>

lemma same_name_stop: "\<not> (m p \<noteq> 0 \<and> m p = m q) \<Longrightarrow> same_name m p q = Some (m p = m q)"
  by (subst same_name.simps) auto

lemma same_name_cstr: "cstr m p s \<Longrightarrow> cstr m q u \<Longrightarrow> same_name m p q = Some (s = u)"
proof (induction s arbitrary: p q u)
  case Nil
  then have "m p = 0" "m q = 0 \<longleftrightarrow> u = []" by (cases u; auto dest: cstr_Nil cstr_Cons)+
  then show ?case by (auto simp: same_name_stop)
next
  case (Cons c s)
  then have c: "m p = c" "c \<noteq> 0" "cstr m (p + 1) s" by (auto dest: cstr_Cons)
  show ?case
  proof (cases "\<exists>u'. u = c # u'")
    case True
    then obtain u' where u: "u = c # u'" by auto
    then have "m q = c" "cstr m (q + 1) u'" using Cons.prems(2) cstr_Cons by blast+
    then show ?thesis using Cons.IH [OF c(3)] c u by (subst same_name.simps) simp
  next
    case False
    then have "m q \<noteq> c" using Cons.prems(2) c(2) by (cases u; auto dest: cstr_Nil cstr_Cons)
    then show ?thesis using False c by (auto simp: same_name_stop)
  qed
qed

text \<open>
  The names of the first \<open>n\<close> entries are strings in memory.
\<close>

definition names_ok :: "mem \<Rightarrow> symbols \<Rightarrow> (nat \<Rightarrow> u8 list) \<Rightarrow> bool" where
  "names_ok m t names \<longleftrightarrow> list_all (\<lambda>i. cstr m (kstrtab_start t + sym_name (elf_symtab m t i)) (names i)) [0..<elf_symcount t]"

lemma find_address_from:
  assumes "names_ok m t names" and "cstr m name s" and "i \<le> elf_symcount t"
  shows "find_address_loop m t name i =
    ok (case find (\<lambda>j. names j = s) [i..<elf_symcount t] of None \<Rightarrow> 0 | Some j \<Rightarrow> sym_value (elf_symtab m t j))"
  using assms(3)
proof (induction "elf_symcount t - i" arbitrary: i)
  case 0
  then show ?case by (simp add: find_address_loop.simps [of m t name i])
next
  case (Suc k)
  then have i: "i < elf_symcount t" by simp
  then have "cstr m (kstrtab_start t + sym_name (elf_symtab m t i)) (names i)" using assms(1) by (simp add: names_ok_def list_all_iff)
  then have "find_address_loop m t name i =
      (if names i = s then ok (sym_value (elf_symtab m t i)) else find_address_loop m t name (i + 1))"
    using i assms(2) by (simp add: find_address_loop.simps [of m t name i] same_name_cstr)
  moreover have "[i..<elf_symcount t] = i # [i + 1..<elf_symcount t]" using i by (simp add: upt_conv_Cons)
  ultimately show ?case using Suc i by simp
qed

text \<open>
  The address found for a name is the value of the first symbol that has exactly this name, or 0.
\<close>

theorem find_symbol_address_first:
  assumes "names_ok m t names" and "cstr m name s"
  shows "find_symbol_address m t name =
    ok (case find (\<lambda>j. names j = s) [0..<elf_symcount t] of None \<Rightarrow> 0 | Some j \<Rightarrow> sym_value (elf_symtab m t j))"
  unfolding find_symbol_address_def by (rule find_address_from [OF assms]) simp

lemma find_name_from:
  "i \<le> elf_symcount t \<Longrightarrow> find_name_loop m t address i =
    (case find (\<lambda>j. sym_value (elf_symtab m t j) = address) [i..<elf_symcount t] of
       None \<Rightarrow> 0 | Some j \<Rightarrow> kstrtab_start t + sym_name (elf_symtab m t j))"
proof (induction "elf_symcount t - i" arbitrary: i)
  case 0
  then show ?case by (simp add: find_name_loop.simps [of m t address i])
next
  case (Suc k)
  then have "i < elf_symcount t" by simp
  moreover from this have "[i..<elf_symcount t] = i # [i + 1..<elf_symcount t]" by (simp add: upt_conv_Cons)
  ultimately show ?case using Suc by (simp add: find_name_loop.simps [of m t address i])
qed

text \<open>The invariant of the search for the nearest symbol: the best so far is the greatest value among the symbols seen.\<close>

definition candidate :: "mem \<Rightarrow> symbols \<Rightarrow> u32 \<Rightarrow> nat \<Rightarrow> bool" where
  "candidate m t address j \<longleftrightarrow> sym_value (elf_symtab m t j) \<noteq> 0 \<and> sym_value (elf_symtab m t j) \<le> address"

abbreviation value_of :: "mem \<Rightarrow> symbols \<Rightarrow> nat \<Rightarrow> u32" where
  "value_of m t i \<equiv> sym_value (elf_symtab m t i)"

abbreviation name_of_sym :: "mem \<Rightarrow> symbols \<Rightarrow> nat \<Rightarrow> addr" where
  "name_of_sym m t i \<equiv> kstrtab_start t + sym_name (elf_symtab m t i)"

definition nearest :: "mem \<Rightarrow> symbols \<Rightarrow> u32 \<Rightarrow> nat \<Rightarrow> nat \<Rightarrow> bool" where
  "nearest m t address n i \<longleftrightarrow> i < n \<and> candidate m t address i \<and>
     (\<forall>j<n. candidate m t address j \<longrightarrow> value_of m t j \<le> value_of m t i)"

lemma nearest_upto:
  "fold (nearer m t address) [0..<n] (0, 0) = (0, 0) \<and> (\<forall>j<n. \<not> candidate m t address j) \<or>
   (\<exists>i. nearest m t address n i \<and> fold (nearer m t address) [0..<n] (0, 0) = (name_of_sym m t i, value_of m t i))"
proof (induction n)
  case 0
  then show ?case by simp
next
  case (Suc n)
  have step: "fold (nearer m t address) [0..<Suc n] (0, 0) = nearer m t address n (fold (nearer m t address) [0..<n] (0, 0))" by simp
  from Suc show ?case
  proof
    assume *: "fold (nearer m t address) [0..<n] (0, 0) = (0, 0) \<and> (\<forall>j<n. \<not> candidate m t address j)"
    show ?thesis
    proof (cases "candidate m t address n")
      case True
      then have "nearest m t address (Suc n) n" using * by (auto simp: nearest_def less_Suc_eq)
      moreover have "nearer m t address n (0, 0) = (name_of_sym m t n, value_of m t n)"
        using True by (simp add: nearer_def candidate_def Let_def word_gt_0)
      ultimately show ?thesis using step * by auto
    next
      case False
      then have "nearer m t address n (0, 0) = (0, 0)" by (auto simp: nearer_def candidate_def Let_def)
      then show ?thesis using step * False by (auto simp: less_Suc_eq)
    qed
  next
    assume "\<exists>i. nearest m t address n i \<and> fold (nearer m t address) [0..<n] (0, 0) = (name_of_sym m t i, value_of m t i)"
    then obtain i where i: "nearest m t address n i" "fold (nearer m t address) [0..<n] (0, 0) = (name_of_sym m t i, value_of m t i)" by blast
    show ?thesis
    proof (cases "candidate m t address n \<and> value_of m t n > value_of m t i")
      case True
      then have "nearest m t address (Suc n) n" using i(1) by (fastforce simp: nearest_def less_Suc_eq)
      moreover have "nearer m t address n (name_of_sym m t i, value_of m t i) = (name_of_sym m t n, value_of m t n)"
        using True by (simp add: nearer_def candidate_def Let_def)
      ultimately show ?thesis using step i(2) by auto
    next
      case False
      then have "nearest m t address (Suc n) i" using i(1) by (auto simp: nearest_def less_Suc_eq not_less)
      moreover have "nearer m t address n (name_of_sym m t i, value_of m t i) = (name_of_sym m t i, value_of m t i)"
        using False by (auto simp: nearer_def candidate_def Let_def)
      ultimately show ?thesis using step i(2) by auto
    qed
  qed
qed

text \<open>
  (C28) The nearest symbol, for any table: if a symbol with a value other than 0 lies at or below the address, the name returned is that
  of one with the greatest such value, and the offset stored is the distance from it, when the name is not at address 0; else there is no name and
  nothing is stored.
\<close>

theorem find_nearest_symbol_nearest:
  "(\<nexists>j. j < elf_symcount t \<and> candidate m t address j) \<and> find_nearest_symbol m t address with_offset = (0, None) \<or>
   (\<exists>i. nearest m t address (elf_symcount t) i \<and> find_nearest_symbol m t address with_offset =
      (name_of_sym m t i, if name_of_sym m t i \<noteq> 0 \<and> with_offset then Some (address - value_of m t i) else None))"
  using nearest_upto [of m t address "elf_symcount t"] by (auto simp: find_nearest_symbol_def)

section \<open>Round trip\<close>

lemma find_distinct: "distinct (map f xs) \<Longrightarrow> x \<in> set xs \<Longrightarrow> find (\<lambda>y. f y = f x) xs = Some x"
  by (induction xs) auto

text \<open>
  (C29) In a table whose names are strings and in which no two symbols share a name or a value, looking up the address of a name and then the name of
  that address gives the symbol's own value and name.
\<close>

theorem symbol_roundtrip:
  assumes "names_ok m t names" and "i < elf_symcount t" and "cstr m name (names i)"
    and "distinct (map names [0..<elf_symcount t])" and "distinct (map (value_of m t) [0..<elf_symcount t])"
  shows "find_symbol_address m t name = ok (value_of m t i) \<and> find_symbol_name m t (value_of m t i) = name_of_sym m t i"
  using find_address_from [OF assms(1,3), of 0] find_distinct [OF assms(4), of i] find_distinct [OF assms(5), of i] assms(2)
  by (simp add: find_symbol_address_def find_symbol_name_def find_name_from)

text \<open>A table of two symbols, \<open>a\<close> at 100 and \<open>b\<close> at 200 (hexadecimal), and the string \<open>b\<close> elsewhere.\<close>

definition two_symbols :: mem where
  "two_symbols = store (store (store (\<lambda>_. 0) 0x1000 (bytes32 0 @ bytes32 0x100 @ [0, 0, 0, 0, 0, 0, 0, 0] @ bytes32 2 @ bytes32 0x200))
     0x2000 [0x61, 0, 0x62, 0]) 0x3000 [0x62, 0]"

definition two_symbols_table :: symbols where
  "two_symbols_table = \<lparr>ksymtab_start = 0x1000, ksymtab_end = 0x1020, kstrtab_start = 0x2000, elf_symcount = 2\<rparr>"

lemma two_symbols_bytes:
  "elf_symtab two_symbols two_symbols_table 0 = \<lparr>sym_name = 0, sym_value = 0x100, sym_size = 0, sym_info = 0, sym_other = 0, sym_shndx = 0\<rparr>"
  "elf_symtab two_symbols two_symbols_table 1 = \<lparr>sym_name = 2, sym_value = 0x200, sym_size = 0, sym_info = 0, sym_other = 0, sym_shndx = 0\<rparr>"
  "cstr two_symbols 0x2000 [0x61]" "cstr two_symbols 0x2002 [0x62]" "cstr two_symbols 0x3000 [0x62]"
  by (simp_all add: elf_symtab_def two_symbols_def two_symbols_table_def read_sym_def read32_def read16_def bytes32_def cstr_def
)

theorem symbol_roundtrip_witness:
  "find_symbol_address two_symbols two_symbols_table 0x3000 = ok 0x200 \<and> find_symbol_name two_symbols two_symbols_table 0x200 = 0x2002"
proof -
  have two: "[0..<elf_symcount two_symbols_table] = [0, 1]" "kstrtab_start two_symbols_table = 0x2000"
    by (simp_all add: two_symbols_table_def upt_rec)
  have "names_ok two_symbols two_symbols_table (\<lambda>i. if i = 0 then [0x61] else [0x62])"
    unfolding names_ok_def two by (simp add: two two_symbols_bytes two_symbols_bytes(2) [simplified])
  then show ?thesis
    using symbol_roundtrip [of two_symbols two_symbols_table "\<lambda>i. if i = 0 then [0x61] else [0x62]" 1 "0x3000"]
    unfolding two by (simp add: two two_symbols_bytes two_symbols_bytes(2) [simplified]) (simp add: two_symbols_table_def)
qed

theorem find_nearest_symbol_nearest_witness: "find_nearest_symbol two_symbols two_symbols_table 0x50 True = (0, None)"
proof -
  have "\<not> candidate two_symbols two_symbols_table 0x50 j" if "j < elf_symcount two_symbols_table" for j
  proof -
    have "j = 0 \<or> j = 1" using that by (auto simp: two_symbols_table_def)
    then show ?thesis by (auto simp: candidate_def two_symbols_bytes two_symbols_bytes(2) [simplified])
  qed
  then show ?thesis using find_nearest_symbol_nearest [of two_symbols_table two_symbols "0x50" True] by (auto simp: nearest_def)
qed

end
