(* ===== verification/Real16.thy ===== *)
theory Real16
  imports Port_IO
begin

text \<open>
  Calls of real-mode functions (\<open>real16_wrappers/call_real16_wrapper.c\<close>): the segment and offset of a function, and the argument block
  that the assembly code of the mode switch reads. The mode switch (\<open>pm32_to_pm16\<close>, assembly) is a parameter; a variable argument that was not passed is
  \<open>Inl Undefined\<close>. The three messages printed on the way, and \<open>print_args16\<close>, are left out.
\<close>

record realmode_address =
  func_address :: u16
  func_cs :: u16

record Args16 =
  gdt_limit :: u16
  gdt_base :: u32
  a16_esp :: u32
  a16_ss :: u16
  a16_cs :: u16
  ret1 :: u16
  ret2 :: u16
  a16_func :: u16
  a16_func_cs :: u16
  a16_argc :: u16
  func_args :: "u16 list"

definition min32 :: "u32 \<Rightarrow> u32 \<Rightarrow> u32" where
  "min32 a b = (if a < b then a else b)"

definition get_realmode_function_address :: "u32 \<Rightarrow> realmode_address" where
  "get_realmode_function_address addr =
     (if addr > 0xFFFFF then \<lparr>func_address = 0xFFFF, func_cs = 0xFFFF\<rparr>
      else let low = ucast (addr AND 0xFFFF) :: u16
           in \<lparr>func_address = low, func_cs = ucast (drop_bit 16 (addr - ucast low))\<rparr>)"

text \<open>The loop over the arguments: index, arguments left, block.\<close>

fun pass_args :: "nat list \<Rightarrow> u32 list \<Rightarrow> Args16 \<Rightarrow> Args16 exec" where
  "pass_args [] args a = ok a"
| "pass_args (i # is) [] a = Inl Undefined"
| "pass_args (i # is) (v # args) a =
     (if i < 11 then pass_args is args (a\<lparr>func_args := (func_args a)[i := ucast v]\<rparr>) else Inl OutOfBounds)"

definition call_real_mode_function_with_argc ::
    "(Args16 \<Rightarrow> u16 \<times> Args16) \<Rightarrow> u32 \<Rightarrow> u32 list \<Rightarrow> Args16 \<Rightarrow> (u16 \<times> Args16) exec" where
  "call_real_mode_function_with_argc pm32_to_pm16 argc args a =
     (case args of
        [] \<Rightarrow> Inl Undefined
      | func # args \<Rightarrow>
          (let rm = get_realmode_function_address func;
               a = a\<lparr>a16_func := func_address rm, a16_func_cs := func_cs rm, a16_argc := ucast (argc - 1)\<rparr>
           in bindE (pass_args [0..<unat argc] args a) (\<lambda>a. ok (pm32_to_pm16 a))))"

text \<open>The macro counts its arguments, the function included.\<close>

definition call_real_mode_function :: "(Args16 \<Rightarrow> u16 \<times> Args16) \<Rightarrow> u32 list \<Rightarrow> Args16 \<Rightarrow> (u16 \<times> Args16) exec" where
  "call_real_mode_function pm32_to_pm16 args a = call_real_mode_function_with_argc pm32_to_pm16 (of_nat (length args)) args a"

section \<open>Correctness\<close>

lemma low_half: "(0xFFFF :: u32) = mask 16"
  by (simp add: mask_eq_exp_minus_1)

lemma realmode_halves:
  assumes "addr \<le> 0xFFFFF"
  shows "unat (func_address (get_realmode_function_address addr)) = unat addr mod 65536"
    and "unat (func_cs (get_realmode_function_address addr)) = unat addr div 65536"
proof -
  let ?low = "ucast (addr AND 0xFFFF) :: u16"
  have addr: "unat addr < 0x100000" using assms by (simp add: word_le_nat_alt)
  have low: "unat ?low = unat addr mod 65536"
    unfolding low_half by (simp add: unsigned_ucast_eq unsigned_and_eq take_bit_eq_mod unat_mod flip: take_bit_eq_mask)
  have wide: "unat (ucast ?low :: u32) = unat addr mod 65536" using low by (simp add: unsigned_ucast_eq take_bit_eq_mod unat_mod)
  then have "unat (addr - ucast ?low) = unat addr - unat addr mod 65536" by (simp add: unat_sub word_le_nat_alt)
  then have "unat (drop_bit 16 (addr - ucast ?low)) = unat addr div 65536"
    by (simp add: unsigned_drop_bit_eq drop_bit_eq_div minus_mod_eq_mult_div unat_div)
  moreover have "unat addr div 65536 < 65536" using addr by simp
  ultimately have high: "unat (ucast (drop_bit 16 (addr - ucast ?low)) :: u16) = unat addr div 65536"
    by (simp add: unsigned_ucast_eq take_bit_eq_mod)
  show "unat (func_address (get_realmode_function_address addr)) = unat addr mod 65536"
    "unat (func_cs (get_realmode_function_address addr)) = unat addr div 65536"
    using assms low high by (simp_all add: get_realmode_function_address_def not_less Let_def)
qed

lemma pass_args_short: "length args < length is \<Longrightarrow> \<forall>i\<in>set is. i < 11 \<Longrightarrow> pass_args is args a = Inl Undefined"
proof (induction "is" args a rule: pass_args.induct)
qed auto

text \<open>
  Calls of real-mode functions. The address of a function below 1 MB is split into the high and the low half: the processor, which in real mode
  adds sixteen times the segment to the offset, finds the function only if it lies in the first 64 KB. And every call through
  the macro, with up to eleven arguments, reads one variable argument more than was passed.
\<close>

theorem realmode_calls:
  assumes "addr \<le> 0xFFFFF" and "args \<noteq> []" and "length args \<le> 11"
  shows "(16 * unat (func_cs (get_realmode_function_address addr)) + unat (func_address (get_realmode_function_address addr)) = unat addr \<longleftrightarrow>
      addr < 0x10000) \<and>
    call_real_mode_function pm32_to_pm16 args a = Inl Undefined"
proof
  have "16 * (unat addr div 65536) + unat addr mod 65536 = unat addr \<longleftrightarrow> unat addr div 65536 = 0"
    using div_mult_mod_eq [of "unat addr" 65536] by linarith
  then have "16 * (unat addr div 65536) + unat addr mod 65536 = unat addr \<longleftrightarrow> unat addr < 65536"
    by (simp only: div_eq_0_iff) simp
  then show "16 * unat (func_cs (get_realmode_function_address addr)) + unat (func_address (get_realmode_function_address addr)) = unat addr \<longleftrightarrow>
      addr < 0x10000"
    by (simp add: realmode_halves [OF assms(1)] word_less_nat_alt)
  obtain func rest where args: "args = func # rest" using assms(2) by (cases args) auto
  have "unat (of_nat (length args) :: u32) = length args" using assms(3) by (simp add: unat_of_nat)
  then show "call_real_mode_function pm32_to_pm16 args a = Inl Undefined"
    using assms(3) by (simp add: call_real_mode_function_def call_real_mode_function_with_argc_def args Let_def pass_args_short)
qed

theorem realmode_calls_witness:
  "16 * unat (func_cs (get_realmode_function_address 0x12345)) + unat (func_address (get_realmode_function_address 0x12345)) \<noteq> 0x12345 \<and>
   call_real_mode_function (\<lambda>a. (0, a)) [0x12345, 7] \<lparr>gdt_limit = 0, gdt_base = 0, a16_esp = 0, a16_ss = 0, a16_cs = 0, ret1 = 0, ret2 = 0,
     a16_func = 0, a16_func_cs = 0, a16_argc = 0, func_args = replicate 11 0\<rparr> = Inl Undefined"
  using realmode_calls [of "0x12345" "[0x12345, 7]" "\<lambda>a. (0, a)" "\<lparr>gdt_limit = 0, gdt_base = 0, a16_esp = 0, a16_ss = 0, a16_cs = 0, ret1 = 0, ret2 = 0,
     a16_func = 0, a16_func_cs = 0, a16_argc = 0, func_args = replicate 11 0\<rparr>"]
  by simp

end
