(* ===== verification/Spec2Isabelle.thy ===== *)
theory Spec2Isabelle
  imports Pic Irq_Routing Ps2_I8042 C_Strings_Correct Reentrant_Lock Virtual_Memory Gdt Keyboard_Handler Ps2_Boot Kprintf
    Core_Boot Mouse_Handler Keycodes Cpuid Symbols Real16
begin

text \<open>
  A verification development of the 32-bit protected-mode kernel of MapleKernel (\<open>src/src/ProtectedMode\<close>; all paths
  below are relative to it).

  \<^bold>\<open>The program.\<close> GRUB starts the kernel with a multiboot information block in memory. The kernel reads the
  ACPI tables from it, sets up a console (text memory and serial port), the interrupt descriptor table and the old
  interrupt controllers, then the newer ones (local and I/O APIC) from the firmware's table of interrupt
  controllers, gives every core its segments, wakes the other cores, and brings up the PS/2 controller with
  a keyboard and a mouse. From then on it is driven by interrupts: the keyboard handler decodes scan codes, reports
  keys to a layer of key codes and runs the functions tied to keys; the mouse handler moves a pointer and draws on the
  frame buffer; the timer handler ends timeouts. \<open>kprintf\<close> writes to the console from all of them, under a
  lock that all cores share.

  \<^bold>\<open>How the model reads the code.\<close> A C structure is a record, an enumeration a datatype (a word where the code casts
  arbitrary numbers to it), an unsigned integer a word of its width, a signed one an \<open>int\<close> with its overflow
  written out. Code that need not return normally has the type \<open>exec\<close>: \<open>Inl\<close> says why (a loop that never ends, an
  \<open>abort\<close> or failed assertion, an array access out of bounds, an operation C gives no meaning), \<open>Inr\<close> has the result.
  \<open>debug\<close> parameters stand for \<open>#ifdef DEBUG\<close>. Hardware is an arbitrary function of everything done to it so far: \<open>hw\<close> for
  ports, \<open>mhw\<close> for memory-mapped registers; a log, newest event first, is the state. Messages of \<open>kprintf\<close> in
  drivers are events of that log, with the format and the arguments; what printing them does, and when it returns, is the subject
  of \<open>Kprintf\<close>. What a driver is shown to do is therefore as far as its messages return; the port traffic of the PS/2 bring-up is also
  stated with any series of serial port accesses in the place of each message (\<open>with_serial\<close>). A variable that was never
  assigned is \<open>None\<close>: it may be copied, but nothing may depend on it. Global variables are records that the operations take and return. Addresses the linker or the stack frame chooses,
  the assembly code of interrupt stubs and of mode switches, and single instructions are parameters.

  \<^bold>\<open>Theories and sources.\<close>
  \<^item> \<open>Prelude\<close>: words, outcomes, the sequencing combinators and their laws, reachable states and the locale
    \<open>system_invariant\<close>. \<open>Memory\<close>: flat memory, blocks, strings. \<open>Port_IO\<close> (\<open>stdlib/intrinsics.h\<close>, \<open>io_wait.h\<close>) and \<open>Mmio\<close>
    (\<open>stdlib/special_pointers.hpp\<close>): device accesses. \<open>Table_Walk\<close>: the loop over variable-length records and
    the locale \<open>record_table\<close>. \<open>Single_Float\<close>: single-precision rounding.
  \<^item> \<open>C_Strings\<close>, \<open>C_Strings_Correct\<close> (\<open>stdio/string_helper.c\<close>, \<open>stdlib/string.c\<close>, \<open>stdlib/stdlib.c\<close>): number conversion, comparison,
    search, block operations.
  \<^item> \<open>Vga_Terminal\<close>, \<open>Terminal_Print\<close>, \<open>Kprintf\<close> (\<open>stdio/vga_terminal.c\<close>, \<open>bit_hex_string.c\<close>, \<open>stdio.c\<close>): the console, numbers on it,
    formatted printing with its lock.
  \<^item> \<open>Pic\<close> (\<open>cpu/pic\<close>), \<open>Idt\<close> (\<open>cpu/idt\<close>), \<open>Gdt\<close>, \<open>Multicore_Gdt\<close> (\<open>cpu/gdt\<close>), \<open>Cpuid\<close> (\<open>cpu/cpuid\<close>), \<open>Lapic\<close>, \<open>Core_Boot\<close>
    (\<open>cpu/apic\<close>), \<open>Io_Apic\<close> (\<open>cpu/apic_io\<close>), \<open>Irq_Routing\<close> (the routing part of \<open>kernel/cpp/kernel_cpp.cpp\<close>),
    \<open>Reentrant_Lock\<close> (\<open>cpu/multicore/multicore.c\<close>), \<open>Real16\<close> (\<open>real16_wrappers\<close>).
  \<^item> \<open>Multiboot\<close>, \<open>Acpi\<close>, \<open>Madt\<close> (\<open>firmware\<close>): tables left by the boot loader and the firmware.
  \<^item> \<open>Virtual_Memory\<close> (\<open>other/virtual_memory.c\<close>): page bitmap, page tables, \<open>kmalloc\<close>. \<open>Symbols\<close> (\<open>kernel/symbols.c\<close>).
  \<^item> \<open>Pit\<close> (\<open>timers/pit\<close>): the interval timer and its interrupt handler.
  \<^item> \<open>Ps2_Types\<close>, \<open>Ps2_Controller\<close>, \<open>Ps2_Protocol\<close>, \<open>Ps2_Setup\<close>, \<open>Ps2_I8042\<close> (\<open>drivers/ps2/controller\<close>), \<open>Scancodes\<close>, \<open>Ps2_Keyboard\<close>,
    \<open>Keyboard_Handler\<close>, \<open>Keycodes\<close> (\<open>drivers/ps2/keyboard\<close>), \<open>Framebuffer\<close> (\<open>framebuffer\<close>), \<open>Mouse_Handler\<close> (\<open>drivers/ps2/mouse\<close>),
    \<open>Ps2_Boot\<close> (\<open>drivers/ps2/ps2.c\<close>), which composes them with \<open>Idt\<close> and \<open>Pic\<close>.
  \<^item> This theory: from the firmware's table in memory, through the parser and the routing, to the registers of the I/O APIC.

  \<^bold>\<open>What is shown.\<close>
  \<^item> Against abstract specifications: the bring-up of the PS/2 controller works on the documented 8042 machine (\<open>Ps2_I8042\<close>); the
    interrupt controllers end up programmed as the 8259A and I/O APIC data sheets say (\<open>Pic\<close>, \<open>Ps2_Boot\<close>, and the theorem below);
    the lock refines a lock with one owner and a count, for any number of cores in any interleaving (\<open>Reentrant_Lock\<close>); the
    keyboard handler refines a handler that is told keys instead of bytes (\<open>Keyboard_Handler\<close>).
  \<^item> Invariants of reachable states: the interrupt table (\<open>Idt\<close>), the timer (\<open>Pit\<close>), the lock; of the port log: commands are only sent when
    the controller has room (\<open>Ps2_Protocol\<close>, \<open>Ps2_Setup\<close>); of the console: no session leaves its buffers (\<open>Vga_Terminal\<close>).
  \<^item> Functional results on every branch: which table, tag, page run, symbol or processor entry a search finds; what a format string
    prints; which device is identified; the segments and selectors of every core; the order of the interrupts that wake
    a core; where the mouse pointer goes and which pixels a line has; which key code and character a scan code stands for.
  \<^item> Round trips: numbers and their texts, pages allocated and freed, names and addresses of symbols, bit-field structures and their words.
  \<^item> Termination: loops over memory, bitmaps and tables are total functions or are shown to return (\<open>draw_line_quick_draws\<close>,
    \<open>pit_wait_returns\<close>, \<open>terminal_writestring_sends\<close>). Where the code does not return, or not with the right
    result, that is a theorem too: a tag of size 0, a core that does not boot, timeouts that are too short, the
    limit of basic processor functions.

  \<^bold>\<open>Interfaces.\<close> \<open>system_invariant\<close> (interpreted for \<open>Idt\<close>, \<open>Pit\<close>, \<open>Reentrant_Lock\<close>), \<open>record_table\<close> (for \<open>Multiboot\<close> and \<open>Madt\<close>),
  \<open>ps2_poll_invariant\<close>, \<open>ps2_write_invariant\<close> and \<open>ps2_log_invariant\<close> (for the handshake, the ports used, the growth of the log,
  the bytes read, the interrupt controllers), \<open>console_command\<close> (for every operation of a console session),
  \<open>page_allocator\<close>, \<open>accessor\<close> (for the fields of a segment descriptor), \<open>assignment_table\<close> (for the tables of key codes).

  \<^bold>\<open>Interrupts and cores.\<close> The interrupt flag is part of the state of the timer (\<open>Pit\<close>) and a function of the log where a core is woken
  (\<open>Core_Boot\<close>). A call of an operation is one step as far as handlers are concerned: an interrupt between the two assignments of
  \<open>short_timeout_async\<close> that announce a new timeout is not represented. The lock is modelled at the grain of single
  loads and compare-and-swaps. The simple spin lock around sending an interprocessor interrupt is an event that always
  succeeds; waiting for it for ever is not represented. The gates of the interrupt table are set by any sequence of the
  kernel's set-ups (exceptions, PS/2 devices, timer), of single descriptors of the one kind it uses, and of enabling and
  disabling.

  \<^bold>\<open>Bounds.\<close> Polls of the PS/2 controller give up after \<open>MAX_PS2_WAIT_LOOP\<close> looks and waits for an interprocessor interrupt after
  \<open>TIMEOUT_IPI_PENDING\<close>, as in the code. Loops that the code does not bound (the serial port, strings without an end, waits for another core or the
  timer, the line algorithm) are partial functions into \<open>option\<close> whose value is \<open>None\<close> when they never end; no fuel is
  used. Floating-point seconds are rationals rounded to 24 bits with unbounded exponents; the values the kernel uses are
  far from the limits. Memory order between cores is sequential consistency on the one lock word.

  \<^bold>\<open>Not modelled.\<close> Assembly (interrupt stubs, boot code, the mode switch); single-instruction wrappers (control
  registers, model-specific registers, the floating point unit); floating-point printing and \<open>draw_line\<close>, which are written with
  \<open>double\<close> and \<open>sqrt\<close>; the calibration of the APIC timer and the duplicate fast path of the interval timer; the array printers that
  pause on the timer; functions that only print what was parsed (\<open>print_parsed_madt\<close>, segment flags as text, the inspection of boot
  modules); \<open>kernel.c\<close> and \<open>kernel_helper.c\<close>, which call the components in turn; task state segments and other headers that no
  file includes; the 64-bit kernel, the tutorials and the developer tools, which are other programs.
\<close>

section \<open>Properties that span components\<close>



end
